(* ===== verification/Prelude.thy ===== *)
theory Prelude
  imports Complex_Main "HOL-Library.AList" "HOL-Library.Product_Lexorder" "HOL-Library.List_Lexorder"
    "HOL-Library.Multiset"
begin

text \<open>
  Shared ground of the development: the collections of rewrite rules, Python's \<open>sorted\<close>,
  \<open>min\<close> and \<open>max\<close> with a key, dictionaries as association lists in insertion order, and the
  generic facts on lists and association lists every component uses.
\<close>

named_theorems fold_defs \<open>definitions of event handlers and their helpers\<close>
named_theorems coerce_defs \<open>definitions of the coercions of untyped payload values\<close>
named_theorems state_defs \<open>definitions of the queries on the folded state\<close>

section \<open>Python's sorted, min and max with a key\<close>

text \<open>
  \<open>sorted(xs, key=k, reverse=r)\<close> is stable, and stays stable when reversed; \<open>min\<close> and
  \<open>max\<close> return the first extremal element and raise on an empty input (\<open>None\<close> here).
\<close>

definition py_sorted :: "bool \<Rightarrow> ('a \<Rightarrow> 'k::linorder) \<Rightarrow> 'a list \<Rightarrow> 'a list" where
  "py_sorted reverse key xs =
     (if reverse then rev (sort_key key (rev xs)) else sort_key key xs)"

definition py_min_by :: "('a \<Rightarrow> 'k::linorder) \<Rightarrow> 'a list \<Rightarrow> 'a option" where
  "py_min_by key xs = (case xs of [] \<Rightarrow> None
     | x # ys \<Rightarrow> Some (foldl (\<lambda>b y. if key y < key b then y else b) x ys))"

definition py_max_by :: "('a \<Rightarrow> 'k::linorder) \<Rightarrow> 'a list \<Rightarrow> 'a option" where
  "py_max_by key xs = (case xs of [] \<Rightarrow> None
     | x # ys \<Rightarrow> Some (foldl (\<lambda>b y. if key b < key y then y else b) x ys))"

lemma mset_py_sorted [simp]: "mset (py_sorted r key xs) = mset xs"
  by (simp add: py_sorted_def)

lemma set_py_sorted [simp]: "set (py_sorted r key xs) = set xs"
  by (simp add: py_sorted_def)

lemma length_py_sorted [simp]: "length (py_sorted r key xs) = length xs"
  by (simp add: py_sorted_def)

lemma py_sorted_Nil_iff [simp]: "py_sorted r key xs = [] \<longleftrightarrow> xs = []"
  by (metis length_0_conv length_py_sorted)

lemma distinct_map_py_sorted [simp]: "distinct (map f (py_sorted r key xs)) = distinct (map f xs)"
  by (metis mset_map mset_py_sorted mset_eq_imp_distinct_iff)

lemma distinct_py_sorted [simp]: "distinct (py_sorted r key xs) = distinct xs"
  by (metis mset_py_sorted mset_eq_imp_distinct_iff)

lemma sorted_wrt_py_sorted:
  "sorted_wrt (\<lambda>x y. if r then key y \<le> key x else key x \<le> key y) (py_sorted r key xs)"
proof (cases r)
  case True
  have "sorted (map key (sort_key key (rev xs)))" by simp
  then have "sorted_wrt (\<lambda>x y. key x \<le> key y) (sort_key key (rev xs))"
    by (simp add: sorted_map)
  then show ?thesis using True by (simp add: py_sorted_def sorted_wrt_rev)
next
  case False
  have "sorted (map key (sort_key key xs))" by simp
  then show ?thesis using False by (simp add: py_sorted_def sorted_map)
qed

lemma hd_py_sorted_best:
  assumes "xs \<noteq> []" and "y \<in> set xs"
  shows "if r then key y \<le> key (hd (py_sorted r key xs)) else key (hd (py_sorted r key xs)) \<le> key y"
proof -
  obtain z zs where zs: "py_sorted r key xs = z # zs"
    using assms(1) by (metis list.exhaust py_sorted_Nil_iff)
  have "y \<in> set (z # zs)" using assms(2) zs by (metis set_py_sorted)
  then show ?thesis
    using sorted_wrt_py_sorted [of r key xs] zs by auto
qed

lemma hd_py_sorted_in: "xs \<noteq> [] \<Longrightarrow> hd (py_sorted r key xs) \<in> set xs"
  by (metis hd_in_set py_sorted_Nil_iff set_py_sorted)

lemma foldl_min_spec:
  "foldl (\<lambda>b y. if key y < key b then y else b) x ys \<in> set (x # ys) \<and>
   (\<forall>z \<in> set (x # ys). (key (foldl (\<lambda>b y. if key y < key b then y else b) x ys) :: 'k::linorder) \<le> key z)"
proof (induction ys arbitrary: x)
  case Nil
  then show ?case by simp
next
  case (Cons y ys)
  show ?case
    using Cons.IH [of "if key y < key x then y else x"]
    by (auto split: if_splits)
qed

lemma foldl_max_spec:
  "foldl (\<lambda>b y. if key b < key y then y else b) x ys \<in> set (x # ys) \<and>
   (\<forall>z \<in> set (x # ys). key z \<le> (key (foldl (\<lambda>b y. if key b < key y then y else b) x ys) :: 'k::linorder))"
proof (induction ys arbitrary: x)
  case Nil
  then show ?case by simp
next
  case (Cons y ys)
  show ?case
    using Cons.IH [of "if key x < key y then y else x"]
    by (auto split: if_splits)
qed

lemma py_min_by_None [simp]: "py_min_by key xs = None \<longleftrightarrow> xs = []"
  by (simp add: py_min_by_def split: list.splits)

lemma py_max_by_None [simp]: "py_max_by key xs = None \<longleftrightarrow> xs = []"
  by (simp add: py_max_by_def split: list.splits)

lemma py_min_by_Some:
  assumes "py_min_by key xs = Some x"
  shows "x \<in> set xs" and "z \<in> set xs \<Longrightarrow> key x \<le> key z"
  using assms foldl_min_spec [of key] by (auto simp: py_min_by_def split: list.splits)

lemma py_max_by_Some:
  assumes "py_max_by key xs = Some x"
  shows "x \<in> set xs" and "z \<in> set xs \<Longrightarrow> key z \<le> key x"
  using assms foldl_max_spec [of key] by (auto simp: py_max_by_def split: list.splits)

section \<open>Dictionaries in insertion order\<close>

text \<open>
  A Python dictionary keeps its keys in insertion order, writes to an existing key in place and
  appends a new one: an association list under \<^const>\<open>map_of\<close>, \<^const>\<open>AList.update\<close> and
  \<^const>\<open>AList.delete\<close>. The interface below is what the fold relies on.
\<close>

abbreviation dict_get :: "('k \<times> 'v) list \<Rightarrow> 'k \<Rightarrow> 'v option" where
  "dict_get \<equiv> map_of"

definition dict_keys :: "('k \<times> 'v) list \<Rightarrow> 'k list" where
  "dict_keys d = map fst d"

definition dict_values :: "('k \<times> 'v) list \<Rightarrow> 'v list" where
  "dict_values d = map snd d"

definition dict_put :: "'k \<Rightarrow> 'v \<Rightarrow> ('k \<times> 'v) list \<Rightarrow> ('k \<times> 'v) list" where
  "dict_put = AList.update"

definition dict_pop :: "'k \<Rightarrow> ('k \<times> 'v) list \<Rightarrow> ('k \<times> 'v) list" where
  "dict_pop = AList.delete"

definition dict_modify :: "'k \<Rightarrow> ('v \<Rightarrow> 'v) \<Rightarrow> ('k \<times> 'v) list \<Rightarrow> ('k \<times> 'v) list" where
  "dict_modify k f d = map (\<lambda>(k', v). (k', if k' = k then f v else v)) d"

definition dict_map_values :: "('v \<Rightarrow> 'v) \<Rightarrow> ('k \<times> 'v) list \<Rightarrow> ('k \<times> 'v) list" where
  "dict_map_values f d = map (\<lambda>(k, v). (k, f v)) d"

text \<open>Equality of two dictionaries ignores their order.\<close>

definition dict_eq :: "('k \<times> 'v) list \<Rightarrow> ('k \<times> 'v) list \<Rightarrow> bool" where
  "dict_eq x y \<longleftrightarrow> (\<forall>k \<in> set (map fst x @ map fst y). map_of x k = map_of y k)"

lemma dict_eq_iff: "dict_eq x y \<longleftrightarrow> map_of x = map_of y"
proof
  assume a: "dict_eq x y"
  show "map_of x = map_of y"
  proof
    fix k
    show "map_of x k = map_of y k"
    proof (cases "k \<in> fst ` set x \<union> fst ` set y")
      case True
      then show ?thesis using a by (auto simp: dict_eq_def)
    next
      case False
      then show ?thesis by (metis UnI1 UnI2 map_of_eq_None_iff)
    qed
  qed
qed (simp add: dict_eq_def)

lemma dict_keys_Nil [simp]: "dict_keys [] = []"
  by (simp add: dict_keys_def)

lemma dict_keys_modify [simp]: "dict_keys (dict_modify k f d) = dict_keys d"
  by (induction d) (auto simp: dict_keys_def dict_modify_def)

lemma dict_keys_map_values [simp]: "dict_keys (dict_map_values f d) = dict_keys d"
  by (induction d) (auto simp: dict_keys_def dict_map_values_def)

lemma dict_get_modify [simp]:
  "dict_get (dict_modify k f d) j = (if j = k then map_option f (dict_get d j) else dict_get d j)"
  by (induction d) (auto simp: dict_modify_def)

lemma dict_get_map_values [simp]:
  "dict_get (dict_map_values f d) j = map_option f (dict_get d j)"
  by (induction d) (auto simp: dict_map_values_def)

lemma dict_get_put [simp]: "dict_get (dict_put k v d) j = (if j = k then Some v else dict_get d j)"
  by (simp add: dict_put_def update_conv)

lemma dict_get_pop [simp]: "dict_get (dict_pop k d) j = (if j = k then None else dict_get d j)"
  by (simp add: dict_pop_def delete_conv)

lemma set_dict_keys_put: "set (dict_keys (dict_put k v d)) = insert k (set (dict_keys d))"
  by (induction d) (auto simp: dict_keys_def dict_put_def)

lemma distinct_dict_keys_put [simp]: "distinct (dict_keys d) \<Longrightarrow> distinct (dict_keys (dict_put k v d))"
  by (simp add: dict_keys_def dict_put_def distinct_update)

lemma distinct_dict_keys_pop [simp]: "distinct (dict_keys d) \<Longrightarrow> distinct (dict_keys (dict_pop k d))"
  by (simp add: dict_keys_def dict_pop_def distinct_delete)

lemma dict_get_iff_in_set: "distinct (dict_keys d) \<Longrightarrow> dict_get d k = Some v \<longleftrightarrow> (k, v) \<in> set d"
  by (simp add: dict_keys_def map_of_eq_Some_iff)

lemma dict_get_key: "dict_get d k = Some v \<Longrightarrow> k \<in> set (dict_keys d)"
  by (force simp: dict_keys_def dest: map_of_SomeD)

lemma dict_get_value: "dict_get d k = Some v \<Longrightarrow> v \<in> set (dict_values d)"
  by (force simp: dict_values_def dest: map_of_SomeD)

end
