(* ===== verification/PyValue.thy ===== *)
theory PyValue
  imports Prelude
begin

text \<open>
  The untyped values an event payload is made of, and the coercions the fold applies to them.
  A payload is decoded JSON: \<open>pyval\<close> has one constructor per Python type it can hold. Finite
  floats are reals: comparisons of IEEE doubles are exact in the reals, and the rounding of
  float arithmetic is not modelled. Strings are sequences of code points below 256.
\<close>

section \<open>Values\<close>

datatype pyfloat = Fin real | PosInf | NegInf | NaN

datatype pyval = PNone | PBool bool | PInt int | PFloat pyfloat | PStr string
  | PList "pyval list" | PDict "(string \<times> pyval) list"

type_synonym payload = "(string \<times> pyval) list"

text \<open>\<open>d.get(k)\<close>: a missing key reads as \<open>None\<close>; \<open>k in d\<close> tells the two apart.\<close>

definition pget :: "payload \<Rightarrow> string \<Rightarrow> pyval" where
  "pget d k = (case dict_get d k of None \<Rightarrow> PNone | Some v \<Rightarrow> v)"

definition phas :: "payload \<Rightarrow> string \<Rightarrow> bool" where
  "phas d k \<longleftrightarrow> dict_get d k \<noteq> None"

definition pget_or :: "payload \<Rightarrow> string \<Rightarrow> pyval \<Rightarrow> pyval" where
  "pget_or d k dflt = (case dict_get d k of None \<Rightarrow> dflt | Some v \<Rightarrow> v)"

fun truthy :: "pyval \<Rightarrow> bool" where
  "truthy PNone = False"
| "truthy (PBool b) = b"
| "truthy (PInt i) = (i \<noteq> 0)"
| "truthy (PFloat f) = (f \<noteq> Fin 0)"
| "truthy (PStr s) = (s \<noteq> [])"
| "truthy (PList xs) = (xs \<noteq> [])"
| "truthy (PDict d) = (d \<noteq> [])"

section \<open>Strings\<close>

definition is_space :: "char \<Rightarrow> bool" where
  "is_space c \<longleftrightarrow> (let n = (of_char c :: nat) in
     9 \<le> n \<and> n \<le> 13 \<or> 28 \<le> n \<and> n \<le> 32 \<or> n = 133 \<or> n = 160)"

definition py_strip :: "string \<Rightarrow> string" where
  "py_strip s = rev (dropWhile is_space (rev (dropWhile is_space s)))"

definition lower_char :: "char \<Rightarrow> char" where
  "lower_char c = (let n = (of_char c :: nat) in
     if 65 \<le> n \<and> n \<le> 90 \<or> 192 \<le> n \<and> n \<le> 222 \<and> n \<noteq> 215 then char_of (n + 32) else c)"

definition py_lower :: "string \<Rightarrow> string" where
  "py_lower s = map lower_char s"

definition py_startswith :: "string \<Rightarrow> string \<Rightarrow> bool" where
  "py_startswith s p \<longleftrightarrow> take (length p) s = p"

section \<open>Numbers\<close>

definition digit_of :: "char \<Rightarrow> int option" where
  "digit_of c = (let n = (of_char c :: nat) in
     if 48 \<le> n \<and> n \<le> 57 then Some (int n - 48) else None)"

text \<open>A run of digits with single underscores between digits, as Python's literals allow.\<close>

fun digits_tail :: "int \<Rightarrow> string \<Rightarrow> int option" where
  "digits_tail acc [] = Some acc"
| "digits_tail acc (c # cs) = (case digit_of c of
     Some v \<Rightarrow> digits_tail (10 * acc + v) cs
   | None \<Rightarrow> (if c = CHR ''_'' then (case cs of [] \<Rightarrow> None
       | c' # cs' \<Rightarrow> (case digit_of c' of None \<Rightarrow> None
           | Some v \<Rightarrow> digits_tail (10 * acc + v) cs')) else None))"

definition digits :: "string \<Rightarrow> int option" where
  "digits s = (case s of [] \<Rightarrow> None | c # cs \<Rightarrow>
     (case digit_of c of None \<Rightarrow> None | Some v \<Rightarrow> digits_tail v cs))"

definition signed :: "(string \<Rightarrow> 'a option) \<Rightarrow> ('a \<Rightarrow> 'a) \<Rightarrow> string \<Rightarrow> 'a option" where
  "signed p neg s = (case s of [] \<Rightarrow> None
     | c # cs \<Rightarrow> if c = CHR ''-'' then map_option neg (p cs)
                 else if c = CHR ''+'' then p cs else p s)"

definition max_str_digits :: nat where
  "max_str_digits = 4300"

text \<open>\<open>int(s)\<close> on a string: surrounding blanks, an optional sign, digits; \<open>None\<close> is
  \<open>ValueError\<close>, which also refuses more than 4300 digits.\<close>

definition int_of_str :: "string \<Rightarrow> int option" where
  "int_of_str s = (let t = py_strip s in
     if max_str_digits < length (filter (\<lambda>c. digit_of c \<noteq> None) t) then None
     else signed digits uminus t)"

text \<open>The largest magnitude \<open>float(i)\<close> can represent: from halfway above the largest double
  the conversion raises \<open>OverflowError\<close>.\<close>

definition float_fits :: "int \<Rightarrow> bool" where
  "float_fits i \<longleftrightarrow> \<bar>i\<bar> < 2 ^ 1024 - 2 ^ 970"

text \<open>\<open>float(s)\<close> on a string: \<open>inf\<close>, \<open>infinity\<close>, \<open>nan\<close>, or a decimal literal with an
  optional fraction and exponent.\<close>

fun split_at_char :: "(char \<Rightarrow> bool) \<Rightarrow> string \<Rightarrow> string \<times> string option" where
  "split_at_char p [] = ([], None)"
| "split_at_char p (c # cs) = (if p c then ([], Some cs)
     else (let (a, b) = split_at_char p cs in (c # a, b)))"

definition digit_count :: "string \<Rightarrow> nat" where
  "digit_count s = length (filter (\<lambda>c. digit_of c \<noteq> None) s)"

definition ten_to :: "int \<Rightarrow> real" where
  "ten_to e = (if 0 \<le> e then 10 ^ nat e else 1 / 10 ^ nat (- e))"

definition mantissa :: "string \<Rightarrow> real option" where
  "mantissa s = (case split_at_char (\<lambda>c. c = CHR ''.'') s of
     (a, None) \<Rightarrow> map_option real_of_int (digits a)
   | (a, Some b) \<Rightarrow>
       (if a = [] \<and> b = [] then None
        else if b = [] then map_option real_of_int (digits a)
        else if a = [] then map_option (\<lambda>f. real_of_int f / 10 ^ digit_count b) (digits b)
        else (case (digits a, digits b) of
               (Some i, Some f) \<Rightarrow> Some (real_of_int i + real_of_int f / 10 ^ digit_count b)
             | _ \<Rightarrow> None)))"

definition real_to_float :: "real \<Rightarrow> pyfloat" where
  "real_to_float r = (if r \<ge> 2 ^ 1024 - 2 ^ 970 then PosInf
     else if r \<le> - (2 ^ 1024 - 2 ^ 970) then NegInf else Fin r)"

definition unsigned_float :: "string \<Rightarrow> pyfloat option" where
  "unsigned_float s = (let t = py_lower s in
     if t = ''inf'' \<or> t = ''infinity'' then Some PosInf
     else if t = ''nan'' then Some NaN
     else (case split_at_char (\<lambda>c. c = CHR ''e'') t of
         (m, None) \<Rightarrow> map_option real_to_float (mantissa m)
       | (m, Some e) \<Rightarrow> (case (mantissa m, signed digits uminus e) of
           (Some r, Some x) \<Rightarrow> Some (real_to_float (r * ten_to x))
         | _ \<Rightarrow> None)))"

fun neg_float :: "pyfloat \<Rightarrow> pyfloat" where
  "neg_float (Fin r) = Fin (- r)"
| "neg_float PosInf = NegInf"
| "neg_float NegInf = PosInf"
| "neg_float NaN = NaN"

definition float_of_str :: "string \<Rightarrow> pyfloat option" where
  "float_of_str s = signed unsigned_float neg_float (py_strip s)"

text \<open>\<open>float(v)\<close>; \<open>None\<close> is \<open>TypeError\<close>, \<open>ValueError\<close> or \<open>OverflowError\<close>.\<close>

fun py_float :: "pyval \<Rightarrow> pyfloat option" where
  "py_float (PBool b) = Some (Fin (if b then 1 else 0))"
| "py_float (PInt i) = (if float_fits i then Some (Fin (real_of_int i)) else None)"
| "py_float (PFloat f) = Some f"
| "py_float (PStr s) = float_of_str s"
| "py_float PNone = None"
| "py_float (PList xs) = None"
| "py_float (PDict d) = None"

text \<open>\<open>int(v)\<close>, truncating a float towards zero; \<open>None\<close> is an exception.\<close>

definition trunc_real :: "real \<Rightarrow> int" where
  "trunc_real r = (if 0 \<le> r then \<lfloor>r\<rfloor> else \<lceil>r\<rceil>)"

fun py_int :: "pyval \<Rightarrow> int option" where
  "py_int (PBool b) = Some (if b then 1 else 0)"
| "py_int (PInt i) = Some i"
| "py_int (PFloat (Fin r)) = Some (trunc_real r)"
| "py_int (PStr s) = int_of_str s"
| "py_int _ = None"

definition is_integer :: "real \<Rightarrow> bool" where
  "is_integer r \<longleftrightarrow> real_of_int \<lfloor>r\<rfloor> = r"

text \<open>\<open>str(v)\<close> where the fold stores or compares it. The rendering of floats, lists and
  dictionaries is a placeholder that equals no string the code compares with.\<close>

fun digit_char :: "nat \<Rightarrow> char" where
  "digit_char n = char_of (48 + n)"

fun str_of_nat :: "nat \<Rightarrow> string" where
  "str_of_nat n = (if n < 10 then [digit_char n] else str_of_nat (n div 10) @ [digit_char (n mod 10)])"

declare str_of_nat.simps [simp del]

definition str_of_int :: "int \<Rightarrow> string" where
  "str_of_int i = (if i < 0 then CHR ''-'' # str_of_nat (nat (- i)) else str_of_nat (nat i))"

fun py_str :: "pyval \<Rightarrow> string" where
  "py_str PNone = ''None''"
| "py_str (PBool b) = (if b then ''True'' else ''False'')"
| "py_str (PInt i) = str_of_int i"
| "py_str (PFloat f) = ''<float>''"
| "py_str (PStr s) = s"
| "py_str (PList xs) = ''<list>''"
| "py_str (PDict d) = ''<dict>''"

section \<open>Typed readings of a payload field\<close>

fun as_str :: "pyval \<Rightarrow> string option" where
  "as_str (PStr s) = Some s"
| "as_str _ = None"

fun as_int :: "pyval \<Rightarrow> int option" where
  "as_int (PInt i) = Some i"
| "as_int _ = None"

fun as_list :: "pyval \<Rightarrow> pyval list option" where
  "as_list (PList xs) = Some xs"
| "as_list _ = None"

fun as_dict :: "pyval \<Rightarrow> payload option" where
  "as_dict (PDict d) = Some d"
| "as_dict _ = None"

definition is_true :: "pyval \<Rightarrow> bool" where
  "is_true v \<longleftrightarrow> v = PBool True"

lemmas payload_defs = pget_def phas_def pget_or_def

declare payload_defs [coerce_defs]

lemma pget_Nil [simp]: "pget [] k = PNone"
  by (simp add: pget_def)

lemma pget_Cons [simp]: "pget ((k', v) # d) k = (if k = k' then v else pget d k)"
  by (simp add: pget_def)

lemma phas_Nil [simp]: "\<not> phas [] k"
  by (simp add: phas_def)

lemma phas_Cons [simp]: "phas ((k', v) # d) k \<longleftrightarrow> k = k' \<or> phas d k"
  by (simp add: phas_def)

lemma pget_or_Nil [simp]: "pget_or [] k v = v"
  by (simp add: pget_or_def)

lemma pget_or_Cons [simp]: "pget_or ((k', w) # d) k v = (if k = k' then w else pget_or d k v)"
  by (simp add: pget_or_def)

section \<open>The dictionary interface\<close>

text \<open>
  What the readers of an untyped map rely on: reading after writing, and that a key keeps its
  first position. \<open>from_entries\<close> is the loop \<open>out[k] = v\<close> over a list of pairs.
\<close>

locale ordered_dict =
  fixes get :: "'d \<Rightarrow> 'k \<Rightarrow> 'v option"
    and put :: "'k \<Rightarrow> 'v \<Rightarrow> 'd \<Rightarrow> 'd"
    and keys :: "'d \<Rightarrow> 'k list"
    and empty :: 'd
  assumes get_empty: "get empty k = None"
    and get_put: "get (put k v d) j = (if j = k then Some v else get d j)"
    and keys_empty: "keys empty = []"
    and keys_put: "keys (put k v d) = (if k \<in> set (keys d) then keys d else keys d @ [k])"
begin

definition from_entries :: "('k \<times> 'v) list \<Rightarrow> 'd" where
  "from_entries es = foldl (\<lambda>d (k, v). put k v d) empty es"

lemma get_foldl_put: "get (foldl (\<lambda>d (k, v). put k v d) d es) j =
    (case map_of (rev es) j of Some v \<Rightarrow> Some v | None \<Rightarrow> get d j)"
  by (induction es arbitrary: d) (auto simp: get_put map_add_def split: option.splits)

lemma get_from_entries: "get (from_entries es) j = map_of (rev es) j"
  by (simp add: from_entries_def get_foldl_put get_empty split: option.splits)

lemma distinct_foldl_put: "distinct (keys d) \<Longrightarrow> distinct (keys (foldl (\<lambda>d (k, v). put k v d) d es))"
  by (induction es arbitrary: d) (auto simp: keys_put)

lemma distinct_from_entries: "distinct (keys (from_entries es))"
  by (simp add: from_entries_def distinct_foldl_put keys_empty)

lemma set_keys_foldl_put:
  "set (keys (foldl (\<lambda>d (k, v). put k v d) d es)) = set (keys d) \<union> fst ` set es"
  by (induction es arbitrary: d) (auto simp: keys_put split: if_splits)

lemma set_keys_from_entries: "set (keys (from_entries es)) = fst ` set es"
  by (simp add: from_entries_def set_keys_foldl_put keys_empty)

end

lemma dict_keys_put: "dict_keys (dict_put k v d) = (if k \<in> set (dict_keys d) then dict_keys d else dict_keys d @ [k])"
  by (simp add: dict_keys_def dict_put_def update_keys)

interpretation alist: ordered_dict dict_get dict_put dict_keys "[] :: ('k \<times> 'v) list"
  by unfold_locales (simp_all add: dict_keys_put)

text \<open>The dictionary a comprehension or an \<open>out[k] = v\<close> loop builds, later values winning.\<close>

definition dict_of :: "('k \<times> 'v) list \<Rightarrow> ('k \<times> 'v) list" where
  "dict_of es = foldl (\<lambda>d (k, v). dict_put k v d) [] es"

lemma dict_of_eq: "dict_of es = alist.from_entries es"
  by (simp add: dict_of_def alist.from_entries_def)

lemma dict_get_dict_of: "dict_get (dict_of es) k = map_of (rev es) k"
  by (simp add: dict_of_eq alist.get_from_entries)

lemma distinct_dict_of: "distinct (dict_keys (dict_of es))"
  by (simp add: dict_of_eq alist.distinct_from_entries)

lemma set_dict_keys_dict_of: "set (dict_keys (dict_of es)) = fst ` set es"
  by (simp add: dict_of_eq alist.set_keys_from_entries)

end
