(* ===== verification/Metrics.thy ===== *)
theory Metrics
  imports PyValue
begin

text \<open>
  The scalar rules of \<open>looplab/core/fitness.py\<close>: which recorded values may be ordered at all,
  the direction-aware comparator, and the one-standard-error rules the confirm gate, the
  verifier tie band and the simplification rule share.
\<close>

section \<open>Usable metrics and the comparator\<close>

text \<open>The run's direction: the fold admits only these two values.\<close>

datatype direction = Min | Max

definition is_usable_metric :: "pyval \<Rightarrow> bool" where
  "is_usable_metric v = (case v of
       PInt i \<Rightarrow> float_fits i
     | PFloat f \<Rightarrow> (case f of Fin r \<Rightarrow> True | _ \<Rightarrow> False)
     | _ \<Rightarrow> False)"

definition finite_or_absent_metric :: "pyval \<Rightarrow> bool" where
  "finite_or_absent_metric v \<longleftrightarrow> v = PNone \<or> is_usable_metric v"

fun number_value :: "pyval \<Rightarrow> real" where
  "number_value (PInt i) = real_of_int i"
| "number_value (PFloat (Fin r)) = r"
| "number_value _ = 0"

definition finite_metric :: "pyval \<Rightarrow> real option" where
  "finite_metric v = (if is_usable_metric v then Some (number_value v) else None)"

fun is_better :: "direction \<Rightarrow> real \<Rightarrow> real \<Rightarrow> bool" where
  "is_better Min a b = (a < b)"
| "is_better Max a b = (b < a)"

section \<open>One standard error\<close>

text \<open>The inner \<open>_se\<close>: a spread counts only when it is a positive number over two or more
  repeats.\<close>

definition se_part :: "real option \<Rightarrow> int option \<Rightarrow> real" where
  "se_part spread cnt = (case (spread, cnt) of
       (Some v, Some c) \<Rightarrow> (if v \<le> 0 \<or> c \<le> 1 then 0 else v / sqrt (real_of_int c))
     | _ \<Rightarrow> 0)"

definition standard_error_difference ::
  "real option \<Rightarrow> int option \<Rightarrow> real option \<Rightarrow> int option \<Rightarrow> real" where
  "standard_error_difference std n incumbent_std incumbent_n =
     (let a = se_part std n; b = se_part incumbent_std incumbent_n in sqrt (a * a + b * b))"

definition one_se_better ::
  "real \<Rightarrow> real \<Rightarrow> real option \<Rightarrow> int option \<Rightarrow> direction \<Rightarrow> real option \<Rightarrow> int option \<Rightarrow> bool" where
  "one_se_better candidate incumbent std n dir incumbent_std incumbent_n =
     (let se = standard_error_difference std n incumbent_std incumbent_n in
      if se \<le> 0 then (case dir of Min \<Rightarrow> candidate < incumbent | Max \<Rightarrow> incumbent < candidate)
      else (case dir of Min \<Rightarrow> candidate < incumbent - se | Max \<Rightarrow> incumbent + se < candidate))"

definition one_se_non_inferior ::
  "real \<Rightarrow> real \<Rightarrow> real option \<Rightarrow> int option \<Rightarrow> direction \<Rightarrow> real option \<Rightarrow> int option \<Rightarrow> bool" where
  "one_se_non_inferior candidate incumbent std n dir incumbent_std incumbent_n =
     (let se = min (standard_error_difference std n incumbent_std incumbent_n)
                   (standard_error_difference incumbent_std incumbent_n (Some 0) (Some 0)) in
      (case dir of Min \<Rightarrow> candidate \<le> incumbent + se | Max \<Rightarrow> incumbent - se \<le> candidate))"

lemma is_usable_simps [simp]:
  "\<not> is_usable_metric PNone" "\<not> is_usable_metric (PBool b)" "\<not> is_usable_metric (PStr s)"
  "\<not> is_usable_metric (PList xs)" "\<not> is_usable_metric (PDict d)"
  "is_usable_metric (PFloat (Fin r))"
  "\<not> is_usable_metric (PFloat PosInf)" "\<not> is_usable_metric (PFloat NegInf)"
  "\<not> is_usable_metric (PFloat NaN)" "is_usable_metric (PInt i) = float_fits i"
  by (simp_all add: is_usable_metric_def)

lemma finite_metric_simps [simp]:
  "finite_metric PNone = None" "finite_metric (PFloat (Fin r)) = Some r"
  "finite_metric (PFloat PosInf) = None" "finite_metric (PFloat NegInf) = None"
  "finite_metric (PFloat NaN) = None" "finite_metric (PBool b) = None"
  by (simp_all add: finite_metric_def)

lemma finite_metric_Some_iff: "(\<exists>r. finite_metric v = Some r) \<longleftrightarrow> is_usable_metric v"
  by (simp add: finite_metric_def)

lemma se_part_nonneg [simp]: "0 \<le> se_part v n"
  by (simp add: se_part_def split: option.splits)

lemma se_part_zero [simp]: "se_part (Some 0) n = 0"
  by (simp add: se_part_def split: option.splits)

lemma sed_nonneg [simp]: "0 \<le> standard_error_difference s n s' n'"
  by (simp add: standard_error_difference_def Let_def)

lemma sed_sym: "standard_error_difference s n s' n' = standard_error_difference s' n' s n"
  by (simp add: standard_error_difference_def Let_def add.commute)

lemma sed_alone [simp]: "standard_error_difference s n (Some 0) (Some 0) = se_part s n"
  by (simp add: standard_error_difference_def Let_def)

lemma se_part_le_sed: "se_part s' n' \<le> standard_error_difference s n s' n'"
  by (simp add: standard_error_difference_def Let_def real_le_rsqrt power2_eq_square)

lemmas one_se_defs = one_se_better_def one_se_non_inferior_def

text \<open>The cap leaves exactly the incumbent's own standard error, whatever the candidate's.\<close>

lemma one_se_non_inferior_eq:
  "one_se_non_inferior c i s n dir s' n' =
     (case dir of Min \<Rightarrow> c \<le> i + se_part s' n' | Max \<Rightarrow> i - se_part s' n' \<le> c)"
  using se_part_le_sed [of s' n' s n]
  by (simp add: one_se_non_inferior_def min_absorb2 Let_def)

lemma one_se_better_imp_better: "one_se_better c i s n dir s' n' \<Longrightarrow> is_better dir c i"
  using sed_nonneg [of s n s' n']
  by (cases dir) (auto simp: one_se_better_def Let_def split: if_splits simp del: sed_nonneg)

lemma one_se_better_irrefl [simp]: "\<not> one_se_better c c s n dir s' n'"
  using one_se_better_imp_better [of c c s n dir s' n'] by (cases dir) auto

lemma one_se_better_asym: "one_se_better c i s n dir s' n' \<Longrightarrow> \<not> one_se_better i c s' n' dir s n"
  using one_se_better_imp_better [of c i s n dir s' n'] one_se_better_imp_better [of i c s' n' dir s n]
  by (cases dir) auto

lemma non_inferior_not_beaten:
  "one_se_non_inferior c i s n dir s' n' \<Longrightarrow> \<not> one_se_better i c s' n' dir s n"
  using se_part_le_sed [of s' n' s n] sed_nonneg [of s n s' n']
  by (cases dir)
     (auto simp: one_se_non_inferior_eq one_se_better_def Let_def sed_sym [of s' n'] split: if_splits)

lemma better_imp_non_inferior:
  "one_se_better c i s n dir s' n' \<Longrightarrow> one_se_non_inferior c i s n dir s' n'"
  using one_se_better_imp_better [of c i s n dir s' n'] se_part_nonneg [of s' n']
  by (cases dir) (auto simp: one_se_non_inferior_eq simp del: se_part_nonneg)

section \<open>Comparing without the square root\<close>

text \<open>The same comparisons on squares, which evaluate on concrete numbers.\<close>

definition se_square :: "real option \<Rightarrow> int option \<Rightarrow> real" where
  "se_square spread cnt = (case (spread, cnt) of
       (Some v, Some c) \<Rightarrow> (if v \<le> 0 \<or> c \<le> 1 then 0 else v * v / real_of_int c)
     | _ \<Rightarrow> 0)"

lemma se_part_square: "se_part v n * se_part v n = se_square v n"
  by (simp add: se_part_def se_square_def split: option.split)

lemma sed_sqrt: "standard_error_difference s n s' n' = sqrt (se_square s n + se_square s' n')"
  by (simp add: standard_error_difference_def Let_def se_part_square)

lemma se_square_nonneg [simp]: "0 \<le> se_square s n"
  by (metis se_part_square zero_le_square)

lemma gap_below_sqrt: "0 \<le> q \<Longrightarrow> (a < b - sqrt q) = (a < b \<and> q < (b - a) * (b - a))" for a b q :: real
  by (smt (verit, best) power2_eq_square real_sqrt_less_iff real_sqrt_ge_zero real_sqrt_abs)

lemma one_se_better_code [code]:
  "one_se_better candidate incumbent std n dir incumbent_std incumbent_n =
     (let q = se_square std n + se_square incumbent_std incumbent_n; gap = incumbent - candidate in
      (case dir of Min \<Rightarrow> candidate < incumbent | Max \<Rightarrow> incumbent < candidate)
      \<and> (q \<le> 0 \<or> q < gap * gap))"
  using gap_below_sqrt [of "se_square std n + se_square incumbent_std incumbent_n" candidate incumbent]
    gap_below_sqrt [of "se_square std n + se_square incumbent_std incumbent_n" incumbent candidate]
  by (cases dir) (auto simp: one_se_better_def Let_def sed_sqrt algebra_simps)

lemma within_sqrt: "0 \<le> q \<Longrightarrow> (\<bar>d\<bar> \<le> sqrt q) = (d * d \<le> q)" for d q :: real
  by (metis abs_le_square_iff abs_of_nonneg power2_eq_square real_sqrt_ge_zero real_sqrt_pow2)

lemma below_sqrt: "0 \<le> q \<Longrightarrow> (d \<le> sqrt q) = (d \<le> 0 \<or> d * d \<le> q)" for d q :: real
  using within_sqrt [of q d] real_sqrt_ge_zero [of q] by (cases "d \<le> 0") (linarith, simp)

lemma one_se_non_inferior_code [code]:
  "one_se_non_inferior candidate incumbent std n dir incumbent_std incumbent_n =
     (let gap = (case dir of Min \<Rightarrow> candidate - incumbent | Max \<Rightarrow> incumbent - candidate) in
      gap \<le> 0 \<or> gap * gap \<le> se_square incumbent_std incumbent_n)"
proof -
  have "se_part incumbent_std incumbent_n = sqrt (se_square incumbent_std incumbent_n)"
    using sed_sqrt [of incumbent_std incumbent_n "Some 0" "Some 0"] by (simp add: se_square_def split: option.splits)
  then show ?thesis
    using below_sqrt [of "se_square incumbent_std incumbent_n" "candidate - incumbent"]
      below_sqrt [of "se_square incumbent_std incumbent_n" "incumbent - candidate"]
    by (cases dir) (auto simp: one_se_non_inferior_eq Let_def)
qed

end
