(* ===== verification/Models.thy ===== *)
theory Models
  imports Metrics
begin

text \<open>
  The data of the run (\<open>looplab/core/models.py\<close>): the event envelope, the node of the search
  tree with its idea, the folded run state, the coercion of node ids and the queries the search
  and the fold ask of the state. Fields keep the source's names behind the prefixes \<open>e_\<close>,
  \<open>i_\<close>, \<open>n_\<close> and \<open>st_\<close>; a field the code stores unchecked from a payload is a \<^typ>\<open>pyval\<close>.
\<close>

section \<open>Events\<close>

record event =
  e_seq :: int
  e_ts :: real
  e_type :: string
  e_data :: payload

section \<open>Nodes\<close>

datatype node_status = Pending | Evaluated | Failed

record idea =
  i_operator :: string
  i_params :: "(string \<times> real) list"
  i_rationale :: string
  i_eval_profile :: "string option"
  i_eval_timeout :: "real option"
  i_theme :: "string option"
  i_concepts :: "string list"
  i_concept_mode :: "string option"
  i_concepts_added :: "string list"
  i_concepts_removed :: "string list"
  i_space :: "(string \<times> real list) list"
  i_hypothesis :: "string option"
  i_card_id :: "string option"
  i_parent_card_id :: "string option"
  i_open_questions :: "string list"
  i_question_concepts :: "string list list"
  i_node_kind :: "string option"
  i_uses :: "int list"

record node =
  n_id :: int
  n_parent_ids :: "int list"
  n_parent_generations :: "(string \<times> int) list"
  n_operator :: string
  n_idea :: idea
  n_code :: pyval
  n_files :: pyval
  n_deleted :: pyval
  n_tombstoned :: bool
  n_metric :: "real option"
  n_task_metric :: "real option"
  n_status :: node_status
  n_terminal_event_seq :: "int option"
  n_creation_event_seq :: "int option"
  n_error :: pyval
  n_error_reason :: string
  n_triage_rationale :: string
  n_stdout_tail :: pyval
  n_stderr_tail :: string
  n_resource_curve :: "(real \<times> real) list option"
  n_confirmed_mean :: "real option"
  n_confirmed_std :: "real option"
  n_confirmed_seeds :: "int option"
  n_confirmed_ruler :: "string option"
  n_holdout_metric :: "real option"
  n_generalization_gap :: "real option"
  n_self_metric :: "real option"
  n_self_report_gap :: "real option"
  n_verifier_score :: "real option"
  n_verifier_raw_score :: "(string \<times> real) option"
  n_eval_seconds :: pyval
  n_extra_metrics :: "(string \<times> real) list"
  n_extra_metrics_provenance :: "(string \<times> string) list"
  n_extra_metrics_direction :: "(string \<times> string) list"
  n_extra_metrics_backfill :: payload
  n_extra_metrics_omitted :: payload
  n_violations :: pyval
  n_feasible :: bool
  n_metric_provenance :: "payload option"
  n_activation :: "payload option"
  n_rerun_from :: "string option"
  n_stages :: "payload list"
  n_failed_stage :: pyval
  n_stage_attempts :: "payload list"
  n_repairs :: int
  n_rerun_stage :: pyval
  n_attempt :: int
  n_agent_report :: "payload option"
  n_trials :: "pyval list"
  n_origin :: pyval
  n_forked_from :: pyval
  n_kind :: "string option"
  n_job_role :: "string option"
  n_uses :: "int list"
  n_uses_attempts :: "(string \<times> int) list"
  n_research_origin :: pyval
  n_model_arm :: string
  n_simplified :: "payload option"
  n_simplified_cut :: "string option"
  n_value_prior :: "real option"
  n_footprint_finalized :: bool
  n_speculative :: bool
  n_card_build_generation :: "int option"
  n_never_evaluated :: bool
  n_eval_start_boundary :: bool
  n_protocol_version :: "int option"
  n_eval_started :: bool
  n_eval_activity_started :: bool
  n_eval_started_at :: "real option"

definition robust_metric :: "node \<Rightarrow> real option" where
  "robust_metric n = (case n_confirmed_mean n of Some m \<Rightarrow> Some m | None \<Rightarrow> n_metric n)"

section \<open>The folded run state\<close>

record run_state =
  st_run_id :: pyval
  st_run_uid :: string
  st_relocations :: "payload list"
  st_eval_parallel :: int
  st_llm_parallel :: int
  st_run_setup_done :: "string set"
  st_run_setup_open :: "string set"
  st_policy_scores :: "(int \<times> pyval) list"
  st_policy_chosen :: pyval
  st_policy_reason :: pyval
  st_report :: "event option"
  st_card_build_requests :: "(string \<times> int) list"
  st_card_builds_done :: nat
  st_card_builds_done_ahead :: "nat list"
  st_card_build_outcomes :: "string list"
  st_card_build_producer_failed :: "string list"
  st_card_build_producer_failed_reasons :: "(string \<times> string list) list"
  st_speculative_nodes :: "(int \<times> (string \<times> int)) list"
  st_eval_noise_floor :: "payload option"
  st_repair_ledger :: "payload list"
  st_repair_ledger_omitted :: payload
  st_goal :: pyval
  st_direction :: direction
  st_objective_key :: "string option"
  st_objective_history :: "payload list"
  st_setup_done :: bool
  st_setup_manifest :: string
  st_trust_gate :: string
  st_speculation_depth :: int
  st_speculation_depth_pinned :: int
  st_speculation_depth_settled :: "int option"
  st_eval_parallel_settled :: "int option"
  st_llm_parallel_settled :: "int option"
  st_holdout_select :: bool
  st_holdout_fraction :: "real option"
  st_select_verifier_tiebreak :: bool
  st_verifier_ci_tie :: bool
  st_select_verifier_samples :: int
  st_select_verifier_contract :: string
  st_nodes :: "(int \<times> node) list"
  st_current_failure_count :: int
  st_failure_spike_level :: int
  st_failure_spike_seq :: "int option"
  st_building :: "payload option"
  st_buildings :: "(int \<times> payload) list"
  st_best_node_id :: "int option"
  st_breed_excluded :: "int set"
  st_finished :: bool
  st_last_finish_seq :: int
  st_finalized_finish_seq :: int
  st_finalization_marker_seq :: "int option"
  st_host_grading :: pyval
  st_stop_reason :: pyval
  st_stop_detail :: "string option"
  st_confirmed_done :: bool
  st_confirm_certificate_node :: "int option"
  st_confirm_certificate_significant :: bool
  st_search_epoch :: int
  st_split_epoch :: int
  st_split_salt_disclosure :: bool
  st_last_resume_request_seq :: int
  st_last_resume_served_seq :: int
  st_last_resume_request_ts :: real
  st_last_resume_request_mode :: string
  st_last_resume_launch_seq :: int
  st_last_resume_launch_ts :: real
  st_awaiting_approval :: bool
  st_approved :: bool
  st_approval_subject :: "int option"
  st_approval_generation :: "int option"
  st_approval_request_seq :: "int option"
  st_approved_node_id :: "int option"
  st_proposed_spec :: "payload option"
  st_spec_approval_requested :: bool
  st_spec_approval_request_seq :: "int option"
  st_spec_confirmed :: bool
  st_drifts :: "payload list"
  st_total_eval_seconds :: real
  st_eval_seconds_by_kind :: "(string \<times> real) list"
  st_confirm_seed_results :: "(int \<times> (int \<times> real option) list) list"
  st_eval_noise_seed_results :: "(int \<times> (int \<times> real option) list) list"
  st_holdout_evaluated_ids :: "int list"
  st_holdout_epoch_aware :: bool
  st_holdout_partition_disclosed :: bool
  st_paused :: bool
  st_pause_node_id :: "int option"
  st_pause_generation :: "int option"
  st_pause_event_seq :: "int option"
  st_pause_reason :: "string option"
  st_pause_drain_builds :: bool
  st_stop_requested :: pyval
  st_last_stop_request_seq :: int
  st_aborted_nodes :: "int list"
  st_budget_overrides :: payload
  st_pending_hints :: "payload list"
  st_confirm_requests :: "int list"
  st_confirmed_forced :: "int list"
  st_confirm_request_generations :: "(int \<times> int) list"
  st_confirmed_forced_generations :: "(int \<times> int) list"
  st_ablate_requests :: "int list"
  st_ablate_request_generations :: "(int \<times> int) list"
  st_fork_requests :: "payload list"
  st_forks_done :: int
  st_inject_requests :: "payload list"
  st_injects_done :: int
  st_track_requests :: "payload list"
  st_tracks_done :: int
  st_lane_op_requests :: "payload list"
  st_lane_ops_done :: int
  st_promotions :: "payload list"
  st_champion :: "int option"
  st_ablations :: "payload list"
  st_pending_strategy :: pyval
  st_proxy_scores :: "(int \<times> pyval) list"
  st_proxy_skipped :: "int list"
  st_reward_hacks :: "payload list"
  st_foresight_selected :: "payload list"
  st_research_requests :: "payload list"
  st_hypothesis_ranking :: "payload option"

section \<open>The objects as constructed\<close>

text \<open>\<open>Idea(operator=...)\<close>, \<open>Node(id=..., operator=..., idea=...)\<close> and \<open>RunState()\<close> with every other
  field at its declared default.\<close>

definition default_idea :: "string \<Rightarrow> idea" where
  "default_idea oper =
     \<lparr>i_operator = oper, i_params = [], i_rationale = [], i_eval_profile = None,
      i_eval_timeout = None, i_theme = None, i_concepts = [], i_concept_mode = None,
      i_concepts_added = [], i_concepts_removed = [], i_space = [], i_hypothesis = None,
      i_card_id = None, i_parent_card_id = None, i_open_questions = [], i_question_concepts =
      [], i_node_kind = None, i_uses = []\<rparr>"

definition default_node :: "int \<Rightarrow> string \<Rightarrow> idea \<Rightarrow> node" where
  "default_node nid oper ide =
     \<lparr>n_id = nid, n_parent_ids = [], n_parent_generations = [], n_operator = oper, n_idea
      = ide, n_code = PStr [], n_files = PDict [], n_deleted = PList [], n_tombstoned = False,
      n_metric = None, n_task_metric = None, n_status = Pending, n_terminal_event_seq = None,
      n_creation_event_seq = None, n_error = PStr [], n_error_reason = [], n_triage_rationale =
      [], n_stdout_tail = PStr [], n_stderr_tail = [], n_resource_curve = None, n_confirmed_mean
      = None, n_confirmed_std = None, n_confirmed_seeds = None, n_confirmed_ruler = None,
      n_holdout_metric = None, n_generalization_gap = None, n_self_metric = None,
      n_self_report_gap = None, n_verifier_score = None, n_verifier_raw_score = None,
      n_eval_seconds = PNone, n_extra_metrics = [], n_extra_metrics_provenance = [],
      n_extra_metrics_direction = [], n_extra_metrics_backfill = [], n_extra_metrics_omitted =
      [], n_violations = PList [], n_feasible = True, n_metric_provenance = None, n_activation =
      None, n_rerun_from = None, n_stages = [], n_failed_stage = PNone, n_stage_attempts = [],
      n_repairs = 0, n_rerun_stage = PNone, n_attempt = 0, n_agent_report = None, n_trials = [],
      n_origin = PNone, n_forked_from = PNone, n_kind = None, n_job_role = None, n_uses = [],
      n_uses_attempts = [], n_research_origin = PNone, n_model_arm = [], n_simplified = None,
      n_simplified_cut = None, n_value_prior = None, n_footprint_finalized = False,
      n_speculative = False, n_card_build_generation = None, n_never_evaluated = False,
      n_eval_start_boundary = False, n_protocol_version = None, n_eval_started = False,
      n_eval_activity_started = False, n_eval_started_at = None\<rparr>"

definition init_state :: run_state where
  "init_state =
     \<lparr>st_run_id = PStr [], st_run_uid = [], st_relocations = [], st_eval_parallel = 0,
      st_llm_parallel = 0, st_run_setup_done = {}, st_run_setup_open = {}, st_policy_scores =
      [], st_policy_chosen = PNone, st_policy_reason = PStr [], st_report = None,
      st_card_build_requests = [], st_card_builds_done = 0, st_card_builds_done_ahead = [],
      st_card_build_outcomes = [], st_card_build_producer_failed = [],
      st_card_build_producer_failed_reasons = [], st_speculative_nodes = [], st_eval_noise_floor
      = None, st_repair_ledger = [], st_repair_ledger_omitted = [], st_goal = PStr [],
      st_direction = Min, st_objective_key = None, st_objective_history = [], st_setup_done =
      False, st_setup_manifest = [], st_trust_gate = ''audit'', st_speculation_depth = 0,
      st_speculation_depth_pinned = 0, st_speculation_depth_settled = None,
      st_eval_parallel_settled = None, st_llm_parallel_settled = None, st_holdout_select =
      False, st_holdout_fraction = None, st_select_verifier_tiebreak = False, st_verifier_ci_tie
      = False, st_select_verifier_samples = 3, st_select_verifier_contract = ''selection-
      criteria:v1'', st_nodes = [], st_current_failure_count = 0, st_failure_spike_level = 0,
      st_failure_spike_seq = None, st_building = None, st_buildings = [], st_best_node_id =
      None, st_breed_excluded = {}, st_finished = False, st_last_finish_seq = -1,
      st_finalized_finish_seq = -1, st_finalization_marker_seq = None, st_host_grading = PNone,
      st_stop_reason = PNone, st_stop_detail = None, st_confirmed_done = False,
      st_confirm_certificate_node = None, st_confirm_certificate_significant = True,
      st_search_epoch = 0, st_split_epoch = 0, st_split_salt_disclosure = False,
      st_last_resume_request_seq = 0, st_last_resume_served_seq = 0, st_last_resume_request_ts =
      0, st_last_resume_request_mode = ''resume'', st_last_resume_launch_seq = 0,
      st_last_resume_launch_ts = 0, st_awaiting_approval = False, st_approved = False,
      st_approval_subject = None, st_approval_generation = None, st_approval_request_seq = None,
      st_approved_node_id = None, st_proposed_spec = None, st_spec_approval_requested = False,
      st_spec_approval_request_seq = None, st_spec_confirmed = False, st_drifts = [],
      st_total_eval_seconds = 0, st_eval_seconds_by_kind = [], st_confirm_seed_results = [],
      st_eval_noise_seed_results = [], st_holdout_evaluated_ids = [], st_holdout_epoch_aware =
      False, st_holdout_partition_disclosed = False, st_paused = False, st_pause_node_id = None,
      st_pause_generation = None, st_pause_event_seq = None, st_pause_reason = None,
      st_pause_drain_builds = False, st_stop_requested = PNone, st_last_stop_request_seq = -1,
      st_aborted_nodes = [], st_budget_overrides = [], st_pending_hints = [],
      st_confirm_requests = [], st_confirmed_forced = [], st_confirm_request_generations = [],
      st_confirmed_forced_generations = [], st_ablate_requests = [],
      st_ablate_request_generations = [], st_fork_requests = [], st_forks_done = 0,
      st_inject_requests = [], st_injects_done = 0, st_track_requests = [], st_tracks_done = 0,
      st_lane_op_requests = [], st_lane_ops_done = 0, st_promotions = [], st_champion = None,
      st_ablations = [], st_pending_strategy = PNone, st_proxy_scores = [], st_proxy_skipped =
      [], st_reward_hacks = [], st_foresight_selected = [], st_research_requests = [],
      st_hypothesis_ranking = None\<rparr>"

section \<open>Coercions at the boundary\<close>

text \<open>\<open>coerce_node_id(d, key)\<close>: an int, an integral finite float, or a string \<open>int\<close> parses.\<close>

definition coerce_id :: "pyval \<Rightarrow> int option" where
  "coerce_id v = (case v of
       PInt i \<Rightarrow> Some i
     | PFloat f \<Rightarrow> (case f of Fin r \<Rightarrow> if is_integer r then Some (trunc_real r) else None | _ \<Rightarrow> None)
     | PStr s \<Rightarrow> int_of_str (py_strip s)
     | _ \<Rightarrow> None)"

definition coerce_node_id :: "payload \<Rightarrow> string \<Rightarrow> int option" where
  "coerce_node_id d key = coerce_id (pget d key)"

abbreviation node_id_of :: "payload \<Rightarrow> int option" where
  "node_id_of d \<equiv> coerce_node_id d ''node_id''"

lemma coerce_id_simps [simp]:
  "coerce_id PNone = None" "coerce_id (PBool b) = None" "coerce_id (PInt i) = Some i"
  "coerce_id (PList xs) = None" "coerce_id (PDict d) = None"
  by (simp_all add: coerce_id_def)

declare coerce_node_id_def [coerce_defs]

section \<open>Outcomes\<close>

definition benign_terminal_reasons :: "string set" where
  "benign_terminal_reasons =
     {''aborted'', ''card_dropped'', ''proxy_skipped'', ''superseded'', ''frozen''}"

text \<open>Did this node's lifecycle end in a failure of the search (\<open>Some True\<close>), in a
  measurement (\<open>Some False\<close>), or in neither.\<close>

definition search_outcome :: "run_state \<Rightarrow> node \<Rightarrow> bool option" where
  "search_outcome st n =
     (if n_tombstoned n \<or> n_id n \<in> set (st_aborted_nodes st) then None
      else if n_status n = Evaluated then Some False
      else if n_status n = Failed
              \<and> py_lower (py_strip (n_error_reason n)) \<notin> benign_terminal_reasons then Some True
      else None)"

definition activation_unverified :: "node \<Rightarrow> bool" where
  "activation_unverified n \<longleftrightarrow> (case n_activation n of None \<Rightarrow> False
     | Some r \<Rightarrow> pget r ''verdict'' = PStr ''warn'')"

definition is_error_stop :: "pyval \<Rightarrow> bool" where
  "is_error_stop reason \<longleftrightarrow>
     py_lower (py_str (if truthy reason then reason else PStr [])) = ''error''"

section \<open>The objective a run ranks by\<close>

fun direction_name :: "direction \<Rightarrow> string" where
  "direction_name Min = ''min''"
| "direction_name Max = ''max''"

definition objective_value ::
  "(string \<times> real) list \<Rightarrow> (string \<times> string) list \<Rightarrow> string option \<Rightarrow> (string \<times> string) list
    \<Rightarrow> direction \<Rightarrow> real option" where
  "objective_value extra_metrics provenance key directions run_direction = (case key of
       None \<Rightarrow> None
     | Some k \<Rightarrow>
        if k = [] then None
        else if dict_get provenance k \<noteq> Some ''declared'' then None
        else (case dict_get directions k of
            Some w \<Rightarrow> if w \<in> {''min'', ''max''} \<and> w \<noteq> direction_name run_direction then None
                      else dict_get extra_metrics k
          | None \<Rightarrow> dict_get extra_metrics k))"

definition row_objective :: "pyval \<Rightarrow> string option" where
  "row_objective stamp = (case stamp of PStr s \<Rightarrow> if s = [] then None else Some s | _ \<Rightarrow> None)"

section \<open>Queries on the state\<close>

definition nodes_of :: "run_state \<Rightarrow> node list" where
  "nodes_of st = dict_values (st_nodes st)"

definition evaluated_nodes :: "run_state \<Rightarrow> node list" where
  "evaluated_nodes st = filter (\<lambda>n. n_status n = Evaluated \<and> \<not> n_tombstoned n) (nodes_of st)"

definition feasible_nodes :: "run_state \<Rightarrow> node list" where
  "feasible_nodes st = filter (\<lambda>n. n_feasible n \<and> n_metric n \<noteq> None
      \<and> n_id n \<notin> set (st_aborted_nodes st)) (evaluated_nodes st)"

definition breedable_nodes :: "run_state \<Rightarrow> node list" where
  "breedable_nodes st = (if st_breed_excluded st = {} then feasible_nodes st
     else filter (\<lambda>n. n_id n \<notin> st_breed_excluded st) (feasible_nodes st))"

definition pending_nodes :: "run_state \<Rightarrow> node list" where
  "pending_nodes st = py_sorted False n_id
     (filter (\<lambda>n. n_status n = Pending \<and> \<not> n_tombstoned n) (nodes_of st))"

definition best :: "run_state \<Rightarrow> node option" where
  "best st = (case st_best_node_id st of None \<Rightarrow> None | Some b \<Rightarrow> dict_get (st_nodes st) b)"

definition resume_pending :: "run_state \<Rightarrow> bool" where
  "resume_pending st \<longleftrightarrow> st_last_resume_served_seq st < st_last_resume_request_seq st"

definition finalization_pending :: "run_state \<Rightarrow> bool" where
  "finalization_pending st \<longleftrightarrow> st_finished st \<and> 0 \<le> st_last_finish_seq st
     \<and> st_finalized_finish_seq st \<noteq> st_last_finish_seq st"

definition halted :: "run_state \<Rightarrow> bool" where
  "halted st \<longleftrightarrow> st_paused st \<or> st_finished st \<or> truthy (st_stop_requested st)"

definition split_salt :: "run_state \<Rightarrow> int" where
  "split_salt st = (if st_split_salt_disclosure st then st_split_epoch st else st_search_epoch st)"

declare nodes_of_def [state_defs] evaluated_nodes_def [state_defs] feasible_nodes_def [state_defs]

lemma set_breedable_nodes: "n \<in> set (breedable_nodes st) \<longleftrightarrow>
    n \<in> set (nodes_of st) \<and> n_status n = Evaluated \<and> \<not> n_tombstoned n \<and> n_feasible n
    \<and> n_metric n \<noteq> None \<and> n_id n \<notin> set (st_aborted_nodes st) \<and> n_id n \<notin> st_breed_excluded st"
  by (auto simp: breedable_nodes_def feasible_nodes_def evaluated_nodes_def)

lemma set_pending_nodes: "n \<in> set (pending_nodes st) \<longleftrightarrow>
    n \<in> set (nodes_of st) \<and> n_status n = Pending \<and> \<not> n_tombstoned n"
  by (auto simp: pending_nodes_def)

text \<open>The node table is well formed: each key once, each node under its own id.\<close>

definition wf_nodes :: "(int \<times> node) list \<Rightarrow> bool" where
  "wf_nodes ns \<longleftrightarrow> distinct (dict_keys ns) \<and> (\<forall>(k, n) \<in> set ns. n_id n = k)"

lemma wf_nodes_get: "wf_nodes ns \<Longrightarrow> dict_get ns k = Some n \<Longrightarrow> n_id n = k"
  by (auto simp: wf_nodes_def dest: map_of_SomeD)

lemma wf_nodes_ids: "wf_nodes ns \<Longrightarrow> map n_id (dict_values ns) = dict_keys ns"
  by (auto simp: wf_nodes_def dict_values_def dict_keys_def)

lemma wf_nodes_get_iff:
  "wf_nodes ns \<Longrightarrow> dict_get ns k = Some n \<longleftrightarrow> n \<in> set (dict_values ns) \<and> n_id n = k"
  by (force simp: wf_nodes_def dict_get_iff_in_set dict_values_def)

lemma wf_nodes_alt:
  "wf_nodes ns \<longleftrightarrow> distinct (dict_keys ns) \<and> (\<forall>k n. dict_get ns k = Some n \<longrightarrow> n_id n = k)"
  by (auto simp: wf_nodes_def dict_get_iff_in_set)

lemma wf_nodes_distinct_ids: "wf_nodes (st_nodes st) \<Longrightarrow> distinct (map n_id (nodes_of st))"
  by (simp add: nodes_of_def wf_nodes_ids) (simp add: wf_nodes_def)

lemma wf_nodes_put: "wf_nodes ns \<Longrightarrow> n_id n = k \<Longrightarrow> wf_nodes (dict_put k n ns)"
  by (auto simp: wf_nodes_alt)

lemma wf_nodes_modify:
  assumes "wf_nodes ns" and "\<And>n. n_id (f n) = n_id n"
  shows "wf_nodes (dict_modify k f ns)"
  using assms by (auto simp: wf_nodes_alt)

lemma wf_nodes_map_values:
  assumes "wf_nodes ns" and "\<And>n. n_id (f n) = n_id n"
  shows "wf_nodes (dict_map_values f ns)"
  using assms by (auto simp: wf_nodes_alt)

lemma best_in_nodes: "best st = Some n \<Longrightarrow> n \<in> set (nodes_of st)"
  by (auto simp: best_def nodes_of_def split: option.splits dest: dict_get_value)

end
