(* ===== verification/SearchFitness.thy ===== *)
theory SearchFitness
  imports Models
begin

text \<open>
  The ordering owner of the run, the class \<open>SearchFitness\<close> of \<open>looplab/core/fitness.py\<close>: the
  best-first ranking every search policy shares, the promotion and holdout keys, the verifier
  tie-break and its statistical band, and the eligibility rule of the champion. The pools these
  operations receive carry a metric (Python would raise on comparing \<open>None\<close>), which
  \<open>the_metric\<close> reads; ranks are of nodes with distinct ids.
\<close>

definition the_metric :: "real option \<Rightarrow> real" where
  "the_metric m = (case m of Some r \<Rightarrow> r | None \<Rightarrow> 0)"

lemma the_metric_Some [simp]: "the_metric (Some r) = r"
  by (simp add: the_metric_def)

section \<open>Rankings under a key that ends in the id\<close>

text \<open>
  Every key places the node id last, so that ties resolve the same way on every replay. The
  interface says what such a key gives: the reverse and the direct ranking are permutations, and
  the chooser returns the head of the ranking.
\<close>

definition chooser :: "direction \<Rightarrow> (node \<Rightarrow> 'k::linorder) \<Rightarrow> node list \<Rightarrow> node option" where
  "chooser dir key nodes = (case dir of Min \<Rightarrow> py_min_by key nodes | Max \<Rightarrow> py_max_by key nodes)"

definition ranked :: "direction \<Rightarrow> (node \<Rightarrow> 'k::linorder) \<Rightarrow> node list \<Rightarrow> node list" where
  "ranked dir key nodes = py_sorted (dir = Max) key nodes"

lemma set_ranked [simp]: "set (ranked dir key nodes) = set nodes"
  by (simp add: ranked_def)

lemma length_ranked [simp]: "length (ranked dir key nodes) = length nodes"
  by (simp add: ranked_def)

lemma ranked_Nil_iff [simp]: "ranked dir key nodes = [] \<longleftrightarrow> nodes = []"
  by (simp add: ranked_def)

lemma distinct_ranked_ids [simp]:
  "distinct (map n_id (ranked dir key nodes)) = distinct (map n_id nodes)"
  by (simp add: ranked_def)

lemma chooser_None [simp]: "chooser dir key nodes = None \<longleftrightarrow> nodes = []"
  by (simp add: chooser_def split: direction.splits)

lemma chooser_in: "chooser dir key nodes = Some n \<Longrightarrow> n \<in> set nodes"
  by (auto simp: chooser_def split: direction.splits dest: py_min_by_Some py_max_by_Some)

lemma chooser_best:
  "chooser dir key nodes = Some n \<Longrightarrow> m \<in> set nodes \<Longrightarrow>
     (case dir of Min \<Rightarrow> key n \<le> key m | Max \<Rightarrow> key m \<le> key n)"
  by (auto simp: chooser_def split: direction.splits intro: py_min_by_Some(2) py_max_by_Some(2))

lemma ranked_hd_best:
  assumes "nodes \<noteq> []" and "m \<in> set nodes"
  shows "(case dir of Min \<Rightarrow> key (hd (ranked dir key nodes)) \<le> key m
                    | Max \<Rightarrow> key m \<le> key (hd (ranked dir key nodes)))"
  using hd_py_sorted_best [OF assms, of "dir = Max" key]
  by (cases dir) (auto simp: ranked_def)

locale id_key =
  fixes key :: "node \<Rightarrow> 'k::linorder"
  assumes key_id: "key x = key y \<Longrightarrow> n_id x = n_id y"
begin

lemma chooser_eq_hd:
  assumes "nodes \<noteq> []" and "distinct (map n_id nodes)"
  shows "chooser dir key nodes = Some (hd (ranked dir key nodes))"
proof -
  obtain n where n: "chooser dir key nodes = Some n"
    using assms(1) by (metis chooser_None not_None_eq)
  let ?h = "hd (ranked dir key nodes)"
  have h: "?h \<in> set nodes"
    using assms(1) by (metis hd_in_set ranked_Nil_iff set_ranked)
  have "key n = key ?h"
    using chooser_best [OF n h] ranked_hd_best [OF assms(1) chooser_in [OF n], where dir = dir and key = key]
    by (cases dir) auto
  then have "n_id n = n_id ?h" by (rule key_id)
  then have "n = ?h"
    using assms(2) chooser_in [OF n] h by (auto simp: distinct_map inj_on_def)
  with n show ?thesis by simp
qed

lemma chooser_perm:
  assumes "set xs = set ys" and "distinct (map n_id xs)" and "chooser dir key xs = Some n"
  shows "chooser dir key ys = Some n"
proof -
  have "ys \<noteq> []" using assms(1) chooser_in [OF assms(3)] by auto
  then obtain m where m: "chooser dir key ys = Some m" by (metis chooser_None not_None_eq)
  have mn: "m \<in> set xs" "n \<in> set ys"
    using chooser_in [OF m] chooser_in [OF assms(3)] assms(1) by auto
  have "key n = key m"
    using chooser_best [OF m mn(2)] chooser_best [OF assms(3) mn(1)] by (cases dir) auto
  then have "n_id n = n_id m" by (rule key_id)
  then have "n = m"
    using assms(2) chooser_in [OF assms(3)] mn(1) by (auto simp: distinct_map inj_on_def)
  with m show ?thesis by simp
qed

end

section \<open>The keys\<close>

definition metric_key :: "node \<Rightarrow> real \<times> int" where
  "metric_key n = (the_metric (n_metric n), n_id n)"

definition selection_key :: "node \<Rightarrow> real \<times> int" where
  "selection_key n = (the_metric (robust_metric n), n_id n)"

interpretation metric_rank: id_key metric_key
  by unfold_locales (simp add: metric_key_def)

interpretation selection_rank: id_key selection_key
  by unfold_locales (simp add: selection_key_def)

text \<open>The class: its direction and its two switches (\<open>ci_tie\<close> needs \<open>verifier_tiebreak\<close>).\<close>

record fitness =
  f_direction :: direction
  f_verifier_tiebreak :: bool
  f_ci_tie :: bool

definition search_fitness :: "direction \<Rightarrow> bool \<Rightarrow> bool \<Rightarrow> fitness" where
  "search_fitness dir tiebreak ci =
     \<lparr>f_direction = dir, f_verifier_tiebreak = tiebreak, f_ci_tie = (ci \<and> tiebreak)\<rparr>"

definition rank :: "fitness \<Rightarrow> node list \<Rightarrow> node list" where
  "rank fit nodes = ranked (f_direction fit) metric_key nodes"

definition usable_verifier :: "node \<Rightarrow> bool" where
  "usable_verifier n = (case n_verifier_score n of None \<Rightarrow> False | Some v \<Rightarrow> 0 \<le> v \<and> v \<le> 1)"

text \<open>The neutral midpoint of an unscored node is \<open>1/2\<close>.\<close>

definition vc :: "fitness \<Rightarrow> node \<Rightarrow> real" where
  "vc fit n = (case f_direction fit of Max \<Rightarrow> 1 | Min \<Rightarrow> - 1)
     * (if usable_verifier n then the_metric (n_verifier_score n) else 1 / 2)"

text \<open>With the tie-break off the key is \<open>(metric, id)\<close>: a constant middle slot.\<close>

definition promotion_key :: "fitness \<Rightarrow> node \<Rightarrow> real \<times> real \<times> int" where
  "promotion_key fit n = (the_metric (robust_metric n),
     if f_verifier_tiebreak fit then vc fit n else 0, n_id n)"

definition holdout_key :: "fitness \<Rightarrow> node \<Rightarrow> real \<times> real \<times> int" where
  "holdout_key fit n = (the_metric (n_holdout_metric n),
     if f_verifier_tiebreak fit then vc fit n else 0, n_id n)"

definition plain_holdout_key :: "node \<Rightarrow> real \<times> int" where
  "plain_holdout_key n = (the_metric (n_holdout_metric n), n_id n)"

definition ci_key :: "fitness \<Rightarrow> node \<Rightarrow> real \<times> real \<times> int" where
  "ci_key fit n = (vc fit n, the_metric (robust_metric n), n_id n)"

interpretation promotion_rank: id_key "promotion_key fit"
  by unfold_locales (simp add: promotion_key_def)

interpretation holdout_rank: id_key "holdout_key fit"
  by unfold_locales (simp add: holdout_key_def)

interpretation plain_holdout_rank: id_key plain_holdout_key
  by unfold_locales (simp add: plain_holdout_key_def)

interpretation ci_rank: id_key "ci_key fit"
  by unfold_locales (simp add: ci_key_def)

definition fit_best :: "fitness \<Rightarrow> node list \<Rightarrow> (node \<Rightarrow> 'k::linorder) \<Rightarrow> node option" where
  "fit_best fit nodes key = chooser (f_direction fit) key nodes"

section \<open>Promotion ranking\<close>

text \<open>Exact-metric groups of two or more whose members all carry a usable score.\<close>

definition complete_ids :: "node list \<Rightarrow> int set" where
  "complete_ids nodes = n_id ` {n \<in> set nodes.
     (let group = filter (\<lambda>m. robust_metric m = robust_metric n) nodes in
      2 \<le> length group \<and> list_all usable_verifier group)}"

definition rank_promotion :: "fitness \<Rightarrow> node list \<Rightarrow> node list" where
  "rank_promotion fit nodes =
     (if \<not> f_verifier_tiebreak fit then ranked (f_direction fit) selection_key nodes
      else ranked (f_direction fit) (\<lambda>n. (the_metric (robust_metric n),
             if n_id n \<in> complete_ids nodes then vc fit n else 0, n_id n)) nodes)"

section \<open>The statistical tie band\<close>

definition node_se :: "node \<Rightarrow> real option" where
  "node_se n = (case (n_confirmed_std n, n_confirmed_seeds n) of
       (Some s, Some c) \<Rightarrow> (if s < 0 \<or> c < 1 then None else Some (s / sqrt (real_of_int c)))
     | _ \<Rightarrow> None)"

definition statistically_tied :: "node \<Rightarrow> node \<Rightarrow> bool" where
  "statistically_tied n leader =
     (if n_id n = n_id leader then True
      else (case (robust_metric leader, robust_metric n) of
          (Some lm, Some nm) \<Rightarrow>
            (case (node_se leader, node_se n) of
               (Some lse, Some nse) \<Rightarrow>
                 (let pooled = standard_error_difference (n_confirmed_std n) (n_confirmed_seeds n)
                        (n_confirmed_std leader) (n_confirmed_seeds leader);
                      threshold = min pooled lse in
                  if threshold \<le> 0 then nm = lm else \<bar>nm - lm\<bar> \<le> threshold)
             | _ \<Rightarrow> nm = lm)
        | _ \<Rightarrow> False))"

definition node_se_square :: "node \<Rightarrow> real option" where
  "node_se_square n = (case (n_confirmed_std n, n_confirmed_seeds n) of
       (Some s, Some c) \<Rightarrow> (if s < 0 \<or> c < 1 then None else Some (s * s / real_of_int c))
     | _ \<Rightarrow> None)"

lemma node_se_sqrt: "node_se n = map_option sqrt (node_se_square n)"
  by (auto simp: node_se_def node_se_square_def real_sqrt_divide split: option.split)

lemma node_se_square_nonneg: "node_se_square n = Some q \<Longrightarrow> 0 \<le> q"
  by (auto simp: node_se_square_def split: option.splits if_splits)

lemma statistically_tied_code [code]:
  "statistically_tied n leader =
     (if n_id n = n_id leader then True
      else (case (robust_metric leader, robust_metric n) of
          (Some lm, Some nm) \<Rightarrow>
            (case (node_se_square leader, node_se_square n) of
               (Some lq, Some nq) \<Rightarrow>
                 (let pooled = se_square (n_confirmed_std n) (n_confirmed_seeds n)
                        + se_square (n_confirmed_std leader) (n_confirmed_seeds leader);
                      gap = nm - lm in
                  if pooled \<le> 0 \<or> lq \<le> 0 then nm = lm else gap * gap \<le> pooled \<and> gap * gap \<le> lq)
             | _ \<Rightarrow> nm = lm)
        | _ \<Rightarrow> False))"
  by (auto simp: statistically_tied_def node_se_sqrt Let_def sed_sqrt min_le_iff_disj within_sqrt
      dest: node_se_square_nonneg split: option.split)

definition ci_tie_set :: "fitness \<Rightarrow> node list \<Rightarrow> node list" where
  "ci_tie_set fit nodes = (case fit_best fit nodes selection_key of
       None \<Rightarrow> []
     | Some leader \<Rightarrow> filter (\<lambda>n. statistically_tied n leader) nodes)"

definition best_ci :: "fitness \<Rightarrow> node list \<Rightarrow> node option" where
  "best_ci fit nodes = (case fit_best fit nodes selection_key of
       None \<Rightarrow> None
     | Some leader \<Rightarrow>
        (let tied = (if f_ci_tie fit then ci_tie_set fit nodes
                     else filter (\<lambda>n. robust_metric n = robust_metric leader) nodes) in
         if \<not> f_verifier_tiebreak fit \<or> \<not> list_all usable_verifier tied then Some leader
         else if f_ci_tie fit then fit_best fit tied (ci_key fit)
         else fit_best fit tied (promotion_key fit)))"

definition best_holdout :: "fitness \<Rightarrow> node list \<Rightarrow> node option" where
  "best_holdout fit nodes = (case fit_best fit nodes plain_holdout_key of
       None \<Rightarrow> None
     | Some leader \<Rightarrow>
        (let tied = filter (\<lambda>n. n_holdout_metric n = n_holdout_metric leader) nodes in
         if \<not> f_verifier_tiebreak fit \<or> \<not> list_all usable_verifier tied then Some leader
         else fit_best fit tied (holdout_key fit)))"

section \<open>Eligibility\<close>

definition counts_toward_best :: "node \<Rightarrow> int set \<Rightarrow> int list \<Rightarrow> bool" where
  "counts_toward_best n flagged aborted \<longleftrightarrow>
     n_feasible n \<and> n_id n \<notin> flagged \<and> n_id n \<notin> set aborted \<and> robust_metric n \<noteq> None"

definition eligible :: "node \<Rightarrow> int set \<Rightarrow> int list \<Rightarrow> bool" where
  "eligible n flagged aborted = counts_toward_best n flagged aborted"

end
