(* ===== verification/ReplayCtx.thy ===== *)
theory ReplayCtx
  imports SearchFitness
begin

text \<open>
  What every fold handler shares (\<open>looplab/events/replay_ctx.py\<close>): the fold-local context that is
  not part of the run state, the stamped lifecycle generation of an event with the fence it
  implies, the node an event is about, and the wall clock of a log. \<open>externals\<close> collects the code
  the repository does not own: the pydantic constructors and the hash functions.
\<close>

section \<open>The fold context\<close>

record fold_ctx =
  c_best_confirmed :: "int option"
  c_best_confirmed_significant :: bool
  c_charged_terminal_generations :: "(int \<times> int) set"
  c_charged_confirm_seeds :: "(int \<times> int \<times> int) set"
  c_charged_noise_seeds :: "(int \<times> int \<times> int) set"
  c_charged_holdout_keys :: "(int \<times> int option \<times> int option) set"
  c_charged_repair_seqs :: "(int \<times> int) set"
  c_charged_ablation_ids :: "string set"
  c_repair_ledger_keys :: "(int \<times> pyval \<times> pyval) set"
  c_repair_ledger_per_node :: "(int \<times> nat) list"
  c_pending_finish_report :: "(int \<times> int \<times> event) option"
  c_event_index :: int

definition init_ctx :: fold_ctx where
  "init_ctx = \<lparr>c_best_confirmed = None, c_best_confirmed_significant = True,
     c_charged_terminal_generations = {}, c_charged_confirm_seeds = {},
     c_charged_noise_seeds = {}, c_charged_holdout_keys = {}, c_charged_repair_seqs = {},
     c_charged_ablation_ids = {},
     c_repair_ledger_keys = {}, c_repair_ledger_per_node = [], c_pending_finish_report = None, c_event_index = -1\<rparr>"

type_synonym fold_state = "run_state \<times> fold_ctx"

text \<open>
  Third-party code. \<open>x_idea d\<close> is \<open>Idea(**d)\<close> (\<open>None\<close>: pydantic raises), \<open>x_node d\<close> says
  whether \<open>Node(...)\<close> accepts the fields taken raw from the payload \<open>d\<close>, \<open>x_trial\<close> is
  \<open>Trial(**t)\<close>, \<open>x_sha256\<close> is SHA-256 over the JSON text of a value, \<open>x_md5\<close> is MD5 of a string.
\<close>

record externals =
  x_idea :: "payload \<Rightarrow> idea option"
  x_node :: "payload \<Rightarrow> bool"
  x_trial :: "pyval \<Rightarrow> pyval option"
  x_sha256 :: "pyval \<Rightarrow> string"
  x_md5 :: "string \<Rightarrow> string"

section \<open>The generation fence\<close>

text \<open>\<open>_event_generation\<close>: absent (the sentinel \<open>_MISSING\<close>), present but unusable (\<open>None\<close>), or a
  generation.\<close>

datatype stamp = Missing | Unusable | Stamped int

definition stamp_of :: "pyval \<Rightarrow> stamp" where
  "stamp_of raw = (case coerce_id raw of
       Some g \<Rightarrow> if 0 \<le> g then Stamped g else Unusable
     | None \<Rightarrow> Unusable)"

definition event_generation :: "payload \<Rightarrow> bool \<Rightarrow> stamp" where
  "event_generation d legacy_attempt =
     (if phas d ''generation'' then stamp_of (pget d ''generation'')
      else if legacy_attempt \<and> phas d ''attempt'' then stamp_of (pget d ''attempt'')
      else Missing)"

definition event_generation_binds :: "payload \<Rightarrow> int \<Rightarrow> bool \<Rightarrow> bool" where
  "event_generation_binds d generation legacy_attempt =
     (case event_generation d legacy_attempt of
        Missing \<Rightarrow> True | Unusable \<Rightarrow> False | Stamped g \<Rightarrow> g = generation)"

definition generation_matches :: "node \<Rightarrow> payload \<Rightarrow> bool \<Rightarrow> bool" where
  "generation_matches n d legacy_attempt = event_generation_binds d (n_attempt n) legacy_attempt"

definition control_generation_matches :: "node \<Rightarrow> payload \<Rightarrow> bool" where
  "control_generation_matches n d = (case event_generation d False of
      Missing \<Rightarrow> True | Unusable \<Rightarrow> False | Stamped g \<Rightarrow> g = n_attempt n)"

definition node_for_event :: "run_state \<Rightarrow> payload \<Rightarrow> node option" where
  "node_for_event st d = (case node_id_of d of
      Some nid \<Rightarrow> dict_get (st_nodes st) nid | None \<Rightarrow> None)"

lemma stamp_nonneg: "event_generation d b = Stamped g \<Longrightarrow> 0 \<le> g"
  by (auto simp: event_generation_def stamp_of_def split: if_splits option.splits)

lemma control_eq_generation_matches: "control_generation_matches n d = generation_matches n d False"
  by (simp add: control_generation_matches_def generation_matches_def event_generation_binds_def)

section \<open>Timestamps\<close>

definition max_event_ts :: real where
  "max_event_ts = 253402300799"

definition event_timestamp :: "event \<Rightarrow> real option" where
  "event_timestamp e = (if 0 < e_ts e \<and> e_ts e \<le> max_event_ts then Some (e_ts e) else None)"

definition clock_step :: "(real \<times> real) option \<Rightarrow> event \<Rightarrow> (real \<times> real) option" where
  "clock_step acc e = (case event_timestamp e of
      None \<Rightarrow> acc
    | Some ts \<Rightarrow> (case acc of
        None \<Rightarrow> Some (ts, ts)
      | Some (lo, hi) \<Rightarrow> Some (if ts < lo then ts else lo, if hi < ts then ts else hi)))"

definition run_wall_clock_seconds :: "event list \<Rightarrow> real option" where
  "run_wall_clock_seconds es = (case foldl clock_step None es of
      None \<Rightarrow> None | Some (lo, hi) \<Rightarrow> Some (max 0 (hi - lo)))"

section \<open>Updates of one node\<close>

definition upd_node :: "int \<Rightarrow> (node \<Rightarrow> node) \<Rightarrow> run_state \<Rightarrow> run_state" where
  "upd_node nid f st = st\<lparr>st_nodes := dict_modify nid f (st_nodes st)\<rparr>"

definition upd_nodes :: "(node \<Rightarrow> node) \<Rightarrow> run_state \<Rightarrow> run_state" where
  "upd_nodes f st = st\<lparr>st_nodes := dict_map_values f (st_nodes st)\<rparr>"

lemma st_nodes_upd_node [simp]: "st_nodes (upd_node nid f st) = dict_modify nid f (st_nodes st)"
  by (simp add: upd_node_def)

lemma st_nodes_upd_nodes [simp]: "st_nodes (upd_nodes f st) = dict_map_values f (st_nodes st)"
  by (simp add: upd_nodes_def)

text \<open>Python's \<open>==\<close> between a payload value and an integer.\<close>

fun eq_int :: "pyval \<Rightarrow> int \<Rightarrow> bool" where
  "eq_int (PInt i) j = (i = j)"
| "eq_int (PBool b) j = ((if b then 1 else 0) = j)"
| "eq_int (PFloat (Fin r)) j = (r = real_of_int j)"
| "eq_int _ j = False"

text \<open>\<open>bounded_int(v, lo, hi)\<close>: an exact \<open>int\<close> in the inclusive range.\<close>

definition bounded_int :: "pyval \<Rightarrow> int \<Rightarrow> int \<Rightarrow> bool" where
  "bounded_int v lo hi = (case v of PInt i \<Rightarrow> lo \<le> i \<and> i \<le> hi | _ \<Rightarrow> False)"

definition int_value :: "pyval \<Rightarrow> int" where
  "int_value v = (case v of PInt i \<Rightarrow> i | _ \<Rightarrow> 0)"

lemma node_for_event_Some:
  "node_for_event st d = Some n \<longleftrightarrow> (\<exists>nid. node_id_of d = Some nid \<and> dict_get (st_nodes st) nid = Some n)"
  by (auto simp: node_for_event_def split: option.splits)

end
