(* ===== verification/NodeFields.thy ===== *)
theory NodeFields
  imports ReplayCtx
begin

text \<open>
  The normalisers a terminal event's fields go through before they are stored on a node
  (\<open>looplab/core/models.py\<close>, with \<open>_extra_metrics_omitted\<close>, \<open>_normalize_resource_curve\<close> and
  \<open>_apply_objective\<close> of \<open>looplab/events/replay.py\<close>): secondary metrics with their bound of
  256 and their declared-first priority, their channels and directions, the activation record,
  the resource curve, and the objective a node's metric is read from.
\<close>

section \<open>Secondary metrics\<close>

definition extra_metrics_max_items :: nat where
  "extra_metrics_max_items = 256"

definition extra_metric_entries :: "pyval \<Rightarrow> (string \<times> real) list" where
  "extra_metric_entries v = (case v of
      PDict d \<Rightarrow> List.map_filter (\<lambda>(k, raw).
         (if is_usable_metric raw then Some (take 200 k, number_value raw) else None)) d
    | _ \<Rightarrow> [])"

text \<open>The keys kept: the wanted ones, then the others in order until the bound is reached.\<close>

fun keep_more :: "nat \<Rightarrow> string list \<Rightarrow> string list \<Rightarrow> string list" where
  "keep_more bound keep [] = keep"
| "keep_more bound keep (k # ks) = (if bound \<le> length keep then keep
     else keep_more bound (List.insert k keep) ks)"

definition kept_keys :: "nat \<Rightarrow> string list \<Rightarrow> string list \<Rightarrow> string list" where
  "kept_keys max_items wanted keys =
     keep_more max_items (remdups (filter (\<lambda>k. k \<in> set wanted) keys)) keys"

definition normalize_extra_metrics :: "nat \<Rightarrow> string list \<Rightarrow> pyval \<Rightarrow> (string \<times> real) list" where
  "normalize_extra_metrics max_items priority v =
     (let entries = extra_metric_entries v;
          keep = kept_keys max_items (map (take 200) priority) (map fst entries) in
      dict_of (filter (\<lambda>(k, x). k \<in> set keep) entries))"

definition extra_metrics_overflow :: "nat \<Rightarrow> string list \<Rightarrow> pyval \<Rightarrow> string list" where
  "extra_metrics_overflow max_items priority v =
     (let entries = extra_metric_entries v;
          keep = kept_keys max_items (map (take 200) priority) (map fst entries) in
      map fst (filter (\<lambda>(k, x). k \<notin> set keep) entries))"

definition extra_metric_channels :: "string set" where
  "extra_metric_channels = {''declared'', ''auto'', ''engine''}"

definition channel_entries :: "pyval \<Rightarrow> (string \<times> string) list" where
  "channel_entries v = (case v of
      PDict d \<Rightarrow> List.map_filter (\<lambda>(k, raw). (case raw of
          PStr s \<Rightarrow> if s \<in> extra_metric_channels then Some (take 200 k, s) else None
        | _ \<Rightarrow> None)) d
    | _ \<Rightarrow> [])"

definition normalize_extra_metric_channels ::
  "nat \<Rightarrow> string list \<Rightarrow> pyval \<Rightarrow> (string \<times> string) list" where
  "normalize_extra_metric_channels max_items priority v =
     (let entries = channel_entries v;
          keep = kept_keys max_items (map (take 200) priority) (map fst entries) in
      dict_of (filter (\<lambda>(k, x). k \<in> set keep) entries))"

fun put_directions :: "nat \<Rightarrow> (string \<times> string) list \<Rightarrow> payload \<Rightarrow> (string \<times> string) list" where
  "put_directions max_items out [] = out"
| "put_directions max_items out ((k, raw) # d) = put_directions max_items
     (case raw of
        PStr s \<Rightarrow> if max_items \<le> length out \<or> s \<notin> {''min'', ''max''} then out
                  else dict_put (take 200 k) s out
      | _ \<Rightarrow> out) d"

definition normalize_extra_metric_directions :: "nat \<Rightarrow> pyval \<Rightarrow> (string \<times> string) list" where
  "normalize_extra_metric_directions max_items v = (case v of
      PDict d \<Rightarrow> put_directions max_items [] d | _ \<Rightarrow> [])"

definition extra_metrics_omitted :: "pyval \<Rightarrow> payload" where
  "extra_metrics_omitted raw = (case raw of
      PDict d \<Rightarrow> (case pget d ''count'' of
          PInt c \<Rightarrow> (if c \<le> 0 then [] else
             [(''count'', PInt (min c (2 ^ 31))),
              (''names'', PList (case pget d ''names'' of
                 PList xs \<Rightarrow> List.map_filter (\<lambda>x. (case x of PStr s \<Rightarrow> Some (PStr (take 200 s)) | _ \<Rightarrow> None))
                               (take 32 xs)
               | _ \<Rightarrow> []))])
        | _ \<Rightarrow> [])
    | _ \<Rightarrow> [])"

section \<open>The activation record\<close>

definition in_strs :: "pyval \<Rightarrow> string list \<Rightarrow> bool" where
  "in_strs v names \<longleftrightarrow> v \<in> PStr ` set names"

definition short_texts :: "pyval \<Rightarrow> pyval list" where
  "short_texts v = (case v of
      PList xs \<Rightarrow> take 8 (List.map_filter
         (\<lambda>x. (case x of PStr s \<Rightarrow> Some (PStr (take 200 s)) | _ \<Rightarrow> None)) xs)
    | _ \<Rightarrow> [])"

definition activation_causes :: "payload \<Rightarrow> payload" where
  "activation_causes d = take 8 (dict_of (List.map_filter
     (\<lambda>(k, v). (case v of PStr s \<Rightarrow> Some (take 200 k, PStr (take 64 s)) | _ \<Rightarrow> None)) d))"

definition normalize_activation_record :: "pyval \<Rightarrow> payload option" where
  "normalize_activation_record v = (case v of
      PDict d \<Rightarrow> (if \<not> in_strs (pget d ''verdict'') [''ok'', ''warn''] then None else Some (
        [(''verdict'', pget d ''verdict''),
         (''grade'', if in_strs (pget d ''grade'') [''strong'', ''medium'', ''weak'']
                     then pget d ''grade'' else PStr ''weak''),
         (''missing'', PList (short_texts (pget d ''missing''))),
         (''kinds'', PList (filter (\<lambda>k. in_strs k [''log'', ''env'', ''file'', ''none''])
                              (short_texts (pget d ''kinds'')))),
         (''mode'', if in_strs (pget d ''mode'') [''strict'', ''graded'']
                    then pget d ''mode'' else PStr ''graded''),
         (''change_class'', if in_strs (pget d ''change_class'') [''config_only'', ''code'']
                            then pget d ''change_class'' else PStr ''code'')]
        @ (case pget d ''causes'' of PDict c \<Rightarrow> [(''causes'', PDict (activation_causes c))] | _ \<Rightarrow> [])
        @ (if in_strs (pget d ''gate'') [''audit'', ''gate''] then [(''gate'', pget d ''gate'')] else [])
        @ (if is_true (pget d ''rechecked'') then [(''rechecked'', PBool True)] else [])))
    | _ \<Rightarrow> None)"

section \<open>The resource curve\<close>

definition curve_entries :: "pyval list \<Rightarrow> (real \<times> real) list" where
  "curve_entries xs = List.map_filter (\<lambda>entry. (case entry of
      PList [a, b] \<Rightarrow> (case (finite_metric a, finite_metric b) of
          (Some r, Some v) \<Rightarrow> Some (r, v) | _ \<Rightarrow> None)
    | _ \<Rightarrow> None)) xs"

text \<open>Python's \<open>round\<close>: to the nearest integer, a half to the even one.\<close>

definition py_round :: "real \<Rightarrow> int" where
  "py_round x = (let f = \<lfloor>x\<rfloor> in
     if x - real_of_int f < 1 / 2 then f
     else if 1 / 2 < x - real_of_int f then f + 1
     else if even f then f else f + 1)"

text \<open>More than 32 coordinates are sampled at 32 evenly spaced positions.\<close>

definition curve_positions :: "nat \<Rightarrow> nat list" where
  "curve_positions len = sorted_list_of_set (set (map
     (\<lambda>i. nat (py_round (real i * (real (len - 1) / 31)))) [0..<32]))"

definition normalize_resource_curve :: "pyval \<Rightarrow> (real \<times> real) list option" where
  "normalize_resource_curve raw = (case raw of
      PList xs \<Rightarrow> (let by_resource = dict_of (curve_entries xs);
                       coords = sort (dict_keys by_resource);
                       kept = (if 32 < length coords then map ((!) coords) (curve_positions (length coords))
                               else coords) in
         if by_resource = [] then None
         else Some (map (\<lambda>r. (r, case dict_get by_resource r of Some v \<Rightarrow> v | None \<Rightarrow> 0)) kept))
    | _ \<Rightarrow> None)"

section \<open>The objective in force\<close>

text \<open>
  \<open>_apply_objective\<close>. The task metric a payload carries under a retarget is read as the finite
  number it is meant to be.
\<close>

definition apply_objective :: "run_state \<Rightarrow> node \<Rightarrow> node" where
  "apply_objective st n =
     (if n_kind n = Some ''artifact'' then n\<lparr>n_metric := None\<rparr>
      else n\<lparr>n_metric := (if st_objective_key st = None then n_task_metric n
             else objective_value (n_extra_metrics n) (n_extra_metrics_provenance n)
                    (st_objective_key st) (n_extra_metrics_direction n) (st_direction st))\<rparr>)"

lemma apply_objective_simps [simp]:
  "n_id (apply_objective st n) = n_id n" "n_status (apply_objective st n) = n_status n"
  "n_tombstoned (apply_objective st n) = n_tombstoned n"
  "n_error_reason (apply_objective st n) = n_error_reason n"
  "n_attempt (apply_objective st n) = n_attempt n"
  "n_terminal_event_seq (apply_objective st n) = n_terminal_event_seq n"
  "n_repairs (apply_objective st n) = n_repairs n"
  by (simp_all add: apply_objective_def)

section \<open>Bounds\<close>

lemma set_keep_more: "set (keep_more b keep ks) \<subseteq> set keep \<union> set ks"
  by (induction b keep ks rule: keep_more.induct) (auto split: if_splits)

lemma keep_more_mono: "set keep \<subseteq> set (keep_more b keep ks)"
  by (induction b keep ks rule: keep_more.induct) (auto split: if_splits)

lemma length_keep_more: "length (keep_more b keep ks) \<le> max b (length keep)"
  by (induction b keep ks rule: keep_more.induct) (auto simp: List.insert_def split: if_splits)

lemma distinct_keep_more: "distinct keep \<Longrightarrow> distinct (keep_more b keep ks)"
  by (induction b keep ks rule: keep_more.induct) auto

lemma length_kept_keys: "length (kept_keys b wanted ks) \<le> max b (card (set wanted))"
proof -
  let ?k = "remdups (filter (\<lambda>k. k \<in> set wanted) ks)"
  have "length ?k = card (set ?k)" by (rule distinct_card [symmetric]) simp
  also have "\<dots> \<le> card (set wanted)" by (rule card_mono) auto
  finally show ?thesis
    using length_keep_more [of b ?k ks] by (auto simp: kept_keys_def)
qed

lemma kept_keys_wanted: "k \<in> set wanted \<Longrightarrow> k \<in> set ks \<Longrightarrow> k \<in> set (kept_keys b wanted ks)"
  using keep_more_mono [of "remdups (filter (\<lambda>k. k \<in> set wanted) ks)" b ks]
  by (auto simp: kept_keys_def)

lemma length_dict_eq: "distinct (dict_keys d) \<Longrightarrow> length d = card (set (dict_keys d))"
  by (metis dict_keys_def distinct_card length_map)

lemma length_normalize_extra_metrics:
  "length (normalize_extra_metrics b prio v) \<le> max b (card (set (map (take 200) prio)))"
proof -
  let ?e = "extra_metric_entries v"
  let ?keep = "kept_keys b (map (take 200) prio) (map fst ?e)"
  let ?d = "normalize_extra_metrics b prio v"
  have sub: "set (dict_keys ?d) \<subseteq> set ?keep"
    by (auto simp: normalize_extra_metrics_def set_dict_keys_dict_of Let_def)
  have "length ?d = card (set (dict_keys ?d))"
    by (rule length_dict_eq) (simp add: normalize_extra_metrics_def distinct_dict_of Let_def)
  also have "\<dots> \<le> card (set ?keep)" by (rule card_mono [OF _ sub]) simp
  also have "\<dots> \<le> length ?keep" by (rule card_length)
  also have "\<dots> \<le> max b (card (set (map (take 200) prio)))" by (rule length_kept_keys)
  finally show ?thesis .
qed

end
