(* ===== verification/CodeBlocks.thy ===== *)
theory CodeBlocks
  imports NodeFields
begin

text \<open>
  Blocks of a program and the cuts the simplification rule makes from them
  (\<open>looplab/core/code_blocks.py\<close>): a block is a maximal run of non-blank lines, a cut is the
  program with one block commented out, and a child node is still a cut of its parent when its
  code is what cutting the parent now gives.
\<close>

definition line_break :: "char \<Rightarrow> bool" where
  "line_break c \<longleftrightarrow> (let n = (of_char c :: nat) in
     10 \<le> n \<and> n \<le> 13 \<or> 28 \<le> n \<and> n \<le> 30 \<or> n = 133)"

text \<open>\<open>str.splitlines()\<close>: a carriage return and a line feed are one break, and a final break
  opens no line.\<close>

fun splitlines_from :: "string \<Rightarrow> string \<Rightarrow> string list" where
  "splitlines_from acc [] = (if acc = [] then [] else [rev acc])"
| "splitlines_from acc [c] = (if line_break c then [rev acc] else [rev (c # acc)])"
| "splitlines_from acc (c # c' # cs) =
     (if of_char c = (13 :: nat) \<and> of_char c' = (10 :: nat) then rev acc # splitlines_from [] cs
      else if line_break c then rev acc # splitlines_from [] (c' # cs)
      else splitlines_from (c # acc) (c' # cs))"

definition splitlines :: "string \<Rightarrow> string list" where
  "splitlines s = splitlines_from [] s"

definition blank :: "string \<Rightarrow> bool" where
  "blank l \<longleftrightarrow> py_strip l = []"

text \<open>The two nested loops: skip blank lines, then take the maximal run of non-blank ones.\<close>

function blocks_from :: "nat \<Rightarrow> string list \<Rightarrow> (nat \<times> nat) list" where
  "blocks_from i [] = []"
| "blocks_from i (l # ls) =
     (if blank l then blocks_from (Suc i) ls
      else (let run = length (takeWhile (\<lambda>x. \<not> blank x) (l # ls)) in
            (i, i + run) # blocks_from (i + run) (dropWhile (\<lambda>x. \<not> blank x) ls)))"
  by pat_completeness auto
termination
  by (relation "measure (\<lambda>(i, ls). length ls)") (auto simp: le_imp_less_Suc length_dropWhile_le)

definition code_blocks :: "string \<Rightarrow> (nat \<times> nat) list" where
  "code_blocks code = blocks_from 0 (splitlines code)"

definition join_lines :: "string list \<Rightarrow> string" where
  "join_lines ls = (case ls of [] \<Rightarrow> [] | l # ls' \<Rightarrow> l @ concat (map (\<lambda>x. CHR 10 # x) ls')) @ [CHR 10]"

definition comment_block :: "string \<Rightarrow> nat \<times> nat \<Rightarrow> string" where
  "comment_block code block = (case block of (s, e) \<Rightarrow>
     join_lines (map (\<lambda>(k, l). if s \<le> k \<and> k < e then ''# [ablated] '' @ l else l)
       (enumerate 0 (splitlines code))))"

definition cut_of :: "string \<Rightarrow> int \<Rightarrow> string option" where
  "cut_of parent_code block = (let spans = code_blocks parent_code in
     if 0 \<le> block \<and> block < int (length spans)
     then Some (comment_block parent_code (spans ! nat block)) else None)"

text \<open>The program and the files of a node. A row that stored something else there (the source reads
  a missing value as empty, and a non-string program has no lines) gives the empty program.\<close>

definition code_text :: "node \<Rightarrow> string" where
  "code_text n = (case n_code n of PStr s \<Rightarrow> s | _ \<Rightarrow> [])"

definition or_empty_dict :: "pyval \<Rightarrow> pyval" where
  "or_empty_dict v = (if truthy v then v else PDict [])"

definition same_files :: "pyval \<Rightarrow> pyval \<Rightarrow> bool" where
  "same_files a b = (case (or_empty_dict a, or_empty_dict b) of
      (PDict x, PDict y) \<Rightarrow> dict_eq x y | (x, y) \<Rightarrow> x = y)"

definition still_cut_of :: "node \<Rightarrow> node \<Rightarrow> bool" where
  "still_cut_of parent child = (case n_simplified child of
      None \<Rightarrow> False
    | Some receipt \<Rightarrow>
        (if \<not> eq_int (pget receipt ''parent_id'') (n_id parent) \<or> code_text parent = [] then False
         else (case pget receipt ''block'' of
             PInt block \<Rightarrow> map_option PStr (cut_of (code_text parent) block) = Some (n_code child)
               \<and> same_files (n_files child) (n_files parent)
           | _ \<Rightarrow> False)))"

text \<open>The identity of a cut as built: the digest of the program with its files, sorted.\<close>

definition cut_identity :: "externals \<Rightarrow> string \<Rightarrow> pyval \<Rightarrow> string" where
  "cut_identity X code files = x_sha256 X (PList [PStr code,
     PList (map (\<lambda>(k, v). PList [PStr k, v])
       (sort_key (\<lambda>(k, v). map (of_char :: char \<Rightarrow> nat) k)
         (case files of PDict d \<Rightarrow> d | _ \<Rightarrow> [])))])"

definition built_as_cut_of :: "externals \<Rightarrow> node \<Rightarrow> node \<Rightarrow> bool" where
  "built_as_cut_of X parent child = (case (n_simplified child, n_simplified_cut child) of
      (Some receipt, Some built) \<Rightarrow>
        (if \<not> eq_int (pget receipt ''parent_id'') (n_id parent) \<or> code_text parent = [] then False
         else (case pget receipt ''block'' of
             PInt block \<Rightarrow> (case cut_of (code_text parent) block of
                 Some text \<Rightarrow> built = cut_identity X text (n_files parent)
               | None \<Rightarrow> False)
           | _ \<Rightarrow> False))
    | _ \<Rightarrow> False)"

definition cut_spent :: "externals \<Rightarrow> node \<Rightarrow> node \<Rightarrow> bool" where
  "cut_spent X parent child \<longleftrightarrow> still_cut_of parent child \<or> built_as_cut_of X parent child"

section \<open>The blocks partition the non-blank lines\<close>

lemma blocks_from_range:
  "(a, b) \<in> set (blocks_from i ls) \<Longrightarrow> i \<le> a \<and> a < b \<and> b \<le> i + length ls"
proof (induction i ls rule: blocks_from.induct)
  case (1 i)
  then show ?case by simp
next
  case (2 i l ls)
  show ?case
  proof (cases "blank l")
    case True
    then show ?thesis using 2 by auto
  next
    case False
    let ?run = "length (takeWhile (\<lambda>x. \<not> blank x) (l # ls))"
    have len: "?run + length (dropWhile (\<lambda>x. \<not> blank x) ls) = length (l # ls)"
      using False by (simp add: length_append [symmetric])
    have pos: "0 < ?run" using False by simp
    from 2(3) False consider "a = i" "b = i + ?run"
      | "(a, b) \<in> set (blocks_from (i + ?run) (dropWhile (\<lambda>x. \<not> blank x) ls))"
      by (auto simp: Let_def)
    then show ?thesis
    proof cases
      case 1
      then show ?thesis using pos len by linarith
    next
      case 2
      then have "i + ?run \<le> a \<and> a < b \<and> b \<le> i + ?run + length (dropWhile (\<lambda>x. \<not> blank x) ls)"
        using "2.IH"(2) [OF False refl] by blast
      then show ?thesis using len by linarith
    qed
  qed
qed

definition covered :: "(nat \<times> nat) list \<Rightarrow> nat set" where
  "covered bs = (\<Union>(a, b) \<in> set bs. {a..<b})"

lemma covered_Cons: "covered ((a, b) # bs) = {a..<b} \<union> covered bs"
  by (auto simp: covered_def)

text \<open>Line \<open>k\<close> lies in some block exactly when it is not blank.\<close>

lemma covered_blocks_from:
  "covered (blocks_from i ls) = {k. i \<le> k \<and> k < i + length ls \<and> \<not> blank (ls ! (k - i))}"
proof (induction i ls rule: blocks_from.induct)
  case (1 i)
  then show ?case by (simp add: covered_def)
next
  case (2 i l ls)
  show ?case
  proof (cases "blank l")
    case True
    then have "covered (blocks_from i (l # ls)) =
        {k. Suc i \<le> k \<and> k < Suc i + length ls \<and> \<not> blank (ls ! (k - Suc i))}"
      using "2.IH"(1) by simp
    also have "\<dots> = {k. i \<le> k \<and> k < i + length (l # ls) \<and> \<not> blank ((l # ls) ! (k - i))}"
    proof (rule set_eqI)
      fix k
      show "k \<in> {k. Suc i \<le> k \<and> k < Suc i + length ls \<and> \<not> blank (ls ! (k - Suc i))} \<longleftrightarrow>
            k \<in> {k. i \<le> k \<and> k < i + length (l # ls) \<and> \<not> blank ((l # ls) ! (k - i))}"
        using True by (cases "k = i") (auto simp: nth_Cons' Suc_le_eq)
    qed
    finally show ?thesis .
  next
    case False
    let ?p = "\<lambda>x. \<not> blank x"
    let ?t = "takeWhile ?p (l # ls)" and ?d = "dropWhile ?p ls"
    have split: "l # ls = ?t @ ?d" using False by simp
    have tl: "set ?t \<subseteq> {x. ?p x}" by (auto dest: set_takeWhileD)
    have IH: "covered (blocks_from (i + length ?t) ?d) =
        {k. i + length ?t \<le> k \<and> k < i + length ?t + length ?d \<and> ?p (?d ! (k - (i + length ?t)))}"
      using "2.IH"(2) [OF False refl] .
    have "covered (blocks_from i (l # ls)) =
        {i..<i + length ?t} \<union> covered (blocks_from (i + length ?t) ?d)"
      using False by (simp add: covered_Cons Let_def)
    also have "\<dots> = {k. i \<le> k \<and> k < i + length (?t @ ?d) \<and> ?p ((?t @ ?d) ! (k - i))}"
      unfolding IH
    proof (rule set_eqI)
      fix k
      have in_t: "j < length ?t \<Longrightarrow> ?p (?t ! j)" for j using tl nth_mem by blast
      show "k \<in> {i..<i + length ?t} \<union> {k. i + length ?t \<le> k \<and> k < i + length ?t + length ?d
              \<and> ?p (?d ! (k - (i + length ?t)))}
          \<longleftrightarrow> k \<in> {k. i \<le> k \<and> k < i + length (?t @ ?d) \<and> ?p ((?t @ ?d) ! (k - i))}"
        using in_t [of "k - i"] by (cases "k < i + length ?t") (auto simp: nth_append less_diff_conv2)
    qed
    finally show ?thesis using split by metis
  qed
qed

end
