(* ===== verification/PyText.thy ===== *)
theory PyText
  imports PyValue
begin

text \<open>
  Python's text operations the gates and the schedulers share: splitting on a character or on blanks,
  searching and replacing, and joining.
\<close>

fun split_on :: "char \<Rightarrow> string \<Rightarrow> string list" where
  "split_on d [] = [[]]"
| "split_on d (c # cs) = (if c = d then [] # split_on d cs
     else (case split_on d cs of l # ls \<Rightarrow> (c # l) # ls | [] \<Rightarrow> [[c]]))"

text \<open>\<open>str.split()\<close>: the runs of characters between blanks.\<close>

fun blank_runs :: "string \<Rightarrow> string \<Rightarrow> string list" where
  "blank_runs acc [] = (if acc = [] then [] else [rev acc])"
| "blank_runs acc (c # cs) =
     (if is_space c then (if acc = [] then blank_runs [] cs else rev acc # blank_runs [] cs)
      else blank_runs (c # acc) cs)"

definition split_words :: "string \<Rightarrow> string list" where
  "split_words s = blank_runs [] s"

fun occurs_in :: "string \<Rightarrow> string \<Rightarrow> bool" where
  "occurs_in p [] \<longleftrightarrow> p = []"
| "occurs_in p (c # cs) \<longleftrightarrow> py_startswith (c # cs) p \<or> occurs_in p cs"

text \<open>\<open>s.replace(old, new, 1)\<close>.\<close>

fun replace_first :: "string \<Rightarrow> string \<Rightarrow> string \<Rightarrow> string" where
  "replace_first old new [] = (if old = [] then new else [])"
| "replace_first old new (c # cs) =
     (if py_startswith (c # cs) old then new @ drop (length old) (c # cs) else c # replace_first old new cs)"

definition joined_by :: "char \<Rightarrow> string list \<Rightarrow> string" where
  "joined_by d ls = (case ls of [] \<Rightarrow> [] | l # ls' \<Rightarrow> l @ concat (map (\<lambda>x. d # x) ls'))"

definition py_endswith :: "string \<Rightarrow> string \<Rightarrow> bool" where
  "py_endswith s p \<longleftrightarrow> length p \<le> length s \<and> drop (length s - length p) s = p"

definition py_rstrip :: "char \<Rightarrow> string \<Rightarrow> string" where
  "py_rstrip d s = rev (dropWhile (\<lambda>c. c = d) (rev s))"

lemma py_startswith_append [simp]: "py_startswith (p @ s) p"
  by (simp add: py_startswith_def)

lemma occurs_in_append: "occurs_in p (u @ p @ v)"
proof (induction u)
  case Nil
  show ?case by (cases p; cases "p @ v") (auto simp: py_startswith_def)
qed simp

lemma split_on_Cons_ne: "split_on d s \<noteq> []"
  by (induction s) (auto split: list.splits)

lemma split_on_plain: "d \<notin> set l \<Longrightarrow> split_on d (l @ s) = (case split_on d s of x # xs \<Rightarrow> (l @ x) # xs | [] \<Rightarrow> [l])"
  by (induction l) (auto split: list.splits simp: split_on_Cons_ne)

lemma split_on_joined:
  assumes "ls \<noteq> []" "list_all (\<lambda>l. d \<notin> set l) ls"
  shows "split_on d (joined_by d ls) = ls"
  using assms
proof (induction ls)
  case (Cons l ls)
  then show ?case
  proof (cases ls)
    case Nil
    then show ?thesis using Cons.prems split_on_plain [of d l "[]"] by (simp add: joined_by_def)
  next
    case (Cons l' ls')
    have "joined_by d (l # ls) = l @ d # joined_by d ls" by (simp add: joined_by_def Cons)
    then show ?thesis using Cons.IH Cons.prems Cons split_on_plain [of d l "d # joined_by d ls"] by simp
  qed
qed simp

end
