(* ===== verification/Selection.thy ===== *)
theory Selection
  imports CodeBlocks PyText
begin

text \<open>
  How the fold crowns the run's best node (\<open>looplab/events/replay_selection.py\<close>): the nodes a trust
  flag excludes, the promotion-eligible pool, the verifier's tie groups, the rule that a proven
  simplification takes a tie, the champion itself, and the events that feed them. The digests of
  a node's evidence come from \<open>looplab/core/fitness.py\<close>.
\<close>

section \<open>Evidence digests\<close>

definition opt_float :: "real option \<Rightarrow> pyval" where
  "opt_float m = (case m of Some r \<Rightarrow> PFloat (Fin r) | None \<Rightarrow> PNone)"

definition opt_int :: "int option \<Rightarrow> pyval" where
  "opt_int m = (case m of Some i \<Rightarrow> PInt i | None \<Rightarrow> PNone)"

text \<open>\<open>' '.join(s.split())\<close>.\<close>

definition squeeze :: "string \<Rightarrow> string" where
  "squeeze s = joined_by CHR '' '' (split_words s)"

definition evidence_gap :: "direction \<Rightarrow> node \<Rightarrow> real option" where
  "evidence_gap dir n =
     (case (n_metric n, case n_holdout_metric n of Some h \<Rightarrow> Some h | None \<Rightarrow> n_confirmed_mean n) of
        (Some m, Some r) \<Rightarrow> Some (case dir of Max \<Rightarrow> m - r | Min \<Rightarrow> r - m)
      | _ \<Rightarrow> None)"

definition evidence_row :: "direction \<Rightarrow> node \<Rightarrow> real option \<Rightarrow> real option \<Rightarrow> int option
    \<Rightarrow> real option \<Rightarrow> real option \<Rightarrow> pyval" where
  "evidence_row dir n mean std seeds holdout gap = PDict
     [(''v'', PInt 1), (''direction'', PStr (direction_name dir)), (''node_id'', PInt (n_id n)),
      (''generation'', PInt (n_attempt n)),
      (''rationale'', PStr (take 250 (squeeze (i_rationale (n_idea n))))),
      (''metric'', opt_float (n_metric n)), (''confirmed_mean'', opt_float mean),
      (''confirmed_std'', opt_float std), (''confirmed_seeds'', opt_int seeds),
      (''holdout_metric'', opt_float holdout), (''generalization_gap'', opt_float gap)]"

definition verifier_evidence_snapshot :: "direction \<Rightarrow> node \<Rightarrow> pyval" where
  "verifier_evidence_snapshot dir n = evidence_row dir n (n_confirmed_mean n) (n_confirmed_std n)
     (n_confirmed_seeds n) (n_holdout_metric n) (evidence_gap dir n)"

definition verifier_evidence_digest :: "externals \<Rightarrow> direction \<Rightarrow> node \<Rightarrow> string" where
  "verifier_evidence_digest X dir n = x_sha256 X (verifier_evidence_snapshot dir n)"

definition verifier_raw_evidence_digest :: "externals \<Rightarrow> direction \<Rightarrow> node \<Rightarrow> string" where
  "verifier_raw_evidence_digest X dir n = x_sha256 X (evidence_row dir n None None None None None)"

section \<open>Flags\<close>

definition is_hard_signal :: "string \<Rightarrow> bool" where
  "is_hard_signal sig0 \<longleftrightarrow> sig0 = ''critic:hardcoded_metric'' \<or> (let sig = py_strip sig0 in
     sig \<noteq> [] \<and> \<not> list_ex (py_startswith sig)
       [''critic:'', ''perfect_metric'', ''protected_audit_unavailable'', ''suspicious_output''])"

definition record_signals :: "payload \<Rightarrow> payload list" where
  "record_signals rh = (case pget rh ''signals'' of
      PList xs \<Rightarrow> List.map_filter as_dict xs | _ \<Rightarrow> [])"

definition has_current_hard_signal :: "run_state \<Rightarrow> payload \<Rightarrow> bool" where
  "has_current_hard_signal st rh = (case node_for_event st rh of
      None \<Rightarrow> False
    | Some n \<Rightarrow> eq_int (pget_or rh ''generation'' (PInt (n_attempt n))) (n_attempt n)
        \<and> list_ex (\<lambda>s. is_hard_signal (py_str (pget_or s ''signal'' (PStr [])))) (record_signals rh))"

definition hard_flagged_ids :: "run_state \<Rightarrow> int set" where
  "hard_flagged_ids st = set (List.map_filter node_id_of
     (filter (has_current_hard_signal st) (st_reward_hacks st)))"

definition activation_gated_ids :: "run_state \<Rightarrow> int set" where
  "activation_gated_ids st = fst ` set (filter (\<lambda>(nid, n). n_status n = Evaluated
       \<and> activation_unverified n
       \<and> (case n_activation n of Some r \<Rightarrow> pget r ''gate'' = PStr ''gate'' | None \<Rightarrow> False))
     (st_nodes st))"

definition flagged_node_ids :: "run_state \<Rightarrow> int set" where
  "flagged_node_ids st =
     (if st_trust_gate st \<in> {''gate'', ''block''} then hard_flagged_ids st else {})
       \<union> activation_gated_ids st"

definition promotion_eligible_nodes :: "run_state \<Rightarrow> int set \<Rightarrow> node list" where
  "promotion_eligible_nodes st excluded =
     filter (\<lambda>n. eligible n excluded (st_aborted_nodes st)) (evaluated_nodes st)"

section \<open>The verifier's tie groups\<close>

definition champion_tie :: "run_state \<Rightarrow> node list \<Rightarrow> (node \<Rightarrow> real option) \<Rightarrow> node list" where
  "champion_tie st nodes metric_of =
     (let candidates = filter (\<lambda>n. metric_of n \<noteq> None) nodes in
      case chooser (st_direction st) (\<lambda>n. (the_metric (metric_of n), n_id n)) candidates of
        None \<Rightarrow> []
      | Some leader \<Rightarrow> filter (\<lambda>n. metric_of n = metric_of leader) candidates)"

definition verifier_tie_groups :: "run_state \<Rightarrow> bool option \<Rightarrow> bool option \<Rightarrow> node list list" where
  "verifier_tie_groups st holdout_select ci_tie =
     (let hs = (case holdout_select of None \<Rightarrow> st_holdout_select st | Some b \<Rightarrow> b);
          ci = (case ci_tie of None \<Rightarrow> st_verifier_ci_tie st | Some b \<Rightarrow> b);
          pool0 = promotion_eligible_nodes st (flagged_node_ids st);
          confirmed = filter (\<lambda>n. n_confirmed_mean n \<noteq> None) pool0;
          pool = (if confirmed \<noteq> [] then confirmed else pool0);
          holdout_pool = filter (\<lambda>n. n_holdout_metric n \<noteq> None) pool0;
          tied = (if hs \<and> holdout_pool \<noteq> [] then champion_tie st holdout_pool n_holdout_metric
                  else if ci then ci_tie_set (search_fitness (st_direction st) True True) pool
                  else champion_tie st pool robust_metric) in
      if 2 \<le> length tied \<and> list_ex (\<lambda>n. n_verifier_score n = None) tied
      then [py_sorted False n_id tied] else [])"

section \<open>The simpler twin takes a tie\<close>

definition raw_verifier_score :: "externals \<Rightarrow> run_state \<Rightarrow> node \<Rightarrow> real option" where
  "raw_verifier_score X st n = (case n_verifier_raw_score n of
      Some (dig, s) \<Rightarrow> if dig = verifier_raw_evidence_digest X (st_direction st) n then Some s else None
    | None \<Rightarrow> None)"

definition unit_score :: "real option \<Rightarrow> bool" where
  "unit_score v = (case v of Some r \<Rightarrow> 0 \<le> r \<and> r \<le> 1 | None \<Rightarrow> False)"

fun first_decided :: "(real option \<times> real option) list \<Rightarrow> bool" where
  "first_decided [] = False"
| "first_decided ((a, b) # ps) =
     (if unit_score a \<and> unit_score b then the_metric b < the_metric a else first_decided ps)"

definition verifier_prefers :: "externals \<Rightarrow> run_state \<Rightarrow> node \<Rightarrow> node \<Rightarrow> bool \<Rightarrow> bool" where
  "verifier_prefers X st leader oth raw =
     (st_select_verifier_tiebreak st \<and> first_decided
        ((if raw then [] else [(n_verifier_score leader, n_verifier_score oth)])
         @ [(raw_verifier_score X st leader, raw_verifier_score X st oth)]))"

text \<open>The spread of the pair counts only when both are confirmed and the comparison is on the
  confirmed scale.\<close>

definition pair_spread :: "bool \<Rightarrow> node \<Rightarrow> node \<Rightarrow> node \<Rightarrow> real option \<times> int option" where
  "pair_spread single a b n =
     (if \<not> single \<and> n_confirmed_mean a \<noteq> None \<and> n_confirmed_mean b \<noteq> None
      then (n_confirmed_std n, n_confirmed_seeds n) else (Some 0, Some 0))"

definition beats :: "run_state \<Rightarrow> bool \<Rightarrow> (node \<Rightarrow> real option) \<Rightarrow> node \<Rightarrow> node \<Rightarrow> bool" where
  "beats st single value oth candidate =
     (let so = pair_spread single oth candidate oth; sc = pair_spread single oth candidate candidate in
      one_se_better (the_metric (value oth)) (the_metric (value candidate)) (fst so) (snd so)
        (st_direction st) (fst sc) (snd sc))"

definition significantly_beaten ::
  "run_state \<Rightarrow> node \<Rightarrow> node list \<Rightarrow> (node \<Rightarrow> real option) \<Rightarrow> bool \<Rightarrow> bool" where
  "significantly_beaten st candidate pool value holdout = list_ex (\<lambda>oth.
     n_id oth \<noteq> n_id candidate \<and> value oth \<noteq> None
     \<and> (holdout \<or> (n_confirmed_mean oth = None) = (n_confirmed_mean candidate = None))
     \<and> beats st holdout value oth candidate) pool"

definition tie_value :: "bool \<Rightarrow> bool \<Rightarrow> node \<Rightarrow> real option" where
  "tie_value holdout raw n =
     (if holdout then n_holdout_metric n else if raw then n_metric n else robust_metric n)"

text \<open>The test one reached candidate has to pass.\<close>

definition holds_the_tie ::
  "externals \<Rightarrow> run_state \<Rightarrow> node \<Rightarrow> node list \<Rightarrow> bool \<Rightarrow> bool \<Rightarrow> node \<Rightarrow> bool" where
  "holds_the_tie X st leader members holdout raw c =
     (let single = (holdout \<or> raw); value = tie_value holdout raw;
          sc = pair_spread single c leader c; sl = pair_spread single c leader leader in
      value c \<noteq> None
      \<and> (single \<or> (n_confirmed_mean c = None) = (n_confirmed_mean leader = None))
      \<and> one_se_non_inferior (the_metric (value c)) (the_metric (value leader)) (fst sc) (snd sc)
          (st_direction st) (fst sl) (snd sl)
      \<and> \<not> verifier_prefers X st leader c raw
      \<and> \<not> significantly_beaten st c members value single)"

definition children_of :: "run_state \<Rightarrow> int \<Rightarrow> node list" where
  "children_of st pid = filter (\<lambda>n. case n_simplified n of
      Some receipt \<Rightarrow> eq_int (pget receipt ''parent_id'') pid | None \<Rightarrow> False) (nodes_of st)"

type_synonym tie_key = "int \<times> real \<times> int"

record tie_walk =
  w_frontier :: "(node \<times> int) list"
  w_seen :: "int list"
  w_chosen :: node
  w_key :: "tie_key option"

text \<open>One child of the node just popped: skipped when seen or no longer a cut, otherwise pushed,
  and chosen when it holds the tie with a greater key.\<close>

definition tie_visit :: "externals \<Rightarrow> run_state \<Rightarrow> node \<Rightarrow> (int \<times> node) list \<Rightarrow> bool \<Rightarrow> bool
    \<Rightarrow> node \<Rightarrow> int \<Rightarrow> node \<Rightarrow> tie_walk \<Rightarrow> tie_walk" where
  "tie_visit X st leader members holdout raw parent depth child w =
     (if n_id child \<in> set (w_seen w) \<or> \<not> still_cut_of parent child then w
      else (let w1 = w\<lparr>w_seen := n_id child # w_seen w,
                       w_frontier := (child, depth + 1) # w_frontier w\<rparr> in
        (case dict_get members (n_id child) of
           None \<Rightarrow> w1
         | Some c \<Rightarrow>
             (if \<not> holds_the_tie X st leader (dict_values members) holdout raw c then w1
              else (let key = (depth + 1,
                      (case st_direction st of Max \<Rightarrow> 1 | Min \<Rightarrow> - 1) * the_metric (tie_value holdout raw c),
                      - n_id c) in
                (case w_key w of
                   Some k \<Rightarrow> if k < key then w1\<lparr>w_chosen := c, w_key := Some key\<rparr> else w1
                 | None \<Rightarrow> w1\<lparr>w_chosen := c, w_key := Some key\<rparr>))))))"

definition tie_visits :: "externals \<Rightarrow> run_state \<Rightarrow> node \<Rightarrow> (int \<times> node) list \<Rightarrow> bool \<Rightarrow> bool
    \<Rightarrow> node \<Rightarrow> int \<Rightarrow> node list \<Rightarrow> tie_walk \<Rightarrow> tie_walk" where
  "tie_visits X st leader members holdout raw parent depth children w =
     foldl (\<lambda>w child. tie_visit X st leader members holdout raw parent depth child w) w children"

text \<open>Every push marks a node of the state seen, so the nodes not yet seen and the frontier together
  shrink with each pop.\<close>

definition unseen :: "run_state \<Rightarrow> tie_walk \<Rightarrow> nat" where
  "unseen st w = card (n_id ` set (nodes_of st) - set (w_seen w))"

lemma tie_visit_measure:
  assumes "child \<in> set (nodes_of st)"
  shows "unseen st (tie_visit X st leader members holdout raw parent depth child w)
      + length (w_frontier (tie_visit X st leader members holdout raw parent depth child w))
    \<le> unseen st w + length (w_frontier w)"
proof (cases "n_id child \<in> set (w_seen w) \<or> \<not> still_cut_of parent child")
  case True
  then show ?thesis by (simp add: tie_visit_def)
next
  case False
  let ?A = "n_id ` set (nodes_of st) - set (w_seen w)"
  have "n_id ` set (nodes_of st) - insert (n_id child) (set (w_seen w)) = ?A - {n_id child}" by auto
  moreover have "n_id child \<in> ?A" using assms False by auto
  ultimately have "card (n_id ` set (nodes_of st) - insert (n_id child) (set (w_seen w))) < card ?A"
    by (metis card_Diff1_less finite_Diff finite_imageI finite_set)
  then show ?thesis
    using False by (auto simp: tie_visit_def Let_def unseen_def split: option.splits)
qed

lemma tie_visits_measure:
  assumes "set children \<subseteq> set (nodes_of st)"
  shows "unseen st (tie_visits X st leader members holdout raw parent depth children w)
      + length (w_frontier (tie_visits X st leader members holdout raw parent depth children w))
    \<le> unseen st w + length (w_frontier w)"
  using assms
proof (induction children arbitrary: w)
  case Nil
  then show ?case by (simp add: tie_visits_def)
next
  case (Cons child children)
  have "unseen st (tie_visit X st leader members holdout raw parent depth child w)
      + length (w_frontier (tie_visit X st leader members holdout raw parent depth child w))
    \<le> unseen st w + length (w_frontier w)"
    using Cons.prems by (simp add: tie_visit_measure)
  with Cons.IH [of "tie_visit X st leader members holdout raw parent depth child w"] Cons.prems
  show ?case by (simp add: tie_visits_def)
qed

function tie_search :: "externals \<Rightarrow> run_state \<Rightarrow> node \<Rightarrow> (int \<times> node) list \<Rightarrow> bool \<Rightarrow> bool
    \<Rightarrow> tie_walk \<Rightarrow> tie_walk" where
  "tie_search X st leader members holdout raw w = (case w_frontier w of
      [] \<Rightarrow> w
    | (parent, depth) # rest \<Rightarrow> tie_search X st leader members holdout raw
        (tie_visits X st leader members holdout raw parent depth (children_of st (n_id parent))
           (w\<lparr>w_frontier := rest\<rparr>)))"
  by pat_completeness auto

lemma children_in_nodes: "set (children_of st pid) \<subseteq> set (nodes_of st)"
  by (auto simp: children_of_def)

termination tie_search
proof (relation "measure (\<lambda>(X, st, leader, members, holdout, raw, w). unseen st w + length (w_frontier w))",
       simp, goal_cases)
  case (1 X st leader members holdout raw w x rest parent depth)
  have "unseen st (w\<lparr>w_frontier := rest\<rparr>) = unseen st w" by (simp add: unseen_def)
  moreover have "length (w_frontier w) = Suc (length rest)" using 1 by simp
  ultimately show ?case
    using tie_visits_measure [OF children_in_nodes [of st "n_id parent"],
        of X leader members holdout raw parent depth "w\<lparr>w_frontier := rest\<rparr>"] by simp
qed

declare tie_search.simps [simp del]

definition simpler_tie ::
  "externals \<Rightarrow> run_state \<Rightarrow> node option \<Rightarrow> node list \<Rightarrow> bool \<Rightarrow> bool \<Rightarrow> node option" where
  "simpler_tie X st leader0 pool holdout raw = (case leader0 of
      None \<Rightarrow> None
    | Some leader \<Rightarrow>
        (if \<not> list_ex (\<lambda>n. n_simplified n \<noteq> None) (nodes_of st) then Some leader
         else if tie_value holdout raw leader = None then Some leader
         else Some (w_chosen (tie_search X st leader (dict_of (map (\<lambda>n. (n_id n, n)) pool)) holdout raw
                \<lparr>w_frontier = [(leader, 0)], w_seen = [n_id leader], w_chosen = leader, w_key = None\<rparr>))))"

definition simpler_slots :: "externals \<Rightarrow> run_state \<Rightarrow> node list \<Rightarrow> int \<Rightarrow> bool \<Rightarrow> node list" where
  "simpler_slots X st ranked_nodes k raw =
     (let picked = take (nat (max 0 k)) ranked_nodes in
      (case picked of [] \<Rightarrow> []
       | lead # _ \<Rightarrow> (case simpler_tie X st (Some lead) ranked_nodes False raw of
           Some head \<Rightarrow> if head \<noteq> lead \<and> head \<notin> set picked then picked @ [head] else picked
         | None \<Rightarrow> picked)))"

section \<open>The champion\<close>

definition node_at :: "run_state \<Rightarrow> int \<Rightarrow> node option" where
  "node_at st nid = dict_get (st_nodes st) nid"

definition select_best_node ::
  "externals \<Rightarrow> run_state \<Rightarrow> node list \<Rightarrow> int option \<Rightarrow> bool \<Rightarrow> node option" where
  "select_best_node X st evaluated best_confirmed best_confirmed_significant =
     (let fit = search_fitness (st_direction st) (st_select_verifier_tiebreak st) (st_verifier_ci_tie st);
          members = set (map n_id evaluated);
          confirmed = filter (\<lambda>n. n_confirmed_mean n \<noteq> None) evaluated;
          candidates = (if confirmed \<noteq> [] then confirmed else evaluated);
          chosen1 = best_ci fit candidates;
          chosen2 = (case best_confirmed of
              Some b \<Rightarrow> if b \<in> members \<and> (best_confirmed_significant \<or> \<not> st_verifier_ci_tie st)
                        then node_at st b else chosen1
            | None \<Rightarrow> chosen1);
          chosen3 = simpler_tie X st chosen2 candidates False False;
          hpool = filter (\<lambda>n. n_holdout_metric n \<noteq> None) evaluated;
          chosen4 = (if st_holdout_select st \<and> hpool \<noteq> []
                     then simpler_tie X st (best_holdout fit hpool) hpool True False else chosen3) in
      (case st_approved_node_id st of
         Some a \<Rightarrow> if st_approved st \<and> a \<in> members then node_at st a else chosen4
       | None \<Rightarrow> chosen4))"

definition gap_from :: "direction \<Rightarrow> real \<Rightarrow> real \<Rightarrow> real" where
  "gap_from dir a b = (case dir of Max \<Rightarrow> a - b | Min \<Rightarrow> b - a)"

definition set_gaps :: "direction \<Rightarrow> node \<Rightarrow> node" where
  "set_gaps dir n =
     (let robust = (case n_holdout_metric n of Some h \<Rightarrow> Some h | None \<Rightarrow> n_confirmed_mean n);
          n1 = (case (robust, n_metric n) of
              (Some r, Some m) \<Rightarrow> n\<lparr>n_generalization_gap := Some (gap_from dir m r)\<rparr> | _ \<Rightarrow> n) in
      (case (n_self_metric n, n_metric n) of
         (Some s, Some m) \<Rightarrow> n1\<lparr>n_self_report_gap := Some (gap_from dir s m)\<rparr> | _ \<Rightarrow> n1))"

definition apply_trust_gate :: "run_state \<Rightarrow> run_state \<times> int set" where
  "apply_trust_gate st =
     (let flagged = flagged_node_ids st; st1 = st\<lparr>st_breed_excluded := flagged\<rparr> in
      (if st_trust_gate st = ''block''
       then st1\<lparr>st_nodes := map (\<lambda>(k, n). (k, if k \<in> flagged \<inter> hard_flagged_ids st
                 then n\<lparr>n_feasible := False\<rparr> else n)) (st_nodes st1)\<rparr>
       else st1, flagged))"

definition select_best :: "externals \<Rightarrow> int set \<Rightarrow> int option \<Rightarrow> bool \<Rightarrow> run_state \<Rightarrow> run_state" where
  "select_best X flagged best_confirmed best_confirmed_significant st =
     (let evaluated = promotion_eligible_nodes st flagged;
          chosen = select_best_node X st evaluated best_confirmed best_confirmed_significant;
          st1 = (case chosen of Some n \<Rightarrow> st\<lparr>st_best_node_id := Some (n_id n)\<rparr> | None \<Rightarrow> st);
          st2 = (case st_approved_node_id st1 of
              Some a \<Rightarrow> if st_approved st1 \<and> a \<notin> set (map n_id evaluated)
                        then st1\<lparr>st_approved := False, st_approved_node_id := None\<rparr> else st1
            | None \<Rightarrow> st1);
          st3 = st2\<lparr>st_confirm_certificate_node := best_confirmed,
                    st_confirm_certificate_significant := best_confirmed_significant\<rparr> in
      upd_nodes (set_gaps (st_direction st)) st3)"

end
