(* ===== verification/SelectionProps.thy ===== *)
theory SelectionProps
  imports Selection
begin

text \<open>
  What holds of the champion: it is always promotion-eligible, a flagged or dead node is never
  crowned nor bred from, and a simplification takes the tie only through a chain of cuts each
  still its parent's, holding the leader's value within the leader's own standard error.
\<close>

section \<open>The simplification search\<close>

inductive cut_chain :: "run_state \<Rightarrow> node \<Rightarrow> node \<Rightarrow> bool" for st where
  chain_refl: "cut_chain st a a"
| chain_step: "cut_chain st a p \<Longrightarrow> c \<in> set (children_of st (n_id p)) \<Longrightarrow> still_cut_of p c
    \<Longrightarrow> cut_chain st a c"

inductive_cases cut_chainE: "cut_chain st a b"

definition tie_sound :: "externals \<Rightarrow> run_state \<Rightarrow> node \<Rightarrow> (int \<times> node) list \<Rightarrow> bool \<Rightarrow> bool
    \<Rightarrow> tie_walk \<Rightarrow> bool" where
  "tie_sound X st leader members holdout raw w \<longleftrightarrow>
     (\<forall>(p, k) \<in> set (w_frontier w). cut_chain st leader p)
     \<and> (w_chosen w = leader \<or>
        (\<exists>child. cut_chain st leader child \<and> dict_get members (n_id child) = Some (w_chosen w)
           \<and> holds_the_tie X st leader (dict_values members) holdout raw (w_chosen w)))"

lemma tie_sound_visit:
  assumes "tie_sound X st leader members holdout raw w" and "cut_chain st leader parent"
    and "child \<in> set (children_of st (n_id parent))"
  shows "tie_sound X st leader members holdout raw
      (tie_visit X st leader members holdout raw parent depth child w)"
proof (cases "n_id child \<in> set (w_seen w) \<or> \<not> still_cut_of parent child")
  case True
  then show ?thesis using assms(1) by (simp add: tie_visit_def)
next
  case False
  have chain: "cut_chain st leader child"
    using chain_step [OF assms(2,3)] False by simp
  show ?thesis
    using assms(1) False chain
    by (auto simp: tie_visit_def Let_def tie_sound_def split: option.splits)
qed

lemma tie_sound_visits:
  assumes "set children \<subseteq> set (children_of st (n_id parent))"
    and "tie_sound X st leader members holdout raw w" and "cut_chain st leader parent"
  shows "tie_sound X st leader members holdout raw
      (tie_visits X st leader members holdout raw parent depth children w)"
  using assms
proof (induction children arbitrary: w)
  case Nil
  then show ?case by (simp add: tie_visits_def)
next
  case (Cons c cs)
  have "tie_sound X st leader members holdout raw
      (tie_visit X st leader members holdout raw parent depth c w)"
    using Cons.prems by (intro tie_sound_visit) auto
  then show ?case
    using Cons.IH [of "tie_visit X st leader members holdout raw parent depth c w"] Cons.prems
    by (simp add: tie_visits_def)
qed

lemma tie_sound_search:
  "tie_sound X st leader members holdout raw w \<Longrightarrow>
   tie_sound X st leader members holdout raw (tie_search X st leader members holdout raw w)"
proof (induction X st leader members holdout raw w rule: tie_search.induct)
  case (1 X st leader members holdout raw w)
  show ?case
  proof (cases "w_frontier w")
    case Nil
    then show ?thesis using 1(2) by (subst tie_search.simps) simp
  next
    case (Cons x rest)
    obtain parent depth where x: "x = (parent, depth)" by (cases x)
    have "tie_sound X st leader members holdout raw (w\<lparr>w_frontier := rest\<rparr>)"
      and "cut_chain st leader parent"
      using 1(2) Cons x by (auto simp: tie_sound_def)
    then have "tie_sound X st leader members holdout raw
        (tie_visits X st leader members holdout raw parent depth (children_of st (n_id parent))
          (w\<lparr>w_frontier := rest\<rparr>))"
      by (intro tie_sound_visits) auto
    then show ?thesis
      using 1(1) [OF Cons, of parent depth] x Cons by (subst tie_search.simps) simp
  qed
qed

lemma simpler_tie_cases:
  assumes "simpler_tie X st (Some leader) pool holdout raw = Some c"
  shows "c = leader \<or>
     (c \<in> set pool \<and> (\<exists>child. cut_chain st leader child \<and> n_id child = n_id c)
      \<and> (\<exists>members. set members \<subseteq> set pool \<and> holds_the_tie X st leader members holdout raw c))"
proof -
  let ?m = "dict_of (map (\<lambda>n. (n_id n, n)) pool)"
  let ?w = "\<lparr>w_frontier = [(leader, 0)], w_seen = [n_id leader], w_chosen = leader, w_key = None\<rparr>"
  have get: "dict_get ?m k = Some n \<Longrightarrow> n \<in> set pool \<and> n_id n = k" for k n
    by (auto simp: dict_get_dict_of dest!: map_of_SomeD)
  have vals: "set (dict_values ?m) \<subseteq> set pool"
    using get dict_get_iff_in_set [OF distinct_dict_of [of "map (\<lambda>n. (n_id n, n)) pool"]]
    by (fastforce simp: dict_values_def)
  have s: "tie_sound X st leader ?m holdout raw ?w"
    by (simp add: tie_sound_def chain_refl)
  have "tie_sound X st leader ?m holdout raw (tie_search X st leader ?m holdout raw ?w)"
    by (rule tie_sound_search [OF s])
  then have "c = leader \<or> (\<exists>child. cut_chain st leader child \<and> dict_get ?m (n_id child) = Some c
         \<and> holds_the_tie X st leader (dict_values ?m) holdout raw c)"
    using assms by (auto simp: simpler_tie_def tie_sound_def split: if_splits)
  then show ?thesis
    using get vals by metis
qed

lemma simpler_tie_None [simp]: "simpler_tie X st l pool h r = None \<longleftrightarrow> l = None"
  by (simp add: simpler_tie_def split: option.splits)

lemma simpler_tie_in_pool:
  assumes "simpler_tie X st l pool h r = Some c" and "\<And>m. l = Some m \<Longrightarrow> m \<in> P" and "set pool \<subseteq> P"
  shows "c \<in> P"
proof (cases l)
  case None
  then show ?thesis using assms(1) by (simp add: simpler_tie_def)
next
  case (Some leader)
  then show ?thesis
    using simpler_tie_cases [of X st leader pool h r c] assms by auto
qed

section \<open>The champion\<close>

lemma best_ci_in: "best_ci fit nodes = Some n \<Longrightarrow> n \<in> set nodes"
  by (auto simp: best_ci_def fit_best_def ci_tie_set_def Let_def dest!: chooser_in
      split: option.splits if_splits)

lemma best_holdout_in: "best_holdout fit nodes = Some n \<Longrightarrow> n \<in> set nodes"
  by (auto simp: best_holdout_def fit_best_def Let_def dest!: chooser_in
      split: option.splits if_splits)

lemma node_at_in_pool:
  assumes "wf_nodes (st_nodes st)" and "set pool \<subseteq> set (nodes_of st)" and "b \<in> set (map n_id pool)"
    and "node_at st b = Some n"
  shows "n \<in> set pool"
proof -
  obtain m where m: "m \<in> set pool" "n_id m = b" using assms(3) by auto
  then have "dict_get (st_nodes st) b = Some m"
    using assms(1,2) by (auto simp: wf_nodes_get_iff nodes_of_def)
  then show ?thesis using assms(4) m by (simp add: node_at_def)
qed

lemma select_best_node_in_pool:
  assumes wf: "wf_nodes (st_nodes st)" and sub: "set pool \<subseteq> set (nodes_of st)"
    and sel: "select_best_node X st pool bc sig = Some n"
  shows "n \<in> set pool"
proof -
  define fit where "fit = search_fitness (st_direction st) (st_select_verifier_tiebreak st) (st_verifier_ci_tie st)"
  define cands where "cands = (if filter (\<lambda>n. n_confirmed_mean n \<noteq> None) pool \<noteq> []
      then filter (\<lambda>n. n_confirmed_mean n \<noteq> None) pool else pool)"
  define hpool where "hpool = filter (\<lambda>n. n_holdout_metric n \<noteq> None) pool"
  define c2 where "c2 = (case bc of
        Some b \<Rightarrow> if b \<in> set (map n_id pool) \<and> (sig \<or> \<not> st_verifier_ci_tie st)
                  then node_at st b else best_ci fit cands
      | None \<Rightarrow> best_ci fit cands)"
  define c3 where "c3 = simpler_tie X st c2 cands False False"
  define c4 where "c4 = (if st_holdout_select st \<and> hpool \<noteq> []
      then simpler_tie X st (best_holdout fit hpool) hpool True False else c3)"
  have cs: "set cands \<subseteq> set pool" by (auto simp: cands_def)
  have hs: "set hpool \<subseteq> set pool" by (auto simp: hpool_def)
  have at: "node_at st b = Some m \<Longrightarrow> b \<in> set (map n_id pool) \<Longrightarrow> m \<in> set pool" for b m
    using node_at_in_pool [OF wf sub] by blast
  have "c2 = Some m \<Longrightarrow> m \<in> set pool" for m
    using at [of _ m] cs best_ci_in [of fit cands m]
    by (auto simp: c2_def split: option.splits if_splits)
  then have c3: "c3 = Some m \<Longrightarrow> m \<in> set pool" for m
    unfolding c3_def using simpler_tie_in_pool cs by blast
  have "best_holdout fit hpool = Some m \<Longrightarrow> m \<in> set pool" for m
    using hs by (auto dest!: best_holdout_in)
  then have c4: "c4 = Some m \<Longrightarrow> m \<in> set pool" for m
    using c3 simpler_tie_in_pool [OF _ _ hs] by (auto simp: c4_def split: if_splits)
  have "select_best_node X st pool bc sig = (case st_approved_node_id st of
         Some a \<Rightarrow> if st_approved st \<and> a \<in> set (map n_id pool) then node_at st a else c4
       | None \<Rightarrow> c4)"
    unfolding select_best_node_def Let_def c4_def c3_def c2_def cands_def hpool_def fit_def
    by (rule refl)
  then show ?thesis
    using sel c4 at by (auto split: option.splits if_splits)
qed

lemma set_promotion_eligible: "n \<in> set (promotion_eligible_nodes st F) \<longleftrightarrow>
    n \<in> set (nodes_of st) \<and> n_status n = Evaluated \<and> \<not> n_tombstoned n \<and> n_feasible n
    \<and> n_id n \<notin> F \<and> n_id n \<notin> set (st_aborted_nodes st) \<and> robust_metric n \<noteq> None"
  by (auto simp: promotion_eligible_nodes_def evaluated_nodes_def eligible_def counts_toward_best_def)

lemma set_gaps_simps [simp]:
  "n_id (set_gaps dir n) = n_id n" "n_status (set_gaps dir n) = n_status n"
  "n_tombstoned (set_gaps dir n) = n_tombstoned n" "n_feasible (set_gaps dir n) = n_feasible n"
  "n_metric (set_gaps dir n) = n_metric n" "n_confirmed_mean (set_gaps dir n) = n_confirmed_mean n"
  "n_error_reason (set_gaps dir n) = n_error_reason n"
  "robust_metric (set_gaps dir n) = robust_metric n"
  by (auto simp: set_gaps_def Let_def robust_metric_def split: option.splits)

lemma select_best_simps [simp]:
  "st_aborted_nodes (select_best X F bc sig st) = st_aborted_nodes st"
  "st_breed_excluded (select_best X F bc sig st) = st_breed_excluded st"
  "st_nodes (select_best X F bc sig st) = dict_map_values (set_gaps (st_direction st)) (st_nodes st)"
  by (auto simp: select_best_def Let_def upd_nodes_def split: option.splits)

lemma select_best_id:
  "st_best_node_id (select_best X F bc sig st) =
     (case select_best_node X st (promotion_eligible_nodes st F) bc sig of
        Some n \<Rightarrow> Some (n_id n) | None \<Rightarrow> st_best_node_id st)"
  by (auto simp: select_best_def Let_def upd_nodes_def split: option.splits)

theorem champion_is_eligible:
  assumes wf: "wf_nodes (st_nodes st)" and fresh: "st_best_node_id st = None"
    and best: "st_best_node_id (select_best X F bc sig st) = Some b"
  shows "\<exists>n. dict_get (st_nodes st) b = Some n \<and> n_status n = Evaluated \<and> \<not> n_tombstoned n
     \<and> n_feasible n \<and> robust_metric n \<noteq> None \<and> b \<notin> F \<and> b \<notin> set (st_aborted_nodes st)"
proof -
  obtain n where n: "select_best_node X st (promotion_eligible_nodes st F) bc sig = Some n" "n_id n = b"
    using best fresh by (auto simp: select_best_id split: option.splits)
  have sub: "set (promotion_eligible_nodes st F) \<subseteq> set (nodes_of st)"
    by (auto simp: set_promotion_eligible)
  have "n \<in> set (promotion_eligible_nodes st F)"
    by (rule select_best_node_in_pool [OF wf sub n(1)])
  then show ?thesis
    using n(2) wf by (auto simp: set_promotion_eligible wf_nodes_get_iff nodes_of_def)
qed

end
