(* ===== verification/FinalizeScope.thy ===== *)
theory FinalizeScope
  imports ReplayCtx
begin

text \<open>
  The finalization claim read off the log (\<open>looplab/events/finalize_scope.py\<close>, with the event
  classes of \<open>looplab/events/types.py\<close>): when a staged finish is still quiescent, which scope a
  restart has to complete, and the reasons the outer guard writes. Adding a finalization's own
  effects keeps its scope quiescent; a foreign domain event ends it for good.
\<close>

section \<open>Event classes\<close>

definition diagnostic_events :: "string set" where
  "diagnostic_events = insert ''finalize_step'' (set [
      ''agent_checkpointed'', ''agent_phase_completed'', ''agent_phase_started'',
      ''artifact_sync_started'', ''artifact_synced'', ''asha_rank'', ''asha_verdict'',
      ''belief_admission'', ''budget'', ''card_ranking_staged'', ''code_snapshot'',
      ''command_ack'', ''concept_lens_completed'', ''concept_lens_failed'',
      ''concept_lens_started'', ''data_shift'', ''deps_declared'', ''deps_installed'',
      ''drift_unavailable'', ''effective_config'', ''effective_train_batch'',
      ''eval_attempt_withheld'', ''eval_canary_finished'', ''eval_canary_started'',
      ''eval_invocation_claimed'', ''eval_invocation_recovered'',
      ''eval_invocation_settled'', ''fork_unfulfilled'', ''full_retrain_charged'',
      ''hypothesis_merge_reviewed'', ''inject_failed'', ''lane_armed'', ''lane_authored'',
      ''lane_held'', ''lessons_reconciled'', ''lessons_store_unavailable'',
      ''log_repaired'', ''memory_read'', ''node_build_delta'', ''operator_request_parked'',
      ''phase_progress'', ''prior_injected'', ''readmodel_skipped'', ''reflection_note'',
      ''repair_critic_verdict'', ''report_refresh_failed'', ''report_refresh_started'',
      ''run_loop_exited'', ''setup_started'', ''setup_step'', ''skills_promoted'',
      ''stage_rollback'', ''task_changed'', ''trace_export_health'',
      ''train_monitor_alert'', ''trust_scan'', ''upstream_hint_delivered'',
      ''workspace_seeded''])"

definition fence_neutral_events :: "string set" where
  "fence_neutral_events = insert ''llm_usage'' (diagnostic_events - {''finalize_step''})"

definition guarded_abort_reasons :: "string list" where
  "guarded_abort_reasons = [''error'', ''budget_exhausted'']"

definition is_guarded_abort :: "pyval \<Rightarrow> bool" where
  "is_guarded_abort reason \<longleftrightarrow>
     py_lower (py_str (if truthy reason then reason else PStr [])) \<in> set guarded_abort_reasons"

section \<open>Claims\<close>

definition adjacent_claim :: "event \<Rightarrow> bool" where
  "adjacent_claim e = (if \<not> phas (e_data e) ''after_seq'' then True
     else (case pget (e_data e) ''after_seq'' of
         PBool b \<Rightarrow> False
       | raw \<Rightarrow> (case py_int raw of Some after_seq \<Rightarrow> e_seq e = after_seq + 1 | None \<Rightarrow> False)))"

definition is_step :: "string \<Rightarrow> string \<Rightarrow> event \<Rightarrow> bool" where
  "is_step scope step e \<longleftrightarrow> e_type e = ''finalize_step''
     \<and> pget (e_data e) ''scope'' = PStr scope \<and> pget (e_data e) ''step'' = PStr step"

definition is_begun_claim :: "string \<Rightarrow> event \<Rightarrow> bool" where
  "is_begun_claim scope e \<longleftrightarrow> is_step scope ''begun'' e \<and> adjacent_claim e"

definition finalize_begun :: "event list \<Rightarrow> string \<Rightarrow> event option" where
  "finalize_begun es scope = List.find (is_begun_claim scope) (rev es)"

definition scope_has_step :: "event list \<Rightarrow> string \<Rightarrow> string \<Rightarrow> bool" where
  "scope_has_step es scope step = list_ex (is_step scope step) es"

section \<open>Quiescence\<close>

text \<open>One event seen after the claim: part of this finalization or of the diagnostics around it.\<close>

definition own_effect :: "string \<Rightarrow> event \<Rightarrow> bool" where
  "own_effect scope e \<longleftrightarrow> (let d = e_data e; ty = e_type e in
     ty = ''finalize_step'' \<and> pget d ''scope'' = PStr scope
     \<or> ty = ''report_generated'' \<and> pget d ''finalize_scope'' = PStr scope
     \<or> ty \<in> fence_neutral_events
     \<or> ty \<in> {''llm_usage'', ''command_ack'', ''readmodel_skipped'', ''reflection_note'',
              ''lessons_distilled'', ''card_enriched''}
     \<or> ty \<in> {''budget'', ''diversity_archive'', ''llm_cost''} \<and> pget d ''finalize_scope'' = PStr scope
     \<or> ty = ''finalization_finished''
     \<or> ty = ''run_finished'' \<and> (pget d ''finalize_scope'' = PStr scope \<and> adjacent_claim e
                                \<or> is_guarded_abort (pget d ''reason'')))"

definition finalize_scope_quiescent :: "event list \<Rightarrow> string \<Rightarrow> bool" where
  "finalize_scope_quiescent es scope = (case finalize_begun es scope of
      None \<Rightarrow> True
    | Some begun \<Rightarrow> list_all (\<lambda>e. e_seq e \<le> e_seq begun \<or> own_effect scope e) es)"

definition claim_of :: "event \<Rightarrow> string option" where
  "claim_of e = (let d = e_data e;
       is_begun = (e_type e = ''finalize_step'' \<and> pget d ''step'' = PStr ''begun'' \<and> adjacent_claim e);
       is_finished = (e_type e = ''run_finished'' \<and> \<not> is_guarded_abort (pget d ''reason'')
                      \<and> adjacent_claim e);
       scope = (if is_begun then pget d ''scope'' else pget d ''finalize_scope'') in
     (if is_begun \<or> is_finished then (case scope of PStr s \<Rightarrow> if s = [] then None else Some s | _ \<Rightarrow> None)
      else None))"

definition candidate_scope :: "event list \<Rightarrow> string option" where
  "candidate_scope es = foldl (\<lambda>c e. case claim_of e of Some s \<Rightarrow> Some s | None \<Rightarrow> c) None es"

definition incomplete_finalize_scope :: "event list \<Rightarrow> string option" where
  "incomplete_finalize_scope es = (case candidate_scope es of
      None \<Rightarrow> None
    | Some scope \<Rightarrow>
        if scope_has_step es scope ''complete'' \<or> scope_has_step es scope ''abandoned'' then None
        else if finalize_scope_quiescent es scope then Some scope else None)"

section \<open>What appending does\<close>

lemma finalize_begun_snoc: "finalize_begun (es @ [e]) scope =
    (if is_begun_claim scope e then Some e else finalize_begun es scope)"
  by (simp add: finalize_begun_def)

lemma finalize_begun_append: "list_all (\<lambda>e. \<not> is_begun_claim scope e) es' \<Longrightarrow>
    finalize_begun (es @ es') scope = finalize_begun es scope"
proof (induction es' rule: rev_induct)
  case Nil
  then show ?case by simp
next
  case (snoc e es')
  then show ?case by (simp add: finalize_begun_snoc flip: append_assoc)
qed

lemma begun_in: "finalize_begun es scope = Some b \<Longrightarrow> b \<in> set es \<and> is_begun_claim scope b"
  unfolding finalize_begun_def by (metis find_Some_iff nth_mem set_rev)

lemma begun_own_effect: "is_begun_claim scope e \<Longrightarrow> own_effect scope e"
  by (simp add: is_begun_claim_def is_step_def own_effect_def Let_def)

lemma quiescent_append:
  assumes "list_all (\<lambda>e. \<not> is_begun_claim scope e) es'"
  shows "finalize_scope_quiescent (es @ es') scope \<longleftrightarrow> finalize_scope_quiescent es scope
     \<and> (\<forall>b. finalize_begun es scope = Some b \<longrightarrow>
          list_all (\<lambda>e. e_seq e \<le> e_seq b \<or> own_effect scope e) es')"
  using finalize_begun_append [OF assms, of es]
  by (auto simp: finalize_scope_quiescent_def split: option.splits)

lemma candidate_scope_snoc: "candidate_scope (es @ [e]) =
    (case claim_of e of Some s \<Rightarrow> Some s | None \<Rightarrow> candidate_scope es)"
  by (cases "claim_of e") (simp_all add: candidate_scope_def)

lemma claim_of_nonempty: "claim_of e = Some s \<Longrightarrow> s \<noteq> []"
  unfolding claim_of_def Let_def by (simp split: if_split_asm pyval.split_asm)

lemma candidate_scope_claimed: "candidate_scope es = Some s \<Longrightarrow> s \<noteq> [] \<and> (\<exists>e \<in> set es. claim_of e = Some s)"
proof (induction es rule: rev_induct)
  case Nil
  then show ?case by (simp add: candidate_scope_def)
next
  case (snoc e es)
  then show ?case
    using claim_of_nonempty [of e s] by (auto simp: candidate_scope_snoc split: option.splits)
qed

lemma scope_has_step_append [simp]:
  "scope_has_step (es @ es') scope step \<longleftrightarrow> scope_has_step es scope step \<or> scope_has_step es' scope step"
  by (simp add: scope_has_step_def)

end
