(* ===== verification/Lifecycle.thy ===== *)
theory Lifecycle
  imports SelectionProps FinalizeScope
begin

text \<open>
  The lifecycle of a node as the fold keeps it (\<open>looplab/events/replay.py\<close>): build markers, creation
  behind the parent generation map, the evaluation and failure terminals with their charge,
  repairs, tombstones, aborts, resets and the rotation of the search epoch that re-queues the
  results of an old partition. A handler takes the event and the run state, with the fold context
  where the source threads it; a node is mutated in place through \<open>upd_node\<close>.
\<close>

section \<open>Evaluation seconds\<close>

definition nonneg_seconds :: "pyval \<Rightarrow> real" where
  "nonneg_seconds v = (case py_float v of Some (Fin r) \<Rightarrow> if 0 \<le> r then r else 0 | _ \<Rightarrow> 0)"

definition charge_eval_seconds :: "string \<Rightarrow> pyval \<Rightarrow> run_state \<Rightarrow> run_state" where
  "charge_eval_seconds kind raw st =
     (let secs = nonneg_seconds raw;
          st1 = st\<lparr>st_total_eval_seconds := st_total_eval_seconds st + secs\<rparr> in
      if secs \<noteq> 0
      then st1\<lparr>st_eval_seconds_by_kind := dict_put kind
             ((case dict_get (st_eval_seconds_by_kind st1) kind of Some r \<Rightarrow> r | None \<Rightarrow> 0) + secs)
             (st_eval_seconds_by_kind st1)\<rparr>
      else st1)"

definition attempt_matches :: "node \<Rightarrow> payload \<Rightarrow> bool" where
  "attempt_matches n d = (case event_generation d True of
      Missing \<Rightarrow> n_attempt n = 0 | Unusable \<Rightarrow> False | Stamped g \<Rightarrow> g = n_attempt n)"

definition charge_terminal_cost :: "node \<Rightarrow> payload \<Rightarrow> fold_state \<Rightarrow> fold_state" where
  "charge_terminal_cost n d s = (case s of (st, ctx) \<Rightarrow>
     (case (case event_generation d True of Missing \<Rightarrow> Some 0 | Unusable \<Rightarrow> None | Stamped g \<Rightarrow> Some g) of
        None \<Rightarrow> s
      | Some g \<Rightarrow>
         (if n_attempt n < g then s
          else if (n_id n, g) \<in> c_charged_terminal_generations ctx then s
          else (charge_eval_seconds ''node'' (pget d ''eval_seconds'') st,
                ctx\<lparr>c_charged_terminal_generations :=
                      insert (n_id n, g) (c_charged_terminal_generations ctx)\<rparr>))))"

section \<open>Build markers\<close>

definition marker_matches_event :: "payload option \<Rightarrow> payload \<Rightarrow> int \<Rightarrow> bool" where
  "marker_matches_event marker d nid = (case marker of
      None \<Rightarrow> False
    | Some m \<Rightarrow>
       (if m = [] \<or> \<not> eq_int (pget m ''node_id'') nid then False
        else (case event_generation m False of
            Missing \<Rightarrow> True
          | mg \<Rightarrow> (case event_generation d True of Stamped g \<Rightarrow> mg = Stamped g | _ \<Rightarrow> False))))"

definition clear_build_marker :: "payload \<Rightarrow> int \<Rightarrow> run_state \<Rightarrow> run_state" where
  "clear_build_marker d nid st =
     (let st1 = (if marker_matches_event (st_building st) d nid then st\<lparr>st_building := None\<rparr> else st) in
      if marker_matches_event (dict_get (st_buildings st1) nid) d nid
      then st1\<lparr>st_buildings := dict_pop nid (st_buildings st1)\<rparr> else st1)"

definition is_aborted :: "run_state \<Rightarrow> int \<Rightarrow> bool" where
  "is_aborted st nid \<longleftrightarrow> nid \<in> set (st_aborted_nodes st)"

text \<open>A card id: a bounded string, stripped, printable and not empty.\<close>

definition card_replay_id_max :: nat where
  "card_replay_id_max = 256"

definition printable :: "char \<Rightarrow> bool" where
  "printable c \<longleftrightarrow> (let n = (of_char c :: nat) in
     32 \<le> n \<and> n \<le> 126 \<or> 161 \<le> n \<and> n \<noteq> 173)"

definition card_replay_id :: "pyval \<Rightarrow> string option" where
  "card_replay_id v = (case v of
      PStr s \<Rightarrow> (let bounded = py_strip s in
        if length s \<le> card_replay_id_max \<and> bounded \<noteq> [] \<and> list_all printable bounded
        then Some bounded else None)
    | _ \<Rightarrow> None)"

definition building_marker :: "event \<Rightarrow> int \<Rightarrow> payload" where
  "building_marker e nid = (let d = e_data e in
     [(''node_id'', PInt nid), (''operator'', pget d ''operator''),
      (''parent_ids'', pget_or d ''parent_ids'' (PList [])), (''started'', PFloat (Fin (e_ts e)))]
     @ (case card_replay_id (pget d ''card_id'') of Some c \<Rightarrow> [(''card_id'', PStr c)] | None \<Rightarrow> [])
     @ (if is_true (pget d ''speculative'') \<and> bounded_int (pget d ''card_build_generation'') 0 (2 ^ 31 - 1)
        then [(''speculative'', PBool True), (''card_build_generation'', pget d ''card_build_generation'')]
        else [])
     @ (case event_generation d False of Stamped g \<Rightarrow> [(''generation'', PInt g)] | _ \<Rightarrow> []))"

definition on_node_building :: "event \<Rightarrow> run_state \<Rightarrow> run_state" where
  "on_node_building e st = (let d = e_data e in
     case node_id_of d of
       None \<Rightarrow> st
     | Some nid \<Rightarrow>
        (let current = node_at st nid in
         if is_aborted st nid \<or> (case current of Some n \<Rightarrow> n_tombstoned n | None \<Rightarrow> False)
         then clear_build_marker d nid st
         else if (case current of Some n \<Rightarrow> \<not> generation_matches n d False \<or> n_status n \<noteq> Pending
                                | None \<Rightarrow> False)
         then st
         else st\<lparr>st_building := Some (building_marker e nid),
                 st_buildings := dict_put nid (building_marker e nid) (st_buildings st)\<rparr>))"

section \<open>Creation\<close>

text \<open>\<open>_parent_generation_map_matches\<close>: every stated parent alive, and the generation map (when
  present) exactly over them, at their current attempts.\<close>

definition coerced_ids :: "pyval list \<Rightarrow> int option list" where
  "coerced_ids xs = map coerce_id xs"

definition live_parent :: "run_state \<Rightarrow> int \<Rightarrow> bool" where
  "live_parent st pid \<longleftrightarrow> \<not> is_aborted st pid
     \<and> (case node_at st pid of Some n \<Rightarrow> \<not> n_tombstoned n | None \<Rightarrow> False)"

definition parent_generation_map_matches :: "run_state \<Rightarrow> payload \<Rightarrow> bool" where
  "parent_generation_map_matches st d =
     (case (if truthy (pget d ''parent_ids'') then pget d ''parent_ids'' else PList []) of
        PList raw \<Rightarrow>
         (if None \<in> set (coerced_ids raw) then False
          else (let expected = set (List.map_filter coerce_id raw) in
            if \<not> phas d ''parent_generations'' then \<forall>pid \<in> expected. live_parent st pid
            else (case pget d ''parent_generations'' of
                PDict g \<Rightarrow>
                  list_all (\<lambda>(k, rg). (case coerce_id (PStr k) of
                      None \<Rightarrow> False
                    | Some pid \<Rightarrow> live_parent st pid
                        \<and> map_option (\<lambda>n. Stamped (n_attempt n)) (node_at st pid) = Some (stamp_of rg))) g
                  \<and> set (List.map_filter (\<lambda>(k, rg). coerce_id (PStr k)) g) = expected
              | _ \<Rightarrow> False)))
      | _ \<Rightarrow> False)"

definition nonneg_int :: "pyval \<Rightarrow> bool" where
  "nonneg_int v = (case v of PInt i \<Rightarrow> 0 \<le> i | _ \<Rightarrow> False)"

definition simplification_receipt :: "payload \<Rightarrow> int list \<Rightarrow> run_state \<Rightarrow> payload option" where
  "simplification_receipt d parent_ids st = (case (pget d ''simplified'', parent_ids) of
      (PDict raw, [parent_id]) \<Rightarrow>
        (let block = pget raw ''block''; generation = pget raw ''generation'';
             ablation = pget raw ''ablation_id'';
             built_from = (case pget d ''parent_generations'' of
                 PDict recorded \<Rightarrow> pget recorded (str_of_int parent_id)
               | _ \<Rightarrow> (case node_at st parent_id of Some n \<Rightarrow> PInt (n_attempt n) | None \<Rightarrow> PNone)) in
         if pget d ''operator'' \<noteq> PStr ''simplify'' then None
         else if \<not> (nonneg_int block \<and> nonneg_int generation \<and> nonneg_int (pget raw ''parent_id''))
            \<or> pget raw ''parent_id'' \<noteq> PInt parent_id \<or> as_str ablation = None then None
         else if \<not> eq_int built_from (int_value generation) then None
         else (case node_at st parent_id of
             None \<Rightarrow> None
           | Some parent \<Rightarrow>
              (let spans = code_blocks (code_text parent) in
               if int (length spans) \<le> int_value block
                  \<or> pget d ''code'' \<noteq> PStr (comment_block (code_text parent) (spans ! nat (int_value block)))
                  \<or> \<not> same_files (pget d ''files'') (n_files parent) then None
               else Some [(''parent_id'', PInt parent_id), (''generation'', generation),
                          (''block'', block),
                          (''ablation_id'', PStr (take 64 (py_str ablation)))])))
    | _ \<Rightarrow> None)"

text \<open>The artifacts a node uses: as written, or inherited from its parents and declared by its idea.\<close>

definition add_new :: "int list \<Rightarrow> int list \<Rightarrow> int list" where
  "add_new out xs = foldl (\<lambda>o' x. if x \<in> set o' then o' else o' @ [x]) out xs"

definition inherited_uses :: "run_state \<Rightarrow> int list \<Rightarrow> int list" where
  "inherited_uses st parent_ids = take 32 (add_new []
     (filter (\<lambda>u. node_at st u \<noteq> None)
       (concat (map (\<lambda>pid. case node_at st pid of Some p \<Rightarrow> n_uses p | None \<Rightarrow> []) parent_ids))))"

definition idea_uses :: "run_state \<Rightarrow> int list \<Rightarrow> int list" where
  "idea_uses st declared = take 32 (add_new []
     (filter (\<lambda>u. case node_at st u of Some p \<Rightarrow> n_kind p = Some ''artifact'' | None \<Rightarrow> False) declared))"

definition node_uses :: "run_state \<Rightarrow> int \<Rightarrow> int list \<Rightarrow> pyval \<Rightarrow> int list \<Rightarrow> int list" where
  "node_uses st nid parent_ids written declared = (case written of
      PList xs \<Rightarrow> List.map_filter (\<lambda>x. case x of PInt i \<Rightarrow> if 0 \<le> i \<and> i \<noteq> nid then Some i else None | _ \<Rightarrow> None)
                    (take 32 xs)
    | _ \<Rightarrow> take 32 (add_new [] (filter (\<lambda>u. u \<noteq> nid)
             (inherited_uses st parent_ids @ idea_uses st declared))))"

definition int_pins :: "string set \<Rightarrow> payload \<Rightarrow> (string \<times> int) list" where
  "int_pins wanted raw = dict_of (List.map_filter (\<lambda>(k, v). case v of
      PInt i \<Rightarrow> if k \<in> wanted \<and> 0 \<le> i then Some (k, i) else None | _ \<Rightarrow> None) raw)"

definition put_absent :: "'k \<times> 'v \<Rightarrow> ('k \<times> 'v) list \<Rightarrow> ('k \<times> 'v) list" where
  "put_absent kv d = (if dict_get d (fst kv) = None then dict_put (fst kv) (snd kv) d else d)"

definition use_pins :: "run_state \<Rightarrow> payload \<Rightarrow> int list \<Rightarrow> int list \<Rightarrow> int list \<Rightarrow> (string \<times> int) list" where
  "use_pins st d parent_ids uses declared =
     (let wanted = set (map str_of_int uses) in
      if wanted = {} then []
      else (case pget d ''uses'' of
          PList xs \<Rightarrow> (case pget d ''uses_attempts'' of PDict raw \<Rightarrow> int_pins wanted raw | _ \<Rightarrow> [])
        | _ \<Rightarrow>
          (let base = (case pget d ''uses_attempts'' of
                 PDict raw \<Rightarrow> int_pins wanted raw
               | _ \<Rightarrow> foldl (\<lambda>out kv. if fst kv \<in> wanted then put_absent kv out else out) []
                    (concat (map (\<lambda>pid. case node_at st pid of Some p \<Rightarrow> n_uses_attempts p | None \<Rightarrow> [])
                      parent_ids))) in
           foldl (\<lambda>out u. case node_at st u of
               Some p \<Rightarrow> if str_of_int u \<in> wanted then put_absent (str_of_int u, n_attempt p) out else out
             | None \<Rightarrow> out) base declared)))"

section \<open>The search epoch and the certificates\<close>

definition clear_approval :: "run_state \<Rightarrow> run_state" where
  "clear_approval st = st\<lparr>st_approved := False, st_awaiting_approval := False,
     st_approval_subject := None, st_approval_generation := None, st_approved_node_id := None\<rparr>"

definition invalidate_completion_certificates :: "fold_state \<Rightarrow> fold_state" where
  "invalidate_completion_certificates s = (case s of (st, ctx) \<Rightarrow>
     (clear_approval (st\<lparr>st_confirmed_done := False\<rparr>), ctx\<lparr>c_best_confirmed := None\<rparr>))"

definition purge_node_requests :: "int set \<Rightarrow> run_state \<Rightarrow> run_state" where
  "purge_node_requests gone st = st\<lparr>
     st_confirm_requests := filter (\<lambda>nid. nid \<notin> gone) (st_confirm_requests st),
     st_confirm_request_generations := filter (\<lambda>r. fst r \<notin> gone) (st_confirm_request_generations st),
     st_ablate_requests := filter (\<lambda>nid. nid \<notin> gone) (st_ablate_requests st),
     st_ablate_request_generations := filter (\<lambda>r. fst r \<notin> gone) (st_ablate_request_generations st)\<rparr>"

text \<open>What a re-queue and a reset both clear: everything the last measurement left on the node.\<close>

definition clear_measurement :: "node \<Rightarrow> node" where
  "clear_measurement n = n\<lparr>n_attempt := n_attempt n + 1, n_repairs := 0, n_status := Pending,
     n_terminal_event_seq := None, n_metric := None, n_task_metric := None, n_error := PStr [],
     n_error_reason := [], n_triage_rationale := [], n_stdout_tail := PStr [], n_stderr_tail := [],
     n_resource_curve := None, n_eval_seconds := PNone, n_never_evaluated := False,
     n_eval_started := False, n_eval_activity_started := False, n_eval_started_at := None,
     n_extra_metrics := [], n_extra_metrics_provenance := [], n_extra_metrics_direction := [],
     n_extra_metrics_backfill := [], n_extra_metrics_omitted := [], n_violations := PList [],
     n_feasible := True, n_metric_provenance := None, n_trials := [], n_confirmed_mean := None,
     n_confirmed_std := None, n_confirmed_seeds := None, n_confirmed_ruler := None,
     n_failed_stage := PNone, n_holdout_metric := None, n_verifier_score := None,
     n_value_prior := None\<rparr>"

definition requeue_node :: "node \<Rightarrow> node" where
  "requeue_node n = (clear_measurement n)\<lparr>n_generalization_gap := None, n_stages := [],
     n_rerun_from := None, n_rerun_stage := PNone\<rparr>"

definition requeues :: "int set \<Rightarrow> run_state \<Rightarrow> node \<Rightarrow> bool" where
  "requeues fresh st n \<longleftrightarrow> n_id n \<notin> fresh \<and> \<not> is_aborted st (n_id n) \<and> \<not> n_tombstoned n
     \<and> n_status n = Evaluated"

definition requeue_partition_bound_results :: "int set \<Rightarrow> run_state \<Rightarrow> run_state" where
  "requeue_partition_bound_results fresh st =
     (let requeued = n_id ` set (filter (requeues fresh st) (nodes_of st));
          st1 = upd_nodes (\<lambda>n. if requeues fresh st n then requeue_node n else n) st in
      if requeued = {} then st1
      else (purge_node_requests requeued (st1\<lparr>
             st_confirm_seed_results := filter (\<lambda>(k, v). k \<notin> requeued) (st_confirm_seed_results st1),
             st_eval_noise_seed_results := filter (\<lambda>(k, v). k \<notin> requeued) (st_eval_noise_seed_results st1),
             st_proxy_scores := filter (\<lambda>(k, v). k \<notin> requeued) (st_proxy_scores st1),
             st_proxy_skipped := filter (\<lambda>nid. nid \<notin> requeued) (st_proxy_skipped st1)\<rparr>))
           \<lparr>st_policy_scores := [], st_policy_chosen := PNone, st_policy_reason := PStr []\<rparr>)"

definition host_split :: "run_state \<Rightarrow> bool" where
  "host_split st \<longleftrightarrow> truthy (st_host_grading st)
     \<and> (case st_holdout_fraction st of None \<Rightarrow> True | Some f \<Rightarrow> 0 < f)"

definition rotation_moves_rows :: "run_state \<Rightarrow> bool" where
  "rotation_moves_rows st \<longleftrightarrow> st_holdout_partition_disclosed st
     \<or> (\<not> st_split_salt_disclosure st \<and> host_split st)"

definition drop_holdout :: "run_state \<Rightarrow> node \<Rightarrow> node" where
  "drop_holdout st n = (if n_tombstoned n \<or> is_aborted st (n_id n) then n
     else n\<lparr>n_verifier_score := (if n_holdout_metric n \<noteq> None then None else n_verifier_score n),
            n_holdout_metric := None, n_generalization_gap := None\<rparr>)"

definition rotate_search_epoch :: "bool \<Rightarrow> int set \<Rightarrow> run_state \<Rightarrow> run_state" where
  "rotate_search_epoch requeue_partition_scores fresh st =
     (let st1 = st\<lparr>st_search_epoch := st_search_epoch st + 1,
            st_split_epoch := (if st_holdout_partition_disclosed st then st_split_epoch st + 1
                               else st_split_epoch st)\<rparr>;
          requeue = (requeue_partition_scores \<and> rotation_moves_rows st1);
          st2 = upd_nodes (drop_holdout st1) (st1\<lparr>st_holdout_evaluated_ids := [],
            st_holdout_epoch_aware := False, st_holdout_partition_disclosed := False\<rparr>) in
      if requeue then requeue_partition_bound_results fresh st2 else st2)"

definition invalidate_disclosed_holdout :: "int set \<Rightarrow> run_state \<Rightarrow> run_state" where
  "invalidate_disclosed_holdout fresh st = (if st_holdout_evaluated_ids st = [] then st
     else rotate_search_epoch (st_holdout_epoch_aware st) fresh st)"

section \<open>The node a creation event builds\<close>

definition parents_of :: "payload \<Rightarrow> int list" where
  "parents_of d = (case pget d ''parent_ids'' of PList xs \<Rightarrow> List.map_filter coerce_id xs | _ \<Rightarrow> [])"

definition build_node :: "externals \<Rightarrow> event \<Rightarrow> run_state \<Rightarrow> int \<Rightarrow> int \<Rightarrow> string \<Rightarrow> idea \<Rightarrow> node" where
  "build_node X e st nid generation oper ide = (let d = e_data e; parent_ids = parents_of d;
       speculative = is_true (pget d ''speculative'');
       receipt = simplification_receipt d parent_ids st;
       declared = (case pget d ''uses'' of PList xs \<Rightarrow> []
         | _ \<Rightarrow> filter (\<lambda>u. u \<noteq> nid) (idea_uses st (i_uses ide)));
       uses = node_uses st nid parent_ids (pget d ''uses'') declared in
     (default_node nid oper ide)\<lparr>
       n_parent_ids := parent_ids,
       n_parent_generations := dict_of (map (\<lambda>pid. (str_of_int pid,
          case node_at st pid of Some p \<Rightarrow> n_attempt p | None \<Rightarrow> 0)) parent_ids),
       n_code := pget_or d ''code'' (PStr []),
       n_files := or_empty_dict (pget d ''files''),
       n_deleted := (if truthy (pget d ''deleted'') then pget d ''deleted'' else PList []),
       n_attempt := generation,
       n_creation_event_seq := Some (e_seq e),
       n_origin := pget d ''origin'',
       n_forked_from := pget d ''forked_from'',
       n_kind := (if pget d ''node_kind'' = PStr ''artifact'' \<or> i_node_kind ide = Some ''artifact''
                  then Some ''artifact'' else None),
       n_job_role := (if pget d ''job_role'' = PNone then None
                      else Some (take 32 (py_str (pget d ''job_role'')))),
       n_uses := uses,
       n_uses_attempts := use_pins st d parent_ids uses declared,
       n_research_origin := pget d ''research_origin'',
       n_model_arm := take 64 (py_str (if truthy (pget d ''model_arm'') then pget d ''model_arm''
                                       else PStr [])),
       n_simplified := receipt,
       n_simplified_cut := (if receipt = None then None
          else Some (cut_identity X (case pget d ''code'' of PStr c \<Rightarrow> c | _ \<Rightarrow> [])
                       (or_empty_dict (pget d ''files'')))),
       n_footprint_finalized := is_true (pget d ''footprint_finalized''),
       n_speculative := speculative,
       n_card_build_generation := (if speculative
           \<and> bounded_int (pget d ''card_build_generation'') 0 (2 ^ 31 - 1)
          then Some (int_value (pget d ''card_build_generation'')) else None),
       n_eval_start_boundary := is_true (pget d ''eval_start_boundary''),
       n_protocol_version := (if nonneg_int (pget d ''protocol_version'')
          then Some (int_value (pget d ''protocol_version'')) else None)\<rparr>)"

definition created_node :: "externals \<Rightarrow> event \<Rightarrow> run_state \<Rightarrow> int \<Rightarrow> int \<Rightarrow> node option" where
  "created_node X e st nid generation = (let d = e_data e in
     case (pget d ''idea'', pget d ''operator'') of
       (PDict raw_idea, PStr oper) \<Rightarrow>
         (case x_idea X raw_idea of
            None \<Rightarrow> None
          | Some ide \<Rightarrow>
             (if \<not> x_node X d \<or> (\<exists>pid \<in> set (parents_of d). node_at st pid = None) then None
              else Some (build_node X e st nid generation oper ide)))
     | _ \<Rightarrow> None)"

text \<open>A new candidate changes the search: disclosed holdout results and certificates fall.\<close>

definition place_node :: "payload \<Rightarrow> int \<Rightarrow> node \<Rightarrow> fold_state \<Rightarrow> fold_state" where
  "place_node d nid n s = (case s of (st, ctx) \<Rightarrow>
     (let st1 = st\<lparr>st_nodes := dict_put nid n (st_nodes st)\<rparr>;
          s2 = (if node_at st nid = None
                then invalidate_completion_certificates (invalidate_disclosed_holdout {nid} st1, ctx)
                else (st1, ctx)) in
      (clear_build_marker d nid (fst s2), snd s2)))"

text \<open>The lifecycle the event creates the node at: its own stamp, or the one a reset established.\<close>

definition creation_generation :: "payload \<Rightarrow> node option \<Rightarrow> int option" where
  "creation_generation d current = (case event_generation d False of
      Missing \<Rightarrow> Some (case current of Some n \<Rightarrow> n_attempt n | None \<Rightarrow> 0)
    | Unusable \<Rightarrow> None
    | Stamped g \<Rightarrow> (case current of
        None \<Rightarrow> Some g | Some n \<Rightarrow> if g = n_attempt n then Some g else None))"

definition on_node_created :: "externals \<Rightarrow> event \<Rightarrow> fold_state \<Rightarrow> fold_state" where
  "on_node_created X e s = (case s of (st, ctx) \<Rightarrow> (let d = e_data e in
     case node_id_of d of
       None \<Rightarrow> s
     | Some nid \<Rightarrow>
        (let current = node_at st nid;
             materialize = (is_true (pget d ''materialize_aborted_intent'') \<and> current = None
               \<and> is_aborted st nid \<and> event_generation d False = Missing) in
         if (case current of Some n \<Rightarrow> n_status n \<noteq> Pending | None \<Rightarrow> False) then s
         else if \<not> parent_generation_map_matches st d
            \<or> is_aborted st nid \<and> \<not> materialize
            \<or> (case current of Some n \<Rightarrow> n_tombstoned n | None \<Rightarrow> False)
         then (clear_build_marker d nid st, ctx)
         else (case creation_generation d current of
             None \<Rightarrow> s
           | Some generation \<Rightarrow> (case created_node X e st nid generation of
               None \<Rightarrow> s
             | Some n \<Rightarrow> place_node d nid n s)))))"

end
