(* ===== verification/NodeEvents.thy ===== *)
theory NodeEvents
  imports Lifecycle
begin

text \<open>
  The handlers of the events about one node after its creation (\<open>looplab/events/replay.py\<close>): its
  terminals, repairs and stages, the operator's reset, abort and tombstone, and the measurements
  taken after the evaluation (confirmation seeds, noise seeds, holdout, retarget).
\<close>

section \<open>Failure accounting\<close>

definition counts_as_current_failure :: "run_state \<Rightarrow> node \<Rightarrow> bool" where
  "counts_as_current_failure st n \<longleftrightarrow> search_outcome st n = Some True"

definition add_current_failure :: "node \<Rightarrow> event \<Rightarrow> run_state \<Rightarrow> run_state" where
  "add_current_failure n e st = (if \<not> counts_as_current_failure st n then st
     else (let cnt = st_current_failure_count st + 1; level = cnt div 3 in
       st\<lparr>st_current_failure_count := cnt,
          st_failure_spike_seq := (if st_failure_spike_level st < level then Some (e_seq e)
                                   else st_failure_spike_seq st),
          st_failure_spike_level := level\<rparr>))"

definition remove_current_failure :: "node \<Rightarrow> run_state \<Rightarrow> run_state" where
  "remove_current_failure n st = (if \<not> counts_as_current_failure st n then st
     else (let cnt = max 0 (st_current_failure_count st - 1) in
       st\<lparr>st_current_failure_count := cnt, st_failure_spike_level := cnt div 3\<rparr>))"

section \<open>Evaluation\<close>

definition evaluated_node :: "externals \<Rightarrow> event \<Rightarrow> run_state \<Rightarrow> node \<Rightarrow> node" where
  "evaluated_node X e st n = (let d = e_data e; metric = finite_metric (pget d ''metric'');
       extra = normalize_extra_metrics extra_metrics_max_items [] (pget d ''extra_metrics'');
       violations = (if truthy (pget d ''violations'') then pget d ''violations'' else PList []) in
     apply_objective st (n\<lparr>
       n_metric := metric,
       n_self_metric := finite_metric (pget d ''self_metric''),
       n_status := Evaluated,
       n_terminal_event_seq := Some (e_seq e),
       n_rerun_stage := PNone,
       n_stdout_tail := pget_or d ''stdout_tail'' (PStr []),
       n_stderr_tail := py_str (if truthy (pget d ''stderr_tail'') then pget d ''stderr_tail'' else PStr []),
       n_resource_curve := normalize_resource_curve (pget d ''resource_curve''),
       n_eval_seconds := pget d ''eval_seconds'',
       n_extra_metrics := extra,
       n_extra_metrics_omitted := extra_metrics_omitted (pget d ''extra_metrics_omitted''),
       n_extra_metrics_provenance := normalize_extra_metric_channels extra_metrics_max_items
          (dict_keys extra) (pget d ''extra_metrics_provenance''),
       n_extra_metrics_direction := normalize_extra_metric_directions extra_metrics_max_items
          (pget d ''extra_metrics_direction''),
       n_violations := violations,
       n_feasible := (\<not> truthy violations),
       n_metric_provenance := as_dict (pget d ''metric_provenance''),
       n_activation := normalize_activation_record (pget d ''activation''),
       n_trials := (case pget d ''trials'' of PList ts \<Rightarrow> List.map_filter (x_trial X) ts | _ \<Rightarrow> []),
       n_task_metric := (if st_objective_key st \<noteq> None \<and> phas d ''task_metric''
                         then finite_metric (pget d ''task_metric'') else metric)\<rparr>))"

definition on_node_evaluated :: "externals \<Rightarrow> event \<Rightarrow> fold_state \<Rightarrow> fold_state" where
  "on_node_evaluated X e s = (case s of (st, ctx) \<Rightarrow> (let d = e_data e in
     case node_id_of d of
       None \<Rightarrow> s
     | Some nid \<Rightarrow> (case node_at st nid of
         None \<Rightarrow> s
       | Some n \<Rightarrow>
          (if is_aborted st (n_id n) \<or> \<not> attempt_matches n d then charge_terminal_cost n d s
           else if n_status n = Pending
           then (let st1 = clear_build_marker d (n_id n) st in
             charge_terminal_cost n d (upd_node nid (evaluated_node X e st) st1, ctx))
           else s))))"

definition failed_node :: "event \<Rightarrow> node \<Rightarrow> node" where
  "failed_node e n = (let d = e_data e in n\<lparr>
     n_status := Failed,
     n_terminal_event_seq := Some (e_seq e),
     n_error := pget_or d ''error'' (PStr []),
     n_error_reason := py_str (pget_or d ''reason'' (PStr [])),
     n_triage_rationale := (if truthy (pget d ''triage_rationale'')
        then py_str (pget d ''triage_rationale'') else n_triage_rationale n),
     n_eval_seconds := pget d ''eval_seconds'',
     n_never_evaluated := is_true (pget d ''never_evaluated''),
     n_rerun_from := None,
     n_rerun_stage := PNone,
     n_failed_stage := (if truthy (pget d ''failed_stage'') then pget d ''failed_stage''
                        else n_failed_stage n)\<rparr>)"

definition on_node_failed :: "event \<Rightarrow> fold_state \<Rightarrow> fold_state" where
  "on_node_failed e s = (case s of (st0, ctx) \<Rightarrow> (let d = e_data e in
     case node_id_of d of
       None \<Rightarrow> s
     | Some nid \<Rightarrow>
        (let st = clear_build_marker d nid st0 in
         case node_at st nid of
           None \<Rightarrow> (st, ctx)
         | Some n \<Rightarrow>
            (if is_aborted st (n_id n) \<and> pget d ''reason'' \<noteq> PStr ''aborted'' \<or> \<not> attempt_matches n d
             then charge_terminal_cost n d (st, ctx)
             else if n_status n = Pending
             then (let n1 = failed_node e n;
                       (st1, ctx1) = charge_terminal_cost n1 d (upd_node nid (failed_node e) st, ctx) in
                   (add_current_failure n1 e st1, ctx1))
             else (st, ctx)))))"

definition on_node_eval_started :: "event \<Rightarrow> run_state \<Rightarrow> run_state" where
  "on_node_eval_started e st = (let d = e_data e in
     case node_id_of d of
       None \<Rightarrow> st
     | Some nid \<Rightarrow> (case node_at st nid of
         None \<Rightarrow> st
       | Some n \<Rightarrow>
          (if \<not> generation_matches n d False then st
           else upd_node nid (\<lambda>n. if n_eval_activity_started n then n\<lparr>n_eval_started := True\<rparr>
              else n\<lparr>n_eval_started := True, n_eval_activity_started := True,
                     n_eval_started_at := (if 0 < e_ts e then Some (e_ts e) else None)\<rparr>) st)))"

definition clear_eval_activity_for_new_owner :: "run_state \<Rightarrow> run_state" where
  "clear_eval_activity_for_new_owner st = upd_nodes (\<lambda>n. if n_status n = Pending
     then n\<lparr>n_eval_activity_started := False, n_eval_started_at := None\<rparr> else n) st"

section \<open>Repairs\<close>

text \<open>Equality of the ledger key's members: booleans and integral floats equal their integer.\<close>

fun norm_number :: "pyval \<Rightarrow> pyval" where
  "norm_number (PBool b) = PInt (if b then 1 else 0)"
| "norm_number (PFloat (Fin r)) = (if is_integer r then PInt (trunc_real r) else PFloat (Fin r))"
| "norm_number v = v"

definition hashable :: "pyval \<Rightarrow> bool" where
  "hashable v \<longleftrightarrow> (case v of PList xs \<Rightarrow> False | PDict d \<Rightarrow> False | _ \<Rightarrow> True)"

definition repair_ledger_max :: nat where "repair_ledger_max = 200"
definition repair_ledger_max_per_node :: nat where "repair_ledger_max_per_node = 20"

definition bump :: "string \<Rightarrow> payload \<Rightarrow> payload" where
  "bump k d = dict_put k (PInt (int_value (pget_or d k (PInt 0)) + 1)) d"

definition repair_paths :: "payload \<Rightarrow> pyval list" where
  "repair_paths d = (case pget d ''changed'' of
      PList xs \<Rightarrow> if list_all (\<lambda>p. as_str p \<noteq> None) xs then xs else
         (case pget d ''files'' of PDict f \<Rightarrow> map PStr (sort_key (map (of_char :: char \<Rightarrow> nat)) (dict_keys f))
           | _ \<Rightarrow> [])
    | _ \<Rightarrow> (case pget d ''files'' of PDict f \<Rightarrow> map PStr (sort_key (map (of_char :: char \<Rightarrow> nat)) (dict_keys f))
           | _ \<Rightarrow> []))"

definition record_repair_ledger :: "payload \<Rightarrow> fold_state \<Rightarrow> fold_state" where
  "record_repair_ledger d s = (case s of (st, ctx) \<Rightarrow>
     (case pget d ''node_id'' of
        PInt nid \<Rightarrow>
          (let attempt = pget d ''attempt''; generation = pget d ''generation'';
               key = (nid, norm_number attempt, norm_number generation);
               mine = (case dict_get (c_repair_ledger_per_node ctx) nid of Some k \<Rightarrow> k | None \<Rightarrow> 0) in
           if \<not> hashable attempt \<or> \<not> hashable generation \<or> key \<in> c_repair_ledger_keys ctx then s
           else (let ctx1 = ctx\<lparr>c_repair_ledger_keys := insert key (c_repair_ledger_keys ctx)\<rparr> in
             if repair_ledger_max \<le> length (st_repair_ledger st) \<or> repair_ledger_max_per_node \<le> mine
             then (let om = bump ''rows'' (st_repair_ledger_omitted st);
                       nodes = (case pget om ''nodes'' of PDict m \<Rightarrow> m | _ \<Rightarrow> []) in
               (st\<lparr>st_repair_ledger_omitted :=
                     dict_put ''nodes'' (PDict (bump (str_of_int nid) nodes)) om\<rparr>, ctx1))
             else (st\<lparr>st_repair_ledger := st_repair_ledger st @ [
                 [(''node_id'', PInt nid), (''attempt'', attempt), (''generation'', generation),
                  (''reason'', case pget d ''reason'' of PStr r \<Rightarrow> PStr r | _ \<Rightarrow> PNone),
                  (''paths'', PList (take 40 (repair_paths d))),
                  (''rationale'', case pget d ''rationale'' of PStr r \<Rightarrow> PStr (take 400 r) | _ \<Rightarrow> PNone)]]\<rparr>,
               ctx1\<lparr>c_repair_ledger_per_node := dict_put nid (mine + 1) (c_repair_ledger_per_node ctx1)\<rparr>)))
      | _ \<Rightarrow> s))"

definition repaired_node :: "event \<Rightarrow> bool \<Rightarrow> node \<Rightarrow> node" where
  "repaired_node e charge n = (let d = e_data e;
       n1 = n\<lparr>n_code := pget_or d ''code'' (n_code n),
              n_files := (if truthy (pget d ''files'') then pget d ''files'' else n_files n),
              n_deleted := (if truthy (pget d ''deleted'') then pget d ''deleted'' else n_deleted n),
              n_footprint_finalized := (n_footprint_finalized n \<or> is_true (pget d ''footprint_finalized''))\<rparr> in
     if charge then n1\<lparr>n_repairs := (case pget d ''attempt'' of
         PInt k \<Rightarrow> if n_repairs n < k then k else n_repairs n + 1 | _ \<Rightarrow> n_repairs n + 1)\<rparr>
     else n1)"

definition on_node_repaired :: "event \<Rightarrow> fold_state \<Rightarrow> fold_state" where
  "on_node_repaired e s0 = (let d = e_data e; s = record_repair_ledger d s0 in
     (case s of (st, ctx) \<Rightarrow>
       (case node_id_of d of
          None \<Rightarrow> s
        | Some nid \<Rightarrow> (case node_at st nid of
            None \<Rightarrow> s
          | Some n \<Rightarrow>
             (if is_aborted st (n_id n) \<or> n_tombstoned n \<or> \<not> generation_matches n d False
                 \<or> n_status n \<noteq> Pending then s
              else (let key = (n_id n, e_seq e); fresh = (key \<notin> c_charged_repair_seqs ctx);
                        action = (if truthy (pget d ''triage_action'') then pget d ''triage_action''
                                  else PStr []) in
                (upd_node nid (repaired_node e (fresh \<and> py_str action \<noteq> ''salvage_cause_fix'')) st,
                 ctx\<lparr>c_charged_repair_seqs := insert key (c_charged_repair_seqs ctx)\<rparr>)))))))"

definition on_node_overlay_rebased :: "event \<Rightarrow> run_state \<Rightarrow> run_state" where
  "on_node_overlay_rebased e st = (let d = e_data e in
     case node_id_of d of
       None \<Rightarrow> st
     | Some nid \<Rightarrow> (case (node_at st nid, pget d ''files'', pget d ''deleted'') of
         (Some n, PDict files, PList deleted) \<Rightarrow>
          (if is_aborted st (n_id n) \<or> n_tombstoned n \<or> \<not> generation_matches n d False
              \<or> n_status n \<noteq> Pending \<or> \<not> list_all (\<lambda>(k, v). as_str v \<noteq> None) files
              \<or> \<not> list_all (\<lambda>v. as_str v \<noteq> None) deleted then st
           else upd_node nid (\<lambda>n. n\<lparr>n_files := PDict files, n_deleted := PList deleted\<rparr>) st)
       | _ \<Rightarrow> st))"

section \<open>Tombstone, abort and reset\<close>

definition unpause :: "run_state \<Rightarrow> run_state" where
  "unpause st = st\<lparr>st_paused := False, st_pause_node_id := None, st_pause_generation := None,
     st_pause_reason := None\<rparr>"

definition tombstone_one :: "run_state \<times> int list \<Rightarrow> pyval \<Rightarrow> run_state \<times> int list" where
  "tombstone_one acc raw = (case acc of (st, affected) \<Rightarrow>
     (case coerce_id raw of
        None \<Rightarrow> acc
      | Some nid \<Rightarrow> (case node_at st nid of
          None \<Rightarrow> acc
        | Some n \<Rightarrow>
           (if n_tombstoned n then acc
            else (upd_node nid (\<lambda>n. n\<lparr>n_tombstoned := True, n_rerun_from := None, n_rerun_stage := PNone\<rparr>)
                    (remove_current_failure n st), affected @ [n_id n])))))"

definition opt_in :: "int option \<Rightarrow> int list \<Rightarrow> bool" where
  "opt_in v xs = (case v of Some i \<Rightarrow> i \<in> set xs | None \<Rightarrow> False)"

text \<open>What the run state said about the affected nodes, dropped one reference at a time.\<close>

definition forget_champion :: "int list \<Rightarrow> run_state \<Rightarrow> run_state" where
  "forget_champion aff st = (if opt_in (st_champion st) aff then st\<lparr>st_champion := None\<rparr> else st)"

definition forget_approval :: "int list \<Rightarrow> run_state \<Rightarrow> run_state" where
  "forget_approval aff st = (if opt_in (st_approval_subject st) aff
     then st\<lparr>st_awaiting_approval := False, st_approval_subject := None,
             st_approval_generation := None\<rparr> else st)"

definition forget_approved :: "int list \<Rightarrow> run_state \<Rightarrow> run_state" where
  "forget_approved aff st = (if opt_in (st_approved_node_id st) aff
     then st\<lparr>st_approved := False, st_approved_node_id := None\<rparr> else st)"

definition forget_pause :: "int list \<Rightarrow> run_state \<Rightarrow> run_state" where
  "forget_pause aff st = (if opt_in (st_pause_node_id st) aff then unpause st else st)"

definition forget_building :: "int list \<Rightarrow> run_state \<Rightarrow> run_state" where
  "forget_building aff st = (let st1 = (case st_building st of
       Some m \<Rightarrow> if list_ex (eq_int (pget m ''node_id'')) aff then st\<lparr>st_building := None\<rparr> else st
     | None \<Rightarrow> st) in
     st1\<lparr>st_buildings := filter (\<lambda>(k, v). k \<notin> set aff) (st_buildings st1)\<rparr>)"

definition forget_nodes :: "int list \<Rightarrow> run_state \<Rightarrow> run_state" where
  "forget_nodes affected st = forget_building affected (forget_pause affected
     (forget_approved affected (forget_approval affected (forget_champion affected
       (purge_node_requests (set affected) st)))))"

definition on_node_tombstoned :: "event \<Rightarrow> fold_state \<Rightarrow> fold_state" where
  "on_node_tombstoned e s = (case s of (st0, ctx) \<Rightarrow>
     (case foldl tombstone_one (st0, [])
             (case pget (e_data e) ''node_ids'' of PList xs \<Rightarrow> xs | _ \<Rightarrow> []) of
        (st, affected) \<Rightarrow>
          (if affected = [] then (st, ctx)
           else (let st1 = forget_nodes affected st in
             if st_finished st1
             then (st1, if opt_in (c_best_confirmed ctx) affected then ctx\<lparr>c_best_confirmed := None\<rparr> else ctx)
             else (case invalidate_completion_certificates (st1, ctx) of
                 (st2, ctx2) \<Rightarrow> (invalidate_disclosed_holdout {} st2, ctx2))))))"

definition abort_state :: "payload \<Rightarrow> int \<Rightarrow> run_state \<Rightarrow> run_state" where
  "abort_state d nid st =
     (let st1 = (case node_at st nid of Some n \<Rightarrow> remove_current_failure n st | None \<Rightarrow> st);
          st2 = st1\<lparr>st_aborted_nodes := st_aborted_nodes st1 @ [nid]\<rparr>;
          st3 = upd_node nid (\<lambda>n. n\<lparr>n_rerun_from := None, n_rerun_stage := PNone\<rparr>) st2;
          st4 = clear_build_marker d nid st3;
          st5 = (if st_pause_node_id st4 = Some nid then unpause st4 else st4);
          st6 = purge_node_requests {nid} st5;
          st7 = (if st_approval_subject st6 = Some nid \<or> st_approved_node_id st6 = Some nid
                 then clear_approval st6 else st6) in
      (if st_champion st7 = Some nid then st7\<lparr>st_champion := None\<rparr> else st7))"

definition on_node_abort :: "event \<Rightarrow> fold_state \<Rightarrow> fold_state" where
  "on_node_abort e s = (case s of (st, ctx) \<Rightarrow> (let d = e_data e in
     case node_id_of d of
       None \<Rightarrow> s
     | Some nid \<Rightarrow>
        (let applies = (case node_at st nid of
                None \<Rightarrow> event_generation d False = Missing
              | Some n \<Rightarrow> control_generation_matches n d);
             st8 = abort_state d nid st in
         if \<not> applies \<or> is_aborted st nid then s
         else if st_finished st8
         then (st8, if c_best_confirmed ctx = Some nid then ctx\<lparr>c_best_confirmed := None\<rparr> else ctx)
         else (case invalidate_completion_certificates (st8, ctx) of
             (st9, ctx9) \<Rightarrow> (invalidate_disclosed_holdout {} st9, ctx9)))))"

definition reset_node :: "pyval \<Rightarrow> bool \<Rightarrow> node \<Rightarrow> node" where
  "reset_node stage moves n = (let n1 = (clear_measurement n)\<lparr>n_agent_report := None\<rparr> in
     if stage = PStr ''implement'' \<or> stage = PStr ''propose''
     then n1\<lparr>n_code := PStr [], n_files := PDict [], n_deleted := PList [], n_stages := [],
             n_rerun_from := as_str stage, n_rerun_stage := PNone\<rparr>
     else (let n2 = n1\<lparr>n_rerun_from := None, n_rerun_stage := stage,
               n_stages := map (dict_put ''repairs'' (PInt 0))
                  (takeWhile (\<lambda>prior. pget prior ''name'' \<noteq> stage) (n_stages n1))\<rparr> in
       if moves then n2\<lparr>n_rerun_stage := PNone, n_stages := []\<rparr> else n2))"

definition reset_state :: "int \<Rightarrow> int \<Rightarrow> payload \<Rightarrow> run_state \<Rightarrow> run_state" where
  "reset_state nid old_generation d st0 =
     (let st1 = (if st_pause_node_id st0 = Some nid \<and> st_pause_generation st0 = Some old_generation
                 then unpause st0 else st0);
          st2 = purge_node_requests {nid} (st1\<lparr>
             st_confirm_seed_results := dict_pop nid (st_confirm_seed_results st1),
             st_eval_noise_seed_results := dict_pop nid (st_eval_noise_seed_results st1)\<rparr>);
          st3 = st2\<lparr>st_aborted_nodes := filter (\<lambda>i. i \<noteq> nid) (st_aborted_nodes st2),
             st_proxy_scores := dict_pop nid (st_proxy_scores st2),
             st_proxy_skipped := filter (\<lambda>i. i \<noteq> nid) (st_proxy_skipped st2),
             st_champion := (if st_champion st2 = Some nid then None else st_champion st2),
             st_hypothesis_ranking := (case st_hypothesis_ranking st2 of
                 Some r \<Rightarrow> if eq_int (pget r ''node_id'') nid \<and> event_generation r False = Stamped old_generation
                           then None else Some r
               | None \<Rightarrow> None),
             st_holdout_evaluated_ids := remove1 nid (st_holdout_evaluated_ids st2)\<rparr> in
      clear_build_marker d nid st3)"

definition on_node_reset :: "event \<Rightarrow> fold_state \<Rightarrow> fold_state" where
  "on_node_reset e s = (case s of (st, ctx) \<Rightarrow> (let d = e_data e in
     case node_id_of d of
       None \<Rightarrow> s
     | Some nid \<Rightarrow> (case node_at st nid of
         None \<Rightarrow> s
       | Some n \<Rightarrow>
          (if n_tombstoned n \<or> \<not> control_generation_matches n d then s
           else (let was_finished = st_finished st;
                     disclosed = (st_holdout_evaluated_ids st \<noteq> []);
                     stage = pget_or d ''from_stage'' (PStr ''eval'');
                     st1 = upd_node nid (reset_node stage (disclosed \<and> rotation_moves_rows st))
                             (remove_current_failure n st);
                     st2 = reset_state nid (n_attempt n) d st1;
                     st3 = (if disclosed \<and> event_generation d False \<noteq> Missing
                            then rotate_search_epoch True {nid} st2
                            else if was_finished then rotate_search_epoch False {} st2 else st2) in
             (case invalidate_completion_certificates (st3, ctx) of
                (st4, ctx4) \<Rightarrow> (st4\<lparr>st_finished := False, st_stop_reason := PNone,
                   st_stop_detail := None, st_stop_requested := PNone\<rparr>, ctx4)))))))"

section \<open>Stages\<close>

definition stage_epoch :: "payload \<Rightarrow> int" where
  "stage_epoch row = int_value (pget row ''repairs'')"

definition stage_record :: "payload \<Rightarrow> int \<Rightarrow> payload" where
  "stage_record d repairs = [(''name'', pget d ''name''), (''status'', pget d ''status''),
     (''exit_code'', pget d ''exit_code''), (''seconds'', pget d ''seconds''), (''repairs'', PInt repairs)]"

text \<open>The first row of that name is replaced, never by an earlier repair epoch, and a row that
  really ran keeps its record when the new one says \<open>reused\<close>.\<close>

fun put_stage :: "payload \<Rightarrow> payload list \<Rightarrow> payload list" where
  "put_stage rec [] = [rec]"
| "put_stage rec (s # ss) =
     (if pget s ''name'' = pget rec ''name''
      then (let epoch = PInt (max (stage_epoch rec) (stage_epoch s)) in
        if pget rec ''status'' = PStr ''reused'' \<and> pget s ''status'' \<notin> {PNone, PStr ''reused''}
        then dict_put ''repairs'' epoch s # ss
        else dict_put ''repairs'' epoch rec # ss)
      else s # put_stage rec ss)"

definition on_stage_finished :: "event \<Rightarrow> run_state \<Rightarrow> run_state" where
  "on_stage_finished e st = (let d = e_data e in
     case node_id_of d of
       None \<Rightarrow> st
     | Some nid \<Rightarrow> (case node_at st nid of
         None \<Rightarrow> st
       | Some n \<Rightarrow>
          (if is_aborted st (n_id n) \<or> \<not> generation_matches n d False then st
           else upd_node nid (\<lambda>n. (let rec = stage_record d (n_repairs n) in n\<lparr>
              n_stage_attempts := n_stage_attempts n
                 @ [rec @ [(''generation'', PInt (n_attempt n)), (''seq'', PInt (e_seq e))]],
              n_stages := put_stage rec (n_stages n)\<rparr>)) st)))"

end
