(* ===== verification/Measurements.thy ===== *)
theory Measurements
  imports NodeEvents
begin

text \<open>
  What the fold accepts as a measurement of an evaluated node: confirmation and noise seeds, the
  confirmed mean, the holdout score, the verifier's scores and the trust events
  (\<open>looplab/events/replay.py\<close> and \<open>looplab/events/replay_selection.py\<close>), the operator's retarget of
  the objective, and the advisory rows of one node (ablation, proxy score, value prior).
\<close>

section \<open>Seeds\<close>

definition seed_of :: "payload \<Rightarrow> int option" where
  "seed_of d = (if phas d ''seed'' then coerce_id (pget d ''seed'') else None)"

definition put_seed :: "int \<Rightarrow> int \<Rightarrow> real option \<Rightarrow> (int \<times> (int \<times> real option) list) list
    \<Rightarrow> (int \<times> (int \<times> real option) list) list" where
  "put_seed nid seed v table = dict_put nid
     (dict_put seed v (case dict_get table nid of Some row \<Rightarrow> row | None \<Rightarrow> [])) table"

definition settled :: "run_state \<Rightarrow> node \<Rightarrow> bool" where
  "settled st n \<longleftrightarrow> n_status n = Evaluated \<or> is_aborted st (n_id n) \<or> n_tombstoned n"

definition charge_confirm_seed :: "node option \<Rightarrow> payload \<Rightarrow> fold_state \<Rightarrow> fold_state" where
  "charge_confirm_seed n d s = (case s of (st, ctx) \<Rightarrow>
     (case (node_id_of d, seed_of d, n, event_generation d True) of
        (Some nid, Some seed, Some nd, g) \<Rightarrow>
          (case (case g of Missing \<Rightarrow> Some (n_attempt nd) | Unusable \<Rightarrow> None | Stamped k \<Rightarrow> Some k) of
             None \<Rightarrow> s
           | Some k \<Rightarrow>
              (if k \<le> n_attempt nd \<and> (k < n_attempt nd \<or> settled st nd)
                  \<and> (nid, k, seed) \<notin> c_charged_confirm_seeds ctx
               then (charge_eval_seconds ''confirm'' (pget d ''eval_seconds'') st,
                     ctx\<lparr>c_charged_confirm_seeds := insert (nid, k, seed) (c_charged_confirm_seeds ctx)\<rparr>)
               else s))
      | _ \<Rightarrow> s))"

definition measurable :: "run_state \<Rightarrow> node \<Rightarrow> bool" where
  "measurable st n \<longleftrightarrow> n_status n = Evaluated \<and> \<not> is_aborted st (n_id n) \<and> \<not> n_tombstoned n"

definition on_confirm_eval :: "event \<Rightarrow> fold_state \<Rightarrow> fold_state" where
  "on_confirm_eval e s = (case s of (st0, ctx0) \<Rightarrow> (let d = e_data e; n = node_for_event st0 d;
       legacy_attempt = (\<not> phas d ''generation'' \<and> phas d ''attempt'') in
     if legacy_attempt \<and> (case n of Some nd \<Rightarrow> event_generation d True \<noteq> Stamped (n_attempt nd)
                                  | None \<Rightarrow> False)
     then s
     else (case charge_confirm_seed n d s of (st, ctx) \<Rightarrow>
       (case (n, node_id_of d, seed_of d) of
          (Some nd, Some nid, Some seed) \<Rightarrow>
            (if \<not> measurable st nd \<or> \<not> generation_matches nd d True
                \<or> in_strs (pget d ''reason'') [''gpu_unavailable'', ''gpu_unpinnable'', ''artifact_unavailable'']
                \<or> row_objective (pget d ''objective_key'') \<noteq> st_objective_key st
             then (st, ctx)
             else (st\<lparr>st_confirm_seed_results :=
                     put_seed nid seed (finite_metric (pget d ''metric'')) (st_confirm_seed_results st)\<rparr>, ctx))
        | _ \<Rightarrow> (st, ctx)))))"

definition on_node_confirmed :: "externals \<Rightarrow> event \<Rightarrow> run_state \<Rightarrow> run_state" where
  "on_node_confirmed X e st = (let d = e_data e in
     if row_objective (pget d ''objective_key'') \<noteq> st_objective_key st then st
     else (case (node_id_of d, node_for_event st d) of
        (Some nid, Some n) \<Rightarrow>
          (if \<not> measurable st n \<or> \<not> generation_matches n d True then st
           else (case (finite_metric (pget d ''mean''), finite_metric (pget d ''std''), pget d ''seeds'') of
               (Some mean, Some std, PInt seeds) \<Rightarrow>
                 (if std < 0 \<or> seeds \<le> 0 then st
                  else upd_node nid (\<lambda>n. (let n1 = n\<lparr>n_confirmed_mean := Some mean,
                       n_confirmed_std := Some std, n_confirmed_seeds := Some seeds,
                       n_confirmed_ruler := (case pget d ''protocol_profile'' of
                          PStr r \<Rightarrow> if 0 < length r \<and> length r \<le> 64 then Some r else None | _ \<Rightarrow> None)\<rparr> in
                     if verifier_evidence_digest X (st_direction st) n1
                          \<noteq> verifier_evidence_digest X (st_direction st) n
                     then n1\<lparr>n_verifier_score := None\<rparr> else n1)) st)
             | _ \<Rightarrow> st))
      | _ \<Rightarrow> st))"

definition on_eval_noise_seed :: "event \<Rightarrow> fold_state \<Rightarrow> fold_state" where
  "on_eval_noise_seed e s = (case s of (st, ctx) \<Rightarrow> (let d = e_data e in
     case (node_id_of d, seed_of d) of
       (Some nid, Some seed) \<Rightarrow>
         (let n = node_at st nid;
              generation = (case pget d ''generation'' of PInt g \<Rightarrow> g
                 | _ \<Rightarrow> (case n of Some nd \<Rightarrow> n_attempt nd | None \<Rightarrow> 0));
              key = (nid, generation, seed);
              (st1, ctx1) = (if key \<in> c_charged_noise_seeds ctx then s
                 else (charge_eval_seconds ''noise'' (pget d ''eval_seconds'') st,
                       ctx\<lparr>c_charged_noise_seeds := insert key (c_charged_noise_seeds ctx)\<rparr>)) in
          (case n of
             Some nd \<Rightarrow> (if generation \<noteq> n_attempt nd then (st1, ctx1)
               else (st1\<lparr>st_eval_noise_seed_results :=
                  put_seed nid seed (finite_metric (pget d ''metric'')) (st_eval_noise_seed_results st1)\<rparr>, ctx1))
           | None \<Rightarrow> (st1, ctx1)))
     | _ \<Rightarrow> s))"

definition noise_number_list :: "pyval \<Rightarrow> (pyval \<Rightarrow> pyval) \<Rightarrow> pyval list" where
  "noise_number_list raw coerce = (case raw of PList xs \<Rightarrow> map coerce (take 64 xs) | _ \<Rightarrow> [])"

definition noise_metric :: "pyval \<Rightarrow> pyval" where
  "noise_metric v = opt_float (finite_metric v)"

definition on_eval_noise_floor :: "event \<Rightarrow> run_state \<Rightarrow> run_state" where
  "on_eval_noise_floor e st = (let d = e_data e in st\<lparr>st_eval_noise_floor := Some (
     [(''node_id'', opt_int (node_id_of d)), (''generation'', opt_int (coerce_id (pget d ''generation''))),
      (''seeds'', PList (noise_number_list (pget d ''seeds'') (\<lambda>v. opt_int (coerce_id v)))),
      (''metrics'', PList (noise_number_list (pget d ''metrics'') noise_metric)),
      (''n'', PInt (max 0 (case coerce_id (pget d ''n'') of Some k \<Rightarrow> k | None \<Rightarrow> 0))),
      (''mean'', noise_metric (pget d ''mean'')), (''std'', noise_metric (pget d ''std'')),
      (''sem'', noise_metric (pget d ''sem'')), (''spread'', noise_metric (pget d ''spread'')),
      (''search_metric'', noise_metric (pget d ''search_metric'')),
      (''profile'', case pget d ''profile'' of PStr p \<Rightarrow> PStr (take 64 p) | _ \<Rightarrow> PNone)]
     @ (case pget d ''protocol_profile'' of
          PStr p \<Rightarrow> if 0 < length p \<and> length p \<le> 64 then [(''protocol_profile'', PStr p)] else []
        | _ \<Rightarrow> [])
     @ (if is_true (pget d ''protocol_mixed'') then [(''protocol_mixed'', PBool True)] else [])
     @ (if is_true (pget d ''mid_search'') then [(''mid_search'', PBool True)] else [])
     @ (case pget d ''reason'' of PStr r \<Rightarrow> [(''reason'', PStr (take 200 r))] | _ \<Rightarrow> []))\<rparr>)"

section \<open>Holdout\<close>

definition charge_holdout :: "payload \<Rightarrow> fold_state \<Rightarrow> fold_state" where
  "charge_holdout d s = (case s of (st, ctx) \<Rightarrow>
     (case node_id_of d of
        None \<Rightarrow> s
      | Some nid \<Rightarrow>
         (let key = (nid, coerce_id (pget d ''generation''), coerce_id (pget d ''search_epoch'')) in
          if \<not> phas d ''eval_seconds'' \<or> key \<in> c_charged_holdout_keys ctx then s
          else (charge_eval_seconds ''holdout'' (pget d ''eval_seconds'') st,
                ctx\<lparr>c_charged_holdout_keys := insert key (c_charged_holdout_keys ctx)\<rparr>))))"

definition with_holdout :: "externals \<Rightarrow> direction \<Rightarrow> real \<Rightarrow> node \<Rightarrow> node" where
  "with_holdout X dir m n = (let n1 = n\<lparr>n_holdout_metric := Some m\<rparr> in
     if verifier_evidence_digest X dir n1 \<noteq> verifier_evidence_digest X dir n
     then n1\<lparr>n_verifier_score := None\<rparr> else n1)"

definition accept_holdout :: "externals \<Rightarrow> payload \<Rightarrow> int \<Rightarrow> run_state \<Rightarrow> run_state" where
  "accept_holdout X d nid st =
     (let st1 = (if phas d ''search_epoch'' then st\<lparr>st_holdout_epoch_aware := True\<rparr> else st);
          st2 = (if nid \<in> set (st_holdout_evaluated_ids st1) then st1
                 else st1\<lparr>st_holdout_evaluated_ids := st_holdout_evaluated_ids st1 @ [nid]\<rparr>);
          st3 = (if pget d ''partition_disclosed'' = PBool False then st2
                 else st2\<lparr>st_holdout_partition_disclosed := True\<rparr>) in
      case finite_metric (pget d ''metric'') of
        None \<Rightarrow> st3
      | Some m \<Rightarrow> upd_node nid (with_holdout X (st_direction st) m) st3)"

definition on_holdout_evaluated :: "externals \<Rightarrow> event \<Rightarrow> fold_state \<Rightarrow> fold_state" where
  "on_holdout_evaluated X e s = (let d = e_data e in
     (case charge_holdout d s of (st, ctx) \<Rightarrow>
       (if st_objective_key st \<noteq> None then (st, ctx)
        else (case (node_id_of d, node_for_event st d) of
            (Some nid, Some n) \<Rightarrow>
              (if \<not> measurable st n \<or> \<not> generation_matches n d True
                  \<or> \<not> eq_int (pget_or d ''search_epoch'' (PInt (st_search_epoch st))) (st_search_epoch st)
               then (st, ctx)
               else (accept_holdout X d nid st, ctx))
          | _ \<Rightarrow> (st, ctx)))))"

section \<open>Verifier and trust events\<close>

definition on_trust_gate_changed :: "event \<Rightarrow> run_state \<Rightarrow> run_state" where
  "on_trust_gate_changed e st =
     (let tg = py_lower (py_strip (py_str (pget_or (e_data e) ''trust_gate'' (PStr [])))) in
      if tg \<in> {''audit'', ''gate'', ''block''} then st\<lparr>st_trust_gate := tg\<rparr> else st)"

definition on_reward_hack_suspected :: "event \<Rightarrow> run_state \<Rightarrow> run_state" where
  "on_reward_hack_suspected e st = (let d = e_data e; n = node_for_event st d in
     if (case n of Some nd \<Rightarrow> is_aborted st (n_id nd) | None \<Rightarrow> False) then st
     else if event_generation d False \<noteq> Missing
        \<and> (case n of Some nd \<Rightarrow> \<not> generation_matches nd d False | None \<Rightarrow> True) then st
     else st\<lparr>st_reward_hacks := st_reward_hacks st @ [
        [(''node_id'', opt_int (node_id_of d)),
         (''signals'', PList (case pget d ''signals'' of
            PList xs \<Rightarrow> take 64 (filter (\<lambda>x. as_dict x \<noteq> None) xs) | _ \<Rightarrow> [])),
         (''evidence_version'', pget_or d ''evidence_version'' (PInt 0)),
         (''code_digest'', pget d ''code_digest'')]
        @ (case n of Some nd \<Rightarrow> [(''generation'', PInt (n_attempt nd))] | None \<Rightarrow> [])]\<rparr>)"

definition unit_value :: "pyval \<Rightarrow> real option" where
  "unit_value v = (case finite_metric v of
      Some r \<Rightarrow> if 0 \<le> r \<and> r \<le> 1 then Some r else None | None \<Rightarrow> None)"

definition with_verifier_score :: "externals \<Rightarrow> direction \<Rightarrow> real \<Rightarrow> node \<Rightarrow> node" where
  "with_verifier_score X dir score n = (let n1 = n\<lparr>n_verifier_score := Some score\<rparr>;
       raw = verifier_raw_evidence_digest X dir n1 in
     if raw = verifier_evidence_digest X dir n1
     then n1\<lparr>n_verifier_raw_score := Some (raw, score)\<rparr> else n1)"

definition on_node_verified :: "externals \<Rightarrow> event \<Rightarrow> run_state \<Rightarrow> run_state" where
  "on_node_verified X e st = (let d = e_data e in
     case (node_id_of d, node_for_event st d) of
       (Some nid, Some n) \<Rightarrow>
         (if \<not> measurable st n \<or> event_generation d False = Missing \<or> \<not> generation_matches n d False then st
          else if (case pget d ''evidence_digest'' of
                PNone \<Rightarrow> n_confirmed_mean n \<noteq> None \<or> n_holdout_metric n \<noteq> None
              | PStr dig \<Rightarrow> dig \<noteq> verifier_evidence_digest X (st_direction st) n
              | _ \<Rightarrow> True) then st
          else (case unit_value (pget d ''score'') of
              Some score \<Rightarrow> upd_node nid (with_verifier_score X (st_direction st) score) st
            | None \<Rightarrow> st))
     | _ \<Rightarrow> st)"

text \<open>One member of a scored group: its id and score when every certificate holds.\<close>

definition group_member :: "externals \<Rightarrow> run_state \<Rightarrow> int \<Rightarrow> pyval \<Rightarrow> (int \<times> real) option" where
  "group_member X st requested raw = (case raw of
      PDict row \<Rightarrow>
        (case (node_id_of row, node_for_event st row) of
           (Some nid, Some n) \<Rightarrow>
             (if \<not> measurable st n \<or> event_generation row False = Missing
                 \<or> \<not> generation_matches n row False
                 \<or> pget row ''evidence_digest'' \<noteq> PStr (verifier_evidence_digest X (st_direction st) n)
              then None
              else (case (unit_value (pget row ''score''), pget row ''n_samples'',
                         finite_metric (pget row ''agreement''), pget row ''method'') of
                  (Some score, PInt k, Some agreement, PStr method) \<Rightarrow>
                    (if 1 \<le> k \<and> k \<le> requested \<and> requested < 2 * k
                        \<and> 1 / 2 < agreement \<and> agreement \<le> 1 \<and> length method \<le> 80
                     then Some (nid, score) else None)
                | _ \<Rightarrow> None))
         | _ \<Rightarrow> None)
    | _ \<Rightarrow> None)"

fun stage_members :: "externals \<Rightarrow> run_state \<Rightarrow> int \<Rightarrow> int list \<Rightarrow> pyval list \<Rightarrow> (int \<times> real) list option" where
  "stage_members X st requested seen [] = Some []"
| "stage_members X st requested seen (raw # rows) = (case group_member X st requested raw of
      None \<Rightarrow> None
    | Some (nid, score) \<Rightarrow> if nid \<in> set seen then None
        else map_option (\<lambda>ms. (nid, score) # ms) (stage_members X st requested (nid # seen) rows))"

definition on_verifier_group_scored :: "externals \<Rightarrow> event \<Rightarrow> run_state \<Rightarrow> run_state" where
  "on_verifier_group_scored X e st = (let d = e_data e; contract = pget d ''contract'' in
     if \<not> st_select_verifier_tiebreak st \<or> pget d ''v'' = PBool True \<or> \<not> eq_int (pget d ''v'') 1
        \<or> contract \<noteq> PStr ''selection-criteria:v1'' \<or> contract \<noteq> PStr (st_select_verifier_contract st)
        \<or> pget d ''requested_samples'' \<noteq> PInt (st_select_verifier_samples st) then st
     else (case pget d ''members'' of
        PList members \<Rightarrow>
          (if length members < 2 \<or> 8 < length members then st
           else (case stage_members X st (st_select_verifier_samples st) [] members of
               None \<Rightarrow> st
             | Some staged \<Rightarrow>
                (if list_ex (\<lambda>group. set (map n_id group) = fst ` set staged)
                      (verifier_tie_groups st None None)
                 then foldl (\<lambda>st (nid, score).
                        upd_node nid (with_verifier_score X (st_direction st) score) st) st staged
                 else st)))
      | _ \<Rightarrow> st))"

text \<open>\<open>_generation_map_matches\<close>: the map names exactly the live nodes, at their attempts.\<close>

definition generation_map_matches :: "run_state \<Rightarrow> payload \<Rightarrow> bool" where
  "generation_map_matches st d =
     (if \<not> phas d ''generations'' then (case node_for_event st d of
          None \<Rightarrow> True
        | Some n \<Rightarrow> \<not> n_tombstoned n \<and> \<not> is_aborted st (n_id n) \<and> generation_matches n d False)
      else (case pget d ''generations'' of
          PDict g \<Rightarrow>
            (let seen = set (List.map_filter (\<lambda>(k, rg). coerce_id (PStr k)) g) in
             list_all (\<lambda>(k, rg). (case coerce_id (PStr k) of
                 None \<Rightarrow> False
               | Some pid \<Rightarrow> live_parent st pid
                   \<and> map_option (\<lambda>n. Stamped (n_attempt n)) (node_at st pid) = Some (stamp_of rg))) g
             \<and> (pget d ''node_id'' = PNone
                \<or> (case node_id_of d of Some chosen \<Rightarrow> chosen \<in> seen | None \<Rightarrow> False))
             \<and> seen = fst ` set (filter (\<lambda>(nid, n). \<not> is_aborted st nid \<and> \<not> n_tombstoned n) (st_nodes st)))
        | _ \<Rightarrow> False))"

definition on_best_confirmed :: "event \<Rightarrow> fold_state \<Rightarrow> fold_state" where
  "on_best_confirmed e s = (case s of (st, ctx) \<Rightarrow> (let d = e_data e in
     if phas d ''significant'' \<and> (\<forall>b. pget d ''significant'' \<noteq> PBool b) then s
     else if phas d ''search_epoch'' \<and> \<not> eq_int (pget d ''search_epoch'') (st_search_epoch st) then s
     else if row_objective (pget d ''objective_key'') \<noteq> st_objective_key st then s
     else if \<not> generation_map_matches st d then s
     else (st\<lparr>st_confirmed_done := True\<rparr>,
           (if phas d ''node_id''
            then ctx\<lparr>c_best_confirmed := node_id_of d,
                     c_best_confirmed_significant := truthy (pget_or d ''significant'' (PBool True))\<rparr>
            else ctx))))"

section \<open>Retarget\<close>

definition nonblank :: "pyval \<Rightarrow> string option" where
  "nonblank v = (case v of PStr s \<Rightarrow> if py_strip s = [] then None else Some (py_strip s) | _ \<Rightarrow> None)"

text \<open>The goal the rewordings since the last cancelled retarget replaced: walking back from the
  newest row, the oldest one before a row without a key.\<close>

definition restored_goal :: "payload list \<Rightarrow> pyval option" where
  "restored_goal history = foldl (\<lambda>goal row. case pget row ''previous_goal'' of
        PStr g \<Rightarrow> Some (PStr g) | _ \<Rightarrow> goal) None
     (takeWhile (\<lambda>row. pget row ''key'' \<noteq> PNone) (rev history))"

definition remeasure :: "run_state \<Rightarrow> node \<Rightarrow> node" where
  "remeasure st n = (apply_objective st n)\<lparr>n_confirmed_mean := None, n_confirmed_std := None,
     n_confirmed_seeds := None, n_confirmed_ruler := None, n_verifier_score := None\<rparr>"

definition on_metric_retarget :: "event \<Rightarrow> fold_state \<Rightarrow> fold_state" where
  "on_metric_retarget e s = (case s of (st, ctx) \<Rightarrow> (let d = e_data e;
       raw = pget d ''key'';
       key = map_option py_strip (as_str raw);
       dir = (case pget d ''direction'' of PStr w \<Rightarrow> PStr (py_lower (py_strip w)) | v \<Rightarrow> v) in
     if raw \<noteq> PNone \<and> (case raw of PStr k \<Rightarrow> nonblank raw = None \<or> 256 < length k | _ \<Rightarrow> True) then s
     else if dir \<noteq> PNone \<and> dir \<noteq> PStr (direction_name (st_direction st)) then s
     else if truthy (st_host_grading st) \<or> st_holdout_evaluated_ids st \<noteq> [] \<or> key = st_objective_key st
     then s
     else (let asked = map_option (\<lambda>g. PStr (take 4000 g)) (nonblank (pget d ''goal''));
               goal = (if key = None \<and> asked = None
                 then (case restored_goal (st_objective_history st) of
                     Some g \<Rightarrow> if g = st_goal st then None else Some g | None \<Rightarrow> None)
                 else asked);
               opt_str = (\<lambda>k. case k of Some s \<Rightarrow> PStr s | None \<Rightarrow> PNone);
               row = [(''seq'', PInt (e_seq e)), (''key'', opt_str key),
                      (''previous'', opt_str (st_objective_key st))]
                 @ (case goal of Some g \<Rightarrow> [(''goal'', g), (''previous_goal'', st_goal st)] | None \<Rightarrow> []);
               st1 = st\<lparr>st_objective_history := st_objective_history st @ [row],
                        st_objective_key := key,
                        st_goal := (case goal of Some g \<Rightarrow> g | None \<Rightarrow> st_goal st)\<rparr>;
               st2 = (upd_nodes (remeasure st1) st1)\<lparr>st_confirm_seed_results := []\<rparr> in
       invalidate_completion_certificates (st2, ctx))))"

section \<open>Advisory rows\<close>

definition on_agent_validated :: "event \<Rightarrow> run_state \<Rightarrow> run_state" where
  "on_agent_validated e st = (let d = e_data e in
     case (node_id_of d, node_for_event st d) of
       (Some nid, Some n) \<Rightarrow>
         (if is_aborted st (n_id n) \<or> \<not> generation_matches n d False then st
          else upd_node nid (\<lambda>n. n\<lparr>n_agent_report := Some
             [(''ok'', pget d ''ok''), (''checks'', pget_or d ''checks'' (PList [])),
              (''fell_back'', pget d ''fell_back''), (''attempts'', pget d ''attempts''),
              (''shipped_ok'', pget d ''shipped_ok'')]\<rparr>) st)
     | _ \<Rightarrow> st)"

definition on_spec_drift :: "event \<Rightarrow> run_state \<Rightarrow> run_state" where
  "on_spec_drift e st = (let d = e_data e in
     if event_generation d False \<noteq> Missing
        \<and> (case node_for_event st d of
             None \<Rightarrow> True
           | Some n \<Rightarrow> is_aborted st (n_id n) \<or> \<not> generation_matches n d False) then st
     else st\<lparr>st_drifts := st_drifts st @ [d]\<rparr>)"

definition on_ablate :: "event \<Rightarrow> fold_state \<Rightarrow> fold_state" where
  "on_ablate e s = (case s of (st, ctx) \<Rightarrow> (let d = e_data e in
     case coerce_node_id d ''parent_id'' of
       None \<Rightarrow> s
     | Some pid \<Rightarrow>
        (let n = node_at st pid in
         case (case event_generation d False of
             Missing \<Rightarrow> Some (case n of Some nd \<Rightarrow> n_attempt nd | None \<Rightarrow> 0)
           | Unusable \<Rightarrow> None
           | Stamped g \<Rightarrow> (case n of Some nd \<Rightarrow> if g \<le> n_attempt nd then Some g else None | None \<Rightarrow> None)) of
           None \<Rightarrow> s
         | Some g \<Rightarrow>
            (let record0 = dict_put ''parent_id'' (PInt pid) d;
                 record1 = (if phas record0 ''generation'' then record0
                            else dict_put ''generation'' (PInt g) record0);
                 st1 = st\<lparr>st_ablations := st_ablations st @ [record1]\<rparr>;
                 charged = charge_eval_seconds ''node'' (pget d ''eval_seconds'') st1 in
             (case pget d ''ablation_id'' of
                PStr a \<Rightarrow>
                  (if a = [] then (charged, ctx)
                   else if a \<in> c_charged_ablation_ids ctx then (st1, ctx)
                   else (charged, ctx\<lparr>c_charged_ablation_ids := insert a (c_charged_ablation_ids ctx)\<rparr>))
              | _ \<Rightarrow> (charged, ctx))))))"

definition on_foresight_selected :: "event \<Rightarrow> run_state \<Rightarrow> run_state" where
  "on_foresight_selected e st = (let d = e_data e; g = event_generation d False in
     if g \<noteq> Missing
        \<and> (case node_for_event st d of
             None \<Rightarrow> True
           | Some n \<Rightarrow> is_aborted st (n_id n) \<or> \<not> generation_matches n d False) then st
     else (case node_id_of d of
        None \<Rightarrow> st
      | Some nid \<Rightarrow> st\<lparr>st_foresight_selected := st_foresight_selected st
          @ [[(''node_id'', PInt nid), (''confidence'', pget d ''confidence'')]
             @ (case g of Stamped k \<Rightarrow> [(''generation'', PInt k)] | _ \<Rightarrow> [])]\<rparr>))"

definition on_proxy_scored :: "event \<Rightarrow> run_state \<Rightarrow> run_state" where
  "on_proxy_scored e st = (let d = e_data e; n = node_for_event st d in
     if (case n of Some nd \<Rightarrow> is_aborted st (n_id nd) | None \<Rightarrow> False) then st
     else if event_generation d False \<noteq> Missing
        \<and> (case n of Some nd \<Rightarrow> \<not> generation_matches nd d False | None \<Rightarrow> True) then st
     else (case node_id_of d of
        None \<Rightarrow> st
      | Some nid \<Rightarrow>
         (let st1 = (if pget d ''score'' = PNone then st
                     else st\<lparr>st_proxy_scores := dict_put nid (pget d ''score'') (st_proxy_scores st)\<rparr>) in
          if truthy (pget d ''skipped'') \<and> nid \<notin> set (st_proxy_skipped st1)
          then st1\<lparr>st_proxy_skipped := st_proxy_skipped st1 @ [nid]\<rparr> else st1)))"

definition on_node_value_estimated :: "event \<Rightarrow> run_state \<Rightarrow> run_state" where
  "on_node_value_estimated e st = (let d = e_data e in
     case (node_id_of d, node_for_event st d, unit_value (pget d ''value'')) of
       (Some nid, Some n, Some v) \<Rightarrow>
         (if is_aborted st (n_id n) \<or> n_tombstoned n \<or> event_generation d False = Missing
             \<or> \<not> generation_matches n d False then st
          else upd_node nid (\<lambda>n. n\<lparr>n_value_prior := Some v\<rparr>) st)
     | _ \<Rightarrow> st)"

definition on_hypothesis_ranked :: "event \<Rightarrow> run_state \<Rightarrow> run_state" where
  "on_hypothesis_ranked e st = (let d = e_data e in
     if event_generation d False \<noteq> Missing
        \<and> (case node_for_event st d of
             None \<Rightarrow> True
           | Some n \<Rightarrow> is_aborted st (n_id n) \<or> \<not> generation_matches n d False) then st
     else st\<lparr>st_hypothesis_ranking := Some (dict_put ''order''
        (case pget d ''order'' of PList xs \<Rightarrow> PList xs | _ \<Rightarrow> PList []) d)\<rparr>)"

definition on_policy_decision :: "event \<Rightarrow> run_state \<Rightarrow> run_state" where
  "on_policy_decision e st = (let d = e_data e in st\<lparr>
     st_policy_scores := dict_of (case pget d ''scores'' of
        PDict raw \<Rightarrow> List.map_filter (\<lambda>(k, v). map_option (\<lambda>i. (i, v)) (int_of_str k)) raw | _ \<Rightarrow> []),
     st_policy_chosen := pget d ''chosen'',
     st_policy_reason := (if truthy (pget d ''reason'') then pget d ''reason'' else PStr [])\<rparr>)"

end
