(* ===== verification/Requests.thy ===== *)
theory Requests
  imports Measurements
begin

text \<open>
  Operator requests and their receipts (\<open>looplab/events/replay_requests.py\<close>) and the build queue of
  the cards (\<open>looplab/events/replay_cards.py\<close>): append-only request lists, each with a cursor that
  counts the requests already served. The interface \<open>request_cursor\<close> is what the engine relies on
  when it reads \<open>requests[done:]\<close>.
\<close>

section \<open>Budget overrides\<close>

definition overrides_seconds :: "payload \<Rightarrow> payload \<Rightarrow> payload" where
  "overrides_seconds d ov = foldl (\<lambda>ov k. (case pget d k of
       PNone \<Rightarrow> ov | PBool b \<Rightarrow> ov
     | raw \<Rightarrow> (case py_float raw of
         Some (Fin v) \<Rightarrow> if 0 < v then dict_put k (PFloat (Fin v)) ov else ov
       | _ \<Rightarrow> ov))) ov [''max_seconds'', ''max_eval_seconds'', ''timeout'', ''eval_timeout'']"

text \<open>An integer, an integral float, or a string \<open>int\<close> parses.\<close>

definition whole_number :: "pyval \<Rightarrow> int option" where
  "whole_number raw = (case raw of
      PNone \<Rightarrow> None | PBool b \<Rightarrow> None
    | PFloat f \<Rightarrow> (case f of Fin r \<Rightarrow> if is_integer r then Some (trunc_real r) else None | _ \<Rightarrow> None)
    | v \<Rightarrow> py_int v)"

definition parallel_choice :: "payload \<Rightarrow> int \<Rightarrow> string \<Rightarrow> (string \<times> int) option \<Rightarrow> (string \<times> int) option" where
  "parallel_choice d upper k selected = (case whole_number (pget d k) of
      Some v \<Rightarrow> if 0 \<le> v \<and> v \<le> upper then Some (k, v) else selected
    | None \<Rightarrow> selected)"

definition override_parallel :: "payload \<Rightarrow> string \<times> string \<times> int \<Rightarrow> payload \<Rightarrow> payload" where
  "override_parallel d spec ov = (case spec of (legacy, canonical, upper) \<Rightarrow>
     (case parallel_choice d upper canonical (parallel_choice d upper legacy None) of
        None \<Rightarrow> ov
      | Some (k, v) \<Rightarrow>
         (let ov1 = dict_put k (PInt v) (dict_pop (if k = canonical then legacy else canonical) ov) in
          if canonical = ''llm_parallel'' \<and> k = canonical
          then dict_put ''llm_broker_total'' (PInt v) ov1 else ov1)))"

definition accepted_add_nodes :: "pyval \<Rightarrow> int" where
  "accepted_add_nodes raw = (case whole_number raw of
      Some add \<Rightarrow> if 0 < add \<and> add \<le> 1000000 then add else 0 | None \<Rightarrow> 0)"

definition on_budget_extend :: "event \<Rightarrow> run_state \<Rightarrow> run_state" where
  "on_budget_extend e st = (let d = e_data e;
       ov1 = overrides_seconds d (st_budget_overrides st);
       ov2 = override_parallel d (''max_parallel'', ''eval_parallel'', 1024) ov1;
       ov3 = override_parallel d (''parallel_build'', ''llm_parallel'', 64) ov2;
       add = accepted_add_nodes (pget d ''add_nodes'') in
     st\<lparr>st_budget_overrides := (if add \<noteq> 0
        then dict_put ''add_nodes'' (PInt (int_value (pget_or ov3 ''add_nodes'' (PInt 0)) + add)) ov3
        else ov3)\<rparr>)"

section \<open>Hints and strategy\<close>

definition standing_hint_dedup_key :: "payload \<Rightarrow> pyval \<times> string" where
  "standing_hint_dedup_key row = (pget row ''text'',
     if pget row ''source'' = PStr ''deep_research'' then ''deep_research_advisory'' else ''operator'')"

definition on_hint :: "event \<Rightarrow> run_state \<Rightarrow> run_state" where
  "on_hint e st = (let d = e_data e in
     if truthy (pget d ''replace'') then st\<lparr>st_pending_hints := [d]\<rparr>
     else if list_ex (\<lambda>h. standing_hint_dedup_key h = standing_hint_dedup_key d) (st_pending_hints st)
     then st
     else st\<lparr>st_pending_hints := st_pending_hints st @ [d]\<rparr>)"

definition on_set_strategy :: "event \<Rightarrow> run_state \<Rightarrow> run_state" where
  "on_set_strategy e st = st\<lparr>st_pending_strategy := pget (e_data e) ''strategy''\<rparr>"

definition on_deep_research :: "event \<Rightarrow> run_state \<Rightarrow> run_state" where
  "on_deep_research e st = st\<lparr>st_research_requests := st_research_requests st @ [e_data e]\<rparr>"

section \<open>Forced confirmations and ablations\<close>

definition queue_forced_request :: "run_state \<Rightarrow> payload \<Rightarrow> int list \<times> (int \<times> int) list
    \<Rightarrow> int list \<times> (int \<times> int) list" where
  "queue_forced_request st d q = (case q of (requests, generations) \<Rightarrow>
     (case node_id_of d of
        None \<Rightarrow> q
      | Some nid \<Rightarrow>
         (if is_aborted st nid then q
          else (case node_at st nid of
              Some n \<Rightarrow> if \<not> n_tombstoned n \<and> control_generation_matches n d
                then (requests @ [nid], generations @ [(nid, n_attempt n)]) else q
            | None \<Rightarrow> if event_generation d False = Missing then (requests @ [nid], generations) else q))))"

definition on_force_confirm :: "event \<Rightarrow> run_state \<Rightarrow> run_state" where
  "on_force_confirm e st = (case queue_forced_request st (e_data e)
       (st_confirm_requests st, st_confirm_request_generations st) of
     (r, g) \<Rightarrow> st\<lparr>st_confirm_requests := r, st_confirm_request_generations := g\<rparr>)"

definition on_force_ablate :: "event \<Rightarrow> run_state \<Rightarrow> run_state" where
  "on_force_ablate e st = (case queue_forced_request st (e_data e)
       (st_ablate_requests st, st_ablate_request_generations st) of
     (r, g) \<Rightarrow> st\<lparr>st_ablate_requests := r, st_ablate_request_generations := g\<rparr>)"

definition on_confirm_done :: "event \<Rightarrow> run_state \<Rightarrow> run_state" where
  "on_confirm_done e st = (let d = e_data e in
     case (node_id_of d, node_for_event st d) of
       (Some nid, Some n) \<Rightarrow>
         (if is_aborted st nid \<or> \<not> generation_matches n d False then st
          else st\<lparr>st_confirmed_forced := (if nid \<in> set (st_confirmed_forced st)
                     then st_confirmed_forced st else st_confirmed_forced st @ [nid]),
                  st_confirmed_forced_generations :=
                    (if (nid, n_attempt n) \<in> set (st_confirmed_forced_generations st)
                     then st_confirmed_forced_generations st
                     else st_confirmed_forced_generations st @ [(nid, n_attempt n)])\<rparr>)
     | _ \<Rightarrow> st)"

section \<open>Request lists with a cursor\<close>

definition advance_request_cursor :: "int \<Rightarrow> int \<Rightarrow> pyval \<Rightarrow> int" where
  "advance_request_cursor done0 total0 idx =
     (let total = max 0 total0; fin = min (max 0 done0) total in
      case idx of
        PInt i \<Rightarrow> if i < fin then fin else min (i + 1) total
      | _ \<Rightarrow> min (fin + 1) total)"

definition on_fork :: "event \<Rightarrow> run_state \<Rightarrow> run_state" where
  "on_fork e st = (let d = e_data e in
     case coerce_node_id d ''from_node_id'' of
       None \<Rightarrow> st
     | Some nid \<Rightarrow>
        (if is_aborted st nid then st
         else (case node_at st nid of
             Some n \<Rightarrow>
              (if n_tombstoned n \<or> \<not> control_generation_matches n d then st
               else (let r0 = dict_put ''from_node_id'' (PInt nid) d;
                         r1 = (if phas r0 ''generation'' then r0
                               else dict_put ''generation'' (PInt (n_attempt n)) r0) in
                 st\<lparr>st_fork_requests := st_fork_requests st @ [r1]\<rparr>))
           | None \<Rightarrow> (if event_generation d False = Missing
               then st\<lparr>st_fork_requests := st_fork_requests st @ [d]\<rparr> else st))))"

text \<open>A receipt without an index is matched against the head of the queue by its parent.\<close>

definition fork_receipt_foreign :: "run_state \<Rightarrow> payload \<Rightarrow> bool" where
  "fork_receipt_foreign st d \<longleftrightarrow> \<not> phas d ''idx'' \<and> st_forks_done st < int (length (st_fork_requests st))
     \<and> (case (coerce_node_id d ''from_node_id'',
              coerce_node_id (st_fork_requests st ! nat (st_forks_done st)) ''from_node_id'') of
          (Some a, Some b) \<Rightarrow> a \<noteq> b | _ \<Rightarrow> False)"

definition on_fork_done :: "event \<Rightarrow> run_state \<Rightarrow> run_state" where
  "on_fork_done e st = (let d = e_data e in
     if fork_receipt_foreign st d then st
     else st\<lparr>st_forks_done := advance_request_cursor (st_forks_done st)
               (int (length (st_fork_requests st))) (pget d ''idx'')\<rparr>)"

definition on_inject_node :: "event \<Rightarrow> run_state \<Rightarrow> run_state" where
  "on_inject_node e st = st\<lparr>st_inject_requests := st_inject_requests st @ [e_data e]\<rparr>"

definition on_inject_done :: "event \<Rightarrow> run_state \<Rightarrow> run_state" where
  "on_inject_done e st = st\<lparr>st_injects_done := advance_request_cursor (st_injects_done st)
     (int (length (st_inject_requests st))) (pget (e_data e) ''idx'')\<rparr>"

definition on_track_requested :: "event \<Rightarrow> run_state \<Rightarrow> run_state" where
  "on_track_requested e st = (let d = e_data e in
     case pget d ''track'' of
       PStr track \<Rightarrow>
         (let ids = (case pget d ''node_ids'' of
              PStr s \<Rightarrow> if s = ''all'' then Some (PStr ''all'') else None
            | PList xs \<Rightarrow> Some (PList (filter nonneg_int (take 256 xs)))
            | _ \<Rightarrow> None) in
          case ids of
            Some v \<Rightarrow> if track = [] then st
              else st\<lparr>st_track_requests := st_track_requests st
                     @ [[(''track'', PStr (take 80 track)), (''node_ids'', v)]]\<rparr>
          | None \<Rightarrow> st)
     | _ \<Rightarrow> st)"

definition on_track_done :: "event \<Rightarrow> run_state \<Rightarrow> run_state" where
  "on_track_done e st = st\<lparr>st_tracks_done := advance_request_cursor (st_tracks_done st)
     (int (length (st_track_requests st))) (pget (e_data e) ''idx'')\<rparr>"

definition clipped :: "payload \<Rightarrow> string \<Rightarrow> nat \<Rightarrow> pyval" where
  "clipped d k cap = PStr (take cap (py_str (if truthy (pget d k) then pget d k else PStr [])))"

definition on_lane_op_requested :: "event \<Rightarrow> run_state \<Rightarrow> run_state" where
  "on_lane_op_requested e st = (let d = e_data e in st\<lparr>st_lane_op_requests := st_lane_op_requests st @ [
     [(''op'', clipped d ''op'' 16), (''action_id'', clipped d ''action_id'' 128),
      (''request_hash'', clipped d ''request_hash'' 64)]
     @ (case pget d ''body'' of PDict b \<Rightarrow> [(''body'', PDict b)] | _ \<Rightarrow> [])
     @ (if truthy (pget d ''proposal_id'') then [(''proposal_id'', clipped d ''proposal_id'' 64)] else [])
     @ (if truthy (pget d ''request_path'') then [(''request_path'', clipped d ''request_path'' 512)] else [])]\<rparr>)"

definition on_lane_op_done :: "event \<Rightarrow> run_state \<Rightarrow> run_state" where
  "on_lane_op_done e st = st\<lparr>st_lane_ops_done := advance_request_cursor (st_lane_ops_done st)
     (int (length (st_lane_op_requests st))) (pget (e_data e) ''idx'')\<rparr>"

definition on_promote :: "event \<Rightarrow> run_state \<Rightarrow> run_state" where
  "on_promote e st = (let d = e_data e; nid = node_id_of d;
       aborted = (case nid of Some i \<Rightarrow> is_aborted st i | None \<Rightarrow> False);
       applies = (\<not> aborted \<and> (case node_for_event st d of
           None \<Rightarrow> event_generation d False = Missing
         | Some n \<Rightarrow> \<not> n_tombstoned n \<and> control_generation_matches n d)) in
     if \<not> applies then st
     else st\<lparr>st_promotions := st_promotions st @ [d],
             st_champion := (if pget_or d ''alias'' (PStr ''champion'') = PStr ''champion''
                             then nid else st_champion st)\<rparr>)"

section \<open>The cursor interface\<close>

text \<open>
  \<open>total\<close> requests of which \<open>fin\<close> are served. A provider promises that appending keeps the
  served prefix and that a receipt only moves the cursor forward inside the list.
\<close>

locale request_cursor =
  fixes total :: "'s \<Rightarrow> int" and fin :: "'s \<Rightarrow> int"
    and request :: "event \<Rightarrow> 's \<Rightarrow> 's" and receipt :: "event \<Rightarrow> 's \<Rightarrow> 's"
  assumes request_total: "total s \<le> total (request e s)"
    and request_fin: "fin (request e s) = fin s"
    and receipt_total: "total (receipt e s) = total s"
    and receipt_fin: "0 \<le> fin s \<Longrightarrow> fin s \<le> total s \<Longrightarrow>
      fin s \<le> fin (receipt e s) \<and> fin (receipt e s) \<le> total s"
begin

definition in_range :: "'s \<Rightarrow> bool" where
  "in_range s \<longleftrightarrow> 0 \<le> fin s \<and> fin s \<le> total s"

lemma in_range_request: "in_range s \<Longrightarrow> in_range (request e s)"
  using request_total [of s e] by (auto simp: in_range_def request_fin)

lemma in_range_receipt: "in_range s \<Longrightarrow> in_range (receipt e s)"
  using receipt_fin [of s e] by (auto simp: in_range_def receipt_total)

lemma fin_mono: "in_range s \<Longrightarrow> fin s \<le> fin (receipt e s)"
  using receipt_fin [of s e] by (auto simp: in_range_def)

end

lemma advance_bounds:
  assumes "0 \<le> fin" "fin \<le> len"
  shows "fin \<le> advance_request_cursor fin len idx" "advance_request_cursor fin len idx \<le> len"
  using assms by (auto simp: advance_request_cursor_def Let_def split: pyval.splits)

interpretation forks: request_cursor "\<lambda>st. int (length (st_fork_requests st))" st_forks_done
  on_fork on_fork_done
  by unfold_locales
     (auto simp: on_fork_def on_fork_done_def Let_def advance_bounds split: option.splits)

interpretation injects: request_cursor "\<lambda>st. int (length (st_inject_requests st))" st_injects_done
  on_inject_node on_inject_done
  by unfold_locales (auto simp: on_inject_node_def on_inject_done_def advance_bounds)

interpretation tracks: request_cursor "\<lambda>st. int (length (st_track_requests st))" st_tracks_done
  on_track_requested on_track_done
  by unfold_locales
     (auto simp: on_track_requested_def on_track_done_def Let_def advance_bounds
           split: pyval.splits option.splits)

interpretation lane_ops: request_cursor "\<lambda>st. int (length (st_lane_op_requests st))" st_lane_ops_done
  on_lane_op_requested on_lane_op_done
  by unfold_locales (auto simp: on_lane_op_requested_def on_lane_op_done_def Let_def advance_bounds)

section \<open>The build queue of the cards\<close>

definition on_card_build_requested :: "event \<Rightarrow> run_state \<Rightarrow> run_state" where
  "on_card_build_requested e st = (let d = e_data e in
     case card_replay_id (pget d ''card_id'') of
       None \<Rightarrow> st
     | Some c \<Rightarrow>
        (if \<not> bounded_int (pget d ''generation'') 0 (2 ^ 31 - 1)
            \<or> int_value (pget d ''generation'') \<noteq> st_search_epoch st then st
         else st\<lparr>st_card_build_requests := st_card_build_requests st
                   @ [(c, int_value (pget d ''generation''))]\<rparr>))"

text \<open>The loop that folds the receipts closed ahead of their turn into the cursor.\<close>

function absorb :: "nat \<Rightarrow> nat list \<Rightarrow> nat \<times> nat list" where
  "absorb fin ahead = (if fin \<in> set ahead then absorb (Suc fin) (remove1 fin ahead) else (fin, ahead))"
  by pat_completeness auto
termination
  by (relation "measure (\<lambda>(d, a). length a)") (auto simp: length_remove1 intro: Nat.diff_less)

declare absorb.simps [simp del]

definition insert_at :: "nat \<Rightarrow> 'a \<Rightarrow> 'a list \<Rightarrow> 'a list" where
  "insert_at k x xs = take k xs @ x # drop k xs"

definition close_card_build_request :: "nat \<Rightarrow> string \<Rightarrow> run_state \<Rightarrow> run_state" where
  "close_card_build_request request_index outcome st =
     (let fin = st_card_builds_done st; ahead = st_card_builds_done_ahead st;
          earlier = fin + length (filter (\<lambda>i. i < request_index) ahead);
          st1 = st\<lparr>st_card_build_outcomes := insert_at earlier outcome (st_card_build_outcomes st)\<rparr> in
      if request_index = fin
      then (case absorb (Suc fin) ahead of (d, a) \<Rightarrow>
             st1\<lparr>st_card_builds_done := d, st_card_builds_done_ahead := a\<rparr>)
      else st1\<lparr>st_card_builds_done_ahead := ahead @ [request_index]\<rparr>)"

definition named_request :: "run_state \<Rightarrow> pyval \<Rightarrow> nat option" where
  "named_request st named = (case named of
      PNone \<Rightarrow> Some (st_card_builds_done st)
    | PInt i \<Rightarrow> if i < int (st_card_builds_done st) \<or> nat i \<in> set (st_card_builds_done_ahead st)
                then None else Some (nat i)
    | _ \<Rightarrow> None)"

definition card_replay_node_id :: "pyval \<Rightarrow> int option" where
  "card_replay_node_id v = (case coerce_id v of
      Some i \<Rightarrow> if 0 \<le> i \<and> i \<le> 2 ^ 31 - 1 then Some i else None | None \<Rightarrow> None)"

definition on_card_build_done :: "event \<Rightarrow> run_state \<Rightarrow> run_state" where
  "on_card_build_done e st = (let d = e_data e in
     case (named_request st (pget d ''index''), card_replay_id (pget d ''card_id'')) of
       (Some idx, Some cid) \<Rightarrow>
         (if length (st_card_build_requests st) \<le> idx
             \<or> st_card_build_requests st ! idx \<noteq> (cid, int_value (pget d ''generation''))
             \<or> as_int (pget d ''generation'') = None then st
          else (case pget d ''skipped'' of
              PStr skipped \<Rightarrow>
                (if skipped = ''producer_failed'' then
                   (let st1 = close_card_build_request idx skipped st;
                        reason = (case pget d ''skipped_reason'' of PStr r \<Rightarrow> take 64 (py_strip r) | _ \<Rightarrow> []);
                        old = (case dict_get (st_card_build_producer_failed_reasons st1) cid of
                                 Some rs \<Rightarrow> rs | None \<Rightarrow> []) in
                    st1\<lparr>st_card_build_producer_failed := st_card_build_producer_failed st1
                          @ (if cid \<in> set (st_card_build_producer_failed st1) then [] else [cid]),
                        st_card_build_producer_failed_reasons :=
                          dict_put cid (old @ [reason]) (st_card_build_producer_failed_reasons st1)\<rparr>)
                 else if skipped = ''stale'' then close_card_build_request idx skipped st
                 else st)
            | PNone \<Rightarrow>
                (if \<not> is_true (pget d ''speculative'') then st
                 else (case card_replay_node_id (pget d ''node_id'') of
                     None \<Rightarrow> st
                   | Some nid \<Rightarrow> (case node_at st nid of
                       None \<Rightarrow> st
                     | Some n \<Rightarrow>
                        (if i_card_id (n_idea n) \<noteq> Some cid \<or> \<not> n_speculative n
                            \<or> n_card_build_generation n \<noteq> Some (int_value (pget d ''generation''))
                         then st
                         else (let st1 = close_card_build_request idx ''committed'' st in
                           st1\<lparr>st_speculative_nodes := dict_put nid (st_card_build_requests st ! idx)
                                 (st_speculative_nodes st1)\<rparr>)))))
            | _ \<Rightarrow> st))
     | _ \<Rightarrow> st)"

end
