(* ===== verification/RunControl.thy ===== *)
theory RunControl
  imports Requests
begin

text \<open>
  The run's own state machine in the fold (\<open>looplab/events/replay.py\<close>): its start and its pins,
  finish and finalization marker, resume requests and their serving, pause, abort, reopening, the
  approval of a champion and of a spec, run set-up, and the width and depth the engine settled on.
\<close>

section \<open>Start\<close>

definition settle_folded_speculation_depth :: "run_state \<Rightarrow> run_state" where
  "settle_folded_speculation_depth st = st\<lparr>st_speculation_depth :=
     (case st_speculation_depth_settled st of
        None \<Rightarrow> st_speculation_depth_pinned st
      | Some cap \<Rightarrow> min (st_speculation_depth_pinned st) cap)\<rparr>"

definition lowered :: "payload \<Rightarrow> string \<Rightarrow> string \<Rightarrow> string" where
  "lowered d k dflt = py_lower (py_strip (py_str (pget_or d k (PStr dflt))))"

definition bounded_or :: "pyval \<Rightarrow> int \<Rightarrow> int \<Rightarrow> int \<Rightarrow> int" where
  "bounded_or v lo hi dflt = (if bounded_int v lo hi then int_value v else dflt)"

definition on_run_started :: "event \<Rightarrow> run_state \<Rightarrow> run_state" where
  "on_run_started e st = (let d = e_data e; tg = lowered d ''trust_gate'' ''audit'' in
     if truthy (st_run_id st) then st
     else settle_folded_speculation_depth (st\<lparr>
       st_run_id := pget_or d ''run_id'' (PStr []),
       st_run_uid := (case pget d ''run_uid'' of PStr u \<Rightarrow> u | _ \<Rightarrow> []),
       st_goal := pget_or d ''goal'' (PStr []),
       st_direction := (if lowered d ''direction'' ''min'' = ''max'' then Max else Min),
       st_trust_gate := (if tg \<in> {''audit'', ''gate'', ''block''} then tg else ''audit''),
       st_speculation_depth_pinned := bounded_or (pget_or d ''speculation_depth'' (PInt 0)) 0 64 0,
       st_eval_parallel := bounded_or (pget_or d ''eval_parallel'' (PInt 0)) 0 1024 0,
       st_llm_parallel := bounded_or (pget_or d ''llm_parallel'' (PInt 0)) 0 64 0,
       st_holdout_select := truthy (pget_or d ''holdout_select'' (PBool False)),
       st_holdout_fraction := finite_metric (pget d ''holdout_fraction''),
       st_split_salt_disclosure := (pget d ''split_salt'' = PStr ''disclosure''),
       st_select_verifier_tiebreak := truthy (pget_or d ''select_verifier'' (PBool False)),
       st_verifier_ci_tie := truthy (pget_or d ''verifier_ci_tie'' (PBool False)),
       st_select_verifier_samples := bounded_or (pget_or d ''select_verifier_samples'' (PInt 3)) 1 32 3,
       st_select_verifier_contract := (case pget_or d ''select_verifier_contract''
             (PStr ''selection-criteria:v1'') of
          PStr c \<Rightarrow> if length c \<le> 80 then c else ''selection-criteria:v1''
        | _ \<Rightarrow> ''selection-criteria:v1'')\<rparr>))"

text \<open>A relocation follows the row it names, keeps the run's identity and renames the run.\<close>

definition plain_name :: "string \<Rightarrow> bool" where
  "plain_name s \<longleftrightarrow> s \<noteq> [] \<and> s \<noteq> ''.'' \<and> s \<noteq> ''..'' \<and> py_strip s = s
     \<and> list_all (\<lambda>c. c \<noteq> CHR ''/'' \<and> c \<noteq> CHR 0x5C \<and> c \<noteq> char_of (0 :: nat)) s"

definition on_run_relocated :: "event \<Rightarrow> run_state \<Rightarrow> run_state" where
  "on_run_relocated e st = (let d = e_data e in
     case (pget d ''to_run_id'', pget d ''previous_event_seq'', pget d ''previous_event_sha256'') of
       (PStr to, PInt previous, PStr digest) \<Rightarrow>
         (if st_run_uid st = [] \<or> pget d ''run_uid'' \<noteq> PStr (st_run_uid st)
             \<or> pget d ''from_run_id'' \<noteq> st_run_id st \<or> \<not> plain_name to
             \<or> e_seq e \<noteq> previous + 1 \<or> length digest \<noteq> 64 then st
          else st\<lparr>st_relocations := st_relocations st @ [
                 [(''from_run_id'', st_run_id st), (''to_run_id'', PStr to),
                  (''run_uid'', PStr (st_run_uid st)), (''previous_event_seq'', PInt previous),
                  (''previous_event_sha256'', PStr digest),
                  (''reason'', case pget d ''reason'' of PStr r \<Rightarrow> PStr r | _ \<Rightarrow> PStr []),
                  (''event_seq'', PInt (e_seq e))]],
               st_run_id := PStr to\<rparr>)
     | _ \<Rightarrow> st)"

section \<open>Set-up\<close>

definition on_setup_finished :: "event \<Rightarrow> run_state \<Rightarrow> run_state" where
  "on_setup_finished e st = (let m = pget (e_data e) ''manifest'' in
     st\<lparr>st_setup_done := True,
        st_setup_manifest := (if truthy m then py_str m else st_setup_manifest st)\<rparr>)"

definition run_setup_key :: "externals \<Rightarrow> pyval list \<Rightarrow> string" where
  "run_setup_key X command = take 12 (x_md5 X (case map py_str command of
      [] \<Rightarrow> [] | a # as \<Rightarrow> a @ concat (map (\<lambda>x. char_of (0 :: nat) # x) as)))"

definition on_run_setup_started :: "externals \<Rightarrow> event \<Rightarrow> run_state \<Rightarrow> run_state" where
  "on_run_setup_started X e st = (case pget (e_data e) ''command'' of
      PList (c # cs) \<Rightarrow> st\<lparr>st_run_setup_open := insert (run_setup_key X (c # cs)) (st_run_setup_open st)\<rparr>
    | _ \<Rightarrow> st)"

definition on_run_setup_finished :: "externals \<Rightarrow> event \<Rightarrow> run_state \<Rightarrow> run_state" where
  "on_run_setup_finished X e st = (let d = e_data e in
     case pget d ''command'' of
       PList (c # cs) \<Rightarrow>
         (let key = run_setup_key X (c # cs);
              st1 = st\<lparr>st_run_setup_open := st_run_setup_open st - {key}\<rparr> in
          if eq_int (pget d ''exit_code'') 0 \<and> \<not> truthy (pget d ''timed_out'')
          then st1\<lparr>st_run_setup_done := insert key (st_run_setup_done st1)\<rparr> else st1)
     | _ \<Rightarrow> st)"

section \<open>Approval\<close>

definition on_approval_requested :: "event \<Rightarrow> run_state \<Rightarrow> run_state" where
  "on_approval_requested e st = (let d = e_data e; subject = node_id_of d;
       node = node_for_event st d; generation = map_option n_attempt node in
     if \<not> adjacent_claim e \<or> st_approved st then st
     else if (case node of Some n \<Rightarrow> is_aborted st (n_id n) \<or> n_tombstoned n | None \<Rightarrow> False) then st
     else if subject \<noteq> None \<and> event_generation d False \<noteq> Missing
        \<and> (case node of Some n \<Rightarrow> \<not> generation_matches n d False | None \<Rightarrow> True) then st
     else (let same_pending = (st_awaiting_approval st \<and> st_approval_subject st = subject
                               \<and> st_approval_generation st = generation) in
       st\<lparr>st_awaiting_approval := True, st_approval_subject := subject,
          st_approval_generation := generation,
          st_approval_request_seq := (if same_pending then st_approval_request_seq st
                                      else Some (e_seq e))\<rparr>))"

definition grant_approval :: "int option \<Rightarrow> run_state \<Rightarrow> run_state" where
  "grant_approval nid st = st\<lparr>st_approved_node_id := nid, st_awaiting_approval := False,
     st_approved := True, st_approval_subject := None, st_approval_generation := None\<rparr>"

definition on_approval_granted :: "event \<Rightarrow> run_state \<Rightarrow> run_state" where
  "on_approval_granted e st = (let d = e_data e in
     if pget d ''node_id'' = PNone then grant_approval (st_approval_subject st) st
     else (case (node_id_of d, node_for_event st d) of
        (Some nid, Some n) \<Rightarrow>
          (if is_aborted st (n_id n) \<or> n_tombstoned n \<or> \<not> generation_matches n d False then st
           else grant_approval (Some nid) st)
      | _ \<Rightarrow> st))"

definition on_spec_proposed :: "event \<Rightarrow> run_state \<Rightarrow> run_state" where
  "on_spec_proposed e st = (if st_spec_approval_requested st \<or> st_spec_confirmed st then st
     else st\<lparr>st_proposed_spec := Some (e_data e)\<rparr>)"

definition on_spec_approval_requested :: "event \<Rightarrow> run_state \<Rightarrow> run_state" where
  "on_spec_approval_requested e st =
     (if st_proposed_spec st = None \<or> st_spec_confirmed st then st
      else st\<lparr>st_spec_approval_request_seq := (if st_spec_approval_requested st
                 then st_spec_approval_request_seq st else Some (e_seq e)),
              st_spec_approval_requested := True\<rparr>)"

definition on_spec_approved :: "event \<Rightarrow> run_state \<Rightarrow> run_state" where
  "on_spec_approved e st = (if st_proposed_spec st = None then st
     else st\<lparr>st_spec_confirmed := True\<rparr>)"

section \<open>Finish\<close>

text \<open>The report row held back for this finish is published only when the finish claims it.\<close>

definition publish_report :: "event \<Rightarrow> fold_state \<Rightarrow> fold_state" where
  "publish_report e s = (case s of (st, ctx) \<Rightarrow>
     (case c_pending_finish_report ctx of
        None \<Rightarrow> s
      | Some (report_seq, report_index, report) \<Rightarrow>
         (let claimed = (if phas (e_data e) ''after_seq'' then report_seq = e_seq e - 1
                         else c_event_index ctx = report_index + 1) in
          ((if claimed then st\<lparr>st_report := Some report\<rparr> else st),
           ctx\<lparr>c_pending_finish_report := None\<rparr>))))"

definition on_run_finished :: "event \<Rightarrow> fold_state \<Rightarrow> fold_state" where
  "on_run_finished e s = (if \<not> adjacent_claim e then s
     else (case publish_report e s of (st, ctx) \<Rightarrow> (let d = e_data e;
         st1 = st\<lparr>st_finished := True, st_finalization_marker_seq := None,
           st_last_finish_seq := e_seq e,
           st_finalized_finish_seq := (if truthy (pget_or d ''finalization_required'' (PBool False))
              then st_finalized_finish_seq st else e_seq e),
           st_stop_reason := pget d ''reason'',
           st_stop_detail := (case pget d ''error'' of
              PStr t \<Rightarrow> if py_strip t = [] then None else Some t | _ \<Rightarrow> None)\<rparr> in
       ((if is_guarded_abort (pget d ''reason'') then st1
         else st1\<lparr>st_building := None, st_buildings := []\<rparr>), ctx))))"

definition on_finalization_finished :: "event \<Rightarrow> run_state \<Rightarrow> run_state" where
  "on_finalization_finished e st = (case pget (e_data e) ''finish_seq'' of
      PBool b \<Rightarrow> st
    | raw \<Rightarrow> (case py_int raw of
        None \<Rightarrow> st
      | Some finish_seq \<Rightarrow>
         (if st_finished st \<and> finish_seq = st_last_finish_seq st
             \<and> st_finalized_finish_seq st \<noteq> finish_seq
          then st\<lparr>st_finalized_finish_seq := finish_seq, st_finalization_marker_seq := Some (e_seq e)\<rparr>
          else st)))"

definition on_report_generated :: "event \<Rightarrow> fold_state \<Rightarrow> fold_state" where
  "on_report_generated e s = (case s of (st, ctx) \<Rightarrow>
     (if pget (e_data e) ''trigger'' = PStr ''finish''
      then (st, ctx\<lparr>c_pending_finish_report := Some (e_seq e, c_event_index ctx, e)\<rparr>)
      else (st\<lparr>st_report := Some e\<rparr>, ctx)))"

section \<open>Resume, pause and abort\<close>

definition on_resume_or_run_reopened :: "event \<Rightarrow> fold_state \<Rightarrow> fold_state" where
  "on_resume_or_run_reopened e s = (case s of (st, ctx) \<Rightarrow>
     (let (st1, ctx1) = (if st_finished st \<or> st_holdout_evaluated_ids st \<noteq> []
            then invalidate_completion_certificates
               (if st_holdout_evaluated_ids st \<noteq> []
                then rotate_search_epoch (st_holdout_epoch_aware st) {} st
                else rotate_search_epoch False {} st, ctx)
            else s) in
      ((unpause st1)\<lparr>st_finished := False, st_stop_reason := PNone, st_stop_detail := None,
         st_stop_requested := PNone\<rparr>, ctx1)))"

definition on_resume_requested :: "event \<Rightarrow> run_state \<Rightarrow> run_state" where
  "on_resume_requested e st = (let d = e_data e;
       st1 = (if st_last_resume_request_seq st < e_seq e
         then st\<lparr>st_last_resume_request_seq := e_seq e, st_last_resume_request_ts := e_ts e,
                 st_last_resume_request_mode := (case pget d ''mode'' of
                    PStr m \<Rightarrow> if m = ''resume'' \<or> m = ''finalize'' then m
                              else if truthy (pget d ''launch_claim'') then st_last_resume_request_mode st
                              else ''resume''
                  | _ \<Rightarrow> if truthy (pget d ''launch_claim'') then st_last_resume_request_mode st
                         else ''resume'')\<rparr>
         else st) in
     if truthy (pget d ''launch_claim'') \<and> st_last_resume_launch_seq st1 < e_seq e
     then st1\<lparr>st_last_resume_launch_seq := e_seq e, st_last_resume_launch_ts := e_ts e\<rparr> else st1)"

definition on_resume_served :: "event \<Rightarrow> run_state \<Rightarrow> run_state" where
  "on_resume_served e st = (if e_seq e \<le> st_last_resume_served_seq st then st
     else (let st1 = st\<lparr>st_last_resume_served_seq := e_seq e\<rparr>;
               st2 = (if is_true (pget (e_data e) ''engine_owner_boundary'')
                      then clear_eval_activity_for_new_owner st1 else st1) in
       if st_finished st2 \<and> st_last_resume_request_mode st2 = ''finalize''
       then st2\<lparr>st_stop_requested := PNone\<rparr> else st2))"

definition on_run_abort :: "event \<Rightarrow> run_state \<Rightarrow> run_state" where
  "on_run_abort e st = st\<lparr>st_stop_requested := pget_or (e_data e) ''reason'' (PStr ''operator''),
     st_last_stop_request_seq := e_seq e\<rparr>"

definition pause_with :: "event \<Rightarrow> payload \<Rightarrow> bool \<Rightarrow> (int \<times> int) option \<Rightarrow> run_state \<Rightarrow> run_state" where
  "pause_with e d drain target st =
     (let st1 = st\<lparr>st_paused := True, st_pause_node_id := map_option fst target,
                   st_pause_generation := map_option snd target\<rparr> in
      if (st_paused st, st_pause_node_id st, st_pause_generation st)
           = (True, st_pause_node_id st1, st_pause_generation st1) then st1
      else st1\<lparr>st_pause_event_seq := Some (e_seq e),
               st_pause_reason := (case pget d ''reason'' of
                  PStr r \<Rightarrow> if py_strip r = [] then None else Some r | _ \<Rightarrow> None),
               st_pause_drain_builds := drain\<rparr>)"

definition on_pause_data :: "event \<Rightarrow> payload \<Rightarrow> run_state \<Rightarrow> run_state" where
  "on_pause_data e d st0 =
     (let drain = (is_true (pget d ''drain_builds'') \<and> pget d ''node_id'' = PNone);
          st = (if drain then st0 else st0\<lparr>st_pause_drain_builds := False\<rparr>) in
      if pget d ''node_id'' = PNone then pause_with e d drain None st
      else if st_paused st \<and> st_pause_node_id st = None then st
      else (case (node_id_of d, node_for_event st d) of
          (Some nid, Some n) \<Rightarrow>
            (if is_aborted st (n_id n) \<or> \<not> generation_matches n d False \<or> n_status n \<noteq> Failed
                \<or> n_error_reason n \<noteq> ''developer_crash'' then st
             else pause_with e d drain (Some (nid, n_attempt n)) st)
        | _ \<Rightarrow> st))"

definition on_pause :: "event \<Rightarrow> run_state \<Rightarrow> run_state" where
  "on_pause e st = on_pause_data e (e_data e) st"

definition on_restart :: "event \<Rightarrow> run_state \<Rightarrow> run_state" where
  "on_restart e st0 = (let st = on_pause_data e [] st0 in
     if st_last_resume_request_seq st < e_seq e
     then st\<lparr>st_last_resume_request_seq := e_seq e, st_last_resume_request_ts := e_ts e,
             st_last_resume_request_mode := ''resume''\<rparr> else st)"

section \<open>Depth and width\<close>

definition on_speculation_depth_settled :: "event \<Rightarrow> run_state \<Rightarrow> run_state" where
  "on_speculation_depth_settled e st = (let depth = pget (e_data e) ''depth'' in
     if \<not> bounded_int depth 0 64 then st
     else settle_folded_speculation_depth (st\<lparr>st_speculation_depth_settled := Some
        (case st_speculation_depth_settled st of
           None \<Rightarrow> int_value depth | Some cap \<Rightarrow> min cap (int_value depth))\<rparr>))"

definition on_run_width_settled :: "event \<Rightarrow> run_state \<Rightarrow> run_state" where
  "on_run_width_settled e st = (let d = e_data e;
       ev = pget d ''eval_parallel''; lv = pget d ''llm_parallel'' in
     st\<lparr>st_eval_parallel_settled := (if bounded_int ev 1 1024 then Some (int_value ev)
           else st_eval_parallel_settled st),
        st_llm_parallel_settled := (if bounded_int lv 1 64 then Some (int_value lv)
           else st_llm_parallel_settled st)\<rparr>)"

definition on_host_grading :: "event \<Rightarrow> run_state \<Rightarrow> run_state" where
  "on_host_grading e st = st\<lparr>st_host_grading := PDict (e_data e)\<rparr>"

text \<open>The seconds an upstream execution took (the upstream history itself is not modelled).\<close>

definition on_upstream_execution :: "event \<Rightarrow> run_state \<Rightarrow> run_state" where
  "on_upstream_execution e st =
     (case (case pget (e_data e) ''execution'' of PDict row \<Rightarrow> finite_metric (pget row ''seconds'') | _ \<Rightarrow> None) of
        Some secs \<Rightarrow> (if secs < 0 then st else st\<lparr>
          st_total_eval_seconds := st_total_eval_seconds st + secs,
          st_eval_seconds_by_kind := dict_put ''upstream''
            ((case dict_get (st_eval_seconds_by_kind st) ''upstream'' of Some r \<Rightarrow> r | None \<Rightarrow> 0) + secs)
            (st_eval_seconds_by_kind st)\<rparr>)
      | None \<Rightarrow> st)"

end
