(* ===== verification/FoldViews.thy ===== *)
theory FoldViews
  imports RunControl
begin

text \<open>
  The parts of the run state the invariants speak of, each as a view with the lemma that most
  handlers leave it alone: the lifecycle of every node with the failure counters, the evaluation
  seconds, and the request queues. A handler that only touches other fields preserves every
  invariant over a view because it preserves the view.
\<close>

section \<open>The lifecycle view\<close>

definition life_of :: "node \<Rightarrow> int \<times> node_status \<times> bool \<times> string \<times> int \<times> int option" where
  "life_of n = (n_id n, n_status n, n_tombstoned n, n_error_reason n, n_attempt n, n_terminal_event_seq n)"

definition life :: "(int \<times> node) list \<Rightarrow> (int \<times> int \<times> node_status \<times> bool \<times> string \<times> int \<times> int option) list" where
  "life ns = map (\<lambda>(k, n). (k, life_of n)) ns"

definition node_view where
  "node_view st = (life (st_nodes st), st_aborted_nodes st, st_current_failure_count st,
     st_failure_spike_level st)"

lemma life_modify: "(\<And>n. life_of (f n) = life_of n) \<Longrightarrow> life (dict_modify k f ns) = life ns"
  by (auto simp: life_def dict_modify_def)

lemma life_map_values: "(\<And>n. life_of (f n) = life_of n) \<Longrightarrow> life (dict_map_values f ns) = life ns"
  by (auto simp: life_def dict_map_values_def)

lemma node_view_upd_node: "(\<And>n. life_of (f n) = life_of n) \<Longrightarrow> node_view (upd_node k f st) = node_view st"
  by (simp add: node_view_def upd_node_def life_modify)

lemma node_view_upd_nodes: "(\<And>n. life_of (f n) = life_of n) \<Longrightarrow> node_view (upd_nodes f st) = node_view st"
  by (simp add: node_view_def upd_nodes_def life_map_values)

section \<open>The other views\<close>

definition clock_view where
  "clock_view st = (st_total_eval_seconds st, st_eval_seconds_by_kind st)"

definition queue_view where
  "queue_view st = (length (st_fork_requests st), st_forks_done st, length (st_inject_requests st),
     st_injects_done st, length (st_track_requests st), st_tracks_done st,
     length (st_lane_op_requests st), st_lane_ops_done st)"

definition card_view where
  "card_view st = (length (st_card_build_requests st), st_card_builds_done st,
     st_card_builds_done_ahead st, length (st_card_build_outcomes st))"

text \<open>The champion, which no handler writes, and the search epoch.\<close>

definition mark_view where
  "mark_view st = (st_best_node_id st, st_search_epoch st)"

lemmas view_defs = node_view_def clock_view_def queue_view_def card_view_def mark_view_def

lemma views_upd_node [simp]:
  "clock_view (upd_node k f st) = clock_view st" "queue_view (upd_node k f st) = queue_view st"
  "card_view (upd_node k f st) = card_view st" "mark_view (upd_node k f st) = mark_view st"
  "st_aborted_nodes (upd_node k f st) = st_aborted_nodes st"
  by (simp_all add: view_defs upd_node_def)

lemma views_upd_nodes [simp]:
  "clock_view (upd_nodes f st) = clock_view st" "queue_view (upd_nodes f st) = queue_view st"
  "card_view (upd_nodes f st) = card_view st" "mark_view (upd_nodes f st) = mark_view st"
  "st_aborted_nodes (upd_nodes f st) = st_aborted_nodes st"
  by (simp_all add: view_defs upd_nodes_def)

text \<open>All the views at once, for the handlers that touch none of them.\<close>

definition views where
  "views st = (node_view st, clock_view st, queue_view st, card_view st, mark_view st)"

lemma views_upd_node_life: "(\<And>n. life_of (f n) = life_of n) \<Longrightarrow> views (upd_node k f st) = views st"
  by (simp add: views_def node_view_upd_node)

lemma views_upd_nodes_life: "(\<And>n. life_of (f n) = life_of n) \<Longrightarrow> views (upd_nodes f st) = views st"
  by (simp add: views_def node_view_upd_nodes)

lemma views_updates [simp]:
  "views (st\<lparr>st_run_id := x0\<rparr>) = views st"
  "views (st\<lparr>st_run_uid := x1\<rparr>) = views st"
  "views (st\<lparr>st_relocations := x2\<rparr>) = views st"
  "views (st\<lparr>st_eval_parallel := x3\<rparr>) = views st"
  "views (st\<lparr>st_llm_parallel := x4\<rparr>) = views st"
  "views (st\<lparr>st_run_setup_done := x5\<rparr>) = views st"
  "views (st\<lparr>st_run_setup_open := x6\<rparr>) = views st"
  "views (st\<lparr>st_policy_scores := x7\<rparr>) = views st"
  "views (st\<lparr>st_policy_chosen := x8\<rparr>) = views st"
  "views (st\<lparr>st_policy_reason := x9\<rparr>) = views st"
  "views (st\<lparr>st_report := x10\<rparr>) = views st"
  "views (st\<lparr>st_card_build_producer_failed := x11\<rparr>) = views st"
  "views (st\<lparr>st_card_build_producer_failed_reasons := x12\<rparr>) = views st"
  "views (st\<lparr>st_speculative_nodes := x13\<rparr>) = views st"
  "views (st\<lparr>st_eval_noise_floor := x14\<rparr>) = views st"
  "views (st\<lparr>st_repair_ledger := x15\<rparr>) = views st"
  "views (st\<lparr>st_repair_ledger_omitted := x16\<rparr>) = views st"
  "views (st\<lparr>st_goal := x17\<rparr>) = views st"
  "views (st\<lparr>st_direction := x18\<rparr>) = views st"
  "views (st\<lparr>st_objective_key := x19\<rparr>) = views st"
  "views (st\<lparr>st_objective_history := x20\<rparr>) = views st"
  "views (st\<lparr>st_setup_done := x21\<rparr>) = views st"
  "views (st\<lparr>st_setup_manifest := x22\<rparr>) = views st"
  "views (st\<lparr>st_trust_gate := x23\<rparr>) = views st"
  "views (st\<lparr>st_speculation_depth := x24\<rparr>) = views st"
  "views (st\<lparr>st_speculation_depth_pinned := x25\<rparr>) = views st"
  "views (st\<lparr>st_speculation_depth_settled := x26\<rparr>) = views st"
  "views (st\<lparr>st_eval_parallel_settled := x27\<rparr>) = views st"
  "views (st\<lparr>st_llm_parallel_settled := x28\<rparr>) = views st"
  "views (st\<lparr>st_holdout_select := x29\<rparr>) = views st"
  "views (st\<lparr>st_holdout_fraction := x30\<rparr>) = views st"
  "views (st\<lparr>st_select_verifier_tiebreak := x31\<rparr>) = views st"
  "views (st\<lparr>st_verifier_ci_tie := x32\<rparr>) = views st"
  "views (st\<lparr>st_select_verifier_samples := x33\<rparr>) = views st"
  "views (st\<lparr>st_select_verifier_contract := x34\<rparr>) = views st"
  "views (st\<lparr>st_failure_spike_seq := x35\<rparr>) = views st"
  "views (st\<lparr>st_building := x36\<rparr>) = views st"
  "views (st\<lparr>st_buildings := x37\<rparr>) = views st"
  "views (st\<lparr>st_breed_excluded := x38\<rparr>) = views st"
  "views (st\<lparr>st_finished := x39\<rparr>) = views st"
  "views (st\<lparr>st_last_finish_seq := x40\<rparr>) = views st"
  "views (st\<lparr>st_finalized_finish_seq := x41\<rparr>) = views st"
  "views (st\<lparr>st_finalization_marker_seq := x42\<rparr>) = views st"
  "views (st\<lparr>st_host_grading := x43\<rparr>) = views st"
  "views (st\<lparr>st_stop_reason := x44\<rparr>) = views st"
  "views (st\<lparr>st_stop_detail := x45\<rparr>) = views st"
  "views (st\<lparr>st_confirmed_done := x46\<rparr>) = views st"
  "views (st\<lparr>st_confirm_certificate_node := x47\<rparr>) = views st"
  "views (st\<lparr>st_confirm_certificate_significant := x48\<rparr>) = views st"
  "views (st\<lparr>st_split_epoch := x49\<rparr>) = views st"
  "views (st\<lparr>st_split_salt_disclosure := x50\<rparr>) = views st"
  "views (st\<lparr>st_last_resume_request_seq := x51\<rparr>) = views st"
  "views (st\<lparr>st_last_resume_served_seq := x52\<rparr>) = views st"
  "views (st\<lparr>st_last_resume_request_ts := x53\<rparr>) = views st"
  "views (st\<lparr>st_last_resume_request_mode := x54\<rparr>) = views st"
  "views (st\<lparr>st_last_resume_launch_seq := x55\<rparr>) = views st"
  "views (st\<lparr>st_last_resume_launch_ts := x56\<rparr>) = views st"
  "views (st\<lparr>st_awaiting_approval := x57\<rparr>) = views st"
  "views (st\<lparr>st_approved := x58\<rparr>) = views st"
  "views (st\<lparr>st_approval_subject := x59\<rparr>) = views st"
  "views (st\<lparr>st_approval_generation := x60\<rparr>) = views st"
  "views (st\<lparr>st_approval_request_seq := x61\<rparr>) = views st"
  "views (st\<lparr>st_approved_node_id := x62\<rparr>) = views st"
  "views (st\<lparr>st_proposed_spec := x63\<rparr>) = views st"
  "views (st\<lparr>st_spec_approval_requested := x64\<rparr>) = views st"
  "views (st\<lparr>st_spec_approval_request_seq := x65\<rparr>) = views st"
  "views (st\<lparr>st_spec_confirmed := x66\<rparr>) = views st"
  "views (st\<lparr>st_drifts := x67\<rparr>) = views st"
  "views (st\<lparr>st_confirm_seed_results := x68\<rparr>) = views st"
  "views (st\<lparr>st_eval_noise_seed_results := x69\<rparr>) = views st"
  "views (st\<lparr>st_holdout_evaluated_ids := x70\<rparr>) = views st"
  "views (st\<lparr>st_holdout_epoch_aware := x71\<rparr>) = views st"
  "views (st\<lparr>st_holdout_partition_disclosed := x72\<rparr>) = views st"
  "views (st\<lparr>st_paused := x73\<rparr>) = views st"
  "views (st\<lparr>st_pause_node_id := x74\<rparr>) = views st"
  "views (st\<lparr>st_pause_generation := x75\<rparr>) = views st"
  "views (st\<lparr>st_pause_event_seq := x76\<rparr>) = views st"
  "views (st\<lparr>st_pause_reason := x77\<rparr>) = views st"
  "views (st\<lparr>st_pause_drain_builds := x78\<rparr>) = views st"
  "views (st\<lparr>st_stop_requested := x79\<rparr>) = views st"
  "views (st\<lparr>st_last_stop_request_seq := x80\<rparr>) = views st"
  "views (st\<lparr>st_budget_overrides := x81\<rparr>) = views st"
  "views (st\<lparr>st_pending_hints := x82\<rparr>) = views st"
  "views (st\<lparr>st_confirm_requests := x83\<rparr>) = views st"
  "views (st\<lparr>st_confirmed_forced := x84\<rparr>) = views st"
  "views (st\<lparr>st_confirm_request_generations := x85\<rparr>) = views st"
  "views (st\<lparr>st_confirmed_forced_generations := x86\<rparr>) = views st"
  "views (st\<lparr>st_ablate_requests := x87\<rparr>) = views st"
  "views (st\<lparr>st_ablate_request_generations := x88\<rparr>) = views st"
  "views (st\<lparr>st_promotions := x89\<rparr>) = views st"
  "views (st\<lparr>st_champion := x90\<rparr>) = views st"
  "views (st\<lparr>st_ablations := x91\<rparr>) = views st"
  "views (st\<lparr>st_pending_strategy := x92\<rparr>) = views st"
  "views (st\<lparr>st_proxy_scores := x93\<rparr>) = views st"
  "views (st\<lparr>st_proxy_skipped := x94\<rparr>) = views st"
  "views (st\<lparr>st_reward_hacks := x95\<rparr>) = views st"
  "views (st\<lparr>st_foresight_selected := x96\<rparr>) = views st"
  "views (st\<lparr>st_research_requests := x97\<rparr>) = views st"
  "views (st\<lparr>st_hypothesis_ranking := x98\<rparr>) = views st"
  by (simp_all add: views_def view_defs)

named_theorems frames \<open>a step leaves the views alone\<close>

lemma views_helpers [frames]:
  "views (clear_approval st) = views st" "views (unpause st) = views st"
  "views (purge_node_requests gone st) = views st" "views (grant_approval i st) = views st"
  "views (settle_folded_speculation_depth st) = views st"
  by (simp_all add: views_def view_defs clear_approval_def unpause_def purge_node_requests_def
      grant_approval_def settle_folded_speculation_depth_def)

lemma views_clear_build_marker [frames]: "views (clear_build_marker d nid st) = views st"
  by (simp add: views_def view_defs clear_build_marker_def Let_def)

lemma views_pause_with [frames]: "views (pause_with e d drain t st) = views st"
  by (simp add: views_def view_defs pause_with_def Let_def)

lemma views_if: "views (if b then s else t) = (if b then views s else views t)"
  by simp

section \<open>Handlers that leave every view alone\<close>

lemma views_run_control [frames]:
  "views (on_run_started e st) = views st" "views (on_run_relocated e st) = views st"
  "views (on_setup_finished e st) = views st" "views (on_run_setup_started X e st) = views st"
  "views (on_run_setup_finished X e st) = views st"
  "views (on_approval_requested e st) = views st" "views (on_approval_granted e st) = views st"
  "views (on_spec_proposed e st) = views st" "views (on_spec_approval_requested e st) = views st"
  "views (on_spec_approved e st) = views st" "views (on_resume_requested e st) = views st"
  "views (on_run_abort e st) = views st" "views (on_finalization_finished e st) = views st"
  "views (on_host_grading e st) = views st" "views (on_run_width_settled e st) = views st"
  "views (on_speculation_depth_settled e st) = views st" "views (on_pause_data e d st) = views st"
  by (simp_all add: on_run_started_def on_run_relocated_def on_setup_finished_def
      on_run_setup_started_def on_run_setup_finished_def on_approval_requested_def
      on_approval_granted_def on_spec_proposed_def on_spec_approval_requested_def
      on_spec_approved_def on_resume_requested_def on_run_abort_def on_finalization_finished_def
      on_host_grading_def on_run_width_settled_def on_speculation_depth_settled_def
      on_pause_data_def Let_def frames views_if split: option.splits pyval.splits list.splits)

lemma views_clear_activity [frames]: "views (clear_eval_activity_for_new_owner st) = views st"
  unfolding clear_eval_activity_for_new_owner_def
  by (rule views_upd_nodes_life) (simp add: life_of_def)

lemma views_pause [frames]: "views (on_pause e st) = views st" "views (on_restart e st) = views st"
  "views (on_resume_served e st) = views st"
  by (simp_all add: on_pause_def on_restart_def on_resume_served_def Let_def frames views_if)

lemma views_operator [frames]:
  "views (on_budget_extend e st) = views st" "views (on_hint e st) = views st"
  "views (on_set_strategy e st) = views st" "views (on_deep_research e st) = views st"
  "views (on_force_confirm e st) = views st" "views (on_force_ablate e st) = views st"
  "views (on_confirm_done e st) = views st" "views (on_promote e st) = views st"
  by (simp_all add: on_budget_extend_def on_hint_def on_set_strategy_def on_deep_research_def
      on_force_confirm_def on_force_ablate_def on_confirm_done_def on_promote_def Let_def views_if
      split: option.splits prod.splits)

lemma views_advice [frames]:
  "views (on_node_building e st) = views st" "views (on_eval_noise_floor e st) = views st"
  "views (on_trust_gate_changed e st) = views st" "views (on_reward_hack_suspected e st) = views st"
  "views (on_spec_drift e st) = views st" "views (on_foresight_selected e st) = views st"
  "views (on_proxy_scored e st) = views st" "views (on_hypothesis_ranked e st) = views st"
  "views (on_policy_decision e st) = views st"
  by (simp_all add: on_node_building_def on_eval_noise_floor_def on_trust_gate_changed_def
      on_reward_hack_suspected_def on_spec_drift_def on_foresight_selected_def on_proxy_scored_def
      on_hypothesis_ranked_def on_policy_decision_def Let_def frames views_if
      split: option.splits)

text \<open>Handlers that write a node, but nothing its lifecycle is made of.\<close>

lemma life_of_writes [simp]:
  "life_of (with_verifier_score X dir r n) = life_of n" "life_of (with_holdout X dir r n) = life_of n"
  "life_of (repaired_node e b n) = life_of n" "life_of (remeasure st n) = life_of n"
  "life_of (drop_holdout st n) = life_of n"
  by (simp_all add: life_of_def with_verifier_score_def with_holdout_def repaired_node_def
      remeasure_def drop_holdout_def Let_def)

lemma views_group_scored [frames]:
  "views (foldl (\<lambda>st (nid, score). upd_node nid (with_verifier_score X (st_direction st) score) st) st ms)
     = views st"
  by (induction ms arbitrary: st) (auto simp: views_upd_node_life)

lemma views_node_writes [frames]:
  "views (on_node_eval_started e st) = views st" "views (on_node_overlay_rebased e st) = views st"
  "views (on_stage_finished e st) = views st" "views (on_node_confirmed X e st) = views st"
  "views (on_agent_validated e st) = views st" "views (on_node_value_estimated e st) = views st"
  by (simp_all add: on_node_eval_started_def on_node_overlay_rebased_def on_stage_finished_def
      on_node_confirmed_def on_agent_validated_def on_node_value_estimated_def
      Let_def frames views_if views_upd_node_life life_of_def split: option.splits pyval.splits)

lemma views_verified [frames]:
  "views (on_node_verified X e st) = views st" "views (on_verifier_group_scored X e st) = views st"
  by (simp_all add: on_node_verified_def on_verifier_group_scored_def Let_def frames views_if
      views_upd_node_life split: option.splits pyval.splits)

lemma views_accept_holdout [frames]: "views (accept_holdout X d nid st) = views st"
  by (simp add: accept_holdout_def Let_def views_upd_node_life views_if split: option.splits)

lemma views_certificates [frames]: "views (fst (invalidate_completion_certificates s)) = views (fst s)"
  by (simp add: invalidate_completion_certificates_def frames split: prod.splits)

lemma views_repair_ledger [frames]: "views (fst (record_repair_ledger d s)) = views (fst s)"
  by (simp add: record_repair_ledger_def Let_def split: prod.splits pyval.splits)

lemma views_repaired [frames]: "views (fst (on_node_repaired e s)) = views (fst s)"
proof -
  obtain st ctx where r: "record_repair_ledger (e_data e) s = (st, ctx)" by fastforce
  have "views st = views (fst s)" using views_repair_ledger [of "e_data e" s] r by simp
  then show ?thesis
    by (simp add: on_node_repaired_def Let_def r views_upd_node_life split: option.splits)
qed

lemma views_fold_writes [frames]:
  "views (fst (on_best_confirmed e s)) = views (fst s)"
  "views (fst (on_metric_retarget e s)) = views (fst s)"
  "views (fst (on_report_generated e s)) = views (fst s)"
  "views (fst (on_run_finished e s)) = views (fst s)"
  by (simp_all add: on_best_confirmed_def on_metric_retarget_def on_report_generated_def
      on_run_finished_def publish_report_def Let_def frames views_if views_upd_nodes_life
      split: prod.splits option.splits)

end
