(* ===== verification/FoldInv.thy ===== *)
theory FoldInv
  imports FoldViews
begin

text \<open>
  The invariant of the node table under every lifecycle step: keys are the nodes' ids, a node is
  pending exactly while it has no terminal, attempts are never negative, and the failure counter
  the fold maintains incrementally is the recount over the table.
\<close>

section \<open>The invariant over the lifecycle view\<close>

type_synonym life_row = "int \<times> node_status \<times> bool \<times> string \<times> int \<times> int option"

fun row_fails :: "int list \<Rightarrow> life_row \<Rightarrow> bool" where
  "row_fails ab (i, s, t, r, a, q) \<longleftrightarrow> \<not> t \<and> i \<notin> set ab \<and> s = Failed
     \<and> py_lower (py_strip r) \<notin> benign_terminal_reasons"

fun row_ok :: "int \<times> life_row \<Rightarrow> bool" where
  "row_ok (k, (i, s, t, r, a, q)) \<longleftrightarrow> i = k \<and> (s = Pending \<longleftrightarrow> q = None) \<and> 0 \<le> a"

definition failing :: "int list \<Rightarrow> (int \<times> life_row) list \<Rightarrow> nat" where
  "failing ab L = length (filter (\<lambda>(k, l). row_fails ab l) L)"

definition life_inv :: "(int \<times> life_row) list \<times> int list \<times> int \<times> int \<Rightarrow> bool" where
  "life_inv v \<longleftrightarrow> (case v of (L, ab, cnt, lvl) \<Rightarrow>
     distinct (map fst L) \<and> (\<forall>x \<in> set L. row_ok x) \<and> distinct ab
     \<and> cnt = int (failing ab L) \<and> lvl = cnt div 3)"

definition node_inv :: "run_state \<Rightarrow> bool" where
  "node_inv st \<longleftrightarrow> life_inv (node_view st)"

lemma node_inv_cong: "views s = views t \<Longrightarrow> node_inv s = node_inv t"
  by (simp add: views_def node_inv_def)

lemma row_ok_life [simp]: "row_ok (k, life_of n) \<longleftrightarrow>
    n_id n = k \<and> (n_status n = Pending \<longleftrightarrow> n_terminal_event_seq n = None) \<and> 0 \<le> n_attempt n"
  by (simp add: life_of_def)

lemma row_fails_life: "row_fails ab (life_of n) \<longleftrightarrow> \<not> n_tombstoned n \<and> n_id n \<notin> set ab
    \<and> n_status n = Failed \<and> py_lower (py_strip (n_error_reason n)) \<notin> benign_terminal_reasons"
  by (simp add: life_of_def)

lemma row_fails_iff: "row_fails (st_aborted_nodes st) (life_of n) \<longleftrightarrow> counts_as_current_failure st n"
  by (auto simp: life_of_def counts_as_current_failure_def search_outcome_def)

lemma fst_life [simp]: "map fst (life ns) = dict_keys ns"
  by (auto simp: life_def dict_keys_def)

lemma in_life: "(k, n) \<in> set ns \<Longrightarrow> (k, life_of n) \<in> set (life ns)"
  by (force simp: life_def)

lemma wf_of_inv:
  assumes "node_inv st"
  shows "wf_nodes (st_nodes st)"
proof -
  have d: "distinct (dict_keys (st_nodes st))" and ok: "\<forall>x \<in> set (life (st_nodes st)). row_ok x"
    using assms by (auto simp: node_inv_def life_inv_def node_view_def)
  have "n_id n = k" if "(k, n) \<in> set (st_nodes st)" for k n
    using ok in_life [OF that] by (force simp: life_of_def)
  with d show ?thesis by (auto simp: wf_nodes_def)
qed

lemma life_get: "dict_get ns k = Some n \<Longrightarrow> map_of (life ns) k = Some (life_of n)"
  by (induction ns) (auto simp: life_def)

lemma life_modify_at:
  assumes "distinct (dict_keys ns)" and "dict_get ns k = Some n"
  shows "life (dict_modify k f ns) = dict_modify k (\<lambda>l. life_of (f n)) (life ns)"
proof -
  have "(k', m) \<in> set ns \<Longrightarrow> k' = k \<Longrightarrow> m = n" for k' m
    using assms by (simp add: dict_get_iff_in_set)
       (metis assms(1) dict_get_iff_in_set option.inject)
  then show ?thesis by (auto simp: life_def dict_modify_def)
qed

lemma life_modify_absent: "dict_get ns k = None \<Longrightarrow> dict_modify k f ns = ns"
  by (induction ns) (auto simp: dict_modify_def split: if_splits)

lemma failing_modify:
  assumes "distinct (map fst L)" and "map_of L k = Some l"
  shows "failing ab (dict_modify k (\<lambda>_. l') L) + (if row_fails ab l then 1 else 0)
    = failing ab L + (if row_fails ab l' then 1 else 0)"
  using assms
proof (induction L)
  case Nil
  then show ?case by simp
next
  case (Cons x L)
  obtain k0 l0 where x: "x = (k0, l0)" by (cases x)
  show ?case
  proof (cases "k0 = k")
    case True
    then have "\<forall>y \<in> set L. fst y \<noteq> k" using Cons.prems x by force
    then have "dict_modify k (\<lambda>_. l') L = L" by (induction L) (auto simp: dict_modify_def)
    then show ?thesis using True Cons.prems x by (simp add: failing_def dict_modify_def)
  next
    case False
    then have "failing ab (dict_modify k (\<lambda>_. l') L) + (if row_fails ab l then 1 else 0)
        = failing ab L + (if row_fails ab l' then 1 else 0)"
      using Cons x by simp
    then show ?thesis using False x by (simp add: failing_def dict_modify_def)
  qed
qed

text \<open>One node changes: the counter moves by the difference its failure makes.\<close>

lemma node_inv_modify:
  assumes inv: "node_inv st" and n: "node_at st k = Some n"
    and ok: "row_ok (k, life_of (f n))"
    and view: "node_view st' = (life (dict_modify k f (st_nodes st)), st_aborted_nodes st, cnt, cnt div 3)"
    and cnt: "cnt = st_current_failure_count st - (if counts_as_current_failure st n then 1 else 0)
                + (if row_fails (st_aborted_nodes st) (life_of (f n)) then 1 else 0)"
  shows "node_inv st'"
proof -
  let ?L = "life (st_nodes st)" and ?ab = "st_aborted_nodes st"
  have get: "dict_get (st_nodes st) k = Some n" using n by (simp add: node_at_def)
  have d: "distinct (dict_keys (st_nodes st))" using wf_of_inv [OF inv] by (simp add: wf_nodes_def)
  have L: "life (dict_modify k f (st_nodes st)) = dict_modify k (\<lambda>l. life_of (f n)) ?L"
    by (rule life_modify_at [OF d get])
  have old: "distinct (map fst ?L)" "\<forall>x \<in> set ?L. row_ok x" "distinct ?ab"
    "st_current_failure_count st = int (failing ?ab ?L)"
    using inv by (auto simp: node_inv_def life_inv_def node_view_def)
  have "failing ?ab (dict_modify k (\<lambda>_. life_of (f n)) ?L)
      + (if row_fails ?ab (life_of n) then 1 else 0)
    = failing ?ab ?L + (if row_fails ?ab (life_of (f n)) then 1 else 0)"
    by (rule failing_modify [OF old(1) life_get [OF get]])
  then have "cnt = int (failing ?ab (dict_modify k (\<lambda>_. life_of (f n)) ?L))"
    using cnt old(4) by (auto simp: row_fails_iff split: if_splits)
  moreover have "\<forall>x \<in> set (dict_modify k (\<lambda>_. life_of (f n)) ?L). row_ok x"
    using old(2) ok by (auto simp: dict_modify_def)
  moreover have "distinct (map fst (dict_modify k (\<lambda>_. life_of (f n)) ?L))"
    using old(1) dict_keys_modify [of k "\<lambda>_. life_of (f n)" ?L] by (simp add: dict_keys_def)
  ultimately show ?thesis
    unfolding node_inv_def life_inv_def view L using old(3) by simp
qed

lemma failing_cong: "(\<And>k l. (k, l) \<in> set L \<Longrightarrow> row_fails ab' l = row_fails ab l) \<Longrightarrow> failing ab' L = failing ab L"
  unfolding failing_def
  by (rule arg_cong [where f = length], rule filter_cong) (auto simp del: row_fails.simps)

text \<open>All nodes change at once, none into or out of failure.\<close>

lemma node_inv_upd_nodes:
  assumes inv: "node_inv st"
    and step: "\<And>n. row_ok (n_id n, life_of n) \<Longrightarrow> row_ok (n_id n, life_of (f n))
       \<and> row_fails (st_aborted_nodes st) (life_of (f n)) = row_fails (st_aborted_nodes st) (life_of n)"
  shows "node_inv (upd_nodes f st)"
proof -
  let ?L = "life (st_nodes st)" and ?ab = "st_aborted_nodes st"
  have old: "distinct (map fst ?L)" "\<forall>x \<in> set ?L. row_ok x" "distinct ?ab"
    "st_current_failure_count st = int (failing ?ab ?L)"
    "st_failure_spike_level st = st_current_failure_count st div 3"
    using inv by (auto simp: node_inv_def life_inv_def node_view_def)
  have rows: "(k, n) \<in> set (st_nodes st) \<Longrightarrow> k = n_id n \<and> row_ok (n_id n, life_of n)" for k n
    using old(2) by (fastforce simp: life_def life_of_def)
  have fail: "failing ?ab (life (dict_map_values f (st_nodes st))) = failing ?ab ?L"
  proof -
    have "filter (\<lambda>(k, l). row_fails ?ab l) (life (dict_map_values f ns)) =
        map (\<lambda>(k, n). (k, life_of (f n))) (filter (\<lambda>(k, n). row_fails ?ab (life_of (f n))) ns)" for ns
      by (induction ns) (auto simp: life_def dict_map_values_def)
    moreover have "filter (\<lambda>(k, l). row_fails ?ab l) (life ns) =
        map (\<lambda>(k, n). (k, life_of n)) (filter (\<lambda>(k, n). row_fails ?ab (life_of n)) ns)" for ns
      by (induction ns) (auto simp: life_def)
    moreover have "filter (\<lambda>(k, n). row_fails ?ab (life_of (f n))) (st_nodes st)
        = filter (\<lambda>(k, n). row_fails ?ab (life_of n)) (st_nodes st)"
      by (rule filter_cong) (use rows step in auto)
    ultimately show ?thesis by (simp add: failing_def)
  qed
  have ok: "\<forall>x \<in> set (life (dict_map_values f (st_nodes st))). row_ok x"
    using rows step by (auto simp: life_def dict_map_values_def)
  show ?thesis
    using old fail ok by (simp add: node_inv_def life_inv_def node_view_def upd_nodes_def)
qed

section \<open>Bookkeeping that leaves the table alone\<close>

lemma node_inv_view: "node_view s = node_view t \<Longrightarrow> node_inv s = node_inv t"
  by (simp add: node_inv_def)

lemma node_view_of_views: "views s = views t \<Longrightarrow> node_view s = node_view t"
  by (simp add: views_def)

lemmas node_view_updates [simp] = views_updates [THEN node_view_of_views]

lemma node_view_epoch [simp]: "node_view (st\<lparr>st_search_epoch := x\<rparr>) = node_view st"
  by (simp add: node_view_def)

lemma inv_level: "node_inv st \<Longrightarrow> st_failure_spike_level st = st_current_failure_count st div 3"
  by (simp add: node_inv_def life_inv_def node_view_def)

lemma clear_build_marker_keeps [simp]:
  "st_nodes (clear_build_marker d nid st) = st_nodes st"
  "st_aborted_nodes (clear_build_marker d nid st) = st_aborted_nodes st"
  "st_current_failure_count (clear_build_marker d nid st) = st_current_failure_count st"
  "st_failure_spike_level (clear_build_marker d nid st) = st_failure_spike_level st"
  by (simp_all add: clear_build_marker_def Let_def)

lemma upd_node_keeps [simp]:
  "st_current_failure_count (upd_node k f st) = st_current_failure_count st"
  "st_failure_spike_level (upd_node k f st) = st_failure_spike_level st"
  by (simp_all add: upd_node_def)

lemma node_at_clear [simp]: "node_at (clear_build_marker d nid st) k = node_at st k"
  by (simp add: node_at_def)

lemma is_aborted_clear [simp]: "is_aborted (clear_build_marker d nid st) k = is_aborted st k"
  by (simp add: is_aborted_def)

lemma node_view_charge [simp]: "node_view (charge_eval_seconds kind raw st) = node_view st"
  by (simp add: charge_eval_seconds_def Let_def node_view_def)

lemma node_view_charge_terminal [simp]:
  "node_view (fst (charge_terminal_cost n d s)) = node_view (fst s)"
  by (simp add: charge_terminal_cost_def split: prod.splits option.splits stamp.splits)

lemma node_view_selectors:
  assumes "node_view s = node_view t"
  shows "st_aborted_nodes s = st_aborted_nodes t"
    "st_current_failure_count s = st_current_failure_count t"
    "st_failure_spike_level s = st_failure_spike_level t" "life (st_nodes s) = life (st_nodes t)"
  using assms by (auto simp: node_view_def)

lemma counts_pos:
  assumes inv: "node_inv st" and n: "node_at st k = Some n" and c: "counts_as_current_failure st n"
  shows "0 < st_current_failure_count st"
proof -
  have "(k, n) \<in> set (st_nodes st)" using n by (simp add: node_at_def map_of_SomeD)
  then have "(k, life_of n) \<in> set (filter (\<lambda>(k, l). row_fails (st_aborted_nodes st) l) (life (st_nodes st)))"
    using c in_life row_fails_iff by auto
  then have "0 < failing (st_aborted_nodes st) (life (st_nodes st))"
    unfolding failing_def by (metis length_pos_if_in_set)
  then show ?thesis using inv by (simp add: node_inv_def life_inv_def node_view_def)
qed

text \<open>The row of one node, read off the invariant.\<close>

lemma node_row:
  assumes "node_inv st" and "node_at st k = Some n"
  shows "n_id n = k \<and> (n_status n = Pending \<longleftrightarrow> n_terminal_event_seq n = None) \<and> 0 \<le> n_attempt n"
proof -
  have "(k, life_of n) \<in> set (life (st_nodes st))"
    using assms(2) by (intro in_life) (simp add: node_at_def map_of_SomeD)
  then have "row_ok (k, life_of n)"
    using assms(1) by (auto simp: node_inv_def life_inv_def node_view_def)
  then show ?thesis by simp
qed

definition one_if :: "bool \<Rightarrow> int" where
  "one_if b = (if b then 1 else 0)"

lemma node_view_remove:
  assumes "node_inv st" and "node_at st k = Some n"
  shows "node_view (remove_current_failure n st) =
    (let c = st_current_failure_count st - one_if (counts_as_current_failure st n) in
     (life (st_nodes st), st_aborted_nodes st, c, c div 3))"
  using counts_pos [OF assms] inv_level [OF assms(1)]
  by (simp add: remove_current_failure_def node_view_def Let_def one_if_def)

lemma remove_keeps [simp]:
  "st_nodes (remove_current_failure n st) = st_nodes st"
  "st_aborted_nodes (remove_current_failure n st) = st_aborted_nodes st"
  by (simp_all add: remove_current_failure_def Let_def)

section \<open>Rotation of the search epoch\<close>

lemma requeue_node_life [simp]:
  "n_id (requeue_node n) = n_id n" "n_status (requeue_node n) = Pending"
  "n_terminal_event_seq (requeue_node n) = None" "n_attempt (requeue_node n) = n_attempt n + 1"
  by (simp_all add: requeue_node_def clear_measurement_def)

lemma node_inv_requeue:
  assumes "node_inv st"
  shows "node_inv (requeue_partition_bound_results fresh st)"
proof -
  let ?f = "\<lambda>n. if requeues fresh st n then requeue_node n else n"
  have "node_inv (upd_nodes ?f st)"
    by (rule node_inv_upd_nodes [OF assms])
       (auto simp: row_fails_life requeues_def)
  moreover have "node_view (requeue_partition_bound_results fresh st) = node_view (upd_nodes ?f st)"
    by (simp add: requeue_partition_bound_results_def Let_def node_view_def purge_node_requests_def)
  ultimately show ?thesis using node_inv_view by metis
qed

lemma node_inv_rotate: "node_inv st \<Longrightarrow> node_inv (rotate_search_epoch b fresh st)"
proof -
  assume inv: "node_inv st"
  have "node_inv (upd_nodes (drop_holdout t) s)" if "node_view s = node_view st" for s t
    using inv node_inv_view [OF that] node_inv_cong [OF views_upd_nodes_life [of "drop_holdout t" s]]
    by simp
  then show ?thesis
    by (simp add: rotate_search_epoch_def Let_def node_inv_requeue)
qed

lemma node_inv_invalidate_holdout: "node_inv st \<Longrightarrow> node_inv (invalidate_disclosed_holdout fresh st)"
  by (simp add: invalidate_disclosed_holdout_def node_inv_rotate)

lemma node_inv_certificates: "node_inv (fst s) \<Longrightarrow> node_inv (fst (invalidate_completion_certificates s))"
  using node_inv_cong [OF views_certificates] by blast

lemma node_inv_clear [simp]: "node_inv (clear_build_marker d nid st) = node_inv st"
  by (rule node_inv_cong) (simp add: frames)

section \<open>Terminals\<close>

lemma node_inv_evaluated:
  assumes inv: "node_inv (fst s)"
  shows "node_inv (fst (on_node_evaluated X e s))"
proof -
  obtain st ctx where s: "s = (st, ctx)" by (cases s)
  have inv': "node_inv st" using inv s by simp
  have charged: "node_inv (fst (charge_terminal_cost n d s))" for n d
    using node_inv_view [OF node_view_charge_terminal] inv by blast
  show ?thesis
  proof (cases "\<exists>nid n. node_id_of (e_data e) = Some nid \<and> node_at st nid = Some n
      \<and> \<not> (is_aborted st (n_id n) \<or> \<not> attempt_matches n (e_data e)) \<and> n_status n = Pending")
    case False
    then show ?thesis
      using charged inv' s by (auto simp: on_node_evaluated_def Let_def split: option.splits)
  next
    case True
    then obtain nid n where n: "node_id_of (e_data e) = Some nid" "node_at st nid = Some n"
      "\<not> (is_aborted st (n_id n) \<or> \<not> attempt_matches n (e_data e))" "n_status n = Pending" by blast
    let ?f = "evaluated_node X e st"
    let ?s = "charge_terminal_cost n (e_data e)
        (upd_node nid ?f (clear_build_marker (e_data e) (n_id n) st), ctx)"
    have f: "n_id (?f n) = n_id n" "n_status (?f n) = Evaluated"
      "n_terminal_event_seq (?f n) = Some (e_seq e)" "n_attempt (?f n) = n_attempt n"
      by (simp_all add: evaluated_node_def Let_def)
    have nocount: "\<not> counts_as_current_failure st n"
      using n(4) by (simp add: counts_as_current_failure_def search_outcome_def)
    have view: "node_view (fst ?s) = (life (dict_modify nid ?f (st_nodes st)), st_aborted_nodes st,
        st_current_failure_count st, st_current_failure_count st div 3)"
      by simp (simp add: node_view_def inv_level [OF inv'])
    have "node_inv (fst ?s)"
      by (rule node_inv_modify [OF inv' n(2) _ view])
         (use f node_row [OF inv' n(2)] nocount in \<open>simp_all add: row_fails_life\<close>)
    then show ?thesis using n s by (simp add: on_node_evaluated_def Let_def)
  qed
qed

lemma life_of_failed [simp]:
  "n_id (failed_node e n) = n_id n" "n_status (failed_node e n) = Failed"
  "n_terminal_event_seq (failed_node e n) = Some (e_seq e)"
  "n_attempt (failed_node e n) = n_attempt n" "n_tombstoned (failed_node e n) = n_tombstoned n"
  by (simp_all add: failed_node_def Let_def)

lemma pending_not_counted: "n_status n = Pending \<Longrightarrow> \<not> counts_as_current_failure st n"
  by (simp add: counts_as_current_failure_def search_outcome_def)

lemma counts_cong: "st_aborted_nodes s = st_aborted_nodes t \<Longrightarrow>
    counts_as_current_failure s n = counts_as_current_failure t n"
  by (simp add: counts_as_current_failure_def search_outcome_def)

lemma node_inv_failed:
  assumes inv: "node_inv (fst s)"
  shows "node_inv (fst (on_node_failed e s))"
proof -
  obtain st0 ctx where s: "s = (st0, ctx)" by (cases s)
  have inv0: "node_inv st0" using inv s by simp
  show ?thesis
  proof (cases "\<exists>nid n. node_id_of (e_data e) = Some nid \<and> node_at st0 nid = Some n
      \<and> \<not> (is_aborted st0 (n_id n) \<and> pget (e_data e) ''reason'' \<noteq> PStr ''aborted''
           \<or> \<not> attempt_matches n (e_data e)) \<and> n_status n = Pending")
    case False
    have "node_inv (fst (charge_terminal_cost n d (clear_build_marker d' i st0, ctx)))" for n d d' i
      using node_inv_view [OF node_view_charge_terminal] inv0 by (metis fst_conv node_inv_clear)
    then show ?thesis
      using False inv0 s by (auto simp: on_node_failed_def Let_def split: option.splits)
  next
    case True
    then obtain nid n where n: "node_id_of (e_data e) = Some nid" "node_at st0 nid = Some n"
      "\<not> (is_aborted st0 (n_id n) \<and> pget (e_data e) ''reason'' \<noteq> PStr ''aborted''
           \<or> \<not> attempt_matches n (e_data e))" "n_status n = Pending" by blast
    let ?f = "failed_node e"
    obtain st1 ctx1 where c: "charge_terminal_cost (?f n) (e_data e)
        (upd_node nid ?f (clear_build_marker (e_data e) nid st0), ctx) = (st1, ctx1)" by fastforce
    have v1: "node_view st1 = node_view (upd_node nid ?f (clear_build_marker (e_data e) nid st0))"
      using node_view_charge_terminal c by (metis fst_conv)
    have sel: "st_aborted_nodes st1 = st_aborted_nodes st0"
      "st_current_failure_count st1 = st_current_failure_count st0"
      "st_failure_spike_level st1 = st_current_failure_count st0 div 3"
      using node_view_selectors [OF v1] inv_level [OF inv0] by simp_all
    let ?c = "st_current_failure_count st0 + one_if (counts_as_current_failure st0 (?f n))"
    have view: "node_view (add_current_failure (?f n) e st1) =
        (life (dict_modify nid ?f (st_nodes st0)), st_aborted_nodes st0, ?c, ?c div 3)"
      using v1 sel counts_cong [OF sel(1), of "?f n"]
      by (simp add: add_current_failure_def node_view_def Let_def one_if_def)
    have "node_inv (add_current_failure (?f n) e st1)"
      by (rule node_inv_modify [OF inv0 n(2) _ view])
         (use node_row [OF inv0 n(2)] pending_not_counted [OF n(4)] row_fails_iff [of st0 "?f n"]
           in \<open>simp_all add: one_if_def\<close>)
    then show ?thesis using n s c by (auto simp: on_node_failed_def Let_def)
  qed
qed

section \<open>Tombstone\<close>

lemma node_inv_tombstone_one:
  assumes inv: "node_inv (fst acc)"
  shows "node_inv (fst (tombstone_one acc raw))"
proof -
  obtain st aff where a: "acc = (st, aff)" by (cases acc)
  have inv': "node_inv st" using inv a by simp
  show ?thesis
  proof (cases "\<exists>nid n. coerce_id raw = Some nid \<and> node_at st nid = Some n \<and> \<not> n_tombstoned n")
    case False
    then show ?thesis using inv a by (auto simp: tombstone_one_def split: option.splits)
  next
    case True
    then obtain nid n where n: "coerce_id raw = Some nid" "node_at st nid = Some n" "\<not> n_tombstoned n"
      by blast
    let ?f = "\<lambda>n. n\<lparr>n_tombstoned := True, n_rerun_from := None, n_rerun_stage := PNone\<rparr>"
    let ?c = "st_current_failure_count st - one_if (counts_as_current_failure st n)"
    have sel: "st_current_failure_count (remove_current_failure n st) = ?c"
      "st_failure_spike_level (remove_current_failure n st) = ?c div 3"
      using node_view_remove [OF inv' n(2)] by (simp_all add: node_view_def Let_def)
    have view: "node_view (upd_node nid ?f (remove_current_failure n st)) =
        (life (dict_modify nid ?f (st_nodes st)), st_aborted_nodes st, ?c, ?c div 3)"
      using sel by (simp add: node_view_def)
    have "node_inv (upd_node nid ?f (remove_current_failure n st))"
      by (rule node_inv_modify [OF inv' n(2) _ view])
         (use node_row [OF inv' n(2)] in \<open>simp_all add: row_fails_life one_if_def\<close>)
    then show ?thesis using n a by (simp add: tombstone_one_def)
  qed
qed

lemma node_inv_tombstones: "node_inv (fst acc) \<Longrightarrow> node_inv (fst (foldl tombstone_one acc raws))"
  by (induction raws arbitrary: acc) (simp_all add: node_inv_tombstone_one)

lemma views_forget_parts [frames]:
  "views (forget_champion aff st) = views st" "views (forget_approval aff st) = views st"
  "views (forget_approved aff st) = views st" "views (forget_pause aff st) = views st"
  by (simp_all add: forget_champion_def forget_approval_def forget_approved_def forget_pause_def frames)

lemma views_forget_building [frames]: "views (forget_building aff st) = views st"
  by (cases "st_building st") (simp_all add: forget_building_def Let_def)

lemma views_forget [frames]: "views (forget_nodes aff st) = views st"
  by (simp only: forget_nodes_def frames)

lemma node_inv_forget [simp]: "node_inv (forget_nodes aff st) = node_inv st"
  by (rule node_inv_cong) (simp add: frames)

lemma node_inv_after: "node_inv st \<Longrightarrow> invalidate_completion_certificates (st, ctx) = (st', ctx')
    \<Longrightarrow> node_inv (invalidate_disclosed_holdout fresh st')"
  using node_inv_certificates [of "(st, ctx)"] by (simp add: node_inv_invalidate_holdout)

lemma node_inv_tombstoned:
  assumes "node_inv (fst s)"
  shows "node_inv (fst (on_node_tombstoned e s))"
proof -
  obtain st0 ctx where s: "s = (st0, ctx)" by (cases s)
  let ?raws = "case pget (e_data e) ''node_ids'' of PList xs \<Rightarrow> xs | _ \<Rightarrow> []"
  obtain st aff where f: "foldl tombstone_one (st0, []) ?raws = (st, aff)" by fastforce
  have "node_inv st" using node_inv_tombstones [of "(st0, [])" ?raws] assms s f by simp
  then have "node_inv (forget_nodes aff st)" by simp
  then show ?thesis
    using f s node_inv_after [of "forget_nodes aff st" ctx]
    by (auto simp: on_node_tombstoned_def Let_def split: prod.splits)
qed

section \<open>Abort\<close>

lemma failing_abort:
  assumes "distinct (map fst L)" and "\<forall>x \<in> set L. row_ok x"
  shows "failing (ab @ [nid]) L
     + (case map_of L nid of Some l \<Rightarrow> if row_fails ab l then 1 else 0 | None \<Rightarrow> 0) = failing ab L"
  using assms
proof (induction L)
  case Nil
  then show ?case by (simp add: failing_def)
next
  case (Cons x L)
  obtain k i s t r a q where x: "x = (k, (i, s, t, r, a, q))" by (metis prod_cases7)
  have i: "i = k" using Cons.prems(2) x by simp
  show ?case
  proof (cases "k = nid")
    case True
    have "map_of L nid = None" using Cons.prems(1) x True by (auto simp: map_of_eq_None_iff)
    then have "failing (ab @ [nid]) L = failing ab L" using Cons by simp
    then show ?thesis using x i True by (simp add: failing_def)
  next
    case False
    then show ?thesis using Cons x i by (simp add: failing_def)
  qed
qed

definition counted_at :: "run_state \<Rightarrow> int \<Rightarrow> int" where
  "counted_at st nid = (case node_at st nid of Some n \<Rightarrow> one_if (counts_as_current_failure st n) | None \<Rightarrow> 0)"

lemma life_get_none: "dict_get ns k = None \<Longrightarrow> map_of (life ns) k = None"
  by (induction ns) (auto simp: life_def split: if_splits)

lemma node_inv_aborting:
  assumes inv: "node_inv st" and new: "\<not> is_aborted st nid"
    and view: "node_view st' = (life (st_nodes st), st_aborted_nodes st @ [nid], c, c div 3)"
    and c: "c = st_current_failure_count st - counted_at st nid"
  shows "node_inv st'"
proof -
  let ?L = "life (st_nodes st)" and ?ab = "st_aborted_nodes st"
  have old: "distinct (map fst ?L)" "\<forall>x \<in> set ?L. row_ok x" "distinct ?ab"
    "st_current_failure_count st = int (failing ?ab ?L)"
    using inv by (auto simp: node_inv_def life_inv_def node_view_def)
  have "(case map_of ?L nid of Some l \<Rightarrow> if row_fails ?ab l then 1 else 0 | None \<Rightarrow> 0)
      = nat (counted_at st nid)"
  proof (cases "node_at st nid")
    case None
    then show ?thesis using life_get_none [of "st_nodes st" nid] by (simp add: counted_at_def node_at_def)
  next
    case (Some n)
    then show ?thesis
      using life_get [of "st_nodes st" nid n] row_fails_iff [of st n]
      by (simp add: counted_at_def node_at_def one_if_def)
  qed
  then have "int (failing (?ab @ [nid]) ?L) = int (failing ?ab ?L) - counted_at st nid"
    using failing_abort [OF old(1,2), of ?ab nid]
    by (auto simp: counted_at_def one_if_def split: option.splits if_splits)
  then show ?thesis
    unfolding node_inv_def life_inv_def view using old new c by (simp add: is_aborted_def)
qed

text \<open>Dropping the two re-run notes of a node touches nothing the invariant reads.\<close>

lemma life_drop_rerun [simp]:
  "life (dict_modify k (\<lambda>n. n\<lparr>n_rerun_from := None, n_rerun_stage := PNone\<rparr>) ns) = life ns"
  by (rule life_modify) (simp add: life_of_def)

lemma node_inv_abort_state:
  assumes inv: "node_inv st" and new: "\<not> is_aborted st nid"
  shows "node_inv (abort_state d nid st)"
proof -
  let ?st1 = "case node_at st nid of Some n \<Rightarrow> remove_current_failure n st | None \<Rightarrow> st"
  let ?f = "\<lambda>n. n\<lparr>n_rerun_from := None, n_rerun_stage := PNone\<rparr>"
  let ?st3 = "upd_node nid ?f (?st1\<lparr>st_aborted_nodes := st_aborted_nodes ?st1 @ [nid]\<rparr>)"
  let ?c = "st_current_failure_count st - counted_at st nid"
  have "node_view ?st1 = (life (st_nodes st), st_aborted_nodes st, ?c, ?c div 3)"
  proof (cases "node_at st nid")
    case None
    then show ?thesis using inv_level [OF inv] by (simp add: counted_at_def node_view_def)
  next
    case (Some n)
    then show ?thesis using node_view_remove [OF inv Some] by (simp add: counted_at_def Let_def)
  qed
  then have view: "node_view ?st3 = (life (st_nodes st), st_aborted_nodes st @ [nid], ?c, ?c div 3)"
    by (simp add: node_view_def)
  have "node_inv ?st3" by (rule node_inv_aborting [OF inv new view]) simp
  moreover have "views (abort_state d nid st) = views ?st3"
    by (simp add: abort_state_def Let_def views_if frames)
  ultimately show ?thesis using node_inv_cong by blast
qed

lemma node_inv_abort:
  assumes "node_inv (fst s)"
  shows "node_inv (fst (on_node_abort e s))"
proof -
  obtain st ctx where s: "s = (st, ctx)" by (cases s)
  have inv: "\<not> is_aborted st nid \<Longrightarrow> node_inv (abort_state (e_data e) nid st)" for nid
    using assms s by (simp add: node_inv_abort_state)
  have aft: "\<not> is_aborted st nid \<Longrightarrow> invalidate_completion_certificates
      (abort_state (e_data e) nid st, ctx) = (a, b) \<Longrightarrow> node_inv (invalidate_disclosed_holdout {} a)" for nid a b
    using node_inv_after [OF inv] by blast
  show ?thesis
    using assms inv aft unfolding s on_node_abort_def Let_def
    by (auto split: option.splits prod.splits)
qed

section \<open>Reset\<close>

lemma reset_node_life [simp]:
  "n_id (reset_node stage m n) = n_id n" "n_status (reset_node stage m n) = Pending"
  "n_terminal_event_seq (reset_node stage m n) = None"
  "n_attempt (reset_node stage m n) = n_attempt n + 1"
  by (simp_all add: reset_node_def clear_measurement_def Let_def)

lemma node_view_reset_state: "node_view (reset_state nid g d st) =
    (life (st_nodes st), filter (\<lambda>i. i \<noteq> nid) (st_aborted_nodes st),
     st_current_failure_count st, st_failure_spike_level st)"
  by (simp add: reset_state_def Let_def node_view_def purge_node_requests_def unpause_def)

lemma node_inv_reset_state:
  assumes inv: "node_inv st" and n: "node_at st nid = Some n" and p: "n_status n = Pending"
  shows "node_inv (reset_state nid g d st)"
proof -
  let ?L = "life (st_nodes st)" and ?ab = "st_aborted_nodes st"
  have old: "distinct (map fst ?L)" "\<forall>x \<in> set ?L. row_ok x" "distinct ?ab"
    "st_current_failure_count st = int (failing ?ab ?L)"
    using inv by (auto simp: node_inv_def life_inv_def node_view_def)
  have get: "map_of ?L nid = Some (life_of n)" using n life_get by (simp add: node_at_def)
  have "row_fails (filter (\<lambda>i. i \<noteq> nid) ?ab) l = row_fails ?ab l" if kl: "(k, l) \<in> set ?L" for k l
  proof -
    obtain i s t r a q where l: "l = (i, s, t, r, a, q)" by (metis prod_cases6)
    have i: "i = k" using old(2) kl l by fastforce
    have "s = Pending" if "k = nid"
      using that kl l get p old(1) by (auto simp: life_of_def map_of_eq_Some_iff)
    then show ?thesis using l i by auto
  qed
  then have "failing (filter (\<lambda>i. i \<noteq> nid) ?ab) ?L = failing ?ab ?L" by (rule failing_cong)
  then show ?thesis
    unfolding node_inv_def life_inv_def node_view_reset_state
    using old inv_level [OF inv] by simp
qed

lemma node_inv_reset:
  assumes inv: "node_inv (fst s)"
  shows "node_inv (fst (on_node_reset e s))"
proof -
  obtain st ctx where s: "s = (st, ctx)" by (cases s)
  have inv': "node_inv st" using inv s by simp
  show ?thesis
  proof (cases "\<exists>nid n. node_id_of (e_data e) = Some nid \<and> node_at st nid = Some n
      \<and> \<not> n_tombstoned n \<and> control_generation_matches n (e_data e)")
    case False
    then show ?thesis using inv s by (auto simp: on_node_reset_def Let_def split: option.splits)
  next
    case True
    then obtain nid n where n: "node_id_of (e_data e) = Some nid" "node_at st nid = Some n"
      "\<not> n_tombstoned n" "control_generation_matches n (e_data e)" by blast
    define f where "f = reset_node (pget_or (e_data e) ''from_stage'' (PStr ''eval''))
        (st_holdout_evaluated_ids st \<noteq> [] \<and> rotation_moves_rows st)"
    have f: "n_id (f n) = n_id n" "n_status (f n) = Pending" "n_terminal_event_seq (f n) = None"
      "n_attempt (f n) = n_attempt n + 1" by (simp_all add: f_def)
    let ?c = "st_current_failure_count st - one_if (counts_as_current_failure st n)"
    let ?st1 = "upd_node nid f (remove_current_failure n st)"
    have "st_current_failure_count (remove_current_failure n st) = ?c"
      "st_failure_spike_level (remove_current_failure n st) = ?c div 3"
      using node_view_remove [OF inv' n(2)] by (simp_all add: node_view_def Let_def)
    then have view: "node_view ?st1 =
        (life (dict_modify nid f (st_nodes st)), st_aborted_nodes st, ?c, ?c div 3)"
      by (simp add: node_view_def)
    have inv1: "node_inv ?st1"
      by (rule node_inv_modify [OF inv' n(2) _ view])
         (use node_row [OF inv' n(2)] f in \<open>simp_all add: row_fails_life one_if_def\<close>)
    have at1: "node_at ?st1 nid = Some (f n)" using n(2) by (simp add: node_at_def)
    have inv2: "node_inv (reset_state nid (n_attempt n) (e_data e) ?st1)"
      by (rule node_inv_reset_state [OF inv1 at1 f(2)])
    let ?st2 = "reset_state nid (n_attempt n) (e_data e) ?st1"
    let ?st3 = "if st_holdout_evaluated_ids st \<noteq> [] \<and> event_generation (e_data e) False \<noteq> Missing
        then rotate_search_epoch True {nid} ?st2
        else if st_finished st then rotate_search_epoch False {} ?st2 else ?st2"
    have inv3: "node_inv ?st3" using inv2 node_inv_rotate by simp
    obtain st4 ctx4 where c: "invalidate_completion_certificates (?st3, ctx) = (st4, ctx4)" by fastforce
    have "node_inv st4" using node_inv_certificates [of "(?st3, ctx)"] inv3 c by simp
    moreover have "views (st4\<lparr>st_finished := False, st_stop_reason := PNone,
        st_stop_detail := None, st_stop_requested := PNone\<rparr>) = views st4" by simp
    ultimately have "node_inv (st4\<lparr>st_finished := False, st_stop_reason := PNone,
        st_stop_detail := None, st_stop_requested := PNone\<rparr>)" using node_inv_cong by blast
    moreover have "on_node_reset e s = (case invalidate_completion_certificates (?st3, ctx) of
        (st4, ctx4) \<Rightarrow> (st4\<lparr>st_finished := False, st_stop_reason := PNone,
           st_stop_detail := None, st_stop_requested := PNone\<rparr>, ctx4))"
      by (simp add: on_node_reset_def Let_def f_def n s)
    ultimately show ?thesis by (simp add: c)
  qed
qed

section \<open>Creation\<close>

lemma dict_put_fresh: "dict_get ns k = None \<Longrightarrow> dict_put k v ns = ns @ [(k, v)]"
  by (induction ns) (auto simp: dict_put_def split: if_splits)

lemma dict_put_known: "distinct (dict_keys ns) \<Longrightarrow> dict_get ns k = Some w \<Longrightarrow>
    dict_put k v ns = dict_modify k (\<lambda>_. v) ns"
proof (induction ns)
  case Nil
  then show ?case by simp
next
  case (Cons x ns)
  obtain j u where x: "x = (j, u)" by (cases x)
  show ?case
  proof (cases "j = k")
    case True
    then have "\<forall>y \<in> set ns. fst y \<noteq> k" using Cons.prems(1) x by (force simp: dict_keys_def)
    then have "dict_modify k (\<lambda>_. v) ns = ns" by (induction ns) (auto simp: dict_modify_def)
    then show ?thesis using True x by (simp add: dict_put_def dict_modify_def)
  next
    case False
    then show ?thesis using Cons x by (simp add: dict_put_def dict_modify_def dict_keys_def)
  qed
qed

lemma node_inv_put:
  assumes inv: "node_inv st" and old: "\<And>m. node_at st nid = Some m \<Longrightarrow> n_status m = Pending"
    and new: "n_id n = nid" "n_status n = Pending" "n_terminal_event_seq n = None" "0 \<le> n_attempt n"
  shows "node_inv (st\<lparr>st_nodes := dict_put nid n (st_nodes st)\<rparr>)"
proof (cases "node_at st nid")
  case None
  have get: "dict_get (st_nodes st) nid = None" using None by (simp add: node_at_def)
  have "nid \<notin> set (dict_keys (st_nodes st))"
    using get by (auto simp: dict_keys_def map_of_eq_None_iff)
  then have "nid \<notin> set (map fst (life (st_nodes st)))" by simp
  moreover have "life (dict_put nid n (st_nodes st)) = life (st_nodes st) @ [(nid, life_of n)]"
    using dict_put_fresh [OF get] by (simp add: life_def)
  ultimately show ?thesis
    using inv new
    by (auto simp: node_inv_def life_inv_def node_view_def failing_def row_fails_life)
next
  case (Some m)
  have d: "distinct (dict_keys (st_nodes st))" using wf_of_inv [OF inv] by (simp add: wf_nodes_def)
  have put: "dict_put nid n (st_nodes st) = dict_modify nid (\<lambda>_. n) (st_nodes st)"
    using dict_put_known [OF d] Some by (simp add: node_at_def)
  show ?thesis
    by (rule node_inv_modify [OF inv Some, of "\<lambda>_. n" _ "st_current_failure_count st"])
       (use new pending_not_counted [OF old [OF Some], of st] in
         \<open>simp_all add: node_view_def put inv_level [OF inv] row_fails_life\<close>)
qed

lemma build_node_life [simp]:
  "n_id (build_node X e st nid g oper ide) = nid"
  "n_status (build_node X e st nid g oper ide) = Pending"
  "n_terminal_event_seq (build_node X e st nid g oper ide) = None"
  "n_attempt (build_node X e st nid g oper ide) = g"
  "n_tombstoned (build_node X e st nid g oper ide) = False"
  by (simp_all add: build_node_def Let_def default_node_def)

lemma created_node_build: "created_node X e st nid g = Some n \<Longrightarrow>
    \<exists>oper ide. n = build_node X e st nid g oper ide"
  by (auto simp: created_node_def Let_def split: pyval.splits option.splits if_splits)

lemma node_inv_place:
  assumes inv: "node_inv st" and old: "\<And>m. node_at st nid = Some m \<Longrightarrow> n_status m = Pending"
    and n: "n = build_node X e st' nid g oper ide" and g: "0 \<le> g"
  shows "node_inv (fst (place_node d nid n (st, ctx)))"
proof -
  let ?st1 = "st\<lparr>st_nodes := dict_put nid n (st_nodes st)\<rparr>"
  have one: "node_inv ?st1"
    by (rule node_inv_put [OF inv]) (use old n g in auto)
  then have "node_inv (fst (invalidate_completion_certificates (invalidate_disclosed_holdout {nid} ?st1, ctx)))"
    using node_inv_certificates [of "(invalidate_disclosed_holdout {nid} ?st1, ctx)"]
    by (simp add: node_inv_invalidate_holdout)
  with one show ?thesis by (simp add: place_node_def Let_def)
qed

lemma creation_generation_nonneg:
  assumes "node_inv st" and "creation_generation d (node_at st nid) = Some g"
  shows "0 \<le> g"
  using assms node_row [OF assms(1), of nid]
  by (auto simp: creation_generation_def stamp_nonneg split: stamp.splits option.splits if_splits)

lemma node_inv_created:
  assumes inv: "node_inv (fst s)"
  shows "node_inv (fst (on_node_created X e s))"
proof -
  obtain st ctx where s: "s = (st, ctx)" by (cases s)
  have inv': "node_inv st" using inv s by simp
  have place: "node_inv (fst (place_node d nid n (st, ctx)))"
    if fresh: "\<not> (case node_at st nid of Some n \<Rightarrow> n_status n \<noteq> Pending | None \<Rightarrow> False)"
      and gen: "creation_generation d (node_at st nid) = Some g"
      and created: "created_node X e st nid g = Some n" for d nid g n
  proof -
    obtain oper ide where "n = build_node X e st nid g oper ide" using created_node_build [OF created] by blast
    then show ?thesis
      using fresh creation_generation_nonneg [OF inv' gen] by (intro node_inv_place [OF inv']) auto
  qed
  show ?thesis
    using inv' place s
    by (simp add: on_node_created_def Let_def del: not_None_eq not_Some_eq split: option.split)
qed

section \<open>Reopening and the measurements\<close>

lemma node_inv_resume:
  assumes inv: "node_inv (fst s)"
  shows "node_inv (fst (on_resume_or_run_reopened e s))"
proof -
  obtain st ctx where s: "s = (st, ctx)" by (cases s)
  have inv': "node_inv st" using inv s by simp
  have cert: "node_inv (fst (invalidate_completion_certificates (rotate_search_epoch b {} st, ctx)))" for b
    using node_inv_certificates [of "(rotate_search_epoch b {} st, ctx)"] node_inv_rotate [OF inv'] by simp
  have fin: "node_inv ((unpause t)\<lparr>st_finished := False, st_stop_reason := PNone, st_stop_detail := None,
         st_stop_requested := PNone\<rparr>) = node_inv t" for t
    by (rule node_inv_cong) (simp add: frames)
  show ?thesis
    using inv' cert fin unfolding s on_resume_or_run_reopened_def Let_def
    by (simp add: case_prod_unfold)
qed

lemma node_view_charges [simp]:
  "node_view (fst (charge_confirm_seed n d s)) = node_view (fst s)"
  "node_view (fst (charge_holdout d s)) = node_view (fst s)"
  by (auto simp: charge_confirm_seed_def charge_holdout_def Let_def split: prod.splits option.splits stamp.splits)

lemma node_view_noise_seed: "node_view (fst (on_eval_noise_seed e s)) = node_view (fst s)"
  by (simp add: on_eval_noise_seed_def Let_def split: prod.split option.split)

lemma charge_confirm_view: "charge_confirm_seed n d s = (a, b) \<Longrightarrow> node_view a = node_view (fst s)"
  using node_view_charges(1) [of n d s] by simp

lemma node_view_confirm_eval: "node_view (fst (on_confirm_eval e s)) = node_view (fst s)"
  by (auto simp: on_confirm_eval_def Let_def dest!: charge_confirm_view split: prod.splits option.splits)

lemma node_view_holdout: "node_view (fst (on_holdout_evaluated X e s)) = node_view (fst s)"
proof -
  obtain st ctx where c: "charge_holdout (e_data e) s = (st, ctx)" by fastforce
  have "node_view st = node_view (fst s)" using node_view_charges(2) [of "e_data e" s] c by simp
  then show ?thesis
    using node_view_of_views [OF views_accept_holdout]
    by (simp add: on_holdout_evaluated_def Let_def c split: option.splits)
qed

lemma node_view_ablate: "node_view (fst (on_ablate e s)) = node_view (fst s)"
  by (simp add: on_ablate_def Let_def split: prod.split option.split pyval.split)

lemma node_view_upstream: "node_view (on_upstream_execution e st) = node_view st"
  by (simp add: on_upstream_execution_def node_view_def split: option.split)

lemma node_view_queues:
  "node_view (on_fork e st) = node_view st" "node_view (on_fork_done e st) = node_view st"
  "node_view (on_inject_node e st) = node_view st" "node_view (on_inject_done e st) = node_view st"
  "node_view (on_track_requested e st) = node_view st" "node_view (on_track_done e st) = node_view st"
  "node_view (on_lane_op_requested e st) = node_view st" "node_view (on_lane_op_done e st) = node_view st"
  "node_view (on_card_build_requested e st) = node_view st"
  by (simp_all add: node_view_def on_fork_def on_fork_done_def on_inject_node_def on_inject_done_def
      on_track_requested_def on_track_done_def on_lane_op_requested_def on_lane_op_done_def
      on_card_build_requested_def Let_def split: option.split pyval.split)

lemma node_view_close_request [simp]: "node_view (close_card_build_request i out st) = node_view st"
  by (simp add: close_card_build_request_def Let_def node_view_def split: prod.split)

lemma node_view_card_build_done: "node_view (on_card_build_done e st) = node_view st"
  by (simp add: on_card_build_done_def Let_def split: option.split pyval.split)

end
