(* ===== verification/Ledgers.thy ===== *)
theory Ledgers
  imports FoldInv
begin

text \<open>
  The invariants of the fold's ledgers: the evaluation seconds are the sum of the seconds by kind,
  every request cursor stays inside its list, and the card build queue closes each request once,
  in any order, with the cursor over the longest closed_requests prefix.
\<close>

definition aux_view where
  "aux_view st = (clock_view st, queue_view st, card_view st)"

lemma aux_of_views: "views s = views t \<Longrightarrow> aux_view s = aux_view t"
  by (simp add: views_def aux_view_def)

lemmas aux_updates [simp] = views_updates [THEN aux_of_views]

lemma aux_nodes [simp]:
  "aux_view (st\<lparr>st_nodes := x\<rparr>) = aux_view st" "aux_view (st\<lparr>st_aborted_nodes := ab\<rparr>) = aux_view st"
  "aux_view (st\<lparr>st_current_failure_count := c\<rparr>) = aux_view st"
  "aux_view (st\<lparr>st_failure_spike_level := l\<rparr>) = aux_view st"
  "aux_view (st\<lparr>st_search_epoch := ep\<rparr>) = aux_view st"
  "aux_view (upd_node k f st) = aux_view st" "aux_view (upd_nodes f st) = aux_view st"
  by (simp_all add: aux_view_def view_defs upd_node_def upd_nodes_def)

lemma aux_helpers [simp]:
  "aux_view (clear_build_marker d nid st) = aux_view st" "aux_view (unpause st) = aux_view st"
  "aux_view (purge_node_requests gone st) = aux_view st" "aux_view (clear_approval st) = aux_view st"
  "aux_view (forget_nodes aff st) = aux_view st" "aux_view (accept_holdout X d nid st) = aux_view st"
  "aux_view (fst (invalidate_completion_certificates s)) = aux_view (fst s)"
  by (rule aux_of_views, simp add: frames)+

lemma aux_failures [simp]:
  "aux_view (remove_current_failure n st) = aux_view st" "aux_view (add_current_failure n e st) = aux_view st"
  by (simp_all add: remove_current_failure_def add_current_failure_def Let_def)

lemma aux_requeue [simp]: "aux_view (requeue_partition_bound_results fresh st) = aux_view st"
  by (simp add: requeue_partition_bound_results_def Let_def)

lemma aux_rotate [simp]:
  "aux_view (rotate_search_epoch b fresh st) = aux_view st"
  "aux_view (invalidate_disclosed_holdout fresh st) = aux_view st"
  by (simp_all add: rotate_search_epoch_def invalidate_disclosed_holdout_def Let_def)

lemma aux_certificates: "invalidate_completion_certificates (st, ctx) = (st', ctx') \<Longrightarrow> aux_view st' = aux_view st"
  using aux_helpers(7) [of "(st, ctx)"] by simp

lemma aux_place: "aux_view (fst (place_node d nid n s)) = aux_view (fst s)"
  by (simp add: place_node_def Let_def split: prod.split)

lemma aux_created [simp]: "aux_view (fst (on_node_created X e s)) = aux_view (fst s)"
  by (simp add: on_node_created_def Let_def aux_place split: prod.split option.split)

lemma aux_abort [simp]: "aux_view (fst (on_node_abort e s)) = aux_view (fst s)"
proof -
  have "aux_view (abort_state d nid st) = aux_view st" for d nid st
    by (simp add: abort_state_def Let_def split: option.split)
  then show ?thesis
    by (auto simp: on_node_abort_def Let_def dest!: aux_certificates split: prod.splits option.splits)
qed

lemma aux_tombstones: "aux_view (fst (foldl tombstone_one acc raws)) = aux_view (fst acc)"
proof (induction raws arbitrary: acc)
  case Nil
  then show ?case by simp
next
  case (Cons raw raws)
  have "aux_view (fst (tombstone_one acc raw)) = aux_view (fst acc)"
    by (simp add: tombstone_one_def split: prod.split option.split)
  with Cons show ?case by simp
qed

lemma aux_tombstoned [simp]: "aux_view (fst (on_node_tombstoned e s)) = aux_view (fst s)"
proof -
  obtain st0 ctx where s: "s = (st0, ctx)" by (cases s)
  let ?raws = "case pget (e_data e) ''node_ids'' of PList xs \<Rightarrow> xs | _ \<Rightarrow> []"
  obtain st aff where f: "foldl tombstone_one (st0, []) ?raws = (st, aff)" by fastforce
  have "aux_view st = aux_view st0" using aux_tombstones [of "(st0, [])" ?raws] f by simp
  then show ?thesis
    using f s by (auto simp: on_node_tombstoned_def Let_def dest!: aux_certificates split: prod.splits)
qed

lemma aux_reset_state [simp]: "aux_view (reset_state nid g d st) = aux_view st"
  by (simp add: reset_state_def Let_def)

lemma aux_reset [simp]: "aux_view (fst (on_node_reset e s)) = aux_view (fst s)"
  by (auto simp: on_node_reset_def Let_def dest!: aux_certificates split: prod.splits option.splits)

lemma aux_resume [simp]: "aux_view (fst (on_resume_or_run_reopened e s)) = aux_view (fst s)"
  by (auto simp: on_resume_or_run_reopened_def Let_def dest!: aux_certificates
      split: prod.splits if_splits)

section \<open>Evaluation seconds\<close>

definition ledger_inv :: "run_state \<Rightarrow> bool" where
  "ledger_inv st \<longleftrightarrow> distinct (dict_keys (st_eval_seconds_by_kind st))
     \<and> (\<forall>r \<in> set (dict_values (st_eval_seconds_by_kind st)). 0 \<le> r)
     \<and> st_total_eval_seconds st = sum_list (dict_values (st_eval_seconds_by_kind st))"

lemma ledger_inv_aux: "aux_view s = aux_view t \<Longrightarrow> ledger_inv s = ledger_inv t"
  by (simp add: ledger_inv_def aux_view_def clock_view_def)

lemma sum_dict_put: "distinct (dict_keys d) \<Longrightarrow>
    sum_list (dict_values (dict_put k (v :: real) d)) =
      sum_list (dict_values d) + v - (case dict_get d k of Some r \<Rightarrow> r | None \<Rightarrow> 0)"
proof (induction d)
  case Nil
  then show ?case by (simp add: dict_put_def dict_values_def)
next
  case (Cons x d)
  obtain j u where x: "x = (j, u)" by (cases x)
  show ?case
    using Cons x by (auto simp: dict_put_def dict_values_def dict_keys_def split: option.splits)
qed

lemma set_dict_values_put: "set (dict_values (dict_put k v d)) \<subseteq> insert v (set (dict_values d))"
  by (induction d) (auto simp: dict_put_def dict_values_def)

lemma ledger_inv_add:
  assumes "ledger_inv st" and "0 \<le> v"
    and "clock_view st' = (st_total_eval_seconds st + v, dict_put k
       ((case dict_get (st_eval_seconds_by_kind st) k of Some r \<Rightarrow> r | None \<Rightarrow> 0) + v)
       (st_eval_seconds_by_kind st))"
  shows "ledger_inv st'"
proof -
  let ?d = "st_eval_seconds_by_kind st"
  let ?old = "case dict_get ?d k of Some r \<Rightarrow> r | None \<Rightarrow> 0"
  have "0 \<le> ?old"
    using assms(1) dict_get_value [of ?d k] by (auto simp: ledger_inv_def split: option.splits)
  moreover have "set (dict_values (dict_put k (?old + v) ?d)) \<subseteq> insert (?old + v) (set (dict_values ?d))"
    by (rule set_dict_values_put)
  ultimately show ?thesis
    using assms by (auto simp: ledger_inv_def clock_view_def sum_dict_put)
qed

lemma ledger_inv_charge: "ledger_inv st \<Longrightarrow> ledger_inv (charge_eval_seconds kind raw st)"
proof -
  assume inv: "ledger_inv st"
  have nn: "0 \<le> nonneg_seconds raw"
    by (simp add: nonneg_seconds_def split: option.splits pyfloat.splits)
  show ?thesis
  proof (cases "nonneg_seconds raw = 0")
    case True
    then show ?thesis using inv by (simp add: charge_eval_seconds_def Let_def ledger_inv_def)
  next
    case False
    show ?thesis
      by (rule ledger_inv_add [OF inv nn, of _ kind])
         (use False in \<open>simp add: charge_eval_seconds_def Let_def clock_view_def\<close>)
  qed
qed

lemma ledger_inv_terminal: "ledger_inv (fst s) \<Longrightarrow> ledger_inv (fst (charge_terminal_cost n d s))"
  by (auto simp: charge_terminal_cost_def ledger_inv_charge split: prod.splits option.splits stamp.splits)

lemma ledger_inv_evaluated: "ledger_inv (fst s) \<Longrightarrow> ledger_inv (fst (on_node_evaluated X e s))"
proof -
  assume inv: "ledger_inv (fst s)"
  have "ledger_inv (fst (charge_terminal_cost n d (upd_node k f (clear_build_marker d j st), ctx)))"
    if "s = (st, ctx)" for n d k f j st ctx
    using inv that ledger_inv_aux [of "upd_node k f (clear_build_marker d j st)" st]
    by (intro ledger_inv_terminal) simp
  then show ?thesis
    using inv by (auto simp: on_node_evaluated_def Let_def ledger_inv_terminal split: prod.splits option.splits)
qed

lemma ledger_inv_failed: "ledger_inv (fst s) \<Longrightarrow> ledger_inv (fst (on_node_failed e s))"
proof -
  assume inv: "ledger_inv (fst s)"
  have clear: "ledger_inv (fst (charge_terminal_cost n d (clear_build_marker d j st, ctx)))"
    "ledger_inv (clear_build_marker d j st)" if "s = (st, ctx)" for n d j st ctx
    using inv that ledger_inv_aux [of "clear_build_marker d j st" st] by (simp_all add: ledger_inv_terminal)
  have failed: "ledger_inv (add_current_failure n' e st1)"
    if "s = (st, ctx)" "charge_terminal_cost n d (upd_node k f (clear_build_marker d j st), ctx) = (st1, ctx1)"
    for n n' d k f j st ctx st1 ctx1
  proof -
    have "ledger_inv (fst (charge_terminal_cost n d (upd_node k f (clear_build_marker d j st), ctx)))"
      using inv that(1) ledger_inv_aux [of "upd_node k f (clear_build_marker d j st)" st]
      by (intro ledger_inv_terminal) simp
    then show ?thesis
      using that(2) ledger_inv_aux [of "add_current_failure n' e st1" st1] by simp
  qed
  show ?thesis
    using inv clear failed by (auto simp: on_node_failed_def Let_def split: prod.splits option.splits)
qed

lemma ledger_inv_aux_update:
  "ledger_inv (st\<lparr>st_confirm_seed_results := x\<rparr>) = ledger_inv st"
  "ledger_inv (st\<lparr>st_eval_noise_seed_results := y\<rparr>) = ledger_inv st"
  "ledger_inv (st\<lparr>st_ablations := z\<rparr>) = ledger_inv st"
  "ledger_inv (accept_holdout X d nid st) = ledger_inv st"
  by (rule ledger_inv_aux, simp)+

lemma ledger_inv_charges:
  "ledger_inv (fst s) \<Longrightarrow> charge_confirm_seed n d s = (a, b) \<Longrightarrow> ledger_inv a"
  "ledger_inv (fst s) \<Longrightarrow> charge_holdout d s = (a, b) \<Longrightarrow> ledger_inv a"
  by (auto simp: charge_confirm_seed_def charge_holdout_def Let_def ledger_inv_charge
      split: prod.splits option.splits stamp.splits if_splits)

lemma ledger_inv_confirm_eval: "ledger_inv (fst s) \<Longrightarrow> ledger_inv (fst (on_confirm_eval e s))"
  by (auto simp: on_confirm_eval_def Let_def ledger_inv_aux_update dest: ledger_inv_charges(1)
      split: prod.split option.split)

lemma ledger_inv_holdout: "ledger_inv (fst s) \<Longrightarrow> ledger_inv (fst (on_holdout_evaluated X e s))"
  by (auto simp: on_holdout_evaluated_def Let_def ledger_inv_aux_update dest: ledger_inv_charges(2)
      split: prod.split option.split)

lemma ledger_inv_noise_seed: "ledger_inv (fst s) \<Longrightarrow> ledger_inv (fst (on_eval_noise_seed e s))"
  by (cases s) (simp add: on_eval_noise_seed_def Let_def ledger_inv_aux_update ledger_inv_charge
      split: option.split)

lemma ledger_inv_ablate: "ledger_inv (fst s) \<Longrightarrow> ledger_inv (fst (on_ablate e s))"
  by (cases s) (simp add: on_ablate_def Let_def ledger_inv_aux_update ledger_inv_charge
      split: option.split pyval.split)

lemma ledger_inv_upstream: "ledger_inv st \<Longrightarrow> ledger_inv (on_upstream_execution e st)"
proof -
  assume inv: "ledger_inv st"
  have "ledger_inv (st\<lparr>st_total_eval_seconds := st_total_eval_seconds st + secs,
      st_eval_seconds_by_kind := dict_put ''upstream''
        ((case dict_get (st_eval_seconds_by_kind st) ''upstream'' of Some r \<Rightarrow> r | None \<Rightarrow> 0) + secs)
        (st_eval_seconds_by_kind st)\<rparr>)" if "\<not> secs < 0" for secs
    by (rule ledger_inv_add [OF inv, of secs _ "''upstream''"]) (use that in \<open>simp_all add: clock_view_def\<close>)
  then show ?thesis
    using inv by (auto simp: on_upstream_execution_def split: option.split)
qed

section \<open>Request cursors\<close>

definition cursor_inv :: "run_state \<Rightarrow> bool" where
  "cursor_inv st \<longleftrightarrow> forks.in_range st \<and> injects.in_range st \<and> tracks.in_range st \<and> lane_ops.in_range st"

lemmas in_range_defs = forks.in_range_def injects.in_range_def tracks.in_range_def lane_ops.in_range_def

lemma cursor_inv_queue: "queue_view s = queue_view t \<Longrightarrow> cursor_inv s = cursor_inv t"
  by (simp add: cursor_inv_def in_range_defs queue_view_def)

lemma queue_frames:
  "queue_view (charge_eval_seconds k raw st) = queue_view st"
  "card_view (charge_eval_seconds k raw st) = card_view st"
  "queue_view (on_upstream_execution e st) = queue_view st"
  "card_view (on_upstream_execution e st) = card_view st"
  "queue_view (on_card_build_requested e st) = queue_view st"
  by (simp_all add: charge_eval_seconds_def on_upstream_execution_def on_card_build_requested_def
      queue_view_def card_view_def Let_def split: option.split)

lemma cursor_inv_forks: "cursor_inv st \<Longrightarrow> cursor_inv (on_fork e st)"
  "cursor_inv st \<Longrightarrow> cursor_inv (on_fork_done e st)"
proof -
  assume inv: "cursor_inv st"
  have "queue_view (on_fork e st) = (length (st_fork_requests (on_fork e st)), st_forks_done (on_fork e st),
      snd (snd (queue_view st)))"
    by (simp add: on_fork_def Let_def queue_view_def split: option.split)
  then show "cursor_inv (on_fork e st)"
    using inv forks.in_range_request [of st e] by (simp add: cursor_inv_def in_range_defs queue_view_def)
  have "queue_view (on_fork_done e st) = (length (st_fork_requests (on_fork_done e st)),
      st_forks_done (on_fork_done e st), snd (snd (queue_view st)))"
    by (simp add: on_fork_done_def Let_def queue_view_def)
  then show "cursor_inv (on_fork_done e st)"
    using inv forks.in_range_receipt [of st e] by (simp add: cursor_inv_def in_range_defs queue_view_def)
qed

lemma cursor_inv_injects: "cursor_inv st \<Longrightarrow> cursor_inv (on_inject_node e st)"
  "cursor_inv st \<Longrightarrow> cursor_inv (on_inject_done e st)"
  using injects.in_range_request [of st e] injects.in_range_receipt [of st e]
  by (simp_all add: cursor_inv_def in_range_defs on_inject_node_def on_inject_done_def)

lemma cursor_inv_lane_ops: "cursor_inv st \<Longrightarrow> cursor_inv (on_lane_op_requested e st)"
  "cursor_inv st \<Longrightarrow> cursor_inv (on_lane_op_done e st)"
  using lane_ops.in_range_request [of st e] lane_ops.in_range_receipt [of st e]
  by (simp_all add: cursor_inv_def in_range_defs on_lane_op_requested_def on_lane_op_done_def Let_def)

lemma cursor_inv_tracks: "cursor_inv st \<Longrightarrow> cursor_inv (on_track_requested e st)"
  "cursor_inv st \<Longrightarrow> cursor_inv (on_track_done e st)"
  using tracks.in_range_request [of st e] tracks.in_range_receipt [of st e]
  by (simp_all add: cursor_inv_def in_range_defs on_track_requested_def on_track_done_def Let_def
      split: pyval.splits option.splits)

section \<open>The card build queue\<close>

definition cards_inv :: "run_state \<Rightarrow> bool" where
  "cards_inv st \<longleftrightarrow> (case card_view st of (len, fin, ahead, outs) \<Rightarrow>
     distinct ahead \<and> (\<forall>i \<in> set ahead. fin < i \<and> i < len) \<and> fin \<le> len \<and> outs = fin + length ahead)"

lemma cards_inv_view: "card_view s = card_view t \<Longrightarrow> cards_inv s = cards_inv t"
  by (simp add: cards_inv_def)

lemma absorb_spec:
  assumes "absorb fin ahead = (fin', ahead')" and "distinct ahead"
    and "\<forall>i \<in> set ahead. fin \<le> i \<and> i < len" and "fin \<le> len"
  shows "distinct ahead' \<and> (\<forall>i \<in> set ahead'. fin' < i \<and> i < len) \<and> fin' \<le> len
    \<and> {..<fin'} \<union> set ahead' = {..<fin} \<union> set ahead \<and> fin' + length ahead' = fin + length ahead"
  using assms
proof (induction fin ahead rule: absorb.induct)
  case (1 fin ahead)
  show ?case
  proof (cases "fin \<in> set ahead")
    case True
    have rest: "absorb (Suc fin) (remove1 fin ahead) = (fin', ahead')"
      using 1(2) True by (subst (asm) absorb.simps) simp
    have "i \<in> set (remove1 fin ahead) \<Longrightarrow> Suc fin \<le> i \<and> i < len" for i
      using 1(3,4) by (force simp: Suc_le_eq le_less)
    moreover have "Suc fin \<le> len" using 1(4) True by auto
    ultimately have "distinct ahead' \<and> (\<forall>i \<in> set ahead'. fin' < i \<and> i < len) \<and> fin' \<le> len
      \<and> {..<fin'} \<union> set ahead' = {..<Suc fin} \<union> set (remove1 fin ahead)
      \<and> fin' + length ahead' = Suc fin + length (remove1 fin ahead)"
      using 1(1) [OF True rest] 1(3) by auto
    moreover have "{..<Suc fin} \<union> set (remove1 fin ahead) = {..<fin} \<union> set ahead"
      using True 1(3) by (auto simp: lessThan_Suc)
    moreover have "Suc fin + length (remove1 fin ahead) = fin + length ahead"
      using True by (simp add: length_remove1) (metis Suc_pred length_pos_if_in_set)
    ultimately show ?thesis by simp
  next
    case False
    then have "fin' = fin" "ahead' = ahead" using 1(2) by (simp_all add: absorb.simps)
    then show ?thesis using 1(3-5) False by (auto simp: le_less)
  qed
qed

definition closable :: "run_state \<Rightarrow> nat \<Rightarrow> bool" where
  "closable st i \<longleftrightarrow> st_card_builds_done st \<le> i \<and> i < length (st_card_build_requests st)
     \<and> i \<notin> set (st_card_builds_done_ahead st)"

definition closed_requests :: "run_state \<Rightarrow> nat set" where
  "closed_requests st = {..<st_card_builds_done st} \<union> set (st_card_builds_done_ahead st)"

lemma length_insert_at: "k \<le> length xs \<Longrightarrow> length (insert_at k x xs) = Suc (length xs)"
  by (simp add: insert_at_def)

text \<open>Closing an open request closes exactly it.\<close>

lemma close_request:
  assumes inv: "cards_inv st" and i: "closable st i"
  shows "cards_inv (close_card_build_request i out st)"
    and "closed_requests (close_card_build_request i out st) = insert i (closed_requests st)"
proof -
  let ?fin = "st_card_builds_done st" and ?ahead = "st_card_builds_done_ahead st"
  let ?len = "length (st_card_build_requests st)"
  have old: "distinct ?ahead" "\<forall>j \<in> set ?ahead. ?fin < j \<and> j < ?len" "?fin \<le> ?len"
    "length (st_card_build_outcomes st) = ?fin + length ?ahead"
    using inv by (auto simp: cards_inv_def card_view_def)
  have pos: "?fin + length (filter (\<lambda>j. j < i) ?ahead) \<le> length (st_card_build_outcomes st)"
    using old(4) by (simp add: length_filter_le)
  have both: "cards_inv (close_card_build_request i out st)
      \<and> closed_requests (close_card_build_request i out st) = insert i (closed_requests st)"
  proof (cases "i = ?fin")
    case True
    obtain fin' ahead' where ab: "absorb (Suc ?fin) ?ahead = (fin', ahead')" by fastforce
    have "Suc ?fin \<le> ?len" using i True by (simp add: closable_def)
    then have "distinct ahead' \<and> (\<forall>j \<in> set ahead'. fin' < j \<and> j < ?len) \<and> fin' \<le> ?len
        \<and> {..<fin'} \<union> set ahead' = {..<Suc ?fin} \<union> set ?ahead \<and> fin' + length ahead' = Suc ?fin + length ?ahead"
      using old(2) by (intro absorb_spec [OF ab old(1)]) (simp_all add: Suc_le_eq)
    then show ?thesis
      using True ab old(4) length_insert_at [OF pos, of out]
      by (auto simp: close_card_build_request_def Let_def cards_inv_def card_view_def closed_requests_def lessThan_Suc
          simp del: absorb.simps)
  next
    case False
    then have "?fin < i" "i < ?len" "i \<notin> set ?ahead" using i by (auto simp: closable_def)
    then show ?thesis
      using False old length_insert_at [OF pos, of out]
      by (auto simp: close_card_build_request_def Let_def cards_inv_def card_view_def closed_requests_def)
  qed
  then show "cards_inv (close_card_build_request i out st)"
    and "closed_requests (close_card_build_request i out st) = insert i (closed_requests st)" by simp_all
qed

text \<open>Refinement: the outcome list is the map from closed_requests requests to their outcomes, read in
  request order.\<close>

definition outcomes_of :: "(nat \<Rightarrow> string option) \<Rightarrow> run_state \<Rightarrow> bool" where
  "outcomes_of m st \<longleftrightarrow> dom m = closed_requests st
     \<and> st_card_build_outcomes st = map (\<lambda>i. the (m i)) (sorted_list_of_set (closed_requests st))"

lemma insort_insert_at: "sorted xs \<Longrightarrow> i \<notin> set xs \<Longrightarrow>
    insort i xs = insert_at (length (filter (\<lambda>j. j < i) xs)) i (xs :: nat list)"
proof (induction xs)
  case Nil
  then show ?case by (simp add: insert_at_def)
next
  case (Cons x xs)
  show ?case
  proof (cases "i \<le> x")
    case True
    then have "filter (\<lambda>j. j < i) (x # xs) = []" using Cons.prems by (auto simp: filter_empty_conv)
    then show ?thesis using True by (simp add: insert_at_def)
  next
    case False
    then show ?thesis using Cons by (simp add: insert_at_def)
  qed
qed

lemma map_insert_at: "map f (insert_at k x xs) = insert_at k (f x) (map f xs)"
  by (simp add: insert_at_def take_map drop_map)

lemma count_below:
  assumes "cards_inv st" and "closable st i"
  shows "length (filter (\<lambda>j. j < i) (sorted_list_of_set (closed_requests st))) =
    st_card_builds_done st + length (filter (\<lambda>j. j < i) (st_card_builds_done_ahead st))"
proof -
  let ?fin = "st_card_builds_done st" and ?ahead = "st_card_builds_done_ahead st"
  have inv: "distinct ?ahead" "\<forall>j \<in> set ?ahead. ?fin < j"
    using assms(1) by (auto simp: cards_inv_def card_view_def)
  have "length (filter (\<lambda>j. j < i) (sorted_list_of_set (closed_requests st))) =
      card {j \<in> closed_requests st. j < i}"
    by (subst distinct_card [symmetric]) (auto simp: closed_requests_def)
  also have "{j \<in> closed_requests st. j < i} = {..<?fin} \<union> set (filter (\<lambda>j. j < i) ?ahead)"
    using assms(2) by (auto simp: closed_requests_def closable_def)
  also have "card \<dots> = ?fin + length (filter (\<lambda>j. j < i) ?ahead)"
    using inv by (subst card_Un_disjoint) (auto simp: distinct_card [symmetric])
  finally show ?thesis .
qed

lemma outcomes_refine:
  assumes inv: "cards_inv st" and i: "closable st i" and m: "outcomes_of m st"
  shows "outcomes_of (m(i \<mapsto> out)) (close_card_build_request i out st)"
proof -
  let ?xs = "sorted_list_of_set (closed_requests st)"
  have fin: "finite (closed_requests st)" by (simp add: closed_requests_def)
  have new: "i \<notin> closed_requests st" using i by (auto simp: closed_requests_def closable_def)
  have outs: "st_card_build_outcomes (close_card_build_request i out st) =
      insert_at (st_card_builds_done st + length (filter (\<lambda>j. j < i) (st_card_builds_done_ahead st))) out
        (st_card_build_outcomes st)"
    by (simp add: close_card_build_request_def Let_def split: prod.split)
  have "sorted_list_of_set (insert i (closed_requests st)) = insort i ?xs"
    using fin new by simp
  also have "\<dots> = insert_at (length (filter (\<lambda>j. j < i) ?xs)) i ?xs"
    by (rule insort_insert_at) (use fin new in auto)
  finally have "map (\<lambda>j. the ((m(i \<mapsto> out)) j)) (sorted_list_of_set (insert i (closed_requests st))) =
      insert_at (length (filter (\<lambda>j. j < i) ?xs)) out (map (\<lambda>j. the ((m(i \<mapsto> out)) j)) ?xs)"
    by (simp add: map_insert_at)
  moreover have "map (\<lambda>j. the ((m(i \<mapsto> out)) j)) ?xs = map (\<lambda>j. the (m j)) ?xs"
    by (rule map_cong) (use fin new in auto)
  ultimately show ?thesis
    using m outs close_request(2) [OF inv i, of out] count_below [OF inv i]
    by (simp add: outcomes_of_def del: fun_upd_apply)
qed

lemma named_closable:
  assumes "named_request st v = Some i" and "cards_inv st" and "i < length (st_card_build_requests st)"
  shows "closable st i"
  using assms
  by (auto simp: named_request_def closable_def cards_inv_def card_view_def split: pyval.splits if_splits)

lemma cards_inv_requested: "cards_inv st \<Longrightarrow> cards_inv (on_card_build_requested e st)"
  by (auto simp: on_card_build_requested_def cards_inv_def card_view_def Let_def split: option.split)

lemma cards_inv_done: "cards_inv st \<Longrightarrow> cards_inv (on_card_build_done e st)"
proof -
  assume inv: "cards_inv st"
  have "cards_inv (close_card_build_request i out st)"
    if "named_request st v = Some i" "i < length (st_card_build_requests st)" for v i out
    using close_request(1) [OF inv named_closable [OF that(1) inv that(2)]] .
  moreover have "cards_inv (s\<lparr>st_speculative_nodes := x\<rparr>) = cards_inv s"
    "cards_inv (s\<lparr>st_card_build_producer_failed := y, st_card_build_producer_failed_reasons := z\<rparr>) = cards_inv s"
    for s x y z
    by (simp_all add: cards_inv_def card_view_def)
  ultimately show ?thesis
    using inv by (simp add: on_card_build_done_def Let_def not_le split: option.split pyval.split)
qed

end
