(* ===== verification/Backfills.thy ===== *)
theory Backfills
  imports Ledgers "HOL-Library.Char_ord"
begin

text \<open>
  Read-time repairs of a terminal's record (\<open>looplab/events/replay.py\<close> with the planners of
  \<open>looplab/core/models.py\<close>): secondary scores reconstructed from a result file, scores imported
  from another run beside them, and the launch parameters recovered for an old node. Each one
  only adds, is bound to the node's lifecycle, and re-reads the objective afterwards.
\<close>

section \<open>The marker a repair leaves\<close>

definition sorted_names :: "string list \<Rightarrow> string list" where
  "sorted_names xs = py_sorted False id (remdups xs)"

definition nonempty_strs :: "pyval list \<Rightarrow> string list" where
  "nonempty_strs xs = List.map_filter (\<lambda>x. (case x of PStr (c # cs) \<Rightarrow> Some (c # cs) | _ \<Rightarrow> None)) xs"

fun kept_decimals :: "nat \<Rightarrow> payload \<Rightarrow> payload \<Rightarrow> payload" where
  "kept_decimals max_items out [] = out"
| "kept_decimals max_items out ((k, raw) # d) = kept_decimals max_items
     (case raw of
        PInt i \<Rightarrow> if max_items \<le> length out \<or> i < 0 then out else dict_put (take 200 k) (PInt i) out
      | _ \<Rightarrow> out) d"

definition kept_sources :: "nat \<Rightarrow> payload \<Rightarrow> payload" where
  "kept_sources max_items d = dict_of (List.map_filter (\<lambda>(k, v). (case v of
      PStr s \<Rightarrow> if k \<noteq> [] \<and> py_strip s \<noteq> [] then Some (take 200 k, PStr (take 400 s)) else None
    | _ \<Rightarrow> None)) (take max_items d))"

text \<open>The decoder yields integers of at most 64 bits, so \<open>float\<close> does not overflow on them.\<close>

definition normalize_extra_metric_backfill :: "nat \<Rightarrow> payload \<Rightarrow> payload" where
  "normalize_extra_metric_backfill max_items value =
     (if \<not> truthy (pget value ''backfilled'') then [] else
       [(''backfilled'', PBool True)]
       @ (case pget value ''backfilled_at'' of
            PInt i \<Rightarrow> [(''backfilled_at'', PFloat (Fin (real_of_int i)))]
          | PFloat x \<Rightarrow> [(''backfilled_at'', PFloat x)]
          | _ \<Rightarrow> [])
       @ (case pget value ''precision_decimals'' of
            PDict d \<Rightarrow> (let kept = kept_decimals max_items [] d in
              if kept = [] then [] else [(''precision_decimals'', PDict kept)])
          | _ \<Rightarrow> [])
       @ (case pget value ''keys'' of
            PList xs \<Rightarrow> (let named = take max_items (sorted_names (map (take 200) (nonempty_strs xs))) in
              if named = [] then [] else [(''keys'', PList (map PStr named))])
          | _ \<Rightarrow> [])
       @ (case pget value ''sources'' of
            PDict d \<Rightarrow> (let kept = kept_sources max_items d in
              if kept = [] then [] else [(''sources'', PDict kept)])
          | _ \<Rightarrow> []))"

text \<open>\<open>extra_metrics_are_imports_only\<close>: every score of the node is one an import filed.\<close>

definition marker_dict :: "payload \<Rightarrow> string \<Rightarrow> payload" where
  "marker_dict marker k = (case pget marker k of PDict d \<Rightarrow> d | _ \<Rightarrow> [])"

definition marker_keys :: "payload \<Rightarrow> pyval list" where
  "marker_keys marker = (case pget marker ''keys'' of PList ks \<Rightarrow> ks | _ \<Rightarrow> [])"

definition extra_metrics_are_imports_only :: "node \<Rightarrow> bool" where
  "extra_metrics_are_imports_only n =
     (n_extra_metrics n \<noteq> [] \<and> truthy (pget (n_extra_metrics_backfill n) ''backfilled'')
      \<and> (case (pget (n_extra_metrics_backfill n) ''keys'', pget (n_extra_metrics_backfill n) ''sources'') of
           (PList ks, PDict sources) \<Rightarrow> list_all (\<lambda>(k, v). PStr k \<in> set ks
              \<and> (case pget sources k of PStr s \<Rightarrow> s \<noteq> [] | _ \<Rightarrow> False)) (n_extra_metrics n)
         | _ \<Rightarrow> False))"

section \<open>Planning an import\<close>

definition dict_merge :: "('k \<times> 'v) list \<Rightarrow> ('k \<times> 'v) list \<Rightarrow> ('k \<times> 'v) list" where
  "dict_merge a b = foldl (\<lambda>d (k, v). dict_put k v d) a b"

definition by_name :: "(string \<times> 'v) list \<Rightarrow> (string \<times> 'v) list" where
  "by_name d = py_sorted False fst d"

definition without_keys :: "('k \<times> 'v) list \<Rightarrow> ('k \<times> 'w) list \<Rightarrow> ('k \<times> 'w) list" where
  "without_keys live d = filter (\<lambda>(k, v). k \<notin> set (dict_keys live)) d"

definition plan_extra_metrics_import :: "(string \<times> real) list \<Rightarrow> pyval \<Rightarrow> nat
    \<Rightarrow> (string \<times> real) list \<times> string list \<times> string list" where
  "plan_extra_metrics_import live found max_items =
     (let every = normalize_extra_metrics (case found of PDict d \<Rightarrow> length d | _ \<Rightarrow> 0) [] found;
          normal = take max_items every;
          fresh = by_name (without_keys live normal);
          added = take (max_items - length live) fresh in
      (added,
       sorted_names (filter (\<lambda>k. k \<in> set (dict_keys live)) (dict_keys normal)),
       sorted_names (filter (\<lambda>k. k \<notin> set (dict_keys added) \<and> k \<notin> set (dict_keys live)) (dict_keys every))))"

definition all_declared :: "(string \<times> 'v) list \<Rightarrow> pyval" where
  "all_declared d = PDict (map (\<lambda>(k, v). (k, PStr ''declared'')) d)"

section \<open>The handlers\<close>

definition first_reading :: "payload \<Rightarrow> pyval \<Rightarrow> pyval" where
  "first_reading marker v = (if pget marker ''backfilled_at'' \<noteq> PNone
     then pget marker ''backfilled_at'' else v)"

definition named_in :: "('k \<times> 'v) list \<Rightarrow> ('k \<times> 'w) list \<Rightarrow> ('k \<times> 'w) list" where
  "named_in d e = filter (\<lambda>(k, v). k \<in> set (dict_keys d)) e"

definition backfill_beside_imports :: "(string \<times> real) list \<Rightarrow> payload \<Rightarrow> node \<Rightarrow> node" where
  "backfill_beside_imports found d n =
     (let marker = n_extra_metrics_backfill n;
          imported = take (256 - length found) (by_name (without_keys found (n_extra_metrics n)));
          decimals = dict_merge (named_in imported (marker_dict marker ''precision_decimals''))
                       (case pget d ''precision_decimals'' of PDict p \<Rightarrow> p | _ \<Rightarrow> []);
          merged = dict_merge found imported in
      n\<lparr>n_extra_metrics := merged,
        n_extra_metrics_provenance := normalize_extra_metric_channels 256 [] (all_declared merged),
        n_extra_metrics_backfill := normalize_extra_metric_backfill 256
          [(''backfilled'', PBool True), (''backfilled_at'', first_reading marker (pget d ''read_at'')),
           (''precision_decimals'', PDict decimals),
           (''keys'', PList (map PStr (sorted_names (dict_keys merged)))),
           (''sources'', PDict (named_in imported (marker_dict marker ''sources'')))]\<rparr>)"

definition score_backfill :: "payload \<Rightarrow> node \<Rightarrow> node" where
  "score_backfill d n = (let found = normalize_extra_metrics 256 [] (pget d ''extra_metrics'') in
     n\<lparr>n_extra_metrics := found,
       n_extra_metrics_provenance := normalize_extra_metric_channels 256 [] (all_declared found),
       n_extra_metrics_backfill := normalize_extra_metric_backfill 256
         [(''backfilled'', PBool True), (''backfilled_at'', pget d ''read_at''),
          (''precision_decimals'', pget d ''precision_decimals'')]\<rparr>)"

definition on_score_metrics_backfilled :: "event \<Rightarrow> run_state \<Rightarrow> run_state" where
  "on_score_metrics_backfilled e st = (let d = e_data e in
     case coerce_node_id d ''node_id'' of None \<Rightarrow> st | Some nid \<Rightarrow>
     (case node_at st nid of None \<Rightarrow> st | Some n \<Rightarrow>
       if n_task_metric n = None \<or> \<not> generation_matches n d False then st
       else if n_extra_metrics n \<noteq> [] \<and> \<not> extra_metrics_are_imports_only n then st
       else (case pget d ''extra_metrics'' of
           PDict (x # xs) \<Rightarrow> upd_node nid (\<lambda>n. apply_objective st
             (if extra_metrics_are_imports_only n
              then backfill_beside_imports (normalize_extra_metrics 256 [] (pget d ''extra_metrics'')) d n
              else score_backfill d n)) st
         | _ \<Rightarrow> st)))"

definition import_scores :: "(string \<times> real) list \<Rightarrow> payload \<Rightarrow> node \<Rightarrow> node" where
  "import_scores added d n =
     (let live = n_extra_metrics n; marker = n_extra_metrics_backfill n;
          known = (if truthy (pget marker ''backfilled'') \<and> as_list (pget marker ''keys'') = None
                   then dict_keys live else nonempty_strs (marker_keys marker));
          merged = dict_merge live added;
          source = (case pget d ''source'' of PStr s \<Rightarrow> if py_strip s = [] then None else Some s | _ \<Rightarrow> None) in
      n\<lparr>n_extra_metrics := merged,
        n_extra_metrics_provenance := normalize_extra_metric_channels 256 (dict_keys merged)
          (PDict (dict_merge (map (\<lambda>(k, c). (k, PStr c)) (n_extra_metrics_provenance n))
                    (map (\<lambda>(k, v). (k, PStr ''declared'')) added))),
        n_extra_metrics_backfill := normalize_extra_metric_backfill 256
          [(''backfilled'', PBool True), (''backfilled_at'', first_reading marker (pget d ''imported_at'')),
           (''precision_decimals'', PDict (dict_merge (marker_dict marker ''precision_decimals'')
              (case pget d ''precision_decimals'' of PDict p \<Rightarrow> named_in added p | _ \<Rightarrow> []))),
           (''keys'', PList (map PStr (sorted_names (known @ dict_keys added)))),
           (''sources'', PDict (case source of
               None \<Rightarrow> marker_dict marker ''sources''
             | Some s \<Rightarrow> dict_merge (marker_dict marker ''sources'') (map (\<lambda>(k, v). (k, PStr s)) added)))]\<rparr>)"

definition on_extra_metrics_imported :: "event \<Rightarrow> run_state \<Rightarrow> run_state" where
  "on_extra_metrics_imported e st = (let d = e_data e in
     case coerce_node_id d ''node_id'' of None \<Rightarrow> st | Some nid \<Rightarrow>
     (case node_at st nid of None \<Rightarrow> st | Some n \<Rightarrow>
       if n_task_metric n = None \<or> \<not> generation_matches n d False then st
       else (case plan_extra_metrics_import (n_extra_metrics n) (pget d ''extra_metrics'') 256 of
         (added, kept, dropped) \<Rightarrow> if added = [] then st
           else upd_node nid (\<lambda>n. apply_objective st (import_scores added d n)) st)))"

definition stamped_params :: "payload \<Rightarrow> payload option" where
  "stamped_params d = (let why = (if truthy (pget d ''unrecoverable'')
                                  then py_strip (py_str (pget d ''unrecoverable'')) else []);
                           lost = (if why = [] then None
             else Some [(''backfilled'', PBool True), (''backfilled_at'', pget d ''read_at''),
                        (''unrecoverable'', PStr (take 200 why))]) in
     case pget d ''applied_params'' of
       PDict (p # ps) \<Rightarrow> Some (dict_put ''backfilled_from''
           (PStr (take 64 (if truthy (pget d ''workdir_digest'') then py_str (pget d ''workdir_digest'') else [])))
           (dict_put ''backfilled_at'' (pget d ''read_at'')
             (dict_put ''backfilled'' (PBool True) (p # ps))))
     | _ \<Rightarrow> lost)"

definition on_applied_params_backfilled :: "event \<Rightarrow> run_state \<Rightarrow> run_state" where
  "on_applied_params_backfilled e st = (let d = e_data e in
     case coerce_node_id d ''node_id'' of None \<Rightarrow> st | Some nid \<Rightarrow>
     (case node_at st nid of None \<Rightarrow> st | Some n \<Rightarrow>
       (case n_metric_provenance n of None \<Rightarrow> st | Some prov \<Rightarrow>
         if \<not> generation_matches n d False \<or> pget prov ''applied_params'' \<noteq> PNone then st
         else (case stamped_params d of None \<Rightarrow> st
           | Some stamp \<Rightarrow> upd_node nid (\<lambda>n. n\<lparr>n_metric_provenance :=
               Some (dict_put ''applied_params'' (PDict stamp) prov)\<rparr>) st))))"

section \<open>What a repair keeps\<close>

lemma backfill_life [simp]:
  "life_of (backfill_beside_imports found d n) = life_of n"
  "life_of (score_backfill d n) = life_of n"
  "life_of (import_scores added d n) = life_of n"
  "life_of (apply_objective st n) = life_of n"
  "life_of (n\<lparr>n_metric_provenance := pr\<rparr>) = life_of n"
  by (simp_all add: life_of_def backfill_beside_imports_def score_backfill_def import_scores_def Let_def)

lemma views_backfills [frames]:
  "views (on_score_metrics_backfilled e st) = views st"
  "views (on_extra_metrics_imported e st) = views st"
  "views (on_applied_params_backfilled e st) = views st"
  by (simp_all add: on_score_metrics_backfilled_def on_extra_metrics_imported_def
      on_applied_params_backfilled_def Let_def views_upd_node_life
      split: option.split prod.split pyval.split list.split)

section \<open>Imports only add, inside the bound, once\<close>

lemma dict_merge_fresh: "distinct (dict_keys b) \<Longrightarrow> set (dict_keys a) \<inter> set (dict_keys b) = {} \<Longrightarrow>
    dict_merge a b = a @ b"
proof (induction b arbitrary: a)
  case Nil
  then show ?case by (simp add: dict_merge_def)
next
  case (Cons x b)
  obtain k v where x: "x = (k, v)" by fastforce
  have "dict_get a k = None"
    using Cons.prems(2) x by (force simp: dict_keys_def map_of_eq_None_iff)
  then have put: "dict_put k v a = a @ [(k, v)]" by (rule dict_put_fresh)
  have "dict_merge (a @ [(k, v)]) b = (a @ [(k, v)]) @ b"
    by (rule Cons.IH) (use Cons.prems x in \<open>auto simp: dict_keys_def\<close>)
  then show ?case using put x by (simp add: dict_merge_def)
qed

lemma distinct_keys_filter: "distinct (dict_keys d) \<Longrightarrow> distinct (dict_keys (filter P d))"
  by (induction d) (auto simp: dict_keys_def)

lemma distinct_normalized: "distinct (dict_keys (normalize_extra_metrics b prio v))"
  by (simp add: normalize_extra_metrics_def Let_def distinct_dict_of)

lemma keys_take_subset: "set (dict_keys (take k d)) \<subseteq> set (dict_keys d)"
  by (auto simp: dict_keys_def dest: in_set_takeD)

lemma distinct_keys_take: "distinct (dict_keys d) \<Longrightarrow> distinct (dict_keys (take k d))"
  by (simp add: dict_keys_def take_map [symmetric])

lemma by_name_keys [simp]: "set (dict_keys (by_name d)) = set (dict_keys d)"
  "distinct (dict_keys (by_name d)) = distinct (dict_keys d)" "length (by_name d) = length d"
  by (simp_all add: by_name_def dict_keys_def del: distinct_map_py_sorted add: distinct_map_py_sorted)

lemma set_without_keys: "set (dict_keys (without_keys live d)) = set (dict_keys d) - set (dict_keys live)"
  by (force simp: without_keys_def dict_keys_def)

lemma without_keys_disjoint: "set (dict_keys live) \<inter> set (dict_keys (without_keys live d)) = {}"
  by (auto simp: set_without_keys)

lemma set_sorted_names [simp]: "set (sorted_names xs) = set xs"
  by (simp add: sorted_names_def)

lemma plan_spec:
  assumes plan: "plan_extra_metrics_import live found m = (added, kept, dropped)"
  shows "distinct (dict_keys added)" and "set (dict_keys live) \<inter> set (dict_keys added) = {}"
    and "length added \<le> m - length live"
    and "length added < m - length live \<Longrightarrow> k \<in> set (dict_keys (take m (normalize_extra_metrics
           (case found of PDict d \<Rightarrow> length d | _ \<Rightarrow> 0) [] found))) \<Longrightarrow>
         k \<in> set (dict_keys live) \<union> set (dict_keys added)"
proof -
  let ?every = "normalize_extra_metrics (case found of PDict d \<Rightarrow> length d | _ \<Rightarrow> 0) [] found"
  let ?fresh = "by_name (without_keys live (take m ?every))"
  have added: "added = take (m - length live) ?fresh"
    using plan by (simp add: plan_extra_metrics_import_def Let_def)
  show "distinct (dict_keys added)"
    unfolding added by (rule distinct_keys_take)
      (simp add: without_keys_def distinct_keys_filter distinct_keys_take distinct_normalized)
  show "set (dict_keys live) \<inter> set (dict_keys added) = {}"
    using keys_take_subset [of "m - length live" ?fresh] without_keys_disjoint [of live "take m ?every"]
    unfolding added by auto
  show "length added \<le> m - length live" by (simp add: added)
  show "k \<in> set (dict_keys live) \<union> set (dict_keys added)"
    if "length added < m - length live" "k \<in> set (dict_keys (take m ?every))"
  proof -
    have "added = ?fresh" using that(1) by (simp add: added)
    then show ?thesis using that(2) by (simp add: set_without_keys)
  qed
qed

lemma plan_again:
  assumes plan: "plan_extra_metrics_import live found m = (added, kept, dropped)"
  shows "fst (plan_extra_metrics_import (dict_merge live added) found m) = []"
proof -
  let ?every = "normalize_extra_metrics (case found of PDict d \<Rightarrow> length d | _ \<Rightarrow> 0) [] found"
  have merge: "dict_merge live added = live @ added"
    by (rule dict_merge_fresh [OF plan_spec(1,2) [OF plan]])
  have fresh: "fst (plan_extra_metrics_import (live @ added) found m) =
      take (m - length (live @ added)) (by_name (without_keys (live @ added) (take m ?every)))"
    by (simp add: plan_extra_metrics_import_def Let_def)
  show ?thesis
  proof (cases "length added < m - length live")
    case True
    have "set (dict_keys (take m ?every)) \<subseteq> set (dict_keys (live @ added))"
      using plan_spec(4) [OF plan True] by (auto simp: dict_keys_def)
    then have "without_keys (live @ added) (take m ?every) = []"
      by (force simp: without_keys_def dict_keys_def filter_empty_conv)
    then show ?thesis using merge fresh by (simp add: by_name_def py_sorted_def)
  next
    case False
    then show ?thesis using merge fresh by simp
  qed
qed

lemma import_scores_fields [simp]:
  "n_attempt (import_scores added d n) = n_attempt n"
  "n_task_metric (import_scores added d n) = n_task_metric n"
  "n_extra_metrics (import_scores added d n) = dict_merge (n_extra_metrics n) added"
  by (simp_all add: import_scores_def Let_def)

lemma apply_objective_fields [simp]:
  "n_task_metric (apply_objective st n) = n_task_metric n"
  "n_extra_metrics (apply_objective st n) = n_extra_metrics n"
  by (simp_all add: apply_objective_def)

lemma import_no_new:
  assumes "coerce_node_id (e_data e) ''node_id'' = Some nid" and "node_at st nid = Some n"
    and "fst (plan_extra_metrics_import (n_extra_metrics n) (pget (e_data e) ''extra_metrics'') 256) = []"
  shows "on_extra_metrics_imported e st = st"
  using assms by (auto simp: on_extra_metrics_imported_def Let_def split: prod.split)

text \<open>Importing the same row twice changes nothing the second time.\<close>

lemma import_twice:
  "on_extra_metrics_imported e (on_extra_metrics_imported e st) = on_extra_metrics_imported e st"
proof (cases "on_extra_metrics_imported e st = st")
  case False
  then obtain nid n added kept dropped where at: "coerce_node_id (e_data e) ''node_id'' = Some nid"
      "node_at st nid = Some n"
      "plan_extra_metrics_import (n_extra_metrics n) (pget (e_data e) ''extra_metrics'') 256 = (added, kept, dropped)"
    and once: "on_extra_metrics_imported e st =
      upd_node nid (\<lambda>n. apply_objective st (import_scores added (e_data e) n)) st"
    by (auto simp: on_extra_metrics_imported_def Let_def split: option.splits prod.splits if_splits)
  let ?m = "apply_objective st (import_scores added (e_data e) n)"
  have "node_at (on_extra_metrics_imported e st) nid = Some ?m"
    using once at(2) by (simp add: node_at_def upd_node_def)
  moreover have "fst (plan_extra_metrics_import (n_extra_metrics ?m) (pget (e_data e) ''extra_metrics'') 256) = []"
    using plan_again [OF at(3)] by simp
  ultimately show ?thesis by (rule import_no_new [OF at(1)])
qed simp

end
