(* ===== verification/Fold.thy ===== *)
theory Fold
  imports Backfills
begin

text \<open>
  The fold of the event log (\<open>looplab/events/replay.py\<close>): the handler tables by event type,
  the loop of \<open>fold\<close>, the post-passes of \<open>_finalize_fold\<close>, the incremental \<open>FoldCursor\<close> and
  \<open>fold_run_start\<close>. Handlers of types that touch no field of the model (concepts, cards' text,
  journals, comments) are absent from the tables, and an absent type is a no-op of the fold. The
  interface \<open>event_fold\<close> lifts what every handler keeps to every log; it is interpreted for each
  invariant of the state.
\<close>

section \<open>The handler tables\<close>

type_synonym handler_table = "(string \<times> (event \<Rightarrow> fold_state \<Rightarrow> fold_state)) list"

definition on_state :: "(event \<Rightarrow> run_state \<Rightarrow> run_state) \<Rightarrow> event \<Rightarrow> fold_state \<Rightarrow> fold_state" where
  "on_state h e s = (h e (fst s), snd s)"

lemma on_state_simps [simp]: "fst (on_state h e s) = h e (fst s)" "snd (on_state h e s) = snd s"
  by (simp_all add: on_state_def)

definition own_handlers :: "externals \<Rightarrow> handler_table" where
  "own_handlers X = [
     (''run_started'', on_state on_run_started), (''run_relocated'', on_state on_run_relocated),
     (''metric_retarget'', on_metric_retarget), (''node_building'', on_state on_node_building),
     (''node_created'', on_node_created X),
     (''node_eval_started'', on_state on_node_eval_started),
     (''node_evaluated'', on_node_evaluated X), (''node_failed'', on_node_failed),
     (''node_repaired'', on_node_repaired),
     (''node_overlay_rebased'', on_state on_node_overlay_rebased),
     (''node_tombstoned'', on_node_tombstoned),
     (''applied_params_backfilled'', on_state on_applied_params_backfilled),
     (''score_metrics_backfilled'', on_state on_score_metrics_backfilled),
     (''extra_metrics_imported'', on_state on_extra_metrics_imported),
     (''resume_requested'', on_state on_resume_requested),
     (''resume_served'', on_state on_resume_served), (''restart'', on_state on_restart),
     (''node_reset'', on_node_reset), (''stage_finished'', on_state on_stage_finished),
     (''confirm_eval'', on_confirm_eval), (''node_confirmed'', on_state (on_node_confirmed X)),
     (''eval_noise_seed'', on_eval_noise_seed),
     (''eval_noise_floor'', on_state on_eval_noise_floor),
     (''holdout_evaluated'', on_holdout_evaluated X),
     (''agent_validated'', on_state on_agent_validated),
     (''setup_finished'', on_state on_setup_finished),
     (''run_setup_started'', on_state (on_run_setup_started X)),
     (''run_setup_finished'', on_state (on_run_setup_finished X)),
     (''approval_requested'', on_state on_approval_requested),
     (''approval_granted'', on_state on_approval_granted),
     (''spec_proposed'', on_state on_spec_proposed),
     (''spec_approval_requested'', on_state on_spec_approval_requested),
     (''spec_approved'', on_state on_spec_approved), (''spec_drift'', on_state on_spec_drift),
     (''ablate'', on_ablate), (''foresight_selected'', on_state on_foresight_selected),
     (''node_value_estimated'', on_state on_node_value_estimated),
     (''speculation_depth_settled'', on_state on_speculation_depth_settled),
     (''run_width_settled'', on_state on_run_width_settled),
     (''proxy_scored'', on_state on_proxy_scored), (''run_finished'', on_run_finished),
     (''finalization_finished'', on_state on_finalization_finished),
     (''resume'', on_resume_or_run_reopened), (''run_reopened'', on_resume_or_run_reopened),
     (''run_abort'', on_state on_run_abort), (''pause'', on_state on_pause),
     (''node_abort'', on_node_abort)]"

definition journal_handlers :: "handler_table" where
  "journal_handlers = [
     (''upstream_execution'', on_state on_upstream_execution),
     (''host_grading'', on_state on_host_grading),
     (''policy_decision'', on_state on_policy_decision),
     (''report_generated'', on_report_generated)]"

definition card_handlers :: "handler_table" where
  "card_handlers = [
     (''hypothesis_ranked'', on_state on_hypothesis_ranked),
     (''card_build_requested'', on_state on_card_build_requested),
     (''card_build_done'', on_state on_card_build_done)]"

definition selection_handlers :: "externals \<Rightarrow> handler_table" where
  "selection_handlers X = [
     (''trust_gate_changed'', on_state on_trust_gate_changed),
     (''reward_hack_suspected'', on_state on_reward_hack_suspected),
     (''node_verified'', on_state (on_node_verified X)),
     (''verifier_group_scored'', on_state (on_verifier_group_scored X)),
     (''best_confirmed'', on_best_confirmed)]"

definition request_handlers :: "handler_table" where
  "request_handlers = [
     (''budget_extend'', on_state on_budget_extend), (''hint'', on_state on_hint),
     (''set_strategy'', on_state on_set_strategy), (''force_confirm'', on_state on_force_confirm),
     (''force_ablate'', on_state on_force_ablate), (''fork'', on_state on_fork),
     (''fork_done'', on_state on_fork_done), (''inject_node'', on_state on_inject_node),
     (''inject_done'', on_state on_inject_done), (''deep_research'', on_state on_deep_research),
     (''confirm_done'', on_state on_confirm_done), (''promote'', on_state on_promote),
     (''track_requested'', on_state on_track_requested), (''track_done'', on_state on_track_done),
     (''lane_op_requested'', on_state on_lane_op_requested),
     (''lane_op_done'', on_state on_lane_op_done)]"

definition handlers :: "externals \<Rightarrow> handler_table" where
  "handlers X = own_handlers X @ journal_handlers @ card_handlers @ selection_handlers X @ request_handlers"

lemmas table_defs = handlers_def own_handlers_def journal_handlers_def card_handlers_def
  selection_handlers_def request_handlers_def

section \<open>The fold\<close>

definition handle :: "externals \<Rightarrow> event \<Rightarrow> fold_state \<Rightarrow> fold_state" where
  "handle X e s = (case map_of (handlers X) (e_type e) of None \<Rightarrow> s | Some h \<Rightarrow> h e s)"

definition fold_step :: "externals \<Rightarrow> int \<Rightarrow> event \<Rightarrow> fold_state \<Rightarrow> fold_state" where
  "fold_step X i e s = handle X e (fst s, (snd s)\<lparr>c_event_index := i\<rparr>)"

text \<open>\<open>enumerate(events)\<close>: the loop with its running index.\<close>

fun fold_events :: "(int \<Rightarrow> event \<Rightarrow> 's \<Rightarrow> 's) \<Rightarrow> int \<Rightarrow> 's \<Rightarrow> event list \<Rightarrow> 's" where
  "fold_events step i s [] = s"
| "fold_events step i s (e # es) = fold_events step (i + 1) (step i e s) es"

definition raw_fold :: "externals \<Rightarrow> event list \<Rightarrow> fold_state" where
  "raw_fold X es = fold_events (fold_step X) 0 (init_state, init_ctx) es"

definition finalize_fold :: "externals \<Rightarrow> fold_state \<Rightarrow> run_state" where
  "finalize_fold X s = (case apply_trust_gate (fst s) of (st, flagged) \<Rightarrow>
     select_best X flagged (c_best_confirmed (snd s)) (c_best_confirmed_significant (snd s)) st)"

definition replay_fold :: "externals \<Rightarrow> event list \<Rightarrow> run_state" where
  "replay_fold X es = finalize_fold X (raw_fold X es)"

definition start_step :: "int \<Rightarrow> event \<Rightarrow> fold_state \<Rightarrow> fold_state" where
  "start_step i e s = (if e_type e = ''run_started''
     then on_state on_run_started e (fst s, (snd s)\<lparr>c_event_index := i\<rparr>) else s)"

definition fold_run_start :: "event list \<Rightarrow> run_state" where
  "fold_run_start es = fst (fold_events start_step 0 (init_state, init_ctx) es)"

section \<open>The cursor\<close>

record fold_cursor =
  fc_state :: run_state
  fc_ctx :: fold_ctx
  fc_event_count :: int

definition new_cursor :: fold_cursor where
  "new_cursor = \<lparr>fc_state = init_state, fc_ctx = init_ctx, fc_event_count = 0\<rparr>"

definition cursor_step :: "externals \<Rightarrow> event \<Rightarrow> fold_cursor \<Rightarrow> fold_cursor" where
  "cursor_step X e c = (case fold_step X (fc_event_count c) e (fc_state c, fc_ctx c) of
     (st, ctx) \<Rightarrow> \<lparr>fc_state = st, fc_ctx = ctx, fc_event_count = fc_event_count c + 1\<rparr>)"

fun cursor_extend :: "externals \<Rightarrow> fold_cursor \<Rightarrow> event list \<Rightarrow> fold_cursor \<times> nat" where
  "cursor_extend X c [] = (c, 0)"
| "cursor_extend X c (e # es) = (case cursor_extend X (cursor_step X e c) es of
     (c', added) \<Rightarrow> (c', Suc added))"

definition cursor_snapshot :: "externals \<Rightarrow> fold_cursor \<Rightarrow> run_state" where
  "cursor_snapshot X c = finalize_fold X (fc_state c, fc_ctx c)"

section \<open>What every fold keeps\<close>

lemma fold_events_append:
  "fold_events step i s (xs @ ys) = fold_events step (i + int (length xs)) (fold_events step i s xs) ys"
  by (induction xs arbitrary: i s) (simp_all add: add.assoc add.commute)

locale event_fold =
  fixes step :: "int \<Rightarrow> event \<Rightarrow> 's \<Rightarrow> 's" and inv :: "'s \<Rightarrow> bool"
  assumes step_inv: "inv s \<Longrightarrow> inv (step i e s)"
begin

lemma fold_inv: "inv s \<Longrightarrow> inv (fold_events step i s es)"
  by (induction es arbitrary: i s) (simp_all add: step_inv)

lemma prefix_inv: "inv s \<Longrightarrow> inv (fold_events step i s (take k es))"
  by (rule fold_inv)

end

text \<open>A relation every step respects relates each prefix to every extension of it.\<close>

locale event_order =
  fixes step :: "int \<Rightarrow> event \<Rightarrow> 's \<Rightarrow> 's" and rel :: "'s \<Rightarrow> 's \<Rightarrow> bool"
  assumes rel_refl: "rel s s" and rel_trans: "rel s t \<Longrightarrow> rel t u \<Longrightarrow> rel s u"
    and step_rel: "rel s (step i e s)"

sublocale event_order \<subseteq> above: event_fold step "rel s0" for s0
  by unfold_locales (rule rel_trans [OF _ step_rel])

context event_order
begin

lemma prefix_rel: "rel (fold_events step i s xs) (fold_events step i s (xs @ ys))"
  by (simp add: fold_events_append above.fold_inv rel_refl)

end

lemma step_from_handlers:
  assumes "\<And>t h s. (t, h) \<in> set (handlers X) \<Longrightarrow> P s \<Longrightarrow> P (h e s)"
    and "\<And>st ctx i. P (st, ctx\<lparr>c_event_index := i\<rparr>) = P (st, ctx)" and "P s"
  shows "P (fold_step X i e s)"
  using assms by (cases s) (auto simp: fold_step_def handle_def split: option.split dest!: map_of_SomeD)

lemma table_keeps:
  assumes "list_all (\<lambda>p. \<forall>e s. P s \<longrightarrow> P (snd p e s)) (handlers X)"
    and "\<And>st ctx i. P (st, ctx\<lparr>c_event_index := i\<rparr>) = P (st, ctx)"
  shows "event_fold (fold_step X) P"
proof
  fix s i e
  assume "P s"
  then show "P (fold_step X i e s)"
    by (rule step_from_handlers [rotated 2]) (use assms in \<open>auto simp: list_all_iff\<close>)
qed

lemmas node_inv_frames = frames [THEN node_inv_cong]

lemmas node_inv_writes = node_view_noise_seed [THEN node_inv_view] node_view_confirm_eval [THEN node_inv_view]
  node_view_holdout [THEN node_inv_view] node_view_ablate [THEN node_inv_view]
  node_view_upstream [THEN node_inv_view] node_view_queues [THEN node_inv_view]
  node_view_card_build_done [THEN node_inv_view]

lemmas node_inv_lifecycle = node_inv_created node_inv_evaluated node_inv_failed node_inv_tombstoned
  node_inv_abort node_inv_reset node_inv_resume

lemma handlers_node_inv: "list_all (\<lambda>p. \<forall>e s. node_inv (fst s) \<longrightarrow> node_inv (fst (snd p e s))) (handlers X)"
  by (simp add: table_defs node_inv_frames node_inv_writes node_inv_lifecycle del: split_paired_All)

section \<open>The queues and the clock are written by their own handlers only\<close>

definition qc_view where
  "qc_view st = (queue_view st, card_view st)"

lemma qc_aux: "aux_view s = aux_view t \<Longrightarrow> qc_view s = qc_view t"
  by (simp add: aux_view_def qc_view_def)

lemmas qc_helpers [simp] = aux_updates [THEN qc_aux] aux_nodes [THEN qc_aux] aux_helpers [THEN qc_aux]
  aux_failures [THEN qc_aux] frames [THEN aux_of_views, THEN qc_aux]

lemma qc_charge [simp]:
  "qc_view (charge_eval_seconds k raw st) = qc_view st"
  "qc_view (on_upstream_execution e st) = qc_view st"
  "qc_view (fst (charge_terminal_cost n d s)) = qc_view (fst s)"
  by (simp_all add: qc_view_def queue_frames charge_terminal_cost_def split: prod.split option.split stamp.split)

lemma qc_charge_eq:
  "charge_terminal_cost n d s = (a, b) \<Longrightarrow> qc_view a = qc_view (fst s)"
  "charge_confirm_seed m d s = (a, b) \<Longrightarrow> qc_view a = qc_view (fst s)"
  "charge_holdout d s = (a, b) \<Longrightarrow> qc_view a = qc_view (fst s)"
  using qc_charge(3) [of n d s]
  by (auto simp: charge_confirm_seed_def charge_holdout_def Let_def
      split: prod.splits option.splits stamp.splits if_splits)

lemma qc_measurements [simp]:
  "qc_view (fst (on_confirm_eval e s)) = qc_view (fst s)"
  "qc_view (fst (on_holdout_evaluated X e s)) = qc_view (fst s)"
  "qc_view (fst (on_eval_noise_seed e s)) = qc_view (fst s)"
  "qc_view (fst (on_ablate e s)) = qc_view (fst s)"
  by (auto simp: on_confirm_eval_def on_holdout_evaluated_def on_eval_noise_seed_def on_ablate_def Let_def
      dest: qc_charge_eq split: prod.split option.split pyval.split)

lemma qc_terminals [simp]:
  "qc_view (fst (on_node_evaluated X e s)) = qc_view (fst s)"
  "qc_view (fst (on_node_failed e s)) = qc_view (fst s)"
  by (cases s, simp add: on_node_evaluated_def Let_def split: option.split)
     (cases s, simp add: on_node_failed_def Let_def split_beta split: option.split)

lemmas aux_lifecycle = aux_created aux_tombstoned aux_reset aux_abort aux_resume

lemmas qc_lifecycle [simp] = aux_lifecycle [THEN qc_aux]

lemma close_views [simp]:
  "clock_view (close_card_build_request i out st) = clock_view st"
  "queue_view (close_card_build_request i out st) = queue_view st"
  by (simp_all add: close_card_build_request_def clock_view_def queue_view_def Let_def split: prod.split)

lemma clock_updates [simp]:
  "clock_view (st\<lparr>st_speculative_nodes := x\<rparr>) = clock_view st"
  "queue_view (st\<lparr>st_speculative_nodes := x\<rparr>) = queue_view st"
  "clock_view (st\<lparr>st_card_build_producer_failed := y, st_card_build_producer_failed_reasons := z\<rparr>) = clock_view st"
  "queue_view (st\<lparr>st_card_build_producer_failed := y, st_card_build_producer_failed_reasons := z\<rparr>) = queue_view st"
  by (simp_all add: clock_view_def queue_view_def)

lemma card_handlers_views:
  "clock_view (on_card_build_requested e st) = clock_view st"
  "queue_view (on_card_build_requested e st) = queue_view st"
  "clock_view (on_card_build_done e st) = clock_view st"
  "queue_view (on_card_build_done e st) = queue_view st"
  by (simp add: on_card_build_requested_def clock_view_def Let_def split: option.split,
      simp add: queue_frames,
      simp_all add: on_card_build_done_def Let_def split: option.split pyval.split)

lemma request_handlers_views:
  "clock_view (on_fork e st) = clock_view st \<and> card_view (on_fork e st) = card_view st"
  "clock_view (on_fork_done e st) = clock_view st \<and> card_view (on_fork_done e st) = card_view st"
  "clock_view (on_inject_node e st) = clock_view st \<and> card_view (on_inject_node e st) = card_view st"
  "clock_view (on_inject_done e st) = clock_view st \<and> card_view (on_inject_done e st) = card_view st"
  "clock_view (on_track_requested e st) = clock_view st \<and> card_view (on_track_requested e st) = card_view st"
  "clock_view (on_track_done e st) = clock_view st \<and> card_view (on_track_done e st) = card_view st"
  "clock_view (on_lane_op_requested e st) = clock_view st \<and> card_view (on_lane_op_requested e st) = card_view st"
  "clock_view (on_lane_op_done e st) = clock_view st \<and> card_view (on_lane_op_done e st) = card_view st"
  by (simp_all add: clock_view_def card_view_def on_fork_def on_fork_done_def on_inject_node_def
      on_inject_done_def on_track_requested_def on_track_done_def on_lane_op_requested_def
      on_lane_op_done_def Let_def split: option.split pyval.split)

lemmas clock_queues = card_handlers_views(1,3) request_handlers_views [THEN conjunct1]
lemmas cards_of_queues = request_handlers_views [THEN conjunct2]

section \<open>The invariants over the tables\<close>

lemma ledger_inv_clock: "clock_view s = clock_view t \<Longrightarrow> ledger_inv s = ledger_inv t"
  by (simp add: ledger_inv_def clock_view_def)

lemma qc_parts: "qc_view s = qc_view t \<Longrightarrow> cursor_inv s = cursor_inv t"
  "qc_view s = qc_view t \<Longrightarrow> cards_inv s = cards_inv t"
  using cursor_inv_queue [of s t] cards_inv_view [of s t] by (simp_all add: qc_view_def)

lemmas qc_all = qc_charge(2) qc_measurements qc_terminals qc_lifecycle frames [THEN aux_of_views, THEN qc_aux]

lemmas ledger_inv_frames = frames [THEN aux_of_views, THEN ledger_inv_aux]
  aux_lifecycle [THEN ledger_inv_aux] clock_queues [THEN ledger_inv_clock]

lemma handlers_ledger_inv: "list_all (\<lambda>p. \<forall>e s. ledger_inv (fst s) \<longrightarrow> ledger_inv (fst (snd p e s))) (handlers X)"
  by (simp add: table_defs ledger_inv_frames ledger_inv_evaluated ledger_inv_failed ledger_inv_confirm_eval
      ledger_inv_holdout ledger_inv_noise_seed ledger_inv_ablate ledger_inv_upstream
      del: split_paired_All)

lemma handlers_cursor_inv: "list_all (\<lambda>p. \<forall>e s. cursor_inv (fst s) \<longrightarrow> cursor_inv (fst (snd p e s))) (handlers X)"
  by (simp add: table_defs qc_all [THEN qc_parts(1)] card_handlers_views(2,4) [THEN cursor_inv_queue]
      cursor_inv_forks cursor_inv_injects cursor_inv_tracks cursor_inv_lane_ops del: split_paired_All)

lemma handlers_cards_inv: "list_all (\<lambda>p. \<forall>e s. cards_inv (fst s) \<longrightarrow> cards_inv (fst (snd p e s))) (handlers X)"
  by (simp add: table_defs qc_all [THEN qc_parts(2)] cards_of_queues [THEN cards_inv_view]
      cards_inv_requested cards_inv_done del: split_paired_All)

section \<open>The fold keeps them\<close>

interpretation nodes_fold: event_fold "fold_step X" "\<lambda>s. node_inv (fst s)" for X
  by (rule table_keeps [OF handlers_node_inv]) simp

interpretation ledger_fold: event_fold "fold_step X" "\<lambda>s. ledger_inv (fst s)" for X
  by (rule table_keeps [OF handlers_ledger_inv]) simp

interpretation cursor_fold: event_fold "fold_step X" "\<lambda>s. cursor_inv (fst s)" for X
  by (rule table_keeps [OF handlers_cursor_inv]) simp

interpretation cards_fold: event_fold "fold_step X" "\<lambda>s. cards_inv (fst s)" for X
  by (rule table_keeps [OF handlers_cards_inv]) simp

lemma init_inv: "node_inv init_state" "ledger_inv init_state" "cursor_inv init_state" "cards_inv init_state"
  by (simp_all add: node_inv_def life_inv_def node_view_def life_def failing_def ledger_inv_def cursor_inv_def
      in_range_defs cards_inv_def card_view_def init_state_def dict_values_def)

end
