(* ===== verification/FoldOrder.thy ===== *)
theory FoldOrder
  imports Fold
begin

text \<open>
  How the fold may move: a log and any extension of it (\<open>looplab/events/replay.py\<close>). Nodes never
  vanish, their lifecycle generation only grows, a tombstone stays, the first terminal of a
  generation stands, the search epoch only grows, and no handler writes the champion: the
  post-passes alone choose it.
\<close>

section \<open>The champion and the search epoch\<close>

lemma mark_of_views: "views s = views t \<Longrightarrow> mark_view s = mark_view t"
  by (simp add: views_def)

lemma mark_updates [simp]:
  "mark_view (st\<lparr>st_nodes := x\<rparr>) = mark_view st" "mark_view (st\<lparr>st_aborted_nodes := ab\<rparr>) = mark_view st"
  "mark_view (st\<lparr>st_current_failure_count := c\<rparr>) = mark_view st"
  "mark_view (st\<lparr>st_failure_spike_level := l\<rparr>) = mark_view st"
  "mark_view (st\<lparr>st_total_eval_seconds := t\<rparr>) = mark_view st"
  "mark_view (st\<lparr>st_eval_seconds_by_kind := u\<rparr>) = mark_view st"
  by (simp_all add: mark_view_def)

lemmas mark_frames [simp] = views_updates [THEN mark_of_views] frames [THEN mark_of_views]

lemma mark_steps [simp]:
  "mark_view (charge_eval_seconds k raw st) = mark_view st"
  "mark_view (remove_current_failure n st) = mark_view st"
  "mark_view (add_current_failure n e st) = mark_view st"
  "mark_view (on_upstream_execution e st) = mark_view st"
  "mark_view (requeue_partition_bound_results fresh st) = mark_view st"
  by (simp_all add: charge_eval_seconds_def remove_current_failure_def add_current_failure_def
      on_upstream_execution_def requeue_partition_bound_results_def Let_def split: option.split)

lemma mark_queues [simp]:
  "mark_view (on_fork e st) = mark_view st" "mark_view (on_fork_done e st) = mark_view st"
  "mark_view (on_inject_node e st) = mark_view st" "mark_view (on_inject_done e st) = mark_view st"
  "mark_view (on_track_requested e st) = mark_view st" "mark_view (on_track_done e st) = mark_view st"
  "mark_view (on_lane_op_requested e st) = mark_view st" "mark_view (on_lane_op_done e st) = mark_view st"
  "mark_view (on_card_build_requested e st) = mark_view st"
  by (simp_all add: mark_view_def on_fork_def on_fork_done_def on_inject_node_def on_inject_done_def
      on_track_requested_def on_track_done_def on_lane_op_requested_def on_lane_op_done_def
      on_card_build_requested_def Let_def split: option.split pyval.split)

lemma mark_close [simp]: "mark_view (close_card_build_request i out st) = mark_view st"
  by (simp add: close_card_build_request_def mark_view_def Let_def split: prod.split)

lemma mark_card_done [simp]: "mark_view (on_card_build_done e st) = mark_view st"
  by (simp add: on_card_build_done_def Let_def split: option.split pyval.split)

lemma mark_charge [simp]: "mark_view (fst (charge_terminal_cost n d s)) = mark_view (fst s)"
  by (simp add: charge_terminal_cost_def split: prod.split option.split stamp.split)

lemma mark_charge_eq:
  "charge_confirm_seed m d s = (a, b) \<Longrightarrow> mark_view a = mark_view (fst s)"
  "charge_holdout d s = (a, b) \<Longrightarrow> mark_view a = mark_view (fst s)"
  by (auto simp: charge_confirm_seed_def charge_holdout_def Let_def
      split: prod.splits option.splits stamp.splits if_splits)

lemma mark_measurements [simp]:
  "mark_view (fst (on_confirm_eval e s)) = mark_view (fst s)"
  "mark_view (fst (on_holdout_evaluated X e s)) = mark_view (fst s)"
  "mark_view (fst (on_eval_noise_seed e s)) = mark_view (fst s)"
  "mark_view (fst (on_ablate e s)) = mark_view (fst s)"
  by (auto simp: on_confirm_eval_def on_holdout_evaluated_def on_eval_noise_seed_def on_ablate_def Let_def
      dest: mark_charge_eq split: prod.split option.split pyval.split)

lemma mark_terminals [simp]:
  "mark_view (fst (on_node_evaluated X e s)) = mark_view (fst s)"
  "mark_view (fst (on_node_failed e s)) = mark_view (fst s)"
  by (cases s, simp add: on_node_evaluated_def Let_def split: option.split)
     (cases s, simp add: on_node_failed_def Let_def split_beta split: option.split)

fun mark_le :: "int option \<times> int \<Rightarrow> int option \<times> int \<Rightarrow> bool" where
  "mark_le (b, k) (b', k') \<longleftrightarrow> b = b' \<and> k \<le> k'"

lemma mark_le_refl [simp]: "mark_le m m"
  by (cases m) simp

lemma mark_le_trans: "mark_le a b \<Longrightarrow> mark_le b c \<Longrightarrow> mark_le a c"
  by (cases a; cases b; cases c) auto

lemma mark_rotate: "mark_view (rotate_search_epoch b fresh st) = (st_best_node_id st, st_search_epoch st + 1)"
proof -
  have "mark_view (st\<lparr>st_search_epoch := k, st_split_epoch := x, st_holdout_evaluated_ids := y,
      st_holdout_epoch_aware := z, st_holdout_partition_disclosed := w\<rparr>) = (st_best_node_id st, k)" for k x y z w
    by (simp add: mark_view_def)
  then show ?thesis by (simp add: rotate_search_epoch_def Let_def)
qed

lemma mark_rotations:
  "mark_le (mark_view st) (mark_view (rotate_search_epoch b fresh st))"
  "mark_le (mark_view st) (mark_view (invalidate_disclosed_holdout fresh st))"
  by (simp_all add: invalidate_disclosed_holdout_def mark_rotate) (simp_all add: mark_view_def)

lemma mark_invalidate: "mark_view st = m \<Longrightarrow> mark_le m (mark_view (invalidate_disclosed_holdout fresh st))"
  using mark_rotations(2) [of st fresh] by simp

lemma mark_rotated: "mark_view st = m \<Longrightarrow> mark_le m (mark_view (rotate_search_epoch b fresh st))"
  using mark_rotations(1) [of st b fresh] by simp

lemma mark_certificates: "invalidate_completion_certificates (st, ctx) = (st', ctx') \<Longrightarrow> mark_view st' = mark_view st"
  using mark_of_views [OF views_certificates [of "(st, ctx)"]] by simp

lemma mark_created: "mark_le (mark_view (fst s)) (mark_view (fst (on_node_created X e s)))"
proof -
  have "mark_le (mark_view (fst s)) (mark_view (fst (place_node d nid n s)))" for d nid n
    by (auto simp: place_node_def Let_def split_beta mark_invalidate)
  then show ?thesis
    by (auto simp: on_node_created_def Let_def split: prod.split option.split)
qed

lemma mark_tombstones: "mark_view (fst (foldl tombstone_one acc raws)) = mark_view (fst acc)"
proof (induction raws arbitrary: acc)
  case (Cons r raws)
  have "mark_view (fst (tombstone_one acc r)) = mark_view (fst acc)"
    by (simp add: tombstone_one_def upd_node_def split: prod.split option.split)
  then show ?case using Cons by simp
qed simp

lemma mark_tombstoned: "mark_le (mark_view (fst s)) (mark_view (fst (on_node_tombstoned e s)))"
proof -
  obtain st ctx where s: "s = (st, ctx)" by (cases s)
  let ?raws = "case pget (e_data e) ''node_ids'' of PList xs \<Rightarrow> xs | _ \<Rightarrow> []"
  obtain st1 aff where f: "foldl tombstone_one (st, []) ?raws = (st1, aff)" by fastforce
  have "mark_view st1 = mark_view st" using mark_tombstones [of "(st, [])" ?raws] f by simp
  then show ?thesis
    using s f by (auto simp: on_node_tombstoned_def Let_def mark_invalidate dest!: mark_certificates
        split: prod.split)
qed

lemma mark_abort: "mark_le (mark_view (fst s)) (mark_view (fst (on_node_abort e s)))"
proof -
  have "mark_view (abort_state d nid st) = mark_view st" for d nid st
    by (simp add: abort_state_def Let_def upd_node_def split: option.split)
  then show ?thesis
    by (auto simp: on_node_abort_def Let_def mark_invalidate dest!: mark_certificates
        split: prod.splits option.splits)
qed

lemma mark_reset: "mark_le (mark_view (fst s)) (mark_view (fst (on_node_reset e s)))"
proof -
  have "mark_view (reset_state nid g d st) = mark_view st" for nid g d st
    by (simp add: reset_state_def Let_def)
  then show ?thesis
    by (cases s) (auto simp: on_node_reset_def Let_def mark_rotated upd_node_def dest!: mark_certificates
        split: prod.splits option.splits)
qed

lemma mark_resume: "mark_le (mark_view (fst s)) (mark_view (fst (on_resume_or_run_reopened e s)))"
proof -
  have "mark_le (mark_view st) (mark_view (fst (invalidate_completion_certificates
      (rotate_search_epoch b fresh st, ctx))))" for st b fresh ctx
    using mark_of_views [OF views_certificates [of "(rotate_search_epoch b fresh st, ctx)"]]
    by (simp add: mark_rotations)
  then show ?thesis
    by (cases s) (simp add: on_resume_or_run_reopened_def Let_def split_beta)
qed

lemma handlers_mark: "list_all (\<lambda>p. \<forall>e s. mark_le m (mark_view (fst s)) \<longrightarrow>
    mark_le m (mark_view (fst (snd p e s)))) (handlers X)"
  by (simp add: table_defs del: split_paired_All)
     (use mark_created mark_tombstoned mark_abort mark_reset mark_resume mark_le_trans in blast)

section \<open>Lifecycles only move forward\<close>

fun row_forward :: "life_row \<Rightarrow> life_row \<Rightarrow> bool" where
  "row_forward (i, s, t, r, a, q) (i', s', t', r', a', q') \<longleftrightarrow>
     a \<le> a' \<and> (t \<longrightarrow> t') \<and> (a = a' \<and> s \<noteq> Pending \<longrightarrow> s' = s \<and> q' = q)"

lemma row_forward_refl [simp]: "row_forward l l"
  by (cases l) auto

lemma row_forward_trans: "row_forward a b \<Longrightarrow> row_forward b c \<Longrightarrow> row_forward a c"
  by (cases a; cases b; cases c) auto

definition forward :: "run_state \<Rightarrow> run_state \<Rightarrow> bool" where
  "forward s t \<longleftrightarrow> (\<forall>k n. node_at s k = Some n \<longrightarrow>
     (\<exists>m. node_at t k = Some m \<and> row_forward (life_of n) (life_of m)))"

lemma forward_refl [simp]: "forward s s"
  by (simp add: forward_def)

lemma forward_trans: "forward s t \<Longrightarrow> forward t u \<Longrightarrow> forward s u"
  unfolding forward_def by (meson row_forward_trans)

lemma map_of_life: "map_of (life ns) k = map_option life_of (dict_get ns k)"
  by (induction ns) (auto simp: life_def)

lemma forward_view: "node_view s = node_view t \<Longrightarrow> forward s t"
proof -
  assume "node_view s = node_view t"
  then have "map_option life_of (node_at s k) = map_option life_of (node_at t k)" for k
    unfolding node_at_def map_of_life [symmetric] by (simp add: node_view_def)
  then show ?thesis
    unfolding forward_def by (metis map_option_eq_Some row_forward_refl)
qed

lemmas forward_views = frames [THEN node_view_of_views, THEN sym, THEN forward_view]

lemma forward_nodes: "st_nodes s = st_nodes t \<Longrightarrow> forward s t"
  by (simp add: forward_def node_at_def)

lemma forward_upd_node: "(\<And>n. node_at st k = Some n \<Longrightarrow> row_forward (life_of n) (life_of (f n))) \<Longrightarrow>
    forward st (upd_node k f st)"
  by (auto simp: forward_def node_at_def upd_node_def)

lemma forward_upd_nodes: "(\<And>n. row_forward (life_of n) (life_of (f n))) \<Longrightarrow> forward st (upd_nodes f st)"
  by (auto simp: forward_def node_at_def upd_nodes_def)

lemma node_at_upd_node: "node_at (upd_node k f st) j = (if j = k then map_option f (node_at st j) else node_at st j)"
  by (simp add: node_at_def upd_node_def)

lemma nodes_updates [simp]:
  "st_nodes (charge_eval_seconds k raw st) = st_nodes st"
  "st_nodes (fst (charge_terminal_cost n d s)) = st_nodes (fst s)"
  "st_nodes (remove_current_failure n st) = st_nodes st"
  "st_nodes (add_current_failure n e st) = st_nodes st"
  "st_nodes (clear_build_marker d nid st) = st_nodes st"
  "st_nodes (purge_node_requests gone st) = st_nodes st"
  "st_nodes (forget_nodes aff st) = st_nodes st"
  "st_nodes (unpause st) = st_nodes st" "st_nodes (clear_approval st) = st_nodes st"
  "st_nodes (reset_state nid g d st) = st_nodes st"
  by (simp_all add: charge_eval_seconds_def charge_terminal_cost_def remove_current_failure_def
      add_current_failure_def clear_build_marker_def purge_node_requests_def unpause_def clear_approval_def
      reset_state_def forget_nodes_def forget_building_def forget_pause_def forget_approved_def
      forget_approval_def forget_champion_def Let_def split: prod.split option.split stamp.split)

lemma forward_to_nodes: "st_nodes t = st_nodes u \<Longrightarrow> forward s t = forward s u"
  by (simp add: forward_def node_at_def)

lemma forward_certificates [simp]:
  "forward s (fst (invalidate_completion_certificates (t, ctx))) = forward s t"
  by (rule forward_to_nodes) (simp add: invalidate_completion_certificates_def)

lemma forward_requeue: "forward st (requeue_partition_bound_results fresh st)"
proof -
  have "forward st (upd_nodes (\<lambda>n. if requeues fresh st n then requeue_node n else n) st)"
    by (rule forward_upd_nodes) (simp add: life_of_def requeue_node_def clear_measurement_def)
  then show ?thesis
    by (simp add: requeue_partition_bound_results_def Let_def forward_to_nodes [where t = "_\<lparr>st_policy_scores := _, st_policy_chosen := _, st_policy_reason := _\<rparr>"]
        forward_def node_at_def)
qed

lemma forward_rotate: "forward st (rotate_search_epoch b fresh st)"
proof -
  have "forward st (upd_nodes (drop_holdout t) s)" if "st_nodes s = st_nodes st" for s t
    using forward_upd_nodes [of "drop_holdout t" s] forward_nodes [of st s] that by (auto intro: forward_trans)
  then show ?thesis
    by (auto simp: rotate_search_epoch_def Let_def intro!: forward_trans [OF _ forward_requeue])
qed

lemma forward_invalidate: "forward s t \<Longrightarrow> forward s (invalidate_disclosed_holdout fresh t)"
  by (auto simp: invalidate_disclosed_holdout_def intro: forward_trans forward_rotate)

lemma forward_place:
  assumes "\<And>old. node_at st nid = Some old \<Longrightarrow> row_forward (life_of old) (life_of n)"
  shows "forward st (fst (place_node d nid n (st, ctx)))"
proof -
  let ?t = "st\<lparr>st_nodes := dict_put nid n (st_nodes st)\<rparr>"
  have put: "forward st ?t"
    using assms by (auto simp: forward_def node_at_def)
  have "forward st (clear_build_marker d nid u) = forward st u" for u
    by (rule forward_to_nodes) simp
  then show ?thesis
    using put by (simp add: place_node_def Let_def forward_invalidate)
qed

lemma forward_created: "forward (fst s) (fst (on_node_created X e s))"
proof -
  obtain st ctx where s: "s = (st, ctx)" by (cases s)
  have clear: "forward st (clear_build_marker d nid st)" for d nid
    by (rule forward_nodes) simp
  have "forward st (fst (place_node (e_data e) nid n (st, ctx)))"
    if "\<not> (case node_at st nid of Some n \<Rightarrow> n_status n \<noteq> Pending | None \<Rightarrow> False)"
      "\<not> (case node_at st nid of Some n \<Rightarrow> n_tombstoned n | None \<Rightarrow> False)"
      "creation_generation (e_data e) (node_at st nid) = Some g" "created_node X e st nid g = Some n" for nid g n
  proof (rule forward_place)
    fix old
    assume "node_at st nid = Some old"
    then show "row_forward (life_of old) (life_of n)"
      using that created_node_build [OF that(4)]
      by (auto simp: life_of_def creation_generation_def build_node_def Let_def split: stamp.splits if_splits)
  qed
  then show ?thesis
    using s clear by (auto simp: on_node_created_def Let_def split: option.split)
qed

lemma forward_evaluated: "forward (fst s) (fst (on_node_evaluated X e s))"
proof -
  obtain st ctx where s: "s = (st, ctx)" by (cases s)
  have charged: "forward u (fst (charge_terminal_cost n d t)) = forward u (fst t)" for u n d t
    by (rule forward_to_nodes) simp
  have "forward st (upd_node nid (evaluated_node X e st) (clear_build_marker d i st))"
    if "node_at st nid = Some n" "n_status n = Pending" for nid n d i
  proof -
    have "forward st (clear_build_marker d i st)" by (rule forward_nodes) simp
    moreover have "row_forward (life_of n) (life_of (evaluated_node X e st n))"
      using that(2) by (simp add: life_of_def evaluated_node_def Let_def)
    ultimately show ?thesis
      using that forward_upd_node [of "clear_build_marker d i st" nid "evaluated_node X e st"]
      by (auto intro: forward_trans)
  qed
  then show ?thesis
    using s by (auto simp: on_node_evaluated_def Let_def charged split: option.split)
qed

lemma forward_charge [simp]: "forward u (fst (charge_terminal_cost n d t)) = forward u (fst t)"
  by (rule forward_to_nodes) simp

lemma forward_clear [simp]: "forward u (clear_build_marker d i st) = forward u st"
  by (rule forward_to_nodes) simp

lemma forward_count [simp]:
  "forward u (add_current_failure n e st) = forward u st" "forward u (remove_current_failure n st) = forward u st"
  by (rule forward_to_nodes, simp)+

lemma forward_failed: "forward (fst s) (fst (on_node_failed e s))"
proof -
  obtain st ctx where s: "s = (st, ctx)" by (cases s)
  have "forward st (upd_node nid (failed_node e) (clear_build_marker d i st))"
    if "node_at st nid = Some n" "n_status n = Pending" for nid n d i
    by (rule forward_trans [OF _ forward_upd_node])
       (use that in \<open>auto simp: life_of_def failed_node_def Let_def\<close>)
  then show ?thesis
    using s by (auto simp: on_node_failed_def Let_def split_beta split: option.split)
qed

lemma forward_finish: "invalidate_completion_certificates (st, ctx) = (st', ctx') \<Longrightarrow> forward s st' = forward s st"
  using forward_certificates [of s st ctx] by simp

lemma forward_tombstones: "forward (fst acc) (fst (foldl tombstone_one acc raws))"
proof (induction raws arbitrary: acc)
  case (Cons r raws)
  have "forward (fst acc) (fst (tombstone_one acc r))"
  proof -
    have "forward st (upd_node nid (\<lambda>n. n\<lparr>n_tombstoned := True, n_rerun_from := None, n_rerun_stage := PNone\<rparr>)
        (remove_current_failure n st))" for st nid n
      by (rule forward_trans [OF _ forward_upd_node]) (simp_all add: life_of_def)
    then show ?thesis
      by (simp add: tombstone_one_def split: prod.split option.split)
  qed
  then show ?case using Cons [of "tombstone_one acc r"] by (auto intro: forward_trans)
qed simp

lemma forward_tombstoned: "forward (fst s) (fst (on_node_tombstoned e s))"
proof -
  obtain st ctx where s: "s = (st, ctx)" by (cases s)
  let ?raws = "case pget (e_data e) ''node_ids'' of PList xs \<Rightarrow> xs | _ \<Rightarrow> []"
  obtain st1 aff where f: "foldl tombstone_one (st, []) ?raws = (st1, aff)" by fastforce
  have "forward st st1" using forward_tombstones [of "(st, [])" ?raws] f by simp
  moreover have "forward st (forget_nodes aff st1) = forward st st1" by (rule forward_to_nodes) simp
  ultimately show ?thesis
    using s f by (auto simp: on_node_tombstoned_def Let_def forward_finish forward_invalidate split: prod.split)
qed

lemma forward_abort: "forward (fst s) (fst (on_node_abort e s))"
proof -
  have "forward st (abort_state d nid st)" for d nid st
  proof -
    let ?t = "upd_node nid (\<lambda>n. n\<lparr>n_rerun_from := None, n_rerun_stage := PNone\<rparr>) st"
    have "st_nodes (abort_state d nid st) = st_nodes ?t"
      by (simp add: abort_state_def Let_def upd_node_def split: option.split)
    moreover have "forward st ?t" by (rule forward_upd_node) (simp add: life_of_def)
    ultimately show ?thesis using forward_to_nodes by blast
  qed
  then show ?thesis
    by (auto simp: on_node_abort_def Let_def forward_finish forward_invalidate split: prod.splits option.splits)
qed

lemma forward_reset: "forward (fst s) (fst (on_node_reset e s))"
proof -
  obtain st ctx where s: "s = (st, ctx)" by (cases s)
  have reset: "forward st (reset_state nid g d (upd_node nid (reset_node stage mv) (remove_current_failure n st)))"
    for nid g d stage mv n
  proof -
    have "forward st (upd_node nid (reset_node stage mv) (remove_current_failure n st))"
      by (rule forward_trans [OF _ forward_upd_node])
         (simp_all add: life_of_def reset_node_def clear_measurement_def Let_def)
    moreover have "forward st (reset_state nid g d u) = forward st u" for u
      by (rule forward_to_nodes) simp
    ultimately show ?thesis by blast
  qed
  have "forward st (u\<lparr>st_finished := False, st_stop_reason := PNone, st_stop_detail := None,
      st_stop_requested := PNone\<rparr>) = forward st u" for u
    by (rule forward_to_nodes) simp
  then show ?thesis
    using s reset by (auto simp: on_node_reset_def Let_def forward_finish split: prod.split option.split
        intro: forward_trans [OF _ forward_rotate])
qed

lemma forward_resume: "forward (fst s) (fst (on_resume_or_run_reopened e s))"
proof -
  have out: "forward st (u\<lparr>st_finished := False, st_stop_reason := PNone, st_stop_detail := None,
      st_stop_requested := PNone\<rparr>) = forward st u" "forward st (unpause u) = forward st u" for st u
    by (rule forward_to_nodes, simp)+
  show ?thesis
    by (cases s) (auto simp: on_resume_or_run_reopened_def Let_def split_beta out forward_rotate)
qed

lemmas forward_writes = node_view_noise_seed [THEN sym, THEN forward_view]
  node_view_confirm_eval [THEN sym, THEN forward_view] node_view_holdout [THEN sym, THEN forward_view]
  node_view_ablate [THEN sym, THEN forward_view] node_view_upstream [THEN sym, THEN forward_view]
  node_view_queues [THEN sym, THEN forward_view] node_view_card_build_done [THEN sym, THEN forward_view]

lemmas forward_lifecycle = forward_created forward_evaluated forward_failed forward_tombstoned
  forward_abort forward_reset forward_resume

lemma handlers_forward: "list_all (\<lambda>p. \<forall>e s. forward (fst s) (fst (snd p e s))) (handlers X)"
  by (simp add: table_defs forward_views forward_writes forward_lifecycle del: split_paired_All)

section \<open>Every log and its extensions\<close>

lemma step_by_handlers:
  assumes "list_all (\<lambda>p. \<forall>e s. R (fst s) (fst (snd p e s))) (handlers X)" and "\<And>st. R st st"
  shows "R (fst s) (fst (fold_step X i e s))"
proof (cases "map_of (handlers X) (e_type e)")
  case None
  then show ?thesis using assms(2) by (simp add: fold_step_def handle_def)
next
  case (Some h)
  then have "(e_type e, h) \<in> set (handlers X)" by (rule map_of_SomeD)
  then have "R (fst (fst s, (snd s)\<lparr>c_event_index := i\<rparr>)) (fst (h e (fst s, (snd s)\<lparr>c_event_index := i\<rparr>)))"
    using assms(1) unfolding list_all_iff by fastforce
  then show ?thesis using Some by (simp add: fold_step_def handle_def)
qed

interpretation lifecycles: event_order "fold_step X" "\<lambda>s t. forward (fst s) (fst t)" for X
  by unfold_locales (auto intro: forward_trans step_by_handlers [OF handlers_forward])

lemma handlers_mark_step: "list_all (\<lambda>p. \<forall>e s. mark_le (mark_view (fst s)) (mark_view (fst (snd p e s)))) (handlers X)"
proof -
  have "mark_le (mark_view (fst s)) (mark_view (fst (snd p e s)))" if "p \<in> set (handlers X)" for p e s
    using handlers_mark [of "mark_view (fst s)" X] that unfolding list_all_iff by (meson mark_le_refl)
  then show ?thesis unfolding list_all_iff by blast
qed

interpretation marks: event_order "fold_step X" "\<lambda>s t. mark_le (mark_view (fst s)) (mark_view (fst t))" for X
  by unfold_locales (auto intro: mark_le_trans step_by_handlers [OF handlers_mark_step])

end
