(* ===== verification/Examples.thy ===== *)
theory Examples
  imports FoldOrder
begin

text \<open>
  A small concrete log the witnesses of the fold evaluate: two drafts, both evaluated, with
  externals that accept every payload.
\<close>

definition demo_externals :: externals where
  "demo_externals = \<lparr>x_idea = (\<lambda>d. Some (default_idea ''draft'')), x_node = (\<lambda>d. True), x_trial = Some,
     x_sha256 = (\<lambda>v. []), x_md5 = (\<lambda>s. s)\<rparr>"

definition demo_event :: "int \<Rightarrow> string \<Rightarrow> payload \<Rightarrow> event" where
  "demo_event q t d = \<lparr>e_seq = q, e_ts = 0, e_type = t, e_data = d\<rparr>"

definition demo_created :: "int \<Rightarrow> int \<Rightarrow> event" where
  "demo_created q nid = demo_event q ''node_created'' [(''node_id'', PInt nid), (''parent_ids'', PList []),
     (''operator'', PStr ''draft''), (''idea'', PDict [(''operator'', PStr ''draft'')]),
     (''code'', PStr ''x = 1'')]"

definition demo_evaluated :: "int \<Rightarrow> int \<Rightarrow> real \<Rightarrow> event" where
  "demo_evaluated q nid m = demo_event q ''node_evaluated'' [(''node_id'', PInt nid),
     (''metric'', PFloat (Fin m)), (''eval_seconds'', PInt 2)]"

definition demo_log :: "event list" where
  "demo_log = [demo_created 0 0, demo_created 1 1, demo_evaluated 2 0 (1 / 2), demo_evaluated 3 1 (1 / 4)]"

lemma demo_champion: "st_best_node_id (replay_fold demo_externals demo_log) = Some 1"
  by code_simp

end
