(* ===== verification/FoldProps.thy ===== *)
theory FoldProps
  imports Examples
begin

text \<open>
  The properties of the fold (\<open>looplab/events/replay.py\<close>): what holds of the state every log folds
  to, what an extension of a log can change, and how the incremental readers agree with the batch
  fold.
\<close>

section \<open>The champion\<close>

lemma raw_marks: "st_best_node_id (fst (raw_fold X es)) = None"
proof -
  have "mark_le (mark_view init_state) (mark_view (fst (raw_fold X es)))"
    unfolding raw_fold_def
    using marks.prefix_rel [where X = X and i = 0 and s = "(init_state, init_ctx)" and xs = "[]" and ys = es] by simp
  then show ?thesis by (simp add: mark_view_def init_state_def)
qed

lemma raw_node_inv: "node_inv (fst (raw_fold X es))"
  unfolding raw_fold_def by (rule nodes_fold.fold_inv) (simp add: init_inv)

lemma map_of_cond: "map_of (map (\<lambda>(k, n). (k, if k \<in> S then f n else n)) ns) b =
    map_option (\<lambda>n. if b \<in> S then f n else n) (map_of ns b)"
  by (induction ns) auto

lemma trust_gate_node:
  assumes "dict_get (st_nodes (fst (apply_trust_gate st))) b = Some m"
  shows "\<exists>n. node_at st b = Some n \<and> (m = n \<or> m = n\<lparr>n_feasible := False\<rparr>)"
proof (cases "st_trust_gate st = ''block''")
  case True
  let ?S = "flagged_node_ids st \<inter> hard_flagged_ids st"
  let ?f = "\<lambda>n. if b \<in> ?S then n\<lparr>n_feasible := False\<rparr> else n"
  have "st_nodes (fst (apply_trust_gate st)) =
      map (\<lambda>(k, n). (k, if k \<in> ?S then n\<lparr>n_feasible := False\<rparr> else n)) (st_nodes st)"
    using True by (simp add: apply_trust_gate_def Let_def)
  then have "map_option ?f (node_at st b) = Some m"
    using assms map_of_cond [of ?S "\<lambda>n. n\<lparr>n_feasible := False\<rparr>" "st_nodes st" b]
    unfolding node_at_def by metis
  then obtain n where "node_at st b = Some n" "m = ?f n"
    unfolding map_option_eq_Some by blast
  then show ?thesis by (metis (full_types))
next
  case False
  then show ?thesis using assms by (simp add: apply_trust_gate_def Let_def node_at_def)
qed

lemma trust_gate_keeps [simp]:
  "st_best_node_id (fst (apply_trust_gate st)) = st_best_node_id st"
  "st_aborted_nodes (fst (apply_trust_gate st)) = st_aborted_nodes st"
  "snd (apply_trust_gate st) = flagged_node_ids st"
  by (simp_all add: apply_trust_gate_def Let_def)

lemma trust_gate_wf: "wf_nodes (st_nodes st) \<Longrightarrow> wf_nodes (st_nodes (fst (apply_trust_gate st)))"
  by (auto simp: apply_trust_gate_def wf_nodes_def Let_def dict_keys_def comp_def case_prod_beta)

text \<open>C1. The champion of any log is a node of it that was evaluated, is feasible and has a usable
  metric, was neither tombstoned nor aborted, and carries no trust flag.\<close>

theorem champion_of_fold:
  assumes "st_best_node_id (replay_fold X es) = Some b"
  shows "\<exists>n. node_at (fst (raw_fold X es)) b = Some n \<and> n_status n = Evaluated \<and> \<not> n_tombstoned n
     \<and> n_feasible n \<and> robust_metric n \<noteq> None \<and> b \<notin> flagged_node_ids (fst (raw_fold X es))
     \<and> b \<notin> set (st_aborted_nodes (fst (raw_fold X es)))"
proof -
  let ?s = "raw_fold X es" and ?g = "fst (apply_trust_gate (fst (raw_fold X es)))"
  have wf: "wf_nodes (st_nodes ?g)" by (rule trust_gate_wf [OF wf_of_inv [OF raw_node_inv]])
  have best: "st_best_node_id (select_best X (flagged_node_ids (fst ?s)) (c_best_confirmed (snd ?s))
      (c_best_confirmed_significant (snd ?s)) ?g) = Some b"
    using assms by (simp add: replay_fold_def finalize_fold_def split_beta)
  have fresh: "st_best_node_id ?g = None" by (simp add: raw_marks)
  obtain m where m: "dict_get (st_nodes ?g) b = Some m" "n_status m = Evaluated" "\<not> n_tombstoned m"
    "n_feasible m" "robust_metric m \<noteq> None" "b \<notin> flagged_node_ids (fst ?s)" "b \<notin> set (st_aborted_nodes ?g)"
    using champion_is_eligible [OF wf fresh best] by blast
  then show ?thesis using trust_gate_node [OF m(1)] by auto
qed

theorem champion_of_fold_witness:
  "\<exists>n. node_at (fst (raw_fold demo_externals demo_log)) 1 = Some n \<and> n_status n = Evaluated \<and> \<not> n_tombstoned n
     \<and> n_feasible n \<and> robust_metric n \<noteq> None \<and> 1 \<notin> flagged_node_ids (fst (raw_fold demo_externals demo_log))
     \<and> 1 \<notin> set (st_aborted_nodes (fst (raw_fold demo_externals demo_log)))"
  by (rule champion_of_fold [OF demo_champion])

section \<open>Invariants of every log\<close>

text \<open>C4. In the state any log folds to, the node map is keyed by the nodes' own distinct ids, a node
  is pending exactly when it has no terminal event, generations are not negative, the failure counter
  is the number of nodes that currently count as failed, and the spike level is a third of it.\<close>

theorem lifecycle_of_fold:
  "let st = fst (raw_fold X es) in
     distinct (dict_keys (st_nodes st)) \<and> distinct (st_aborted_nodes st)
     \<and> list_all (\<lambda>(k, n). n_id n = k \<and> (n_status n = Pending \<longleftrightarrow> n_terminal_event_seq n = None)
                    \<and> 0 \<le> n_attempt n) (st_nodes st)
     \<and> st_current_failure_count st = int (length (filter (counts_as_current_failure st) (nodes_of st)))
     \<and> st_failure_spike_level st = st_current_failure_count st div 3"
proof -
  let ?st = "fst (raw_fold X es)"
  have "failing (st_aborted_nodes ?st) (life (st_nodes ?st)) =
      length (filter (counts_as_current_failure ?st) (nodes_of ?st))"
    by (simp add: failing_def life_def nodes_of_def dict_values_def filter_map comp_def case_prod_beta row_fails_iff)
  then show ?thesis
    using raw_node_inv [of X es]
    by (auto simp: node_inv_def life_inv_def node_view_def Let_def list_all_iff dest!: in_life)
qed

text \<open>The total of evaluation seconds of any log is the sum of the seconds by kind, none of them
  negative and each kind listed once.\<close>

theorem seconds_of_fold:
  "let st = fst (raw_fold X es) in
     st_total_eval_seconds st = sum_list (map snd (st_eval_seconds_by_kind st))
     \<and> list_all (\<lambda>(k, v). 0 \<le> v) (st_eval_seconds_by_kind st)
     \<and> distinct (map fst (st_eval_seconds_by_kind st))"
  using ledger_fold.fold_inv [where X = X and i = 0 and s = "(init_state, init_ctx)" and es = es] init_inv(2)
  by (auto simp: raw_fold_def [symmetric] ledger_inv_def Let_def dict_values_def dict_keys_def list_all_iff)

text \<open>In every log the receipts of the four request queues (fork, inject, track, lane operation)
  leave their cursors between zero and the number of requests filed.\<close>

theorem cursors_of_fold:
  "let st = fst (raw_fold X es) in
     st_forks_done st \<in> {0..int (length (st_fork_requests st))}
     \<and> st_injects_done st \<in> {0..int (length (st_inject_requests st))}
     \<and> st_tracks_done st \<in> {0..int (length (st_track_requests st))}
     \<and> st_lane_ops_done st \<in> {0..int (length (st_lane_op_requests st))}"
  using cursor_fold.fold_inv [where X = X and i = 0 and s = "(init_state, init_ctx)" and es = es] init_inv(3)
  by (simp add: raw_fold_def [symmetric] cursor_inv_def in_range_defs Let_def)

text \<open>In every log the speculative build queue has one outcome per closed request: the requests
  below the cursor and, listed once each and strictly above it, those closed out of order; the cursor
  stands at the first open request.\<close>

theorem build_queue_of_fold:
  "let st = fst (raw_fold X es) in
     length (st_card_build_outcomes st) = card (closed_requests st)
     \<and> closed_requests st \<subseteq> {..<length (st_card_build_requests st)}
     \<and> st_card_builds_done st \<notin> closed_requests st \<and> distinct (st_card_builds_done_ahead st)"
proof -
  let ?st = "fst (raw_fold X es)"
  have "cards_inv ?st"
    using cards_fold.fold_inv [where X = X and i = 0 and s = "(init_state, init_ctx)" and es = es] init_inv(4)
    by (simp add: raw_fold_def)
  then have inv: "distinct (st_card_builds_done_ahead ?st)"
    "\<forall>i \<in> set (st_card_builds_done_ahead ?st). st_card_builds_done ?st < i \<and> i < length (st_card_build_requests ?st)"
    "st_card_builds_done ?st \<le> length (st_card_build_requests ?st)"
    "length (st_card_build_outcomes ?st) = st_card_builds_done ?st + length (st_card_builds_done_ahead ?st)"
    by (auto simp: cards_inv_def card_view_def)
  have "card (closed_requests ?st) = st_card_builds_done ?st + length (st_card_builds_done_ahead ?st)"
    unfolding closed_requests_def using inv(1,2)
    by (subst card_Un_disjoint) (auto simp: distinct_card)
  then show ?thesis
    using inv by (auto simp: Let_def closed_requests_def)
qed

end
