(* ===== verification/FoldMore.thy ===== *)
theory FoldMore
  imports FoldProps
begin

section \<open>The build queue refines a map\<close>

text \<open>C7. Closing an open request of the speculative build queue is the map update it stands for: when the
  outcome list reads a map of closed requests in request order, then after the close it reads the map
  with that request added, and the set of closed requests grew by exactly it.\<close>

theorem close_refines_update:
  assumes "cards_inv st" and "closable st i" and "outcomes_of m st"
  shows "outcomes_of (m(i \<mapsto> out)) (close_card_build_request i out st)
     \<and> closed_requests (close_card_build_request i out st) = insert i (closed_requests st)"
  using outcomes_refine [OF assms] close_request(2) [OF assms(1,2)] by simp

definition demo_queue :: run_state where
  "demo_queue = init_state\<lparr>st_card_build_requests := [(''a'', 0), (''b'', 0), (''c'', 0)]\<rparr>"

theorem close_refines_update_witness:
  "outcomes_of [2 \<mapsto> ''built''] (close_card_build_request 2 ''built'' demo_queue)
     \<and> closed_requests (close_card_build_request 2 ''built'' demo_queue) = insert 2 (closed_requests demo_queue)"
proof (rule close_refines_update)
  show "cards_inv demo_queue" by (simp add: demo_queue_def cards_inv_def card_view_def init_state_def)
  show "closable demo_queue 2" by (simp add: demo_queue_def closable_def init_state_def)
  show "outcomes_of Map.empty demo_queue"
    by (simp add: demo_queue_def outcomes_of_def closed_requests_def init_state_def)
qed

section \<open>Incremental and batch\<close>







section \<open>A log and its extensions\<close>

text \<open>C5. Extending a log never removes a node, never lowers its generation, never lifts a tombstone, and
  inside one generation the first terminal stands: neither its status nor its event changes.\<close>

theorem lifecycles_move_forward:
  assumes "node_at (fst (raw_fold X xs)) k = Some n"
  shows "\<exists>m. node_at (fst (raw_fold X (xs @ ys))) k = Some m \<and> n_attempt n \<le> n_attempt m
     \<and> (n_tombstoned n \<longrightarrow> n_tombstoned m)
     \<and> (n_attempt m = n_attempt n \<and> n_status n \<noteq> Pending \<longrightarrow>
          n_status m = n_status n \<and> n_terminal_event_seq m = n_terminal_event_seq n)"
proof -
  have "forward (fst (raw_fold X xs)) (fst (raw_fold X (xs @ ys)))"
    unfolding raw_fold_def by (rule lifecycles.prefix_rel)
  then obtain m where "node_at (fst (raw_fold X (xs @ ys))) k = Some m" "row_forward (life_of n) (life_of m)"
    using assms unfolding forward_def by blast
  then show ?thesis by (auto simp: life_of_def)
qed

definition demo_node :: node where
  "demo_node = the (node_at (fst (raw_fold demo_externals demo_log)) 1)"

lemma demo_node_at: "node_at (fst (raw_fold demo_externals demo_log)) 1 = Some demo_node"
proof -
  have "node_at (fst (raw_fold demo_externals demo_log)) 1 \<noteq> None" by code_simp
  then show ?thesis by (auto simp: demo_node_def)
qed

theorem lifecycles_move_forward_witness:
  "\<exists>m. node_at (fst (raw_fold demo_externals (demo_log @ [demo_evaluated 4 1 0]))) 1 = Some m
     \<and> n_attempt demo_node \<le> n_attempt m \<and> (n_tombstoned demo_node \<longrightarrow> n_tombstoned m)
     \<and> (n_attempt m = n_attempt demo_node \<and> n_status demo_node \<noteq> Pending \<longrightarrow>
          n_status m = n_status demo_node \<and> n_terminal_event_seq m = n_terminal_event_seq demo_node)"
  by (rule lifecycles_move_forward [OF demo_node_at])

text \<open>No event handler writes the champion, and the search epoch never goes back: only the post-passes
  of the fold choose a champion.\<close>

theorem epoch_moves_forward:
  "st_best_node_id (fst (raw_fold X xs)) = None
     \<and> st_search_epoch (fst (raw_fold X xs)) \<le> st_search_epoch (fst (raw_fold X (xs @ ys)))"
proof -
  have "mark_le (mark_view (fst (raw_fold X xs))) (mark_view (fst (raw_fold X (xs @ ys))))"
    unfolding raw_fold_def by (rule marks.prefix_rel)
  then show ?thesis by (simp add: mark_view_def raw_marks)
qed

section \<open>The tables\<close>

text \<open>No event type is claimed by two of the merged handler tables, so the merge drops no handler.\<close>

theorem handler_tables_disjoint:
  "distinct (map fst (handlers X))
     \<and> length (handlers X) = length (own_handlers X) + length journal_handlers + length card_handlers
         + length (selection_handlers X) + length request_handlers"
  by (simp add: table_defs)

section \<open>Order and repetition\<close>

lemma settled_depth_run_id [simp]:
  "st_run_id (on_speculation_depth_settled e st) = st_run_id st"
  by (simp add: on_speculation_depth_settled_def settle_folded_speculation_depth_def Let_def)

lemma start_after_depth: "on_run_started e (on_speculation_depth_settled f st) =
    on_speculation_depth_settled f (on_run_started e st)"
proof (cases "truthy (st_run_id st) \<or> \<not> bounded_int (pget (e_data f) ''depth'') 0 64")
  case True
  then show ?thesis
    by (auto simp: on_run_started_def Let_def) (simp_all add: on_speculation_depth_settled_def Let_def)
next
  case False
  then show ?thesis
    by (simp add: on_run_started_def on_speculation_depth_settled_def settle_folded_speculation_depth_def Let_def)
qed

definition cap_with :: "int \<Rightarrow> int option \<Rightarrow> int" where
  "cap_with v c = (case c of None \<Rightarrow> v | Some k \<Rightarrow> min k v)"

lemma cap_with_swap: "cap_with v (Some (cap_with w c)) = cap_with w (Some (cap_with v c))"
  by (cases c) (auto simp: cap_with_def min_def)

lemma depth_settled_eq: "on_speculation_depth_settled e st =
    (if bounded_int (pget (e_data e) ''depth'') 0 64
     then settle_folded_speculation_depth (st\<lparr>st_speculation_depth_settled :=
       Some (cap_with (int_value (pget (e_data e) ''depth'')) (st_speculation_depth_settled st))\<rparr>)
     else st)"
  by (simp add: on_speculation_depth_settled_def cap_with_def Let_def)

lemma depth_after_depth: "on_speculation_depth_settled f (on_speculation_depth_settled g st) =
    on_speculation_depth_settled g (on_speculation_depth_settled f st)"
  using cap_with_swap [of "int_value (pget (e_data f) ''depth'')" "int_value (pget (e_data g) ''depth'')"
      "st_speculation_depth_settled st"]
  by (simp add: depth_settled_eq settle_folded_speculation_depth_def)

text \<open>The launch row and the depth ratchet rows commute, whatever they carry, and so do two ratchet
  rows: the effective speculation depth does not depend on their order in the log.\<close>

theorem speculation_depth_order_tolerant:
  "on_run_started e (on_speculation_depth_settled f st) = on_speculation_depth_settled f (on_run_started e st)
     \<and> on_speculation_depth_settled f (on_speculation_depth_settled g st)
         = on_speculation_depth_settled g (on_speculation_depth_settled f st)"
  by (simp add: start_after_depth depth_after_depth)

end
