(* ===== verification/Fences.thy ===== *)
theory Fences
  imports FoldProps
begin

text \<open>
  The fences of the fold: a terminal stamped with another lifecycle generation changes no node, its
  cost is charged once, an import applied twice is applied once, and where the start-only reader
  \<open>fold_run_start\<close> and the fold part ways.
\<close>

section \<open>Stale terminals\<close>

lemma stale_attempt: "event_generation d True = Stamped g \<Longrightarrow> g \<noteq> n_attempt n \<Longrightarrow> \<not> attempt_matches n d"
  by (simp add: attempt_matches_def)

lemma charge_terminal_failures [simp]:
  "st_current_failure_count (fst (charge_terminal_cost n d s)) = st_current_failure_count (fst s)"
  "st_aborted_nodes (fst (charge_terminal_cost n d s)) = st_aborted_nodes (fst s)"
  by (simp_all add: charge_terminal_cost_def charge_eval_seconds_def Let_def
      split: prod.split option.split stamp.split)

lemma clear_marker_failures [simp]:
  "st_current_failure_count (clear_build_marker d nid st) = st_current_failure_count st"
  by (simp add: clear_build_marker_def Let_def)

text \<open>An evaluation or a failure stamped with a generation that is not its node's current one changes
  neither any node nor the failure counter.\<close>

theorem stale_terminal_changes_no_node:
  assumes "node_id_of (e_data e) = Some k" and "node_at (fst s) k = Some n"
    and "event_generation (e_data e) True = Stamped g" and "g \<noteq> n_attempt n"
  shows "st_nodes (fst (on_node_evaluated X e s)) = st_nodes (fst s)
     \<and> st_nodes (fst (on_node_failed e s)) = st_nodes (fst s)
     \<and> st_current_failure_count (fst (on_node_evaluated X e s)) = st_current_failure_count (fst s)
     \<and> st_current_failure_count (fst (on_node_failed e s)) = st_current_failure_count (fst s)"
  using assms stale_attempt [OF assms(3,4)]
  by (cases s) (auto simp: on_node_evaluated_def on_node_failed_def Let_def)

definition demo_stale :: event where
  "demo_stale = demo_event 5 ''node_failed'' [(''node_id'', PInt 0), (''generation'', PInt 7), (''reason'', PStr ''x'')]"

definition demo_state :: run_state where
  "demo_state = init_state\<lparr>st_nodes := [(0, default_node 0 ''draft'' (default_idea ''draft''))]\<rparr>"

theorem stale_terminal_changes_no_node_witness:
  "st_nodes (fst (on_node_failed demo_stale (demo_state, init_ctx))) = st_nodes demo_state"
proof -
  have "node_id_of (e_data demo_stale) = Some 0" by code_simp
  moreover have "node_at (fst (demo_state, init_ctx)) 0 = Some (default_node 0 ''draft'' (default_idea ''draft''))"
    by (simp add: demo_state_def node_at_def)
  moreover have "event_generation (e_data demo_stale) True = Stamped 7" by code_simp
  moreover have "7 \<noteq> n_attempt (default_node 0 ''draft'' (default_idea ''draft''))" by code_simp
  ultimately show ?thesis
    using stale_terminal_changes_no_node [of demo_stale 0 "(demo_state, init_ctx)"] by simp
qed

section \<open>Once only\<close>

text \<open>Charging the same terminal of the same node again charges nothing.\<close>

theorem terminal_charged_once:
  "charge_terminal_cost n d (charge_terminal_cost n d s) = charge_terminal_cost n d s"
  by (cases s) (auto simp: charge_terminal_cost_def split: option.split stamp.split)

text \<open>Folding the same import of secondary metrics again changes nothing.\<close>

theorem import_applied_once:
  "on_extra_metrics_imported e (on_extra_metrics_imported e st) = on_extra_metrics_imported e st"
  by (rule import_twice)

text \<open>An import never writes a key the node already carries, never repeats a key, and never takes a
  map past the bound it started within.\<close>

theorem import_adds_beside_live:
  assumes "plan_extra_metrics_import live found bound = (added, kept, dropped)"
  shows "dict_merge live added = live @ added \<and> distinct (map fst added)
     \<and> set (map fst live) \<inter> set (map fst added) = {}
     \<and> length (live @ added) \<le> max bound (length live)"
  using plan_spec [OF assms] dict_merge_fresh [OF plan_spec(1,2) [OF assms]]
  by (auto simp: dict_keys_def)

theorem import_adds_beside_live_witness:
  "dict_merge [(''a'', 1)] [(''b'', 2 :: real)] = [(''a'', 1)] @ [(''b'', 2)]"
proof -
  have "plan_extra_metrics_import [(''a'', 1)] (PDict [(''b'', PInt 2), (''a'', PInt 3)]) 2
      = ([(''b'', 2)], [''a''], [])"
    by code_simp
  then show ?thesis using import_adds_beside_live by blast
qed

section \<open>The start-only reader\<close>

definition demo_digest :: string where
  "demo_digest = replicate 64 (CHR ''a'')"

definition demo_relocated_log :: "event list" where
  "demo_relocated_log =
     [demo_event 0 ''run_started'' [(''run_id'', PStr ''''), (''run_uid'', PStr ''u'')],
      demo_event 1 ''run_relocated'' [(''from_run_id'', PStr ''''), (''to_run_id'', PStr ''x''),
        (''run_uid'', PStr ''u''), (''previous_event_seq'', PInt 0),
        (''previous_event_sha256'', PStr demo_digest)],
      demo_event 2 ''run_started'' [(''run_id'', PStr ''y''), (''direction'', PStr ''max'')]]"

text \<open>The start-only reader is not the fold on every log: a relocation between a start that named no
  run and the start that does gives the run an identity, so the fold ignores the second start while
  the start-only reader takes its direction.\<close>

theorem fold_run_start_differs_after_relocation:
  "st_direction (fold_run_start demo_relocated_log) = Max
     \<and> st_direction (replay_fold demo_externals demo_relocated_log) = Min"
  by code_simp

end
