(* ===== verification/SelectionClaims.thy ===== *)
theory SelectionClaims
  imports Fences
begin

text \<open>
  The properties of the selector and of the helpers the fold reads: the one-standard-error rules,
  the ordering owner, the simpler-of-equals substitution, code blocks, the bound on secondary
  metrics and the finalize scope.
\<close>

section \<open>One standard error\<close>

text \<open>A candidate's own noise buys it nothing in the non-inferiority test: the verdict does not depend
  on the candidate's spread or number of seeds.\<close>

theorem non_inferiority_ignores_own_noise:
  "one_se_non_inferior c i s n dir s' n' = one_se_non_inferior c i t m dir s' n'"
  by (simp add: one_se_non_inferior_eq)

text \<open>The two one-standard-error rules agree: what is non-inferior to an incumbent is not beaten by it,
  and what beats it is non-inferior to it.\<close>

theorem one_se_rules_agree:
  "(one_se_better c i s n dir s' n' \<longrightarrow> one_se_non_inferior c i s n dir s' n')
     \<and> \<not> (one_se_non_inferior c i s n dir s' n' \<and> one_se_better i c s' n' dir s n)"
  using better_imp_non_inferior [of c i s n dir s' n'] non_inferior_not_beaten [of c i s n dir s' n'] by blast

theorem one_se_rules_agree_witness:
  "one_se_non_inferior 1 2 (Some 0) (Some 1) Min (Some 0) (Some 1)
     \<and> \<not> one_se_better 2 1 (Some 0) (Some 1) Min (Some 0) (Some 1)"
proof -
  have "one_se_better 1 2 (Some 0) (Some 1) Min (Some 0) (Some 1)" by code_simp
  then show ?thesis
    using one_se_rules_agree [of 1 2 "Some 0" "Some 1" Min "Some 0" "Some 1"] by blast
qed

section \<open>The ordering owner\<close>

text \<open>Over nodes with distinct ids the best-first ranking starts with the node the chooser picks, for the
  search key and for the selection key, in either direction.\<close>

theorem ranking_starts_with_best:
  assumes "nodes \<noteq> []" and "distinct (map n_id nodes)"
  shows "fit_best fit nodes metric_key = Some (hd (rank fit nodes))
     \<and> fit_best fit nodes selection_key = Some (hd (ranked (f_direction fit) selection_key nodes))"
  using metric_rank.chooser_eq_hd [OF assms] selection_rank.chooser_eq_hd [OF assms]
  by (simp add: fit_best_def rank_def)

theorem ranking_starts_with_best_witness:
  "fit_best (search_fitness Min False False) [default_node 3 [] (default_idea [])] metric_key =
     Some (hd (rank (search_fitness Min False False) [default_node 3 [] (default_idea [])]))"
  using ranking_starts_with_best [of "[default_node 3 [] (default_idea [])]"] by simp

section \<open>Simplest of equals\<close>

text \<open>When the selector replaces the leader by a simpler node, that node is in the pool, is reached from
  the leader by still valid block cuts, has a value within one standard error of the leader's own, is
  not ranked below it by the verifier, and no member of a pool of candidates beats it by more than a
  standard error.\<close>

theorem simpler_substitute_holds_the_tie:
  assumes "simpler_tie X st (Some leader) pool holdout raw = Some c" and "c \<noteq> leader"
  shows "c \<in> set pool \<and> (\<exists>child. cut_chain st leader child \<and> n_id child = n_id c)
     \<and> tie_value holdout raw c \<noteq> None \<and> \<not> verifier_prefers X st leader c raw
     \<and> (\<exists>members. set members \<subseteq> set pool
          \<and> \<not> significantly_beaten st c members (tie_value holdout raw) (holdout \<or> raw))
     \<and> one_se_non_inferior (the_metric (tie_value holdout raw c)) (the_metric (tie_value holdout raw leader))
          (fst (pair_spread (holdout \<or> raw) c leader c)) (snd (pair_spread (holdout \<or> raw) c leader c))
          (st_direction st) (fst (pair_spread (holdout \<or> raw) c leader leader))
          (snd (pair_spread (holdout \<or> raw) c leader leader))"
  using simpler_tie_cases [OF assms(1)] assms(2) by (auto simp: holds_the_tie_def Let_def)

definition demo_code :: string where
  "demo_code = ''a'' @ [CHR 0x0A, CHR 0x0A] @ ''b''"

definition demo_parent :: node where
  "demo_parent = (default_node 0 ''draft'' (default_idea ''draft''))\<lparr>n_status := Evaluated,
     n_metric := Some 1, n_code := PStr demo_code\<rparr>"

definition demo_cut :: node where
  "demo_cut = (default_node 1 ''simplify'' (default_idea ''simplify''))\<lparr>n_status := Evaluated,
     n_metric := Some 1, n_code := PStr (comment_block demo_code (2, 3)),
     n_simplified := Some [(''parent_id'', PInt 0), (''generation'', PInt 0), (''block'', PInt 1)]\<rparr>"

definition demo_pair :: run_state where
  "demo_pair = init_state\<lparr>st_nodes := [(0, demo_parent), (1, demo_cut)]\<rparr>"

lemma demo_substituted: "simpler_tie demo_externals demo_pair (Some demo_parent) [demo_parent, demo_cut] False False
    = Some demo_cut"
  by code_simp

theorem simpler_substitute_holds_the_tie_witness:
  "demo_cut \<in> set [demo_parent, demo_cut] \<and> \<not> verifier_prefers demo_externals demo_pair demo_parent demo_cut False"
proof -
  have "n_id demo_cut \<noteq> n_id demo_parent" by code_simp
  then have "demo_cut \<noteq> demo_parent" by auto
  then show ?thesis using simpler_substitute_holds_the_tie [OF demo_substituted] by blast
qed

section \<open>Code blocks\<close>

text \<open>The blocks of a program are a partition of its non-blank lines: a line lies in some block exactly
  when it is not blank.\<close>

theorem blocks_cover_nonblank_lines:
  "covered (code_blocks code) = {k. k < length (splitlines code) \<and> \<not> blank (splitlines code ! k)}"
  using covered_blocks_from [of 0 "splitlines code"] by (simp add: code_blocks_def)

section \<open>Secondary metrics\<close>

text \<open>The map of secondary metrics a terminal stores has distinct names and never more than 256.\<close>

theorem secondary_metrics_bounded:
  "length (normalize_extra_metrics extra_metrics_max_items [] v) \<le> 256
     \<and> distinct (map fst (normalize_extra_metrics extra_metrics_max_items [] v))"
  using length_normalize_extra_metrics [of extra_metrics_max_items "[]" v]
    distinct_normalized [of extra_metrics_max_items "[]" v]
  by (simp add: extra_metrics_max_items_def dict_keys_def)

section \<open>The finalize scope\<close>

text \<open>A scope is offered for recovery only when a claim in the log names it, it was neither completed
  nor abandoned, and nothing foreign happened since it began.\<close>

theorem recovery_scope_is_open:
  assumes "incomplete_finalize_scope es = Some s"
  shows "s \<noteq> [] \<and> list_ex (\<lambda>e. claim_of e = Some s) es
     \<and> \<not> scope_has_step es s ''complete'' \<and> \<not> scope_has_step es s ''abandoned''
     \<and> finalize_scope_quiescent es s"
  using assms candidate_scope_claimed [of es s]
  by (auto simp: incomplete_finalize_scope_def list_ex_iff split: option.splits if_splits)

definition demo_begun :: event where
  "demo_begun = demo_event 5 ''finalize_step'' [(''scope'', PStr ''f''), (''step'', PStr ''begun'')]"

theorem recovery_scope_is_open_witness:
  "finalize_scope_quiescent [demo_begun] ''f'' \<and> \<not> scope_has_step [demo_begun] ''f'' ''complete''"
proof -
  have "incomplete_finalize_scope [demo_begun] = Some ''f''" by code_simp
  then show ?thesis using recovery_scope_is_open by blast
qed

text \<open>A later foreign event ends the quiet of a begun scope for good: rows that do not begin it anew keep
  it quiet exactly when it was quiet and each of them is older than its beginning or its own effect.\<close>

theorem quiet_scope_extends:
  assumes "list_all (\<lambda>e. \<not> is_begun_claim scope e) es'" and "finalize_begun es scope = Some b"
  shows "finalize_scope_quiescent (es @ es') scope =
     (finalize_scope_quiescent es scope \<and> list_all (\<lambda>e. e_seq e \<le> e_seq b \<or> own_effect scope e) es')"
  using quiescent_append [OF assms(1), of es] assms(2) by simp

theorem quiet_scope_extends_witness:
  "finalize_scope_quiescent ([demo_begun] @ [demo_evaluated 6 0 1]) ''f'' = False"
proof -
  have "list_all (\<lambda>e. \<not> is_begun_claim ''f'' e) [demo_evaluated 6 0 1]" by code_simp
  moreover have "finalize_begun [demo_begun] ''f'' = Some demo_begun" by code_simp
  moreover have "\<not> list_all (\<lambda>e. e_seq e \<le> e_seq demo_begun \<or> own_effect ''f'' e) [demo_evaluated 6 0 1]"
    by code_simp
  ultimately show ?thesis using quiet_scope_extends [of "''f''" "[demo_evaluated 6 0 1]" "[demo_begun]" demo_begun] by simp
qed

end
