(* ===== verification/LlmBudget.thy ===== *)
theory LlmBudget
  imports PyValue
begin

text \<open>
  \<open>core/llm_budget.py\<close>: the run's spend as a reserve-commit budget. \<open>run_budget\<close> is the
  object's state under its lock, and every method that takes the lock is one definition.
  Amounts in dollars are reals (the rounding of float sums is not modelled), tokens and counts
  are integers. The last section is the exact per-thread total.
\<close>

section \<open>Caps\<close>

datatype llm_error = BudgetExceeded string | OverflowError | BadNumber | BadLimit string | UnknownLane string

text \<open>\<open>_cap\<close> catches \<open>TypeError\<close> and \<open>ValueError\<close>, not the \<open>OverflowError\<close> of an integer too
  large for a float.\<close>

definition cap :: "pyval \<Rightarrow> llm_error + real option" where
  "cap value = (case value of
       PInt i \<Rightarrow> if \<not> float_fits i then Inl OverflowError
                 else if i \<le> 0 then Inr None else Inr (Some (real_of_int i))
     | _ \<Rightarrow> (case py_float value of
           Some (Fin r) \<Rightarrow> if r \<le> 0 then Inr None else Inr (Some r)
         | _ \<Rightarrow> Inr None))"

definition int_cap :: "pyval \<Rightarrow> llm_error + int option" where
  "int_cap value = (case cap value of Inl e \<Rightarrow> Inl e | Inr c \<Rightarrow> Inr (map_option trunc_real c))"

definition default_cost_knob :: string where
  "default_cost_knob = ''llm_budget_usd''"

text \<open>The tightest declared cap and the knob that declared it; the first of equals, so a tie
  names \<open>llm_budget_usd\<close>.\<close>

definition run_usd_ceiling :: "pyval \<Rightarrow> pyval \<Rightarrow> llm_error + (real option \<times> string)" where
  "run_usd_ceiling cost_limit budget_usd = (case cap budget_usd of Inl e \<Rightarrow> Inl e
     | Inr usd \<Rightarrow> (case cap cost_limit of Inl e \<Rightarrow> Inl e
     | Inr lc \<Rightarrow>
         (let caps = (case usd of None \<Rightarrow> [] | Some u \<Rightarrow> [(u, default_cost_knob)]) @
                     (case lc of None \<Rightarrow> [] | Some l \<Rightarrow> [(l, ''llm_cost_limit'')])
          in case py_min_by fst caps of None \<Rightarrow> Inr (None, '''')
             | Some (c, knob) \<Rightarrow> Inr (Some c, knob))))"

section \<open>The budget\<close>

record reservation =
  res_cost :: real
  res_tokens :: int

record run_budget =
  cost_limit :: "real option"
  cost_knob :: string
  token_limit :: "int option"
  committed_cost :: real
  committed_tokens :: int
  committed_calls :: int
  priced_calls :: int
  reserved_cost :: real
  reserved_tokens :: int
  reservations :: int
  refusals :: int
  seeded :: bool

definition new_budget :: "pyval \<Rightarrow> pyval \<Rightarrow> pyval \<Rightarrow> llm_error + run_budget" where
  "new_budget c_limit t_limit budget_usd = (case run_usd_ceiling c_limit budget_usd of Inl e \<Rightarrow> Inl e
     | Inr (c, knob) \<Rightarrow> (case int_cap t_limit of Inl e \<Rightarrow> Inl e
     | Inr t \<Rightarrow> Inr \<lparr>cost_limit = c, cost_knob = knob, token_limit = t, committed_cost = 0,
         committed_tokens = 0, committed_calls = 0, priced_calls = 0, reserved_cost = 0,
         reserved_tokens = 0, reservations = 0, refusals = 0, seeded = False\<rparr>))"

definition budget_enabled :: "run_budget \<Rightarrow> bool" where
  "budget_enabled b \<longleftrightarrow> cost_limit b \<noteq> None \<or> token_limit b \<noteq> None"

definition estimate :: "run_budget \<Rightarrow> real \<times> int" where
  "estimate b =
     (if 0 < priced_calls b then committed_cost b / real_of_int (priced_calls b) else 0,
      if 0 < committed_calls b then committed_tokens b div committed_calls b else 0)"

definition cost_refused :: "run_budget \<Rightarrow> bool" where
  "cost_refused b = (case cost_limit b of None \<Rightarrow> False
     | Some l \<Rightarrow> l \<le> committed_cost b \<or> l < committed_cost b + reserved_cost b + fst (estimate b))"

definition tokens_refused :: "run_budget \<Rightarrow> bool" where
  "tokens_refused b = (case token_limit b of None \<Rightarrow> False
     | Some l \<Rightarrow> l \<le> committed_tokens b \<or> l < committed_tokens b + reserved_tokens b + snd (estimate b))"

text \<open>\<open>reserve\<close>: nothing is held without a cap; a refusal counts and raises, the cost cap first.\<close>

definition hold :: "run_budget \<Rightarrow> reservation \<Rightarrow> run_budget" where
  "hold b r = b\<lparr>reserved_cost := reserved_cost b + res_cost r,
     reserved_tokens := reserved_tokens b + res_tokens r, reservations := reservations b + 1\<rparr>"

definition reserve :: "run_budget \<Rightarrow> run_budget \<times> (llm_error + reservation option)" where
  "reserve b =
     (if \<not> budget_enabled b then (b, Inr None)
      else if cost_refused b then (b\<lparr>refusals := refusals b + 1\<rparr>, Inl (BudgetExceeded (cost_knob b)))
      else if tokens_refused b
        then (b\<lparr>refusals := refusals b + 1\<rparr>, Inl (BudgetExceeded ''llm_token_limit''))
      else (let r = \<lparr>res_cost = fst (estimate b), res_tokens = snd (estimate b)\<rparr>
            in (hold b r, Inr (Some r))))"

definition release :: "reservation option \<Rightarrow> run_budget \<Rightarrow> run_budget" where
  "release r b = (case r of None \<Rightarrow> b
     | Some r \<Rightarrow> b\<lparr>reserved_cost := max 0 (reserved_cost b - res_cost r),
         reserved_tokens := max 0 (reserved_tokens b - res_tokens r),
         reservations := max 0 (reservations b - 1)\<rparr>)"

definition adopt_cost_ceiling :: "pyval \<Rightarrow> string \<Rightarrow> run_budget \<Rightarrow> run_budget \<times> (llm_error + bool)" where
  "adopt_cost_ceiling limit knob b = (case cap limit of
       Inl e \<Rightarrow> (b, Inl e)
     | Inr None \<Rightarrow> (b, Inr False)
     | Inr (Some c) \<Rightarrow>
         (if (case cost_limit b of None \<Rightarrow> False | Some l \<Rightarrow> l \<le> c) then (b, Inr False)
          else (b\<lparr>cost_limit := Some c,
                  cost_knob := (if knob = [] then default_cost_knob else knob)\<rparr>, Inr True)))"

text \<open>\<open>commit\<close> adds one ledger row. All four readings come before the lock, so a row that raises
  changes nothing.\<close>

definition or_zero :: "pyval \<Rightarrow> pyval" where
  "or_zero v = (if truthy v then v else PInt 0)"

definition landed_cost :: "pyfloat \<Rightarrow> real" where
  "landed_cost c = (case c of Fin r \<Rightarrow> if r < 0 then 0 else r | _ \<Rightarrow> 0)"

definition commit :: "payload \<Rightarrow> run_budget \<Rightarrow> llm_error + run_budget" where
  "commit delta b =
     (case (py_float (or_zero (pget delta ''cost'')), py_int (or_zero (pget delta ''total_tokens'')),
            py_int (or_zero (pget delta ''calls'')), py_int (or_zero (pget delta ''priced_calls''))) of
        (Some c, Some t, Some n, Some p) \<Rightarrow>
          Inr (b\<lparr>committed_cost := committed_cost b + landed_cost c,
                 committed_tokens := committed_tokens b + max 0 t,
                 committed_calls := committed_calls b + max 0 n,
                 priced_calls := priced_calls b + max 0 p\<rparr>)
      | _ \<Rightarrow> Inl BadNumber)"

text \<open>The loop of \<open>seed\<close> keeps what it committed before a row that raises.\<close>

fun seed_rows :: "payload list \<Rightarrow> run_budget \<Rightarrow> run_budget \<times> (llm_error + bool)" where
  "seed_rows [] b = (b, Inr True)"
| "seed_rows (d # ds) b = (case commit d b of Inl e \<Rightarrow> (b, Inl e) | Inr b' \<Rightarrow> seed_rows ds b')"

definition seed :: "payload list \<Rightarrow> run_budget \<Rightarrow> run_budget \<times> (llm_error + bool)" where
  "seed deltas b = (if seeded b then (b, Inr False) else seed_rows deltas (b\<lparr>seeded := True\<rparr>))"

section \<open>What the operations keep\<close>

definition budget_ok :: "run_budget \<Rightarrow> bool" where
  "budget_ok b \<longleftrightarrow> 0 \<le> committed_cost b \<and> 0 \<le> committed_tokens b \<and> 0 \<le> committed_calls b \<and>
     0 \<le> priced_calls b \<and> 0 \<le> reserved_cost b \<and> 0 \<le> reserved_tokens b \<and> 0 \<le> reservations b"

lemmas budget_defs = cost_refused_def tokens_refused_def hold_def reserve_def release_def
  adopt_cost_ceiling_def commit_def seed_def

lemma estimate_nonneg:
  assumes "budget_ok b"
  shows "0 \<le> fst (estimate b)" and "0 \<le> snd (estimate b)"
  using assms by (auto simp: estimate_def budget_ok_def pos_imp_zdiv_nonneg_iff)

lemma cap_pos: "cap v = Inr (Some c) \<Longrightarrow> 0 < c"
  by (auto simp: cap_def split: pyval.splits option.splits pyfloat.splits if_splits)

text \<open>A token limit below one becomes a cap of zero, which refuses every call.\<close>

lemma fractional_token_cap:
  "int_cap (PFloat (Fin (1/2))) = Inr (Some 0) \<and>
   (token_limit b = Some 0 \<and> budget_ok b \<longrightarrow> tokens_refused b)"
  by (auto simp: int_cap_def cap_def trunc_real_def tokens_refused_def budget_ok_def)

lemma reserve_cases:
  obtains (off) "\<not> budget_enabled b" "reserve b = (b, Inr None)"
  | (refused) e where "budget_enabled b" "cost_refused b \<or> tokens_refused b"
      "reserve b = (b\<lparr>refusals := refusals b + 1\<rparr>, Inl e)"
  | (held) r where "budget_enabled b" "\<not> cost_refused b" "\<not> tokens_refused b"
      "r = \<lparr>res_cost = fst (estimate b), res_tokens = snd (estimate b)\<rparr>"
      "reserve b = (hold b r, Inr (Some r))"
proof (cases "budget_enabled b")
  case on: True
  show ?thesis
  proof (cases "cost_refused b \<or> tokens_refused b")
    case True
    then obtain e where "reserve b = (b\<lparr>refusals := refusals b + 1\<rparr>, Inl e)"
      using on by (cases "cost_refused b") (simp_all add: reserve_def)
    with on True show ?thesis by (rule refused)
  next
    case False
    then show ?thesis using on by (intro held) (simp_all add: reserve_def Let_def)
  qed
qed (simp add: off reserve_def)

lemma reserve_ok: "budget_ok b \<Longrightarrow> budget_ok (fst (reserve b))"
  using estimate_nonneg [of b]
  by (cases b rule: reserve_cases) (auto simp: budget_ok_def hold_def)

lemma release_ok: "budget_ok b \<Longrightarrow> budget_ok (release r b)"
  by (auto simp: budget_ok_def release_def split: option.splits)

lemma landed_cost_nonneg [simp]: "0 \<le> landed_cost c"
  by (auto simp: landed_cost_def split: pyfloat.splits)

lemma commit_ok: "commit d b = Inr b' \<Longrightarrow> budget_ok b \<Longrightarrow> budget_ok b'"
  by (auto simp: budget_ok_def commit_def split: option.splits)

lemma commit_frame:
  "commit d b = Inr b' \<Longrightarrow> cost_limit b' = cost_limit b \<and> token_limit b' = token_limit b \<and>
    reserved_cost b' = reserved_cost b \<and> reserved_tokens b' = reserved_tokens b \<and>
    reservations b' = reservations b \<and> refusals b' = refusals b \<and> seeded b' = seeded b"
  by (auto simp: commit_def split: option.splits)

lemma commit_grows:
  "commit d b = Inr b' \<Longrightarrow> committed_cost b \<le> committed_cost b' \<and> committed_tokens b \<le> committed_tokens b'"
  by (auto simp: commit_def split: option.splits)

lemma adopt_frame:
  "adopt_cost_ceiling l k b = (b', r) \<Longrightarrow> budget_ok b' = budget_ok b \<and>
    reserved_cost b' = reserved_cost b \<and> reserved_tokens b' = reserved_tokens b \<and>
    reservations b' = reservations b"
  by (auto simp: adopt_cost_ceiling_def budget_ok_def split: sum.splits option.splits if_splits)

lemma seed_rows_frame:
  "seed_rows ds b = (b', r) \<Longrightarrow> (budget_ok b \<longrightarrow> budget_ok b') \<and> seeded b' = seeded b \<and>
    reserved_cost b' = reserved_cost b \<and> reserved_tokens b' = reserved_tokens b \<and>
    reservations b' = reservations b \<and> cost_limit b' = cost_limit b \<and> token_limit b' = token_limit b"
proof (induction ds arbitrary: b)
  case (Cons d ds)
  show ?case
  proof (cases "commit d b")
    case (Inr c)
    then show ?thesis
      using Cons.prems Cons.IH [of c] commit_ok [OF Inr] commit_frame [OF Inr] by simp
  qed (use Cons.prems in simp)
qed simp

lemma seed_frame:
  assumes "seed ds b = (b', r)"
  shows "(budget_ok b \<longrightarrow> budget_ok b') \<and> seeded b' \<and> reserved_cost b' = reserved_cost b \<and>
    reserved_tokens b' = reserved_tokens b \<and> reservations b' = reservations b"
proof (cases "seeded b")
  case False
  then have "seed_rows ds (b\<lparr>seeded := True\<rparr>) = (b', r)" using assms by (simp add: seed_def)
  from seed_rows_frame [OF this] show ?thesis by (simp add: budget_ok_def)
qed (use assms in \<open>simp add: seed_def\<close>)

section \<open>One thread's own spend\<close>

text \<open>\<open>note_committed_tokens\<close> and \<open>note_committed_cost\<close>: the exact totals of a thread; a
  \<open>Fraction\<close> sum is an exact real sum.\<close>

record thread_spend =
  thread_tokens :: int
  thread_usd :: real
  thread_unreported :: int

definition note_committed_tokens :: "pyval \<Rightarrow> thread_spend \<Rightarrow> thread_spend" where
  "note_committed_tokens tokens s = (case py_int tokens of None \<Rightarrow> s
     | Some n \<Rightarrow> if 0 < n then s\<lparr>thread_tokens := thread_tokens s + n\<rparr>
                 else s\<lparr>thread_unreported := thread_unreported s + 1\<rparr>)"

definition note_committed_cost :: "pyval \<Rightarrow> thread_spend \<Rightarrow> thread_spend" where
  "note_committed_cost cost s = (case py_float cost of
       Some (Fin c) \<Rightarrow> if 0 < c then s\<lparr>thread_usd := thread_usd s + c\<rparr> else s
     | _ \<Rightarrow> s)"

end
