(* ===== verification/LlmBroker.thy ===== *)
theory LlmBroker
  imports LlmBudget
begin

text \<open>
  \<open>core/llm_broker.py\<close>: the admission controller of outbound requests. \<open>broker\<close> is the object's
  state under its condition variable; each block of code between acquiring the lock and the next
  release or wait is one definition. \<open>llm_sys\<close> adds the run's budget and the threads inside
  \<open>borrow\<close>, and \<open>llm_step\<close> is their interleaving.
\<close>

section \<open>Lanes and limits\<close>

datatype lane = Build | DeepResearch | NoveltyDedup | Enrichment | EngineLane

definition llm_lanes :: "lane list" where
  "llm_lanes = [Build, DeepResearch, NoveltyDedup, Enrichment, EngineLane]"

fun lane_name :: "lane \<Rightarrow> string" where
  "lane_name Build = ''build''"
| "lane_name DeepResearch = ''deep_research''"
| "lane_name NoveltyDedup = ''novelty_dedup''"
| "lane_name Enrichment = ''enrichment''"
| "lane_name EngineLane = ''engine''"

definition lane_of_name :: "string \<Rightarrow> lane option" where
  "lane_of_name s = List.find (\<lambda>l. lane_name l = s) llm_lanes"

fun lane_index :: "lane \<Rightarrow> nat" where
  "lane_index Build = 0"
| "lane_index DeepResearch = 1"
| "lane_index NoveltyDedup = 2"
| "lane_index Enrichment = 3"
| "lane_index EngineLane = 4"

definition normalize_llm_lane :: "pyval \<Rightarrow> lane" where
  "normalize_llm_lane value =
     (let name = py_lower (py_strip (if truthy value then py_str value else []))
      in case lane_of_name name of Some l \<Rightarrow> l | None \<Rightarrow> EngineLane)"

type_synonym lane_limits = "(lane \<times> int option) list"

definition positive_limit :: "pyval \<Rightarrow> string \<Rightarrow> llm_error + int option" where
  "positive_limit value label = (case value of
       PNone \<Rightarrow> Inr None
     | PInt i \<Rightarrow> if i < 1 then Inl (BadLimit label) else Inr (Some i)
     | _ \<Rightarrow> Inl (BadLimit label))"

fun put_lane_limits :: "payload \<Rightarrow> lane_limits \<Rightarrow> llm_error + lane_limits" where
  "put_lane_limits [] out = Inr out"
| "put_lane_limits ((raw_lane, raw_limit) # rest) out = (case lane_of_name raw_lane of
       None \<Rightarrow> Inl (UnknownLane raw_lane)
     | Some l \<Rightarrow> (case positive_limit raw_limit raw_lane of
           Inl e \<Rightarrow> Inl e
         | Inr v \<Rightarrow> put_lane_limits rest (dict_put l v out)))"

definition normalize_llm_lane_limits :: "pyval \<Rightarrow> llm_error + lane_limits" where
  "normalize_llm_lane_limits value = (case value of
       PNone \<Rightarrow> Inr []
     | PDict d \<Rightarrow> put_lane_limits d []
     | _ \<Rightarrow> Inl (BadLimit ''LLM lane limits''))"

definition background_lane_limits :: lane_limits where
  "background_lane_limits = [(DeepResearch, Some 1), (NoveltyDedup, Some 1), (Enrichment, Some 1)]"

definition default_llm_lane_limits :: "pyval \<Rightarrow> llm_error + lane_limits" where
  "default_llm_lane_limits tot = (case positive_limit tot ''LLM total'' of
       Inl e \<Rightarrow> Inl e
     | Inr None \<Rightarrow> Inr ((Build, None) # background_lane_limits @ [(EngineLane, None)])
     | Inr (Some n) \<Rightarrow> Inr ((Build, Some n) # background_lane_limits @ [(EngineLane, Some 1)]))"

section \<open>The broker\<close>

record ticket =
  seq :: nat
  lane_of :: lane

record broker =
  total_limit :: "int option"
  lane_limits :: lane_limits
  queues :: "lane \<Rightarrow> ticket list"
  borrowed :: int
  borrowed_by_lane :: "lane \<Rightarrow> int"
  peak :: int
  peak_by_lane :: "lane \<Rightarrow> int"
  next_seq :: nat
  last_lane_index :: nat

definition new_broker :: "pyval \<Rightarrow> pyval \<Rightarrow> llm_error + broker" where
  "new_broker tot limits = (case positive_limit tot ''LLM total'' of Inl e \<Rightarrow> Inl e
     | Inr t \<Rightarrow> (case normalize_llm_lane_limits limits of Inl e \<Rightarrow> Inl e
     | Inr ls \<Rightarrow> Inr \<lparr>total_limit = t, lane_limits = ls, queues = (\<lambda>_. []), borrowed = 0,
         borrowed_by_lane = (\<lambda>_. 0), peak = 0, peak_by_lane = (\<lambda>_. 0), next_seq = 0,
         last_lane_index = length llm_lanes - 1\<rparr>))"

definition broker_enabled :: "broker \<Rightarrow> bool" where
  "broker_enabled b \<longleftrightarrow> total_limit b \<noteq> None \<or> list_ex (\<lambda>v. v \<noteq> None) (dict_values (lane_limits b))"

definition total_full :: "broker \<Rightarrow> bool" where
  "total_full b = (case total_limit b of None \<Rightarrow> False | Some t \<Rightarrow> t \<le> borrowed b)"

definition has_capacity :: "broker \<Rightarrow> lane \<Rightarrow> bool" where
  "has_capacity b l \<longleftrightarrow> \<not> total_full b \<and>
     (case dict_get (lane_limits b) l of
        None \<Rightarrow> True
      | Some None \<Rightarrow> True
      | Some (Some n) \<Rightarrow> borrowed_by_lane b l < n)"

definition lane_ready :: "broker \<Rightarrow> lane \<Rightarrow> bool" where
  "lane_ready b l \<longleftrightarrow> queues b l \<noteq> [] \<and> has_capacity b l"

definition next_eligible_lane :: "broker \<Rightarrow> lane option" where
  "next_eligible_lane b =
     (if total_full b then None
      else List.find (lane_ready b)
             (map (\<lambda>offset. llm_lanes ! ((last_lane_index b + offset) mod length llm_lanes))
                  [1..<length llm_lanes + 1]))"

text \<open>The parts of \<open>_borrow_permit\<close>: the ticket is queued; the body of the loop pops it when it is
  the head of the lane whose turn it is; the exception path undoes one or the other; the permit
  is returned.\<close>

definition enqueue :: "lane \<Rightarrow> broker \<Rightarrow> ticket \<times> broker" where
  "enqueue l b = (let t = \<lparr>seq = next_seq b, lane_of = l\<rparr> in
     (t, b\<lparr>next_seq := next_seq b + 1, queues := (queues b)(l := queues b l @ [t])\<rparr>))"

definition admit :: "lane \<Rightarrow> broker \<Rightarrow> broker" where
  "admit l b =
     (let b1 = b\<lparr>queues := (queues b)(l := tl (queues b l)), borrowed := borrowed b + 1,
               borrowed_by_lane := (borrowed_by_lane b)(l := borrowed_by_lane b l + 1)\<rparr>
      in b1\<lparr>peak := max (peak b1) (borrowed b1),
            peak_by_lane := (peak_by_lane b1)(l := max (peak_by_lane b1 l) (borrowed_by_lane b1 l)),
            last_lane_index := lane_index l\<rparr>)"

definition selects :: "broker \<Rightarrow> ticket \<Rightarrow> bool" where
  "selects b t \<longleftrightarrow> next_eligible_lane b = Some (lane_of t) \<and>
     (case queues b (lane_of t) of [] \<Rightarrow> False | h # _ \<Rightarrow> h = t)"

definition cancel_waiting :: "ticket \<Rightarrow> broker \<Rightarrow> broker" where
  "cancel_waiting t b = b\<lparr>queues := (queues b)(lane_of t := remove1 t (queues b (lane_of t)))\<rparr>"

definition give_back :: "lane \<Rightarrow> broker \<Rightarrow> broker" where
  "give_back l b = b\<lparr>borrowed := borrowed b - 1,
     borrowed_by_lane := (borrowed_by_lane b)(l := borrowed_by_lane b l - 1)\<rparr>"

definition reconfigure :: "pyval \<Rightarrow> pyval \<Rightarrow> broker \<Rightarrow> llm_error + broker" where
  "reconfigure tot limits b = (case positive_limit tot ''LLM total'' of Inl e \<Rightarrow> Inl e
     | Inr t \<Rightarrow> (if limits = PNone then Inr (b\<lparr>total_limit := t\<rparr>)
         else (case normalize_llm_lane_limits limits of Inl e \<Rightarrow> Inl e
           | Inr ls \<Rightarrow> Inr (b\<lparr>total_limit := t, lane_limits := ls\<rparr>))))"

section \<open>Threads inside borrow\<close>

text \<open>
  A thread outside \<open>borrow\<close>; one that holds its reservation and has not queued; one in the wait
  loop, with the flag that a \<open>notify_all\<close> has released it from \<open>wait\<close>; one in the body of the
  \<open>with\<close>; one that gave its permit back and has its reservation to release.
\<close>

datatype pc = Idle | Reserved lane "reservation option"
  | Waiting ticket "reservation option" bool
  | Holding ticket "reservation option"
  | Returned "reservation option"

record llm_sys =
  brk :: broker
  bud :: "run_budget option"
  threads :: "pc list"

fun notified :: "pc \<Rightarrow> pc" where
  "notified (Waiting t r w) = Waiting t r True"
| "notified p = p"

definition notify_all :: "pc list \<Rightarrow> pc list" where
  "notify_all ts = map notified ts"

text \<open>One turn of the wait loop of thread \<open>i\<close>, which owns ticket \<open>t\<close>.\<close>

definition evaluate :: "nat \<Rightarrow> ticket \<Rightarrow> reservation option \<Rightarrow> llm_sys \<Rightarrow> llm_sys" where
  "evaluate i t r s =
     (if selects (brk s) t
      then s\<lparr>brk := admit (lane_of t) (brk s), threads := notify_all ((threads s)[i := Holding t r])\<rparr>
      else s\<lparr>threads := (threads s)[i := Waiting t r False]\<rparr>)"

text \<open>A step carries the admission it makes: the lane and the broker it was chosen from.\<close>

type_synonym admission = "(broker \<times> lane) option"

definition admission_of :: "broker \<Rightarrow> ticket \<Rightarrow> admission" where
  "admission_of b t = (if selects b t then Some (b, lane_of t) else None)"

definition reserve_opt :: "run_budget option \<Rightarrow> run_budget option \<times> (llm_error + reservation option)" where
  "reserve_opt b = (case b of None \<Rightarrow> (None, Inr None)
     | Some b \<Rightarrow> (let (b', r) = reserve b in (Some b', r)))"

inductive llm_step :: "llm_sys \<Rightarrow> admission \<Rightarrow> llm_sys \<Rightarrow> bool" where
  reserve_held: "i < length (threads s) \<Longrightarrow> threads s ! i = Idle \<Longrightarrow>
    reserve_opt (bud s) = (b, Inr r) \<Longrightarrow>
    llm_step s None (s\<lparr>bud := b, threads := (threads s)[i := Reserved (normalize_llm_lane v) r]\<rparr>)"
| reserve_refused: "reserve_opt (bud s) = (b, Inl e) \<Longrightarrow> llm_step s None (s\<lparr>bud := b\<rparr>)"
| arrive: "i < length (threads s) \<Longrightarrow> threads s ! i = Reserved l r \<Longrightarrow>
    enqueue l (brk s) = (t, b) \<Longrightarrow>
    llm_step s (admission_of b t) (evaluate i t r (s\<lparr>brk := b\<rparr>))"
| arrive_interrupted: "i < length (threads s) \<Longrightarrow> threads s ! i = Reserved l r \<Longrightarrow>
    enqueue l (brk s) = (t, b) \<Longrightarrow> selects b t \<Longrightarrow>
    llm_step s (Some (b, l))
      (s\<lparr>brk := give_back l (admit l b), threads := notify_all ((threads s)[i := Returned r])\<rparr>)"
| wake: "i < length (threads s) \<Longrightarrow> threads s ! i = Waiting t r True \<Longrightarrow>
    llm_step s (admission_of (brk s) t) (evaluate i t r s)"
| cancelled: "i < length (threads s) \<Longrightarrow> threads s ! i = Waiting t r w \<Longrightarrow>
    llm_step s None (s\<lparr>brk := cancel_waiting t (brk s),
                       threads := notify_all ((threads s)[i := Returned r])\<rparr>)"
| interrupted: "i < length (threads s) \<Longrightarrow> threads s ! i = Waiting t r True \<Longrightarrow> selects (brk s) t \<Longrightarrow>
    llm_step s (Some (brk s, lane_of t))
      (s\<lparr>brk := give_back (lane_of t) (admit (lane_of t) (brk s)),
         threads := notify_all ((threads s)[i := Returned r])\<rparr>)"
| returned: "i < length (threads s) \<Longrightarrow> threads s ! i = Holding t r \<Longrightarrow>
    llm_step s None (s\<lparr>brk := give_back (lane_of t) (brk s),
                       threads := notify_all ((threads s)[i := Returned r])\<rparr>)"
| released: "i < length (threads s) \<Longrightarrow> threads s ! i = Returned r \<Longrightarrow>
    llm_step s None (s\<lparr>bud := map_option (release r) (bud s), threads := (threads s)[i := Idle]\<rparr>)"
| reconfigured: "reconfigure tot limits (brk s) = Inr b \<Longrightarrow>
    llm_step s None (s\<lparr>brk := b, threads := notify_all (threads s)\<rparr>)"
| committed: "bud s = Some b \<Longrightarrow> commit delta b = Inr b' \<Longrightarrow> llm_step s None (s\<lparr>bud := Some b'\<rparr>)"
| seeded: "bud s = Some b \<Longrightarrow> seed deltas b = (b', res) \<Longrightarrow> llm_step s None (s\<lparr>bud := Some b'\<rparr>)"
| adopted: "bud s = Some b \<Longrightarrow> adopt_cost_ceiling v knob b = (b', res) \<Longrightarrow>
    llm_step s None (s\<lparr>bud := Some b'\<rparr>)"

definition start_sys :: "llm_sys \<Rightarrow> bool" where
  "start_sys s \<longleftrightarrow> (\<exists>tot limits. new_broker tot limits = Inr (brk s)) \<and>
     (case bud s of None \<Rightarrow> True | Some b \<Rightarrow> \<exists>c t u. new_budget c t u = Inr b) \<and>
     (\<forall>p \<in> set (threads s). p = Idle)"

inductive llm_reachable :: "llm_sys \<Rightarrow> bool" where
  reach_start: "start_sys s \<Longrightarrow> llm_reachable s"
| reach_step: "llm_reachable s \<Longrightarrow> llm_step s a t \<Longrightarrow> llm_reachable t"

end
