(* ===== verification/LlmBrokerInv.thy ===== *)
theory LlmBrokerInv
  imports LlmBroker
begin

text \<open>
  What the threads inside \<open>borrow\<close> and the broker keep between them. The state of a thread is
  read through three projections (the ticket it waits with, the lane it holds, the reservation
  it holds), and each part of the invariant speaks of one of them.
\<close>

section \<open>Sums over the threads\<close>

definition tally :: "('a \<Rightarrow> 'b::ab_group_add) \<Rightarrow> 'a list \<Rightarrow> 'b" where
  "tally f xs = sum_list (map f xs)"

lemma tally_Nil [simp]: "tally f [] = 0"
  by (simp add: tally_def)

lemma tally_update:
  "i < length xs \<Longrightarrow> tally f (xs[i := x]) = tally f xs - f (xs ! i) + f x"
proof (induction xs arbitrary: i)
  case (Cons y ys)
  then show ?case by (cases i) (auto simp: tally_def algebra_simps)
qed simp

lemma tally_member_le:
  fixes f :: "'a \<Rightarrow> 'b::ordered_ab_group_add"
  assumes "\<And>x. x \<in> set xs \<Longrightarrow> 0 \<le> f x" and "x \<in> set xs"
  shows "f x \<le> tally f xs"
  unfolding tally_def using assms
proof (induction xs)
  case (Cons y ys)
  have ys: "0 \<le> sum_list (map f ys)" using Cons.prems(1) by (intro sum_list_nonneg) auto
  show ?case
  proof (cases "x = y")
    case True
    then show ?thesis using ys by simp
  next
    case False
    then have "f x \<le> sum_list (map f ys)" using Cons by simp
    moreover have "0 \<le> f y" using Cons.prems(1) by simp
    ultimately show ?thesis by (simp add: add_increasing)
  qed
qed simp

lemma tally_notified [simp]:
  "(\<And>t r w. f (Waiting t r w) = f (Waiting t r True)) \<Longrightarrow> tally f (notify_all ts) = tally f ts"
proof -
  assume f: "\<And>t r w. f (Waiting t r w) = f (Waiting t r True)"
  have "f (notified p) = f p" for p by (cases p) (simp_all add: f [symmetric])
  then show ?thesis by (simp add: tally_def notify_all_def comp_def)
qed

section \<open>Projections of a thread\<close>

fun ticket_of :: "pc \<Rightarrow> ticket option" where
  "ticket_of (Waiting t r w) = Some t"
| "ticket_of p = None"

fun held_lane :: "pc \<Rightarrow> lane option" where
  "held_lane (Holding t r) = Some (lane_of t)"
| "held_lane p = None"

fun held_reservation :: "pc \<Rightarrow> reservation option" where
  "held_reservation Idle = None"
| "held_reservation (Reserved l r) = r"
| "held_reservation (Waiting t r w) = r"
| "held_reservation (Holding t r) = r"
| "held_reservation (Returned r) = r"

definition in_lane :: "lane \<Rightarrow> pc \<Rightarrow> int" where
  "in_lane l p = (if held_lane p = Some l then 1 else 0)"

definition in_flight :: "pc \<Rightarrow> int" where
  "in_flight p = (if held_lane p \<noteq> None then 1 else 0)"

definition cost_held :: "pc \<Rightarrow> real" where
  "cost_held p = (case held_reservation p of None \<Rightarrow> 0 | Some r \<Rightarrow> res_cost r)"

definition tokens_held :: "pc \<Rightarrow> int" where
  "tokens_held p = (case held_reservation p of None \<Rightarrow> 0 | Some r \<Rightarrow> res_tokens r)"

definition holds_one :: "pc \<Rightarrow> int" where
  "holds_one p = (case held_reservation p of None \<Rightarrow> 0 | Some r \<Rightarrow> 1)"

lemmas projection_defs = in_lane_def in_flight_def cost_held_def tokens_held_def holds_one_def

lemma length_notify_all [simp]: "length (notify_all ts) = length ts"
  by (simp add: notify_all_def)

lemma nth_notify_all [simp]: "i < length ts \<Longrightarrow> notify_all ts ! i = notified (ts ! i)"
  by (simp add: notify_all_def)

lemma ticket_of_notified [simp]: "ticket_of (notified p) = ticket_of p"
  by (cases p) simp_all

lemma map_ticket_notify_all [simp]: "map ticket_of (notify_all ts) = map ticket_of ts"
  by (simp add: notify_all_def)

lemma ticket_of_Some: "ticket_of p = Some t \<longleftrightarrow> (\<exists>r w. p = Waiting t r w)"
  by (cases p) auto

section \<open>The queues hold exactly the waiting threads, first come first\<close>

definition queue_inv :: "broker \<Rightarrow> ticket option list \<Rightarrow> bool" where
  "queue_inv b wt \<longleftrightarrow>
     (\<forall>i < length wt. \<forall>t. wt ! i = Some t \<longrightarrow> t \<in> set (queues b (lane_of t))) \<and>
     (\<forall>l. \<forall>t \<in> set (queues b l). lane_of t = l \<and> seq t < next_seq b \<and> Some t \<in> set wt) \<and>
     (\<forall>l. sorted_wrt (<) (map seq (queues b l))) \<and>
     (\<forall>i < length wt. \<forall>j < length wt. wt ! i \<noteq> None \<longrightarrow> wt ! i = wt ! j \<longrightarrow> i = j)"

lemma queue_inv_cong:
  "queues b' = queues b \<Longrightarrow> next_seq b' = next_seq b \<Longrightarrow> queue_inv b' wt = queue_inv b wt"
  by (simp add: queue_inv_def)

lemma sorted_remove1:
  "sorted_wrt (<) (map f xs) \<Longrightarrow> sorted_wrt (<) (map f (remove1 x xs))" for f :: "'a \<Rightarrow> nat"
  by (induction xs) (auto dest: set_remove1_subset [THEN subsetD])

lemma queue_invI:
  assumes "\<And>i t. i < length wt \<Longrightarrow> wt ! i = Some t \<Longrightarrow> t \<in> set (queues b (lane_of t))"
    and "\<And>l t. t \<in> set (queues b l) \<Longrightarrow> lane_of t = l \<and> seq t < next_seq b \<and> Some t \<in> set wt"
    and "\<And>l. sorted_wrt (<) (map seq (queues b l))"
    and "\<And>i j t. i < length wt \<Longrightarrow> j < length wt \<Longrightarrow> wt ! i = Some t \<Longrightarrow> wt ! j = Some t \<Longrightarrow> i = j"
  shows "queue_inv b wt"
  unfolding queue_inv_def using assms by (metis not_None_eq)

lemma queue_invD:
  assumes "queue_inv b wt"
  shows "i < length wt \<Longrightarrow> wt ! i = Some t \<Longrightarrow> t \<in> set (queues b (lane_of t))"
    and "t \<in> set (queues b l) \<Longrightarrow> lane_of t = l"
    and "t \<in> set (queues b l) \<Longrightarrow> seq t < next_seq b"
    and "t \<in> set (queues b l) \<Longrightarrow> Some t \<in> set wt"
    and "sorted_wrt (<) (map seq (queues b l))"
    and "i < length wt \<Longrightarrow> j < length wt \<Longrightarrow> wt ! i = Some t \<Longrightarrow> wt ! j = Some t \<Longrightarrow> i = j"
  using assms unfolding queue_inv_def by (blast, blast, blast, blast, blast, metis option.distinct(1))

lemma queue_inv_enqueue:
  assumes inv: "queue_inv b wt" and i: "i < length wt" "wt ! i = None"
    and e: "enqueue l b = (t, b')"
  shows "queue_inv b' (wt[i := Some t])"
proof -
  have t: "lane_of t = l" "seq t = next_seq b" "next_seq b' = next_seq b + 1"
    and q: "queues b' = (queues b)(l := queues b l @ [t])"
    using e by (auto simp: enqueue_def Let_def)
  have fresh: "t \<notin> set (queues b m)" for m
    using queue_invD(3) [OF inv] t(2) by (metis less_irrefl)
  have other: "Some u \<in> set (wt[i := Some t])" if "Some u \<in> set wt" for u
    using that i by (metis in_set_conv_nth length_list_update nth_list_update_neq option.distinct(1))
  show ?thesis
  proof (rule queue_invI)
    fix j u
    assume j: "j < length (wt[i := Some t])" "wt[i := Some t] ! j = Some u"
    then show "u \<in> set (queues b' (lane_of u))"
      using queue_invD(1) [OF inv, of j u] t(1) i by (cases "j = i") (auto simp: q)
  next
    fix m u
    assume "u \<in> set (queues b' m)"
    then consider "m = l" "u = t" | "u \<in> set (queues b m)" by (auto simp: q split: if_splits)
    then show "lane_of u = m \<and> seq u < next_seq b' \<and> Some u \<in> set (wt[i := Some t])"
    proof cases
      case 1
      then show ?thesis using t i by (simp add: set_update_memI)
    next
      case 2
      then show ?thesis using queue_invD(2-4) [OF inv 2] t other by auto
    qed
  next
    fix m
    show "sorted_wrt (<) (map seq (queues b' m))"
      using queue_invD(5) [OF inv] queue_invD(3) [OF inv] t(2) by (simp add: q sorted_wrt_append)
  next
    fix j k u
    assume jk: "j < length (wt[i := Some t])" "k < length (wt[i := Some t])"
      and u: "wt[i := Some t] ! j = Some u" "wt[i := Some t] ! k = Some u"
    show "j = k"
    proof (cases "u = t")
      case True
      have "x = i" if "x < length wt" "wt[i := Some t] ! x = Some t" for x
        using that queue_invD(1) [OF inv, of x t] fresh by (metis nth_list_update_neq)
      then show ?thesis using jk u True by auto
    next
      case False
      then have "j \<noteq> i" "k \<noteq> i" using u i by auto
      then show ?thesis using queue_invD(6) [OF inv, of j k u] jk u by simp
    qed
  qed
qed

lemma queue_inv_leave:
  assumes inv: "queue_inv b wt" and i: "i < length wt" "wt ! i = Some t"
  shows "queue_inv (cancel_waiting t b) (wt[i := None])"
proof -
  have d: "distinct (queues b m)" for m
    using queue_invD(5) [OF inv, of m] by (simp add: strict_sorted_iff distinct_map)
  have q: "u \<in> set (queues (cancel_waiting t b) m) \<longleftrightarrow> u \<in> set (queues b m) \<and> (m = lane_of t \<longrightarrow> u \<noteq> t)" for m u
    using d [of "lane_of t"] by (simp add: cancel_waiting_def)
  have uniq: "wt ! j = Some t \<Longrightarrow> j < length wt \<Longrightarrow> j = i" for j
    using queue_invD(6) [OF inv _ i(1) _ i(2)] by simp
  show ?thesis
  proof (rule queue_invI)
    fix j u
    assume j: "j < length (wt[i := None])" "wt[i := None] ! j = Some u"
    then have "j \<noteq> i" using i by auto
    then show "u \<in> set (queues (cancel_waiting t b) (lane_of u))"
      using queue_invD(1) [OF inv, of j u] uniq [of j] j by (auto simp: q)
  next
    fix m u
    assume u: "u \<in> set (queues (cancel_waiting t b) m)"
    then have b: "u \<in> set (queues b m)" by (simp add: q)
    have "u \<noteq> t" using u queue_invD(2) [OF inv b] by (auto simp: q)
    then have "Some u \<in> set (wt[i := None])"
      using queue_invD(4) [OF inv b] i
      by (metis in_set_conv_nth length_list_update nth_list_update_neq option.inject)
    then show "lane_of u = m \<and> seq u < next_seq (cancel_waiting t b) \<and> Some u \<in> set (wt[i := None])"
      using queue_invD(2,3) [OF inv b] by (simp add: cancel_waiting_def)
  next
    fix m
    show "sorted_wrt (<) (map seq (queues (cancel_waiting t b) m))"
      using queue_invD(5) [OF inv] by (simp add: cancel_waiting_def sorted_remove1)
  next
    fix j k u
    assume jk: "j < length (wt[i := None])" "k < length (wt[i := None])"
      and u: "wt[i := None] ! j = Some u" "wt[i := None] ! k = Some u"
    then have "j \<noteq> i" "k \<noteq> i" using i by auto
    then show "j = k" using queue_invD(6) [OF inv, of j k u] jk u by simp
  qed
qed

lemma selects_queue: "selects b t \<Longrightarrow> \<exists>rest. queues b (lane_of t) = t # rest"
  by (auto simp: selects_def split: list.splits)

lemma queue_inv_admit:
  assumes "queue_inv b wt" and "i < length wt" "wt ! i = Some t" and "selects b t"
  shows "queue_inv (admit (lane_of t) b) (wt[i := None])"
proof -
  have "queues (admit (lane_of t) b) = queues (cancel_waiting t b)"
    using selects_queue [OF assms(4)] by (auto simp: admit_def Let_def cancel_waiting_def)
  then have "queue_inv (admit (lane_of t) b) (wt[i := None]) = queue_inv (cancel_waiting t b) (wt[i := None])"
    by (rule queue_inv_cong) (simp add: admit_def Let_def cancel_waiting_def)
  then show ?thesis using queue_inv_leave [OF assms(1-3)] by simp
qed

lemma queue_inv_give_back [simp]: "queue_inv (give_back l b) wt = queue_inv b wt"
  by (rule queue_inv_cong) (simp_all add: give_back_def)

end
