(* ===== verification/LlmFair.thy ===== *)
theory LlmFair
  imports LlmBrokerInv
begin

text \<open>
  The turn of the lanes. \<open>round_robin\<close> states what a scheduler owes its classes: it picks a ready
  class, the nearest after the one served last, and says none only when none is ready. What
  follows from that contract (a class that stays ready is served within one round; more work
  elsewhere does not take a turn away) is proved once, in the locale.
\<close>

section \<open>The contract\<close>

definition turn_gap :: "nat \<Rightarrow> nat \<Rightarrow> nat \<Rightarrow> nat" where
  "turn_gap n p x = (if p < x then x - p - 1 else x + n - p - 1)"

lemma turn_gap_less: "p < n \<Longrightarrow> x < n \<Longrightarrow> turn_gap n p x < n"
  by (auto simp: turn_gap_def)

lemma turn_gap_served:
  "p < n \<Longrightarrow> x < n \<Longrightarrow> y < n \<Longrightarrow> turn_gap n p x < turn_gap n p y \<Longrightarrow> turn_gap n x y < turn_gap n p y"
  by (auto simp: turn_gap_def split: if_splits)

lemma turn_gap_inj: "p < n \<Longrightarrow> x < n \<Longrightarrow> y < n \<Longrightarrow> turn_gap n p x = turn_gap n p y \<Longrightarrow> x = y"
  by (auto simp: turn_gap_def split: if_splits)

locale round_robin =
  fixes classes :: nat
    and index :: "'l \<Rightarrow> nat"
    and served :: "'s \<Rightarrow> nat"
    and ready :: "'s \<Rightarrow> 'l \<Rightarrow> bool"
    and pick :: "'s \<Rightarrow> 'l option"
  assumes index_less: "index l < classes"
    and index_inj: "index l = index m \<Longrightarrow> l = m"
    and pick_ready: "served s < classes \<Longrightarrow> pick s = Some l \<Longrightarrow> ready s l"
    and pick_nearest: "served s < classes \<Longrightarrow> pick s = Some l \<Longrightarrow> ready s m \<Longrightarrow>
      turn_gap classes (served s) (index l) \<le> turn_gap classes (served s) (index m)"
    and pick_some: "served s < classes \<Longrightarrow> ready s l \<Longrightarrow> pick s \<noteq> None"
begin

lemma pick_mono:
  assumes ok: "served s < classes" and last: "served s' = served s"
    and more: "\<And>m. ready s m \<Longrightarrow> ready s' m"
    and p: "pick s' = Some l" and l: "ready s l"
  shows "pick s = Some l"
proof -
  obtain m where m: "pick s = Some m" using pick_some [OF ok l] by auto
  have "turn_gap classes (served s) (index m) \<le> turn_gap classes (served s) (index l)"
    using pick_nearest [OF ok m l] .
  moreover have "turn_gap classes (served s) (index l) \<le> turn_gap classes (served s) (index m)"
    using pick_nearest [of s' l m] ok last p more [OF pick_ready [OF ok m]] by simp
  ultimately have "index m = index l"
    using turn_gap_inj [OF ok index_less index_less] by (metis le_antisym)
  then show ?thesis using m index_inj by metis
qed

text \<open>Consecutive turns: each is the scheduler's pick, and the next starts from its class.\<close>

fun turns :: "nat \<Rightarrow> ('s \<times> 'l) list \<Rightarrow> bool" where
  "turns p [] = (p < classes)"
| "turns p ((s, l) # xs) = (p < classes \<and> served s = p \<and> pick s = Some l \<and> turns (index l) xs)"

lemma turns_bound:
  "turns p xs \<Longrightarrow> (\<And>s l. (s, l) \<in> set xs \<Longrightarrow> ready s m \<and> l \<noteq> m) \<Longrightarrow>
    length xs \<le> turn_gap classes p (index m)"
proof (induction xs arbitrary: p)
  case (Cons x xs)
  obtain s l where x: "x = (s, l)" by (cases x)
  have t: "p < classes" "served s = p" "pick s = Some l" "turns (index l) xs"
    using Cons.prems(1) x by auto
  have rm: "ready s m" "l \<noteq> m" using Cons.prems(2) x by auto
  have "turn_gap classes p (index l) \<le> turn_gap classes p (index m)"
    using pick_nearest [of s l m] t rm by simp
  moreover have "turn_gap classes p (index l) \<noteq> turn_gap classes p (index m)"
    using turn_gap_inj [OF t(1) index_less index_less] rm(2) index_inj by metis
  ultimately have "turn_gap classes (index l) (index m) < turn_gap classes p (index m)"
    using turn_gap_served [OF t(1) index_less index_less] by (metis le_neq_implies_less)
  moreover have "length xs \<le> turn_gap classes (index l) (index m)"
    using Cons.IH [OF t(4)] Cons.prems(2) by auto
  ultimately show ?case by simp
qed simp

lemma served_within_a_round:
  assumes "turns p xs" and "\<And>s l. (s, l) \<in> set xs \<Longrightarrow> ready s m \<and> l \<noteq> m"
  shows "length xs < classes"
proof -
  have "p < classes" using assms(1) by (cases xs) auto
  then show ?thesis
    using turns_bound [of p xs m] assms turn_gap_less [OF _ index_less, of p m] by fastforce
qed

end

section \<open>The broker keeps it\<close>

lemma ready_not_full: "lane_ready b l \<Longrightarrow> \<not> total_full b"
  by (simp add: lane_ready_def has_capacity_def)

lemma find_least:
  assumes "sorted_wrt (\<lambda>x y. f x \<le> f y) xs" and "List.find P xs = Some x" and "y \<in> set xs" "P y"
  shows "f x \<le> (f y :: nat)"
  using assms by (induction xs) (auto split: if_splits)

definition scan_order :: "nat \<Rightarrow> lane list" where
  "scan_order p = map (\<lambda>k. llm_lanes ! ((p + k) mod length llm_lanes)) [1..<length llm_lanes + 1]"

lemma next_eligible_scan:
  "next_eligible_lane b = (if total_full b then None else List.find (lane_ready b) (scan_order (last_lane_index b)))"
  by (simp add: next_eligible_lane_def scan_order_def)

lemma scan_order_simps:
  "scan_order 0 = [DeepResearch, NoveltyDedup, Enrichment, EngineLane, Build]"
  "scan_order 1 = [NoveltyDedup, Enrichment, EngineLane, Build, DeepResearch]"
  "scan_order 2 = [Enrichment, EngineLane, Build, DeepResearch, NoveltyDedup]"
  "scan_order 3 = [EngineLane, Build, DeepResearch, NoveltyDedup, Enrichment]"
  "scan_order 4 = [Build, DeepResearch, NoveltyDedup, Enrichment, EngineLane]"
  by code_simp+

lemma scan_order_props:
  assumes "p < 5"
  shows "set (scan_order p) = UNIV"
    and "sorted_wrt (\<lambda>l m. turn_gap 5 p (lane_index l) \<le> turn_gap 5 p (lane_index m)) (scan_order p)"
proof -
  have all: "UNIV = {Build, DeepResearch, NoveltyDedup, Enrichment, EngineLane}"
    using lane.exhaust by auto
  from assms have p: "p = 0 \<or> p = 1 \<or> p = 2 \<or> p = 3 \<or> p = 4" by linarith
  then show "set (scan_order p) = UNIV"
    by (elim disjE; simp only: scan_order_simps all) auto
  show "sorted_wrt (\<lambda>l m. turn_gap 5 p (lane_index l) \<le> turn_gap 5 p (lane_index m)) (scan_order p)"
    using p by (elim disjE; simp only: scan_order_simps) (simp_all add: turn_gap_def)
qed

interpretation lanes: round_robin 5 lane_index last_lane_index lane_ready next_eligible_lane
proof unfold_locales
  show "lane_index l < 5" for l by (cases l) simp_all
  show "lane_index l = lane_index m \<Longrightarrow> l = m" for l m by (cases l; cases m) simp_all
  show "last_lane_index b < 5 \<Longrightarrow> next_eligible_lane b = Some l \<Longrightarrow> lane_ready b l" for b l
    by (auto simp: next_eligible_scan find_Some_iff split: if_splits)
  show "turn_gap 5 (last_lane_index b) (lane_index l) \<le> turn_gap 5 (last_lane_index b) (lane_index m)"
    if "last_lane_index b < 5" "next_eligible_lane b = Some l" "lane_ready b m" for b l m
    using find_least [OF scan_order_props(2) [OF that(1)], of "lane_ready b" l m]
      scan_order_props(1) [OF that(1)] that(2,3) ready_not_full [OF that(3)]
    by (simp add: next_eligible_scan)
  show "next_eligible_lane b \<noteq> None" if "last_lane_index b < 5" "lane_ready b l" for b l
    using scan_order_props(1) [OF that(1)] that(2) ready_not_full [OF that(2)]
    by (auto simp: next_eligible_scan find_None_iff)
qed

end
