(* ===== verification/LlmSafety.thy ===== *)
theory LlmSafety
  imports LlmFair
begin

text \<open>
  The invariant of the threads inside \<open>borrow\<close>, one part at a time, and that every step keeps it:
  the counters are the threads that hold a permit, the queues are the threads that wait, the
  reserved sums are the reservations the threads hold, and a lane that could be served has its
  head awake.
\<close>

section \<open>Counters\<close>

definition counts :: "broker \<Rightarrow> pc list \<Rightarrow> bool" where
  "counts b ts \<longleftrightarrow> borrowed b = tally in_flight ts \<and> (\<forall>l. borrowed_by_lane b l = tally (in_lane l) ts) \<and>
     borrowed b \<le> peak b \<and> (\<forall>l. borrowed_by_lane b l \<le> peak_by_lane b l) \<and> last_lane_index b < 5"

lemma counts_same:
  "counts b ts \<Longrightarrow> i < length ts \<Longrightarrow> held_lane (ts ! i) = held_lane p \<Longrightarrow> counts b (ts[i := p])"
  by (auto simp: counts_def tally_update in_flight_def in_lane_def)

lemma counts_notify [simp]: "counts b (notify_all ts) = counts b ts"
  by (simp add: counts_def in_flight_def in_lane_def)

lemma counts_admit:
  "counts b ts \<Longrightarrow> i < length ts \<Longrightarrow> held_lane (ts ! i) = None \<Longrightarrow> lane_of t = l \<Longrightarrow>
    counts (admit l b) (ts[i := Holding t r])"
  by (auto simp: counts_def tally_update in_flight_def in_lane_def admit_def Let_def
      lanes.index_less le_max_iff_disj)

lemma counts_give_back:
  "counts b ts \<Longrightarrow> i < length ts \<Longrightarrow> held_lane (ts ! i) = Some l \<Longrightarrow> held_lane p = None \<Longrightarrow>
    counts (give_back l b) (ts[i := p])"
  by (auto simp: counts_def tally_update in_flight_def in_lane_def give_back_def
      intro: order_trans [rotated])

lemma counts_undone:
  fixes t :: ticket
  assumes "counts b ts" "i < length ts" "held_lane (ts ! i) = None" "lane_of t = l" "held_lane p = None"
  shows "counts (give_back l (admit l b)) (ts[i := p])"
proof -
  have "counts (give_back l (admit l b)) ((ts[i := Holding t None])[i := p])"
    by (rule counts_give_back [OF counts_admit [OF assms(1-4)]]) (use assms in auto)
  then show ?thesis by simp
qed

lemma broker_counts_cong:
  "borrowed b' = borrowed b \<Longrightarrow> borrowed_by_lane b' = borrowed_by_lane b \<Longrightarrow> peak b' = peak b \<Longrightarrow>
   peak_by_lane b' = peak_by_lane b \<Longrightarrow> last_lane_index b' = last_lane_index b \<Longrightarrow> counts b' ts = counts b ts"
  by (simp add: counts_def)

section \<open>Reservations\<close>

definition reserves :: "run_budget option \<Rightarrow> pc list \<Rightarrow> bool" where
  "reserves bo ts \<longleftrightarrow>
     (\<forall>p \<in> set ts. \<forall>r. held_reservation p = Some r \<longrightarrow> 0 \<le> res_cost r \<and> 0 \<le> res_tokens r) \<and>
     (\<forall>b. bo = Some b \<longrightarrow> budget_ok b \<and> reserved_cost b = tally cost_held ts \<and>
        reserved_tokens b = tally tokens_held ts \<and> reservations b = tally holds_one ts)"

lemma held_reservation_notified [simp]: "held_reservation (notified p) = held_reservation p"
  by (cases p) simp_all

lemma held_cong:
  assumes "held_reservation p = held_reservation q"
  shows "cost_held p = cost_held q" and "tokens_held p = tokens_held q" and "holds_one p = holds_one q"
  using assms by (simp_all add: cost_held_def tokens_held_def holds_one_def)

lemma held_none:
  assumes "held_reservation p = None"
  shows "cost_held p = 0" and "tokens_held p = 0" and "holds_one p = 0"
  using assms by (simp_all add: cost_held_def tokens_held_def holds_one_def)

lemma held_some:
  assumes "held_reservation p = Some r"
  shows "cost_held p = res_cost r" and "tokens_held p = res_tokens r" and "holds_one p = 1"
  using assms by (simp_all add: cost_held_def tokens_held_def holds_one_def)

lemma reservesD:
  assumes "reserves bo ts"
  shows "p \<in> set ts \<Longrightarrow> held_reservation p = Some r \<Longrightarrow> 0 \<le> res_cost r"
    and "p \<in> set ts \<Longrightarrow> held_reservation p = Some r \<Longrightarrow> 0 \<le> res_tokens r"
    and "bo = Some b \<Longrightarrow> budget_ok b"
    and "bo = Some b \<Longrightarrow> reserved_cost b = tally cost_held ts"
    and "bo = Some b \<Longrightarrow> reserved_tokens b = tally tokens_held ts"
    and "bo = Some b \<Longrightarrow> reservations b = tally holds_one ts"
  using assms unfolding reserves_def by blast+

lemma reservesI:
  assumes "\<And>p r. p \<in> set ts \<Longrightarrow> held_reservation p = Some r \<Longrightarrow> 0 \<le> res_cost r \<and> 0 \<le> res_tokens r"
    and "\<And>b. bo = Some b \<Longrightarrow> budget_ok b \<and> reserved_cost b = tally cost_held ts \<and>
        reserved_tokens b = tally tokens_held ts \<and> reservations b = tally holds_one ts"
  shows "reserves bo ts"
  using assms unfolding reserves_def by blast

lemma reserves_replace:
  assumes inv: "reserves bo ts" and i: "i < length ts"
    and r: "\<And>r. held_reservation p = Some r \<Longrightarrow> 0 \<le> res_cost r \<and> 0 \<le> res_tokens r"
    and b: "\<And>b'. bo' = Some b' \<Longrightarrow> budget_ok b' \<and>
        reserved_cost b' = tally cost_held ts - cost_held (ts ! i) + cost_held p \<and>
        reserved_tokens b' = tally tokens_held ts - tokens_held (ts ! i) + tokens_held p \<and>
        reservations b' = tally holds_one ts - holds_one (ts ! i) + holds_one p"
  shows "reserves bo' (ts[i := p])"
proof (rule reservesI)
  fix q s
  assume q: "q \<in> set (ts[i := p])" "held_reservation q = Some s"
  then have "q = p \<or> q \<in> set ts" using set_update_subset_insert by fast
  then show "0 \<le> res_cost s \<and> 0 \<le> res_tokens s" using r reservesD(1,2) [OF inv] q(2) by blast
next
  fix b'
  assume "bo' = Some b'"
  from b [OF this] show "budget_ok b' \<and> reserved_cost b' = tally cost_held (ts[i := p]) \<and>
      reserved_tokens b' = tally tokens_held (ts[i := p]) \<and> reservations b' = tally holds_one (ts[i := p])"
    by (simp add: tally_update [OF i])
qed

lemma reserves_same:
  assumes "reserves bo ts" "i < length ts" "held_reservation (ts ! i) = held_reservation p"
  shows "reserves bo (ts[i := p])"
proof (rule reserves_replace [OF assms(1,2)])
  show "held_reservation p = Some r \<Longrightarrow> 0 \<le> res_cost r \<and> 0 \<le> res_tokens r" for r
    using reservesD(1,2) [OF assms(1), of "ts ! i"] assms(2,3) by simp
qed (use reservesD(3-6) [OF assms(1)] held_cong [OF assms(3)] in simp)

lemma tally_notify_held [simp]:
  "tally cost_held (notify_all ts) = tally cost_held ts"
  "tally tokens_held (notify_all ts) = tally tokens_held ts"
  "tally holds_one (notify_all ts) = tally holds_one ts"
  by (rule tally_notified; simp add: cost_held_def tokens_held_def holds_one_def)+

lemma reserves_notify [simp]: "reserves bo (notify_all ts) = reserves bo ts"
  by (auto simp: reserves_def) (auto simp: notify_all_def)

lemma reserves_held:
  assumes "reserves bo ts" "i < length ts" "held_reservation (ts ! i) = None"
    and "reserve_opt bo = (bo', Inr r)" "held_reservation p = r"
  shows "reserves bo' (ts[i := p])"
proof (cases bo)
  case None
  then show ?thesis
    using assms reserves_same [OF assms(1,2), of p] by (simp add: reserve_opt_def)
next
  case (Some b)
  have ok: "budget_ok b" using assms(1) Some by (simp add: reserves_def)
  have bo': "bo' = Some (fst (reserve b))" and r: "snd (reserve b) = Inr r"
    using assms(4) Some by (auto simp: reserve_opt_def split: prod.splits)
  show ?thesis
  proof (cases b rule: reserve_cases)
    case off
    then show ?thesis
      using reserves_same [OF assms(1,2), of p] assms(3,5) Some bo' r by simp
  next
    case (held q)
    then have q: "r = Some q" "bo' = Some (hold b q)" using bo' r by simp_all
    have pos: "0 \<le> res_cost q" "0 \<le> res_tokens q" using estimate_nonneg [OF ok] held by simp_all
    show ?thesis
      using reservesD(3-6) [OF assms(1) Some] held_none [OF assms(3)] held_some [of p q] assms(5) q pos
      by (intro reserves_replace [OF assms(1,2)]) (auto simp: hold_def budget_ok_def)
  next
    case refused
    then show ?thesis using r by simp
  qed
qed

lemma reserves_released:
  assumes inv: "reserves bo ts" and i: "i < length ts"
    and h: "held_reservation (ts ! i) = r" "held_reservation p = None"
  shows "reserves (map_option (release r) bo) (ts[i := p])"
proof (cases r)
  case None
  then show ?thesis using reserves_same [OF inv i, of p] h by (cases bo) (simp_all add: release_def)
next
  case (Some q)
  have mem: "ts ! i \<in> set ts" using i by simp
  have pos: "0 \<le> cost_held x \<and> 0 \<le> tokens_held x \<and> 0 \<le> holds_one x" if "x \<in> set ts" for x
    using reservesD(1,2) [OF inv that]
    by (auto simp: cost_held_def tokens_held_def holds_one_def split: option.splits)
  have some: "cost_held (ts ! i) = res_cost q" "tokens_held (ts ! i) = res_tokens q" "holds_one (ts ! i) = 1"
    using held_some [of "ts ! i" q] h Some by simp_all
  have le: "cost_held (ts ! i) \<le> tally cost_held ts" "tokens_held (ts ! i) \<le> tally tokens_held ts"
    "holds_one (ts ! i) \<le> tally holds_one ts"
    by (rule tally_member_le; use pos mem in blast)+
  show ?thesis
  proof (rule reserves_replace [OF inv i])
    show "held_reservation p = Some s \<Longrightarrow> 0 \<le> res_cost s \<and> 0 \<le> res_tokens s" for s using h by simp
    fix b'
    assume "map_option (release r) bo = Some b'"
    then obtain b where b: "bo = Some b" "b' = release r b" by auto
    show "budget_ok b' \<and> reserved_cost b' = tally cost_held ts - cost_held (ts ! i) + cost_held p \<and>
        reserved_tokens b' = tally tokens_held ts - tokens_held (ts ! i) + tokens_held p \<and>
        reservations b' = tally holds_one ts - holds_one (ts ! i) + holds_one p"
      using reservesD(3-6) [OF inv b(1)] le some held_none [OF h(2)] release_ok [of b r]
      by (simp add: b(2) release_def Some)
  qed
qed

lemma reserves_cong:
  assumes "reserves (Some b) ts" and "budget_ok b'" "reserved_cost b' = reserved_cost b"
    "reserved_tokens b' = reserved_tokens b" "reservations b' = reservations b"
  shows "reserves (Some b') ts"
  using assms by (simp add: reserves_def)

section \<open>No sleeping head of a ready lane\<close>

definition heads_awake :: "broker \<Rightarrow> pc list \<Rightarrow> bool" where
  "heads_awake b ts \<longleftrightarrow> (\<forall>l. next_eligible_lane b = Some l \<longrightarrow>
     (\<exists>i < length ts. \<exists>t r. ts ! i = Waiting t r True \<and> selects b t))"

lemma next_ready:
  assumes "counts b ts" and "next_eligible_lane b = Some l"
  shows "lane_ready b l"
  using assms lanes.pick_ready by (simp add: counts_def)

lemma heads_awake_notify:
  assumes q: "queue_inv b (map ticket_of ts)" and c: "counts b ts"
  shows "heads_awake b (notify_all ts)"
  unfolding heads_awake_def
proof (intro allI impI)
  fix l
  assume n: "next_eligible_lane b = Some l"
  then obtain t rest where t: "queues b l = t # rest"
    using next_ready [OF c n] by (auto simp: lane_ready_def neq_Nil_conv)
  then have "Some t \<in> set (map ticket_of ts)" "lane_of t = l"
    using queue_invD(2,4) [OF q, of t l] by simp_all
  then obtain i where i: "i < length ts" "ticket_of (ts ! i) = Some t"
    by (metis in_set_conv_nth length_map nth_map)
  then obtain r w where "ts ! i = Waiting t r w" by (auto simp: ticket_of_Some)
  then show "\<exists>i < length (notify_all ts). \<exists>t r. notify_all ts ! i = Waiting t r True \<and> selects b t"
    using i n t \<open>lane_of t = l\<close> by (intro exI [of _ i]) (auto simp: selects_def)
qed

lemma heads_awake_other:
  assumes "heads_awake b ts" and "ticket_of (ts ! i) = None"
  shows "heads_awake b (ts[i := p])"
  using assms unfolding heads_awake_def
  by (metis length_list_update nth_list_update_neq option.distinct(1) ticket_of.simps(1))

lemma heads_awake_sleep:
  assumes "heads_awake b ts" and "ts ! i = Waiting t r True" and "\<not> selects b t"
  shows "heads_awake b (ts[i := Waiting t r False])"
  using assms unfolding heads_awake_def
  by (metis length_list_update nth_list_update_neq pc.inject(2))

lemma heads_awake_arrive:
  assumes h: "heads_awake b ts" and q: "queue_inv b (map ticket_of ts)" and c: "counts b ts"
    and i: "i < length ts" "ticket_of (ts ! i) = None"
    and e: "enqueue l b = (t, b')" and n: "\<not> selects b' t"
  shows "heads_awake b' (ts[i := Waiting t r False])"
  unfolding heads_awake_def
proof (intro allI impI)
  fix m
  assume m: "next_eligible_lane b' = Some m"
  have eb: "queues b' = (queues b)(l := queues b l @ [t])" "lane_of t = l"
    and same: "last_lane_index b' = last_lane_index b" "total_limit b' = total_limit b"
      "borrowed b' = borrowed b" "lane_limits b' = lane_limits b" "borrowed_by_lane b' = borrowed_by_lane b"
    using e by (auto simp: enqueue_def Let_def)
  have ok: "last_lane_index b < 5" using c by (simp add: counts_def)
  have cap: "has_capacity b' k = has_capacity b k" for k
    by (simp only: has_capacity_def total_full_def same)
  have rm: "lane_ready b' m" using lanes.pick_ready [of b' m] ok m same by simp
  have nonempty: "queues b m \<noteq> []"
  proof
    assume "queues b m = []"
    then have "m = l" using rm eb by (auto simp: lane_ready_def split: if_splits)
    then have "selects b' t" using m eb \<open>queues b m = []\<close> by (simp add: selects_def)
    then show False using n by simp
  qed
  have "next_eligible_lane b = Some m"
  proof (rule lanes.pick_mono [of b b'])
    show "lane_ready b k \<Longrightarrow> lane_ready b' k" for k by (auto simp: lane_ready_def cap eb)
    show "lane_ready b m" using nonempty rm by (simp add: lane_ready_def cap)
  qed (use ok same m in auto)
  then obtain j u s where j: "j < length ts" "ts ! j = Waiting u s True" "selects b u"
    using h unfolding heads_awake_def by blast
  have "next_eligible_lane b = Some (lane_of u)" using j(3) by (simp add: selects_def)
  then have um: "lane_of u = m" using \<open>next_eligible_lane b = Some m\<close> by simp
  have "selects b' u"
    using j(3) m um nonempty eb by (auto simp: selects_def split: list.splits)
  moreover have "j \<noteq> i" using i j by auto
  ultimately show "\<exists>k < length (ts[i := Waiting t r False]). \<exists>v s.
      ts[i := Waiting t r False] ! k = Waiting v s True \<and> selects b' v"
    using j by (intro exI [of _ j]) auto
qed

end
