(* ===== verification/LlmReach.thy ===== *)
theory LlmReach
  imports LlmSafety
begin

text \<open>
  The invariant of the admission system over every interleaving of the threads inside \<open>borrow\<close>:
  the four parts of the previous theory together, and that the limits are positive.
\<close>

section \<open>The invariant\<close>

lemma map_same: "i < length ts \<Longrightarrow> f (ts ! i) = f p \<Longrightarrow> map f (ts[i := p]) = map f ts"
  by (simp add: map_update list_update_same_conv)

definition sys_inv :: "llm_sys \<Rightarrow> bool" where
  "sys_inv s \<longleftrightarrow> counts (brk s) (threads s) \<and> queue_inv (brk s) (map ticket_of (threads s)) \<and>
     reserves (bud s) (threads s) \<and> heads_awake (brk s) (threads s)"

lemma sys_inv_notified:
  assumes "counts b ts" "queue_inv b (map ticket_of ts)" "reserves (bud s) ts"
  shows "sys_inv (s\<lparr>brk := b, threads := notify_all ts\<rparr>)"
  using assms heads_awake_notify by (simp add: sys_inv_def)

lemma sys_inv_evaluate:
  assumes c: "counts (brk s) (threads s)" and q: "queue_inv (brk s) ((map ticket_of (threads s))[i := Some t])"
    and r: "reserves (bud s) (threads s)" and i: "i < length (threads s)" "held_lane (threads s ! i) = None" "held_reservation (threads s ! i) = r"
    and h: "\<not> selects (brk s) t \<Longrightarrow> heads_awake (brk s) ((threads s)[i := Waiting t r False])"
  shows "sys_inv (evaluate i t r s)"
proof (cases "selects (brk s) t")
  case True
  have "queue_inv (admit (lane_of t) (brk s)) (map ticket_of ((threads s)[i := Holding t r]))"
    using queue_inv_admit [OF q _ _ True, of i] i by (simp add: map_update)
  moreover have "reserves (bud s) ((threads s)[i := Holding t r])" using reserves_same [OF r i(1)] i by simp
  ultimately show ?thesis
    using True counts_admit [OF c i(1,2) refl] sys_inv_notified by (simp add: evaluate_def)
next
  case False
  have "reserves (bud s) ((threads s)[i := Waiting t r False])" using reserves_same [OF r i(1)] i by simp
  then show ?thesis
    using False h q counts_same [OF c i(1), of "Waiting t r False"] i
    by (simp add: evaluate_def sys_inv_def map_update)
qed

lemma counts_cancel: "counts (cancel_waiting t b) ts = counts b ts"
  by (rule broker_counts_cong) (simp_all add: cancel_waiting_def)

lemma enqueue_frame:
  assumes "enqueue l b = (t, b')"
  shows "lane_of t = l" "counts b' ts = counts b ts" "last_lane_index b' = last_lane_index b"
  using assms by (auto simp: enqueue_def Let_def counts_def)

lemma step_arrive:
  assumes inv: "sys_inv s" and i: "i < length (threads s)" "threads s ! i = Reserved l r"
    and e: "enqueue l (brk s) = (t, b)"
  shows "counts b (threads s)" and "queue_inv b ((map ticket_of (threads s))[i := Some t])"
    and "\<not> selects b t \<Longrightarrow> heads_awake b ((threads s)[i := Waiting t r False])"
proof -
  show "counts b (threads s)" using inv enqueue_frame(2) [OF e] by (simp add: sys_inv_def)
  show "queue_inv b ((map ticket_of (threads s))[i := Some t])"
    using inv queue_inv_enqueue [OF _ _ _ e, of "map ticket_of (threads s)" i] i by (simp add: sys_inv_def)
  show "heads_awake b ((threads s)[i := Waiting t r False])" if "\<not> selects b t"
    using heads_awake_arrive [OF _ _ _ i(1) _ e that] inv i by (simp add: sys_inv_def)
qed

lemma llm_step_inv:
  assumes "llm_step s a s'" and inv: "sys_inv s"
  shows "sys_inv s'"
  using assms(1)
proof cases
  case (reserve_held i b r v)
  then show ?thesis
    using inv reserves_held [of "bud s" "threads s" i b r "Reserved (normalize_llm_lane v) r"]
      counts_same [of "brk s" "threads s" i "Reserved (normalize_llm_lane v) r"]
      heads_awake_other [of "brk s" "threads s" i]
    by (simp add: sys_inv_def map_same del: map_update)
next
  case (reserve_refused b e)
  have "reserves b (threads s)"
  proof (cases "bud s")
    case (Some c)
    then have "b = Some (fst (reserve c))" and r: "snd (reserve c) = Inl e"
      using reserve_refused by (auto simp: reserve_opt_def split: prod.splits)
    then show ?thesis
      using inv Some reserves_cong [of c "threads s" "c\<lparr>refusals := refusals c + 1\<rparr>"]
      by (cases c rule: reserve_cases) (auto simp: sys_inv_def budget_ok_def reserves_def)
  qed (use reserve_refused in \<open>simp add: reserve_opt_def\<close>)
  then show ?thesis using inv reserve_refused by (simp add: sys_inv_def)
next
  case (arrive i l r t b)
  have "sys_inv (evaluate i t r (s\<lparr>brk := b\<rparr>))"
    using step_arrive [OF inv arrive(3-5)] inv arrive
    by (intro sys_inv_evaluate) (simp_all add: sys_inv_def)
  then show ?thesis using arrive by simp
next
  case (arrive_interrupted i l r t b)
  have "queue_inv (admit l b) (map ticket_of ((threads s)[i := Returned r]))"
    using queue_inv_admit [OF step_arrive(2) [OF inv arrive_interrupted(3-5)] _ _ arrive_interrupted(6), of i]
      arrive_interrupted enqueue_frame(1) [OF arrive_interrupted(5)] by (simp add: map_update)
  moreover have "counts (give_back l (admit l b)) ((threads s)[i := Returned r])"
    using counts_undone [OF step_arrive(1) [OF inv arrive_interrupted(3-5)] arrive_interrupted(3)]
      arrive_interrupted enqueue_frame(1) [OF arrive_interrupted(5)] by simp
  moreover have "reserves (bud s) ((threads s)[i := Returned r])"
    using inv reserves_same arrive_interrupted by (simp add: sys_inv_def)
  ultimately show ?thesis using sys_inv_notified arrive_interrupted by simp
next
  case (wake i t r)
  have "(map ticket_of (threads s))[i := Some t] = map ticket_of (threads s)"
    using wake by (simp add: list_update_same_conv)
  then have "sys_inv (evaluate i t r s)"
    using inv wake heads_awake_sleep by (intro sys_inv_evaluate) (simp_all add: sys_inv_def)
  then show ?thesis using wake by simp
next
  case (cancelled i t r w)
  have "queue_inv (cancel_waiting t (brk s)) (map ticket_of ((threads s)[i := Returned r]))"
    using queue_inv_leave [of "brk s" "map ticket_of (threads s)" i t] inv cancelled
    by (simp add: map_update sys_inv_def)
  moreover have "counts (cancel_waiting t (brk s)) ((threads s)[i := Returned r])"
    using inv counts_same [of "brk s" "threads s" i "Returned r"] cancelled
    by (simp add: sys_inv_def counts_cancel)
  moreover have "reserves (bud s) ((threads s)[i := Returned r])"
    using inv reserves_same cancelled by (simp add: sys_inv_def)
  ultimately show ?thesis using sys_inv_notified cancelled by simp
next
  case (interrupted i t r)
  have "queue_inv (admit (lane_of t) (brk s)) (map ticket_of ((threads s)[i := Returned r]))"
    using queue_inv_admit [of "brk s" "map ticket_of (threads s)" i t] inv interrupted
    by (simp add: map_update sys_inv_def)
  moreover have "counts (give_back (lane_of t) (admit (lane_of t) (brk s))) ((threads s)[i := Returned r])"
    using inv counts_undone interrupted by (simp add: sys_inv_def)
  moreover have "reserves (bud s) ((threads s)[i := Returned r])"
    using inv reserves_same interrupted by (simp add: sys_inv_def)
  ultimately show ?thesis using sys_inv_notified interrupted by simp
next
  case (returned i t r)
  have "map ticket_of ((threads s)[i := Returned r]) = map ticket_of (threads s)"
    using returned by (simp add: map_same del: map_update)
  moreover have "counts (give_back (lane_of t) (brk s)) ((threads s)[i := Returned r])"
    using inv counts_give_back returned by (simp add: sys_inv_def)
  moreover have "reserves (bud s) ((threads s)[i := Returned r])"
    using inv reserves_same returned by (simp add: sys_inv_def)
  ultimately show ?thesis
    using sys_inv_notified returned inv by (simp add: sys_inv_def)
next
  case (released i r)
  then show ?thesis
    using inv reserves_released [of "bud s" "threads s" i r Idle] counts_same [of "brk s" "threads s" i Idle]
      heads_awake_other [of "brk s" "threads s" i]
    by (simp add: sys_inv_def map_same del: map_update)
next
  case (reconfigured tot limits b)
  then have same: "queues b = queues (brk s)" "next_seq b = next_seq (brk s)"
    "borrowed b = borrowed (brk s)" "borrowed_by_lane b = borrowed_by_lane (brk s)"
    "peak b = peak (brk s)" "peak_by_lane b = peak_by_lane (brk s)" "last_lane_index b = last_lane_index (brk s)"
    by (auto simp: reconfigure_def split: sum.splits if_splits)
  then show ?thesis
    using inv reconfigured sys_inv_notified [of b "threads s" s]
      broker_counts_cong [OF same(3-7)] queue_inv_cong [OF same(1,2)] by (simp add: sys_inv_def)
next
  case (committed b delta b')
  then show ?thesis
    using inv reserves_cong [of b "threads s" b'] commit_ok commit_frame [of delta b b']
    by (simp add: sys_inv_def reserves_def)
next
  case (seeded b deltas b' res)
  then show ?thesis
    using inv reserves_cong [of b "threads s" b'] seed_frame [of deltas b b' res]
    by (simp add: sys_inv_def reserves_def)
next
  case (adopted b v knob b' res)
  then show ?thesis
    using inv reserves_cong [of b "threads s" b'] adopt_frame [of v knob b b' res]
    by (simp add: sys_inv_def reserves_def)
qed

lemma new_broker_fields:
  assumes "new_broker tot limits = Inr b"
  shows "queues b = (\<lambda>_. [])" "borrowed b = 0" "borrowed_by_lane b = (\<lambda>_. 0)" "peak b = 0"
    "peak_by_lane b = (\<lambda>_. 0)" "next_seq b = 0" "last_lane_index b = 4"
  using assms by (auto simp: new_broker_def llm_lanes_def split: sum.splits)

lemma new_budget_fields:
  assumes "new_budget c t u = Inr b"
  shows "budget_ok b" "reserved_cost b = 0" "reserved_tokens b = 0" "reservations b = 0"
  using assms by (auto simp: new_budget_def budget_ok_def split: sum.splits prod.splits)

lemma start_sys_inv:
  assumes "start_sys s"
  shows "sys_inv s"
proof -
  obtain tot limits where b: "new_broker tot limits = Inr (brk s)" and idle: "\<forall>p \<in> set (threads s). p = Idle"
    and bud: "\<And>b. bud s = Some b \<Longrightarrow> \<exists>c t u. new_budget c t u = Inr b"
    using assms by (auto simp: start_sys_def split: option.splits)
  have t: "tally f (threads s) = 0" if "f Idle = 0" for f :: "pc \<Rightarrow> 'b::ab_group_add"
  proof -
    have "map f (threads s) = map (\<lambda>_. 0) (threads s)" using idle that by (metis (no_types, lifting) map_eq_conv)
    then show ?thesis by (simp only: tally_def sum_list_0)
  qed
  have none: "map ticket_of (threads s) = replicate (length (threads s)) None"
    using idle nth_mem by (fastforce intro!: nth_equalityI)
  have "counts (brk s) (threads s)"
    by (simp add: counts_def t in_flight_def in_lane_def new_broker_fields [OF b])
  moreover have "queue_inv (brk s) (map ticket_of (threads s))"
    by (simp add: none new_broker_fields [OF b] queue_inv_def)
  moreover have "reserves (bud s) (threads s)"
  proof (rule reservesI)
    show "p \<in> set (threads s) \<Longrightarrow> held_reservation p = Some r \<Longrightarrow> 0 \<le> res_cost r \<and> 0 \<le> res_tokens r" for p r
      using idle by auto
    fix b
    assume "bud s = Some b"
    from bud [OF this] show "budget_ok b \<and> reserved_cost b = tally cost_held (threads s) \<and>
        reserved_tokens b = tally tokens_held (threads s) \<and> reservations b = tally holds_one (threads s)"
      using new_budget_fields by (auto simp: t cost_held_def tokens_held_def holds_one_def)
  qed
  moreover have "heads_awake (brk s) (threads s)"
    by (auto simp: heads_awake_def next_eligible_scan find_Some_iff lane_ready_def new_broker_fields [OF b]
        split: if_splits)
  ultimately show ?thesis by (simp add: sys_inv_def)
qed

lemma reachable_inv: "llm_reachable s \<Longrightarrow> sys_inv s"
  by (induction rule: llm_reachable.induct) (auto intro: start_sys_inv llm_step_inv)

section \<open>Limits stay positive\<close>

definition limits_ok :: "broker \<Rightarrow> bool" where
  "limits_ok b \<longleftrightarrow> (\<forall>n. total_limit b = Some n \<longrightarrow> 1 \<le> n) \<and>
     (\<forall>l n. dict_get (lane_limits b) l = Some (Some n) \<longrightarrow> 1 \<le> n)"

lemma positive_limit_pos: "positive_limit v lbl = Inr (Some n) \<Longrightarrow> 1 \<le> n"
  by (auto simp: positive_limit_def split: pyval.splits if_splits)

lemma put_lane_limits_pos:
  "put_lane_limits d out = Inr ls \<Longrightarrow> (\<And>l n. dict_get out l = Some (Some n) \<Longrightarrow> 1 \<le> n) \<Longrightarrow>
    dict_get ls l = Some (Some n) \<Longrightarrow> 1 \<le> n"
proof (induction d out rule: put_lane_limits.induct)
  case (2 k v rest out)
  from "2.prems"(1) obtain m w where "lane_of_name k = Some m" "positive_limit v k = Inr w"
    "put_lane_limits rest (dict_put m w out) = Inr ls"
    by (auto split: option.splits sum.splits)
  moreover have "\<And>l n. dict_get (dict_put m w out) l = Some (Some n) \<Longrightarrow> 1 \<le> n"
    using "2.prems"(2) positive_limit_pos [of v k] calculation(2) by (auto split: if_splits)
  ultimately show ?case using "2.IH" "2.prems"(3) by blast
qed simp

lemma lane_limits_pos:
  "normalize_llm_lane_limits v = Inr ls \<Longrightarrow> dict_get ls l = Some (Some n) \<Longrightarrow> 1 \<le> n"
  by (auto simp: normalize_llm_lane_limits_def dest: put_lane_limits_pos split: pyval.splits)

lemma new_broker_limits: "new_broker tot limits = Inr b \<Longrightarrow> limits_ok b"
  by (auto simp: new_broker_def limits_ok_def dest: positive_limit_pos lane_limits_pos split: sum.splits)

lemma reconfigure_limits: "reconfigure tot limits b = Inr b' \<Longrightarrow> limits_ok b \<Longrightarrow> limits_ok b'"
  by (auto simp: reconfigure_def limits_ok_def dest: positive_limit_pos lane_limits_pos
      split: sum.splits if_splits)

lemma limits_ok_cong:
  "total_limit b' = total_limit b \<Longrightarrow> lane_limits b' = lane_limits b \<Longrightarrow> limits_ok b' = limits_ok b"
  by (simp add: limits_ok_def)

lemma limits_kept [simp]:
  "limits_ok (admit l b) = limits_ok b" "limits_ok (give_back l b) = limits_ok b"
  "limits_ok (cancel_waiting t b) = limits_ok b"
  by (rule limits_ok_cong; simp add: admit_def give_back_def cancel_waiting_def Let_def)+

lemma limits_enqueue: "enqueue l b = (t, b') \<Longrightarrow> limits_ok b' = limits_ok b"
  by (rule limits_ok_cong) (auto simp: enqueue_def Let_def)

lemma llm_step_limits: "llm_step s a s' \<Longrightarrow> limits_ok (brk s) \<Longrightarrow> limits_ok (brk s')"
proof (induction rule: llm_step.induct)
  case (reconfigured tot limits s b)
  then show ?case using reconfigure_limits by simp
qed (auto simp: evaluate_def limits_enqueue)

lemma reachable_limits: "llm_reachable s \<Longrightarrow> limits_ok (brk s)"
  by (induction rule: llm_reachable.induct) (auto simp: start_sys_def dest: new_broker_limits llm_step_limits)

section \<open>Turns of a run\<close>

text \<open>A run with the admissions it makes, in order.\<close>

inductive llm_run :: "llm_sys \<Rightarrow> (broker \<times> lane) list \<Rightarrow> llm_sys \<Rightarrow> bool" where
  run_stop: "llm_run s [] s"
| run_quiet: "llm_step s None t \<Longrightarrow> llm_run t ads u \<Longrightarrow> llm_run s ads u"
| run_admit: "llm_step s (Some ad) t \<Longrightarrow> llm_run t ads u \<Longrightarrow> llm_run s (ad # ads) u"


lemma last_kept [simp]:
  "last_lane_index (admit l b) = lane_index l" "last_lane_index (give_back l b) = last_lane_index b"
  "last_lane_index (cancel_waiting t b) = last_lane_index b"
  by (simp_all add: admit_def give_back_def cancel_waiting_def Let_def)

lemma admission_iff [simp]:
  "None = admission_of b t \<longleftrightarrow> \<not> selects b t"
  "Some ad = admission_of b t \<longleftrightarrow> selects b t \<and> ad = (b, lane_of t)"
  by (auto simp: admission_of_def)

lemma brk_evaluate:
  "brk (evaluate i t r s) = (if selects (brk s) t then admit (lane_of t) (brk s) else brk s)"
  by (simp add: evaluate_def)

lemma reconfigure_last: "reconfigure tot limits b = Inr b' \<Longrightarrow> last_lane_index b' = last_lane_index b"
  by (auto simp: reconfigure_def split: sum.splits if_splits)

lemma quiet_step_last:
  assumes "llm_step s None t"
  shows "last_lane_index (brk t) = last_lane_index (brk s)"
  using assms by cases (simp_all add: brk_evaluate enqueue_frame(3) reconfigure_last)

lemma admitting_step_last:
  assumes "llm_step s (Some (b, l)) t"
  shows "last_lane_index b = last_lane_index (brk s) \<and> next_eligible_lane b = Some l \<and>
    last_lane_index (brk t) = lane_index l"
  using assms
proof cases
  case (arrive i l r t b)
  then show ?thesis by (simp add: brk_evaluate selects_def enqueue_frame(3))
next
  case (arrive_interrupted i r t)
  then show ?thesis by (simp add: selects_def enqueue_frame(1,3))
next
  case (wake i t r)
  then show ?thesis by (simp add: brk_evaluate selects_def)
next
  case (interrupted i t r)
  then show ?thesis by (simp add: selects_def)
qed

lemma run_turns:
  "llm_run s ads u \<Longrightarrow> llm_reachable s \<Longrightarrow> lanes.turns (last_lane_index (brk s)) ads"
proof (induction rule: llm_run.induct)
  case (run_stop s)
  then show ?case using reachable_inv by (simp add: sys_inv_def counts_def)
next
  case (run_quiet s t ads u)
  then show ?case using quiet_step_last reach_step by metis
next
  case (run_admit s ad t ads u)
  have "last_lane_index (brk s) < 5"
    using reachable_inv [OF run_admit.prems] by (simp add: sys_inv_def counts_def)
  moreover obtain b l where "ad = (b, l)" by (cases ad)
  ultimately show ?case
    using run_admit admitting_step_last [of s b l t] reach_step by (metis lanes.turns.simps(2))
qed

end
