(* ===== verification/LlmExamples.thy ===== *)
theory LlmExamples
  imports LlmReach
begin

text \<open>
  A small run of the admission system: a total of one permit, a budget of ten dollars with one
  call of half a dollar behind it, and three threads of different lanes. The first holds the
  permit, the others wait; when it returns, \<open>enrichment\<close> goes before \<open>build\<close>.
\<close>

definition demo_broker :: broker where
  "demo_broker = \<lparr>total_limit = Some 1, lane_limits = [], queues = (\<lambda>_. []), borrowed = 0,
     borrowed_by_lane = (\<lambda>_. 0), peak = 0, peak_by_lane = (\<lambda>_. 0), next_seq = 0, last_lane_index = 4\<rparr>"

definition demo_budget :: run_budget where
  "demo_budget = \<lparr>cost_limit = Some 10, cost_knob = ''llm_budget_usd'', token_limit = None,
     committed_cost = 0, committed_tokens = 0, committed_calls = 0, priced_calls = 0, reserved_cost = 0,
     reserved_tokens = 0, reservations = 0, refusals = 0, seeded = False\<rparr>"

definition demo_row :: payload where
  "demo_row = [(''cost'', PFloat (Fin (1/2))), (''total_tokens'', PInt 100), (''calls'', PInt 1),
     (''priced_calls'', PInt 1)]"

definition demo_paid :: run_budget where
  "demo_paid = demo_budget\<lparr>committed_cost := 1/2, committed_tokens := 100, committed_calls := 1,
     priced_calls := 1\<rparr>"

definition demo_res :: reservation where
  "demo_res = \<lparr>res_cost = 1/2, res_tokens = 100\<rparr>"

definition demo_idle :: llm_sys where
  "demo_idle = \<lparr>brk = demo_broker, bud = Some demo_budget, threads = [Idle, Idle, Idle]\<rparr>"

definition demo_ready :: llm_sys where
  "demo_ready = demo_idle\<lparr>bud := Some (hold (hold (hold demo_paid demo_res) demo_res) demo_res),
     threads := [Reserved DeepResearch (Some demo_res), Reserved Build (Some demo_res),
                 Reserved Enrichment (Some demo_res)]\<rparr>"

definition arrive_at :: "nat \<Rightarrow> lane \<Rightarrow> llm_sys \<Rightarrow> llm_sys" where
  "arrive_at i l s = (let (t, b) = enqueue l (brk s) in evaluate i t (Some demo_res) (s\<lparr>brk := b\<rparr>))"

definition demo_queued :: llm_sys where
  "demo_queued = arrive_at 2 Enrichment (arrive_at 1 Build (arrive_at 0 DeepResearch demo_ready))"

definition demo_ticket :: "nat \<Rightarrow> lane \<Rightarrow> ticket" where
  "demo_ticket n l = \<lparr>seq = n, lane_of = l\<rparr>"

definition demo_freed :: llm_sys where
  "demo_freed = demo_queued\<lparr>brk := give_back DeepResearch (brk demo_queued),
     threads := notify_all ((threads demo_queued)[0 := Returned (Some demo_res)])\<rparr>"

definition demo_served :: llm_sys where
  "demo_served = evaluate 2 (demo_ticket 2 Enrichment) (Some demo_res) demo_freed"

lemma demo_commit: "commit demo_row demo_budget = Inr demo_paid"
  by code_simp

lemma demo_reserve:
  "reserve demo_paid = (hold demo_paid demo_res, Inr (Some demo_res))"
  "reserve (hold demo_paid demo_res) = (hold (hold demo_paid demo_res) demo_res, Inr (Some demo_res))"
  "reserve (hold (hold demo_paid demo_res) demo_res) =
     (hold (hold (hold demo_paid demo_res) demo_res) demo_res, Inr (Some demo_res))"
  by code_simp+

lemma demo_start: "start_sys demo_idle"
proof -
  have "new_broker (PInt 1) PNone = Inr demo_broker"
    by (simp add: new_broker_def positive_limit_def normalize_llm_lane_limits_def demo_broker_def llm_lanes_def)
  moreover have "new_budget PNone PNone (PInt 10) = Inr demo_budget"
    by code_simp
  ultimately show ?thesis by (auto simp: start_sys_def demo_idle_def)
qed

lemma lane_name_roundtrip: "normalize_llm_lane (PStr (lane_name l)) = l"
  by (cases l; simp only:; code_simp)

lemma lane_of_demo [simp]: "lane_of (demo_ticket n l) = l"
  by (simp add: demo_ticket_def)

lemma reserve_step:
  assumes "llm_reachable s" and "i < length (threads s)" "threads s ! i = Idle"
    and "bud s = Some b" "reserve b = (b', Inr r)"
  shows "llm_reachable (s\<lparr>bud := Some b', threads := (threads s)[i := Reserved l r]\<rparr>)"
proof -
  have "llm_step s None (s\<lparr>bud := Some b', threads := (threads s)[i := Reserved (normalize_llm_lane (PStr (lane_name l))) r]\<rparr>)"
    by (rule llm_step.reserve_held) (use assms in \<open>simp_all add: reserve_opt_def\<close>)
  then show ?thesis using assms(1) reach_step by (simp add: lane_name_roundtrip)
qed

lemma arrive_step:
  assumes "llm_reachable s" and "i < length (threads s)" "threads s ! i = Reserved l (Some demo_res)"
  shows "llm_reachable (arrive_at i l s)"
proof -
  obtain t b where e: "enqueue l (brk s) = (t, b)" by (cases "enqueue l (brk s)")
  show ?thesis
    using reach_step [OF assms(1) llm_step.arrive [OF assms(2,3) e]] by (simp add: arrive_at_def e)
qed

lemma demo_ready_reachable: "llm_reachable demo_ready"
proof -
  have "llm_step demo_idle None (demo_idle\<lparr>bud := Some demo_paid\<rparr>)"
    by (rule llm_step.committed [of _ demo_budget demo_row]) (simp_all add: demo_idle_def demo_commit)
  then have "llm_reachable (demo_idle\<lparr>bud := Some demo_paid\<rparr>)"
    using reach_step reach_start [OF demo_start] by blast
  from reserve_step [OF this, of 0 demo_paid _ _ DeepResearch]
  have "llm_reachable (demo_idle\<lparr>bud := Some (hold demo_paid demo_res),
      threads := [Reserved DeepResearch (Some demo_res), Idle, Idle]\<rparr>)"
    by (simp add: demo_idle_def demo_reserve)
  from reserve_step [OF this, of 1 "hold demo_paid demo_res" _ _ Build]
  have "llm_reachable (demo_idle\<lparr>bud := Some (hold (hold demo_paid demo_res) demo_res),
      threads := [Reserved DeepResearch (Some demo_res), Reserved Build (Some demo_res), Idle]\<rparr>)"
    by (simp add: demo_idle_def demo_reserve)
  from reserve_step [OF this, of 2 "hold (hold demo_paid demo_res) demo_res" _ _ Enrichment]
  show ?thesis by (simp add: demo_ready_def demo_idle_def demo_reserve)
qed

lemma demo_threads:
  "threads (arrive_at 0 DeepResearch demo_ready) = [Holding (demo_ticket 0 DeepResearch) (Some demo_res),
     Reserved Build (Some demo_res), Reserved Enrichment (Some demo_res)]"
  "threads (arrive_at 1 Build (arrive_at 0 DeepResearch demo_ready)) =
     [Holding (demo_ticket 0 DeepResearch) (Some demo_res),
     Waiting (demo_ticket 1 Build) (Some demo_res) False, Reserved Enrichment (Some demo_res)]"
  "threads demo_queued = [Holding (demo_ticket 0 DeepResearch) (Some demo_res),
     Waiting (demo_ticket 1 Build) (Some demo_res) False,
     Waiting (demo_ticket 2 Enrichment) (Some demo_res) False]"
  by code_simp+

lemma demo_queued_reachable: "llm_reachable demo_queued"
proof -
  have "llm_reachable (arrive_at 0 DeepResearch demo_ready)"
    by (rule arrive_step [OF demo_ready_reachable]) (simp_all add: demo_ready_def demo_idle_def)
  then have "llm_reachable (arrive_at 1 Build (arrive_at 0 DeepResearch demo_ready))"
    by (rule arrive_step) (simp_all only: demo_threads, simp_all)
  then show ?thesis
    unfolding demo_queued_def by (rule arrive_step) (simp_all only: demo_threads, simp_all)
qed

lemma demo_freed_reachable: "llm_reachable demo_freed"
proof -
  have "llm_step demo_queued None demo_freed"
    using llm_step.returned [of 0 demo_queued "demo_ticket 0 DeepResearch" "Some demo_res"]
    by (simp add: demo_freed_def demo_threads)
  then show ?thesis using demo_queued_reachable reach_step by blast
qed

lemma demo_freed_state:
  "threads demo_freed = [Returned (Some demo_res), Waiting (demo_ticket 1 Build) (Some demo_res) True,
     Waiting (demo_ticket 2 Enrichment) (Some demo_res) True]"
  "selects (brk demo_freed) (demo_ticket 2 Enrichment)"
  "lane_ready (brk demo_freed) Build"
  by code_simp+

lemma demo_served_step: "llm_step demo_freed (Some (brk demo_freed, Enrichment)) demo_served"
  using llm_step.wake [of 2 demo_freed "demo_ticket 2 Enrichment" "Some demo_res"]
  by (simp add: demo_served_def demo_freed_state admission_of_def)

end
