(* ===== verification/LlmProps.thy ===== *)
theory LlmProps
  imports LlmExamples
begin

text \<open>
  What callers of \<open>borrow\<close> rely on, over every interleaving of threads, releases, cancellations
  and limit changes, and what the run's budget promises them.
\<close>

section \<open>Shared facts\<close>

lemma tally_in_flight: "tally in_flight ts = int (length (filter (\<lambda>p. held_lane p \<noteq> None) ts))"
  by (induction ts) (auto simp: tally_def in_flight_def)

lemma tally_in_lane: "tally (in_lane l) ts = int (length (filter (\<lambda>p. held_lane p = Some l) ts))"
  by (induction ts) (auto simp: tally_def in_lane_def)

lemma reachable_counts: "llm_reachable s \<Longrightarrow> counts (brk s) (threads s)"
  using reachable_inv by (simp add: sys_inv_def)

lemma reachable_queue: "llm_reachable s \<Longrightarrow> queue_inv (brk s) (map ticket_of (threads s))"
  using reachable_inv by (simp add: sys_inv_def)

lemma admit_fields [simp]:
  "total_limit (admit l b) = total_limit b" "lane_limits (admit l b) = lane_limits b"
  "borrowed (admit l b) = borrowed b + 1" "borrowed_by_lane (admit l b) l = borrowed_by_lane b l + 1"
  by (simp_all add: admit_def Let_def)

lemma give_back_fields [simp]:
  "total_limit (give_back l b) = total_limit b" "lane_limits (give_back l b) = lane_limits b"
  "borrowed (give_back l b) = borrowed b - 1" "borrowed_by_lane (give_back l b) l = borrowed_by_lane b l - 1"
  by (simp_all add: give_back_def)

lemma enqueue_fields:
  assumes "enqueue l b = (t, b')"
  shows "borrowed b' = borrowed b" "borrowed_by_lane b' = borrowed_by_lane b"
    "u \<in> set (queues b m) \<Longrightarrow> u \<in> set (queues b' m)"
  using assms by (auto simp: enqueue_def Let_def)

text \<open>The broker an admission is decided on: the current one, after the queueing of the arrival.\<close>

lemma admitting_step_cases:
  assumes "llm_step s (Some (b, l)) s'"
  obtains t where "selects b t" "lane_of t = l"
    "total_limit (brk s') = total_limit b" "lane_limits (brk s') = lane_limits b"
    "borrowed (brk s') \<le> borrowed b + 1" "borrowed_by_lane (brk s') l \<le> borrowed_by_lane b l + 1"
    "\<And>m u. u \<in> set (queues (brk s) m) \<Longrightarrow> u \<in> set (queues b m)"
  using assms
proof cases
  case (arrive i m r t c)
  then show ?thesis
    by (intro that [of t]) (auto simp: brk_evaluate dest: enqueue_fields(3))
next
  case (arrive_interrupted i r t)
  then show ?thesis
    using enqueue_frame(1) [OF arrive_interrupted(4)]
    by (intro that [of t]) (auto dest: enqueue_fields(3))
next
  case (wake i t r)
  then show ?thesis by (intro that [of t]) (auto simp: brk_evaluate)
next
  case (interrupted i t r)
  then show ?thesis by (intro that [of t]) auto
qed

lemma admitting_queue:
  assumes "llm_reachable s" and "llm_step s (Some (b, l)) s'"
  shows "sorted_wrt (<) (map seq (queues b l))"
  using assms(2)
proof cases
  case (arrive i m r t c)
  have "queue_inv c ((map ticket_of (threads s))[i := Some t])"
    by (rule queue_inv_enqueue [OF reachable_queue [OF assms(1)] _ _ arrive(5)]) (use arrive in auto)
  then show ?thesis using arrive queue_invD(5) by auto
next
  case (arrive_interrupted i r t)
  have "queue_inv b ((map ticket_of (threads s))[i := Some t])"
    by (rule queue_inv_enqueue [OF reachable_queue [OF assms(1)] _ _ arrive_interrupted(4)])
      (use arrive_interrupted in auto)
  then show ?thesis using queue_invD(5) by auto
qed (use queue_invD(5) [OF reachable_queue [OF assms(1)]] in auto)

lemma ready_head_awake:
  assumes "llm_reachable s" and "lane_ready (brk s) l"
  shows "\<exists>i < length (threads s). \<exists>t r. threads s ! i = Waiting t r True \<and> selects (brk s) t"
proof -
  have "last_lane_index (brk s) < 5" using reachable_counts [OF assms(1)] by (simp add: counts_def)
  then obtain m where "next_eligible_lane (brk s) = Some m" using lanes.pick_some assms(2) by blast
  then show ?thesis
    using reachable_inv [OF assms(1)] by (auto simp: sys_inv_def heads_awake_def)
qed

lemma awake_head_admitted:
  assumes "i < length (threads s)" "threads s ! i = Waiting t r True" "selects (brk s) t"
  shows "llm_step s (Some (brk s, lane_of t)) (evaluate i t r s)"
  using llm_step.wake [OF assms(1,2)] assms(3) by (simp add: admission_of_def)

section \<open>Admission\<close>

text \<open>C39. A permit is granted only within the limits: right after an admission, of any lane and in
  any reachable state (also after limits were lowered below what is in flight), the number of
  threads that hold a permit is at most the total limit, and the number of those in the admitted
  lane at most the limit of that lane.\<close>

theorem admission_within_limits:
  assumes "llm_reachable s" and "llm_step s (Some (b, l)) s'"
  shows "(\<forall>n. total_limit (brk s') = Some n \<longrightarrow>
            int (length (filter (\<lambda>p. held_lane p \<noteq> None) (threads s'))) \<le> n) \<and>
         (\<forall>n. dict_get (lane_limits (brk s')) l = Some (Some n) \<longrightarrow>
            int (length (filter (\<lambda>p. held_lane p = Some l) (threads s'))) \<le> n)"
proof -
  obtain t where t: "selects b t" "total_limit (brk s') = total_limit b" "lane_limits (brk s') = lane_limits b"
    "borrowed (brk s') \<le> borrowed b + 1" "borrowed_by_lane (brk s') l \<le> borrowed_by_lane b l + 1"
    using admitting_step_cases [OF assms(2)] by metis
  have "last_lane_index b < 5"
    using admitting_step_last [OF assms(2)] reachable_counts [OF assms(1)] by (simp add: counts_def)
  then have "lane_ready b l" using lanes.pick_ready admitting_step_last [OF assms(2)] by blast
  moreover have "counts (brk s') (threads s')"
    using reachable_counts reach_step [OF assms] by blast
  ultimately show ?thesis
    using t by (auto simp: lane_ready_def has_capacity_def total_full_def counts_def tally_in_flight
        tally_in_lane split: option.splits)
qed

theorem admission_within_limits_witness:
  "\<exists>s b l s'. llm_step s (Some (b, l)) s' \<and> total_limit (brk s') = Some 1 \<and>
     int (length (filter (\<lambda>p. held_lane p \<noteq> None) (threads s'))) \<le> 1"
proof -
  have "total_limit (brk demo_served) = Some 1" by code_simp
  then show ?thesis
    using admission_within_limits [OF demo_freed_reachable demo_served_step] demo_served_step by blast
qed

text \<open>Within a lane permits go in the order of arrival: the ticket an admission takes was issued
  before that of every other thread that waits in the lane, whatever cancellations, wake-ups and
  limit changes came before.\<close>

theorem lane_served_in_order:
  assumes "llm_reachable s" and "llm_step s (Some (b, l)) s'"
    and "Waiting u r w \<in> set (threads s)" and "lane_of u = l"
  shows "\<exists>t rest. queues b l = t # rest \<and> selects b t \<and> u \<in> set (queues b l) \<and> seq t \<le> seq u"
proof -
  obtain t where t: "selects b t" "lane_of t = l"
    and keep: "\<And>m u. u \<in> set (queues (brk s) m) \<Longrightarrow> u \<in> set (queues b m)"
    using admitting_step_cases [OF assms(2)] by metis
  obtain rest where rest: "queues b l = t # rest" using selects_queue [OF t(1)] t(2) by auto
  obtain i where "i < length (threads s)" "threads s ! i = Waiting u r w"
    using assms(3) by (metis in_set_conv_nth)
  then have u: "u \<in> set (queues b l)"
    using queue_invD(1) [OF reachable_queue [OF assms(1)], of i u] keep assms(4) by auto
  have "\<forall>v \<in> set rest. seq t < seq v"
    using admitting_queue [OF assms(1,2)] rest by simp
  then have "seq t \<le> seq u" using u rest by auto
  then show ?thesis using t rest u by blast
qed

theorem lane_served_in_order_witness:
  "\<exists>s b s'. llm_step s (Some (b, Enrichment)) s' \<and>
     (\<exists>t rest. queues b Enrichment = t # rest \<and> seq t \<le> 2)"
  using lane_served_in_order [OF demo_freed_reachable demo_served_step, of "demo_ticket 2 Enrichment" "Some demo_res" True]
    demo_served_step
  by (auto simp: demo_freed_state demo_ticket_def)

text \<open>C38. No wake-up is lost: whenever some lane has a waiter and room, the thread whose turn it is
  has been notified and its next turn of the wait loop admits it.\<close>

theorem no_lost_wakeup:
  assumes "llm_reachable s" and "lane_ready (brk s) l"
  shows "\<exists>i < length (threads s). \<exists>t r. threads s ! i = Waiting t r True \<and>
    llm_step s (Some (brk s, lane_of t)) (evaluate i t r s) \<and> threads (evaluate i t r s) ! i = Holding t r"
  using ready_head_awake [OF assms] awake_head_admitted by (force simp: evaluate_def)

theorem no_lost_wakeup_witness:
  "\<exists>i < length (threads demo_freed). \<exists>t r. threads demo_freed ! i = Waiting t r True \<and>
    llm_step demo_freed (Some (brk demo_freed, lane_of t)) (evaluate i t r demo_freed) \<and>
    threads (evaluate i t r demo_freed) ! i = Holding t r"
  by (rule no_lost_wakeup [OF demo_freed_reachable demo_freed_state(3)])

text \<open>The broker cannot deadlock: while a thread waits and none holds a permit, some waiting
  thread can be admitted. Limits are validated to be positive, so this survives every
  reconfiguration and cancellation.\<close>

theorem no_deadlock:
  assumes "llm_reachable s" and "Waiting t r w \<in> set (threads s)"
    and "\<forall>p \<in> set (threads s). held_lane p = None"
  shows "\<exists>i u q. i < length (threads s) \<and> threads s ! i = Waiting u q True \<and>
    llm_step s (Some (brk s, lane_of u)) (evaluate i u q s)"
proof -
  have c: "borrowed (brk s) = 0" "borrowed_by_lane (brk s) l = 0" for l
    using reachable_counts [OF assms(1)] assms(3)
    by (auto simp: counts_def tally_in_flight tally_in_lane filter_empty_conv)
  obtain i where "i < length (threads s)" "threads s ! i = Waiting t r w"
    using assms(2) by (metis in_set_conv_nth)
  then have "t \<in> set (queues (brk s) (lane_of t))"
    using queue_invD(1) [OF reachable_queue [OF assms(1)], of i t] by simp
  then have "lane_ready (brk s) (lane_of t)"
    using reachable_limits [OF assms(1)] c
    by (fastforce simp: lane_ready_def has_capacity_def total_full_def limits_ok_def split: option.splits)
  from ready_head_awake [OF assms(1) this] show ?thesis using awake_head_admitted by blast
qed

theorem no_deadlock_witness:
  "\<exists>i u q. i < length (threads demo_freed) \<and> threads demo_freed ! i = Waiting u q True \<and>
    llm_step demo_freed (Some (brk demo_freed, lane_of u)) (evaluate i u q demo_freed)"
  by (rule no_deadlock [OF demo_freed_reachable, of "demo_ticket 1 Build" "Some demo_res" True])
    (simp_all add: demo_freed_state)

text \<open>C37. Bypass is bounded: in any run during which a lane had a waiter and room each time another
  lane was admitted, at most four other admissions happened. A permanent backlog of builds
  cannot starve a background lane.\<close>

theorem bounded_bypass:
  assumes "llm_reachable s" and "llm_run s ads s'"
    and "\<forall>(b, l) \<in> set ads. lane_ready b m \<and> l \<noteq> m"
  shows "length ads \<le> 4"
proof -
  have "length ads < 5"
    using lanes.served_within_a_round [OF run_turns [OF assms(2,1)], of m] assms(3) by blast
  then show ?thesis by simp
qed

theorem bounded_bypass_witness:
  "llm_run demo_freed [(brk demo_freed, Enrichment)] demo_served \<and>
   length [(brk demo_freed, Enrichment)] \<le> 4"
proof
  show r: "llm_run demo_freed [(brk demo_freed, Enrichment)] demo_served"
    using run_admit [OF demo_served_step run_stop] .
  show "length [(brk demo_freed, Enrichment)] \<le> 4"
    by (rule bounded_bypass [OF demo_freed_reachable r, of Build]) (simp add: demo_freed_state)
qed

section \<open>The budget\<close>



text \<open>An accepted reservation fits: afterwards what is committed plus everything reserved, this
  call included, is within both caps, and the caps are not already spent. A refused one leaves
  the budget as it was but for the refusal count, and is refused only when one of the caps would
  be crossed.\<close>

theorem reserve_within_caps:
  assumes "reserve b = (b', res)"
  shows "case res of
      Inr (Some r) \<Rightarrow> b' = hold b r \<and>
        (\<forall>l. cost_limit b = Some l \<longrightarrow> committed_cost b < l \<and> committed_cost b' + reserved_cost b' \<le> l) \<and>
        (\<forall>l. token_limit b = Some l \<longrightarrow> committed_tokens b < l \<and> committed_tokens b' + reserved_tokens b' \<le> l)
    | Inr None \<Rightarrow> b' = b \<and> cost_limit b = None \<and> token_limit b = None
    | Inl e \<Rightarrow> b' = b\<lparr>refusals := refusals b + 1\<rparr> \<and>
        ((\<exists>l. cost_limit b = Some l \<and>
            (l \<le> committed_cost b \<or> l < committed_cost b + reserved_cost b + fst (estimate b))) \<or>
         (\<exists>l. token_limit b = Some l \<and>
            (l \<le> committed_tokens b \<or> l < committed_tokens b + reserved_tokens b + snd (estimate b))))"
  using assms
proof (cases b rule: reserve_cases)
  case off
  then show ?thesis using assms by (simp add: budget_enabled_def)
next
  case (refused e)
  then show ?thesis
    using assms by (auto simp: cost_refused_def tokens_refused_def split: option.splits)
next
  case (held r)
  then show ?thesis
    using assms by (auto simp: cost_refused_def tokens_refused_def hold_def split: option.splits)
qed

theorem reserve_within_caps_witness:
  "reserve demo_paid = (hold demo_paid demo_res, Inr (Some demo_res)) \<and>
   committed_cost (hold demo_paid demo_res) + reserved_cost (hold demo_paid demo_res) \<le> 10"
  using reserve_within_caps [OF demo_reserve(1)] demo_reserve(1)
  by (simp add: demo_paid_def demo_budget_def hold_def)

text \<open>The run has one ceiling and it is the tightest declared: the effective cap is declared by
  the knob it is named after, no declared cap is below it, it is absent only when neither knob
  declares one, and a tie names llm_budget_usd.\<close>

theorem ceiling_is_tightest:
  assumes "run_usd_ceiling c u = Inr (lowest, knob)"
  shows "case lowest of
      None \<Rightarrow> cap c = Inr None \<and> cap u = Inr None \<and> knob = ''''
    | Some x \<Rightarrow> 0 < x \<and>
        (knob = ''llm_budget_usd'' \<and> cap u = Inr (Some x) \<and> (\<forall>y. cap c = Inr (Some y) \<longrightarrow> x \<le> y) \<or>
         knob = ''llm_cost_limit'' \<and> cap c = Inr (Some x) \<and> (\<forall>y. cap u = Inr (Some y) \<longrightarrow> x < y))"
  using assms cap_pos
  by (auto simp: run_usd_ceiling_def default_cost_knob_def Let_def py_min_by_def
      split: sum.splits option.splits if_splits)

theorem ceiling_is_tightest_witness:
  "run_usd_ceiling (PInt 3) (PInt 5) = Inr (Some 3, ''llm_cost_limit'') \<and> (0 :: real) < 3"
proof -
  have e: "run_usd_ceiling (PInt 3) (PInt 5) = Inr (Some 3, ''llm_cost_limit'')" by code_simp
  from ceiling_is_tightest [OF e] show ?thesis using e by simp
qed

end
