(* ===== verification/JsonLines.thy ===== *)
theory JsonLines
  imports PyValue
begin

text \<open>
  \<open>core/jsonlio.py\<close>: files of newline-terminated JSON records. A file's content is a sequence of
  bytes (characters below 256). The JSON parser and printer (\<open>orjson\<close>) are parameters, gathered
  in a \<open>json\<close> record; what the readers rely on is stated per value in \<open>json_line\<close>.
\<close>

section \<open>Lines\<close>

type_synonym bytes = string

definition newline :: char where
  "newline = CHR 0x0A"

definition bytes_space :: "char \<Rightarrow> bool" where
  "bytes_space c \<longleftrightarrow> c = CHR '' '' \<or> (let n = (of_char c :: nat) in 9 \<le> n \<and> n \<le> 13)"

definition bytes_strip :: "bytes \<Rightarrow> bytes" where
  "bytes_strip s = rev (dropWhile bytes_space (rev (dropWhile bytes_space s)))"

text \<open>\<open>buf.split(b"\n")\<close>: one piece more than there are newlines.\<close>

fun split_lines :: "bytes \<Rightarrow> bytes list" where
  "split_lines [] = [[]]"
| "split_lines (c # cs) = (if c = newline then [] # split_lines cs
     else (case split_lines cs of l # ls \<Rightarrow> (c # l) # ls | [] \<Rightarrow> [[c]]))"

definition join_lines :: "bytes list \<Rightarrow> bytes" where
  "join_lines ls = concat (map (\<lambda>l. l @ [newline]) ls)"

definition complete_lines :: "bytes \<Rightarrow> bytes list" where
  "complete_lines buf = butlast (split_lines buf)"

definition torn_tail :: "bytes \<Rightarrow> bytes" where
  "torn_tail buf = last (split_lines buf)"

section \<open>Records\<close>

record json =
  loads :: "bytes \<Rightarrow> pyval option"
  dumps :: "pyval \<Rightarrow> bytes"

datatype decoded_line = Blank | Invalid | Object payload

definition decode_jsonl_line :: "json \<Rightarrow> bytes \<Rightarrow> decoded_line" where
  "decode_jsonl_line j raw = (let line = bytes_strip raw in
     if line = [] then Blank
     else (case loads j line of Some (PDict d) \<Rightarrow> Object d | _ \<Rightarrow> Invalid))"

text \<open>\<open>scan_jsonl_region\<close> stops at the first invalid or unterminated line and says where; blank
  lines are consumed.\<close>

fun scan_lines :: "json \<Rightarrow> nat \<Rightarrow> bytes list \<Rightarrow> (payload \<times> nat \<times> nat) list \<times> nat" where
  "scan_lines j i [] = ([], i)"
| "scan_lines j i (l # ls) = (case decode_jsonl_line j l of
       Invalid \<Rightarrow> ([], i)
     | Blank \<Rightarrow> scan_lines j (i + length l + 1) ls
     | Object d \<Rightarrow> (let (rs, consumed) = scan_lines j (i + length l + 1) ls
                    in ((d, i, i + length l) # rs, consumed)))"

definition scan_jsonl_region :: "json \<Rightarrow> bytes \<Rightarrow> (payload \<times> nat \<times> nat) list \<times> nat" where
  "scan_jsonl_region j buf = scan_lines j 0 (complete_lines buf)"

fun iter_lines :: "json \<Rightarrow> bytes list \<Rightarrow> payload list" where
  "iter_lines j [] = []"
| "iter_lines j (l # ls) = (case decode_jsonl_line j l of
       Invalid \<Rightarrow> []
     | Blank \<Rightarrow> iter_lines j ls
     | Object d \<Rightarrow> d # iter_lines j ls)"

definition iter_jsonl :: "json \<Rightarrow> bytes option \<Rightarrow> payload list" where
  "iter_jsonl j file = (case file of None \<Rightarrow> [] | Some buf \<Rightarrow> iter_lines j (complete_lines buf))"

definition dump_line :: "json \<Rightarrow> pyval \<Rightarrow> bytes" where
  "dump_line j v = dumps j v @ [newline]"

definition write_jsonl_atomic :: "json \<Rightarrow> pyval list \<Rightarrow> bytes" where
  "write_jsonl_atomic j rows = concat (map (dump_line j) rows)"

text \<open>The rewrite of a mutable store that keeps every line it cannot read byte for byte. The
  decoding of the line as UTF-8 is part of \<open>loads\<close>.\<close>

definition retained_lines :: "json \<Rightarrow> (payload \<Rightarrow> bool) \<Rightarrow> bytes \<Rightarrow> bytes list" where
  "retained_lines j replace_if buf = filter (\<lambda>raw. bytes_strip raw \<noteq> [] \<and>
     (case loads j raw of Some (PDict d) \<Rightarrow> \<not> replace_if d | _ \<Rightarrow> True)) (split_lines buf)"

definition replace_jsonl_rows :: "json \<Rightarrow> (payload \<Rightarrow> bool) \<Rightarrow> pyval list \<Rightarrow> bytes option \<Rightarrow> bytes" where
  "replace_jsonl_rows j replace_if rows file =
     join_lines ((case file of None \<Rightarrow> [] | Some buf \<Rightarrow> retained_lines j replace_if buf) @ map (dumps j) rows)"

section \<open>What a printed value keeps\<close>

text \<open>The documented behaviour of the printer and parser on one value: no newline in the text, no
  blank around it, and reading gives the value back.\<close>

definition json_line :: "json \<Rightarrow> pyval \<Rightarrow> bool" where
  "json_line j v \<longleftrightarrow> loads j (dumps j v) = Some v \<and> newline \<notin> set (dumps j v) \<and>
     bytes_strip (dumps j v) = dumps j v \<and> dumps j v \<noteq> []"

lemma decode_dumped: "json_line j (PDict d) \<Longrightarrow> decode_jsonl_line j (dumps j (PDict d)) = Object d"
  by (simp add: json_line_def decode_jsonl_line_def)

section \<open>Splitting and joining\<close>

lemma split_lines_not_Nil [simp]: "split_lines buf \<noteq> []"
  by (cases buf) (auto split: list.splits)

lemma split_lines_line [simp]: "newline \<notin> set l \<Longrightarrow> split_lines l = [l]"
  by (induction l) auto

lemma split_lines_append_newline:
  "newline \<notin> set l \<Longrightarrow> split_lines (l @ newline # rest) = l # split_lines rest"
  by (induction l) auto

lemma split_join: "\<forall>l \<in> set ls. newline \<notin> set l \<Longrightarrow> newline \<notin> set t \<Longrightarrow>
    split_lines (join_lines ls @ t) = ls @ [t]"
  by (induction ls) (simp_all add: join_lines_def split_lines_append_newline)

lemma split_lines_clean: "l \<in> set (split_lines buf) \<Longrightarrow> newline \<notin> set l"
  by (induction buf arbitrary: l) (auto split: list.splits if_splits)

lemma complete_lines_clean: "l \<in> set (complete_lines buf) \<Longrightarrow> newline \<notin> set l"
  by (auto simp: complete_lines_def dest: in_set_butlastD split_lines_clean)

lemma torn_tail_clean [simp]: "newline \<notin> set (torn_tail buf)"
  using split_lines_clean [OF last_in_set [OF split_lines_not_Nil [of buf]]] by (simp add: torn_tail_def)

lemma join_split: "join_lines (complete_lines buf) @ torn_tail buf = buf"
proof (induction buf)
  case (Cons c cs)
  then show ?case
    by (cases "split_lines cs") (auto simp: complete_lines_def torn_tail_def join_lines_def split: if_splits)
qed (simp add: complete_lines_def torn_tail_def join_lines_def)

lemma split_unique:
  assumes "\<forall>l \<in> set ls. newline \<notin> set l" "newline \<notin> set t"
  shows "complete_lines (join_lines ls @ t) = ls" and "torn_tail (join_lines ls @ t) = t"
  using split_join [OF assms] by (simp_all add: complete_lines_def torn_tail_def)

lemma join_lines_append [simp]: "join_lines (xs @ ys) = join_lines xs @ join_lines ys"
  by (simp add: join_lines_def)

lemma join_lines_Nil [simp]: "join_lines [] = []"
  by (simp add: join_lines_def)

lemma join_lines_Cons [simp]: "join_lines (l # ls) = l @ newline # join_lines ls"
  by (simp add: join_lines_def)

text \<open>More bytes after a newline boundary only add lines.\<close>

lemma complete_lines_append:
  assumes "torn_tail a = []"
  shows "complete_lines (a @ b) = complete_lines a @ complete_lines b" and "torn_tail (a @ b) = torn_tail b"
proof -
  have "a @ b = join_lines (complete_lines a @ complete_lines b) @ torn_tail b"
    using join_split [of a] join_split [of b] assms by simp
  then show "complete_lines (a @ b) = complete_lines a @ complete_lines b" and "torn_tail (a @ b) = torn_tail b"
    using split_unique [of "complete_lines a @ complete_lines b" "torn_tail b"] complete_lines_clean by auto
qed

lemma complete_lines_join: "\<forall>l \<in> set ls. newline \<notin> set l \<Longrightarrow> complete_lines (join_lines ls) = ls"
  and torn_tail_join: "\<forall>l \<in> set ls. newline \<notin> set l \<Longrightarrow> torn_tail (join_lines ls) = []"
  using split_unique [of ls "[]"] by simp_all

lemma complete_lines_write:
  assumes "\<forall>v \<in> set rows. json_line j v"
  shows "complete_lines (write_jsonl_atomic j rows) = map (dumps j) rows"
proof -
  have "write_jsonl_atomic j rows = join_lines (map (dumps j) rows)"
    by (simp add: write_jsonl_atomic_def join_lines_def dump_line_def [abs_def] comp_def)
  then show ?thesis using assms by (simp add: complete_lines_join json_line_def)
qed

lemma scan_lines_consumed:
  "scan_lines j i ls = (rs, k) \<Longrightarrow> i \<le> k \<and> k \<le> i + length (join_lines ls)"
proof (induction ls arbitrary: i rs k)
  case (Cons l ls)
  then show ?case
    by (force split: decoded_line.splits prod.splits)
qed simp

end
