(* ===== verification/EventRows.thy ===== *)
theory EventRows
  imports JsonLines Models "HOL-Library.Char_ord"
begin

text \<open>
  The rows of an event log (\<open>events/eventstore.py\<close>, the functions outside the class): the envelope
  of an event, the crash-atomic batch envelope, the dense-sequence rule, and what a reader makes of
  a whole file. Pydantic's validation of one envelope is the parameter \<open>validate\<close>.
\<close>

section \<open>Envelopes\<close>

record row = event +
  r_v :: int
  r_trace :: "string option"
  r_span :: "string option"

record codec = json +
  validate :: "bool \<Rightarrow> payload \<Rightarrow> row option"

definition event_batch_type :: string where
  "event_batch_type = ''__looplab_event_batch_v1__''"

definition event_batch_schema :: string where
  "event_batch_schema = ''looplab.event-batch/v1''"

definition event_batch_guard :: pyval where
  "event_batch_guard = PList [PStr event_batch_type]"

definition max_event_batch_members :: int where
  "max_event_batch_members = 4096"

definition max_event_batch_bytes :: int where
  "max_event_batch_bytes = 8 * 1024 * 1024"

definition event_fields :: "string list" where
  "event_fields = [''v'', ''seq'', ''ts'', ''type'', ''data'', ''trace_id'', ''span_id'']"

definition event_batch_data_fields :: "string list" where
  "event_batch_data_fields = [''schema'', ''count'', ''first_seq'', ''last_seq'', ''events'']"

definition opt_str :: "string option \<Rightarrow> pyval" where
  "opt_str s = (case s of None \<Rightarrow> PNone | Some t \<Rightarrow> PStr t)"

text \<open>\<open>Event.model_dump(mode="json")\<close>.\<close>

definition model_dump :: "row \<Rightarrow> payload" where
  "model_dump e = [(''v'', PInt (r_v e)), (''seq'', PInt (e_seq e)), (''ts'', PFloat (Fin (e_ts e))),
     (''type'', PStr (e_type e)), (''data'', PDict (e_data e)),
     (''trace_id'', opt_str (r_trace e)), (''span_id'', opt_str (r_span e))]"

text \<open>Python's \<open>==\<close> on JSON values: numbers by value, dictionaries whatever their order.\<close>

fun number_canon :: "pyval \<Rightarrow> pyval" where
  "number_canon (PBool b) = PFloat (Fin (if b then 1 else 0))"
| "number_canon (PInt i) = PFloat (Fin (real_of_int i))"
| "number_canon v = v"

primrec canon :: "pyval \<Rightarrow> pyval" where
  "canon PNone = PNone"
| "canon (PBool b) = number_canon (PBool b)"
| "canon (PInt i) = number_canon (PInt i)"
| "canon (PFloat f) = PFloat f"
| "canon (PStr s) = PStr s"
| "canon (PList xs) = PList (map canon xs)"
| "canon (PDict d) = PDict (sort_key fst (map (map_prod id canon) d))"

definition json_eq :: "pyval \<Rightarrow> pyval \<Rightarrow> bool" where
  "json_eq x y \<longleftrightarrow> canon x = canon y"

definition has_fields :: "payload \<Rightarrow> string list \<Rightarrow> bool" where
  "has_fields d fs \<longleftrightarrow> set (dict_keys d) = set fs"

section \<open>Batches\<close>

definition is_event_batch_record :: "payload \<Rightarrow> bool" where
  "is_event_batch_record obj \<longleftrightarrow>
     pget obj ''type'' = PStr event_batch_type \<or> pget obj ''type'' = event_batch_guard"

text \<open>One member of a batch at its offset, and the members in order.\<close>

definition decode_member :: "codec \<Rightarrow> int \<Rightarrow> pyval \<Rightarrow> row option" where
  "decode_member c sq raw = (case raw of
       PDict d \<Rightarrow> if \<not> has_fields d event_fields then None
         else (case validate c True d of None \<Rightarrow> None
           | Some e \<Rightarrow> if \<not> json_eq (PDict (model_dump e)) raw \<or> r_v e \<noteq> 1 \<or>
                 e_type e = event_batch_type \<or> e_seq e \<noteq> sq then None else Some e)
     | _ \<Rightarrow> None)"

fun decode_members :: "codec \<Rightarrow> int \<Rightarrow> pyval list \<Rightarrow> row list option" where
  "decode_members c sq [] = Some []"
| "decode_members c sq (m # ms) = (case decode_member c sq m of None \<Rightarrow> None
     | Some e \<Rightarrow> map_option (Cons e) (decode_members c (sq + 1) ms))"

definition batch_bounds_ok :: "codec \<Rightarrow> payload \<Rightarrow> row \<Rightarrow> int \<Rightarrow> int \<Rightarrow> int \<Rightarrow> pyval list \<Rightarrow> bool" where
  "batch_bounds_ok c obj outer cnt first_seq last_seq members \<longleftrightarrow>
     1 \<le> cnt \<and> cnt \<le> max_event_batch_members \<and> 0 \<le> first_seq \<and> last_seq = e_seq outer \<and>
     first_seq = last_seq - cnt + 1 \<and> int (length members) = cnt \<and>
     int (length (dumps c (PDict obj))) + 1 \<le> max_event_batch_bytes"

definition decode_batch_envelope :: "codec \<Rightarrow> payload \<Rightarrow> row list option" where
  "decode_batch_envelope c obj =
     (if \<not> has_fields obj event_fields \<or> \<not> is_event_batch_record obj then None
      else (let outer_obj = dict_put ''type'' (PStr event_batch_type) obj
            in case validate c True outer_obj of None \<Rightarrow> None
             | Some outer \<Rightarrow>
                 if \<not> json_eq (PDict (model_dump outer)) (PDict outer_obj) \<or> r_v outer \<noteq> 1 then None
                 else (let d = e_data outer in
                   if \<not> has_fields d event_batch_data_fields \<or> pget d ''schema'' \<noteq> PStr event_batch_schema
                   then None
                   else (case (pget d ''count'', pget d ''first_seq'', pget d ''last_seq'', pget d ''events'') of
                       (PInt cnt, PInt first_seq, PInt last_seq, PList members) \<Rightarrow>
                         if batch_bounds_ok c obj outer cnt first_seq last_seq members
                         then decode_members c first_seq members else None
                     | _ \<Rightarrow> None))))"

text \<open>One physical row. The version is refused when it is not 1, and when it is the boolean \<open>true\<close>
  that lax validation would read as 1.\<close>

definition decode_event_record :: "codec \<Rightarrow> bool \<Rightarrow> payload \<Rightarrow> row list option" where
  "decode_event_record c strict obj =
     (if is_event_batch_record obj then decode_batch_envelope c obj
      else (case validate c strict obj of None \<Rightarrow> None
        | Some e \<Rightarrow> (case pget_or obj ''v'' (PInt 1) of
              PBool b \<Rightarrow> None
            | _ \<Rightarrow> if r_v e = 1 then Some [e] else None)))"

fun dense_from :: "int \<Rightarrow> row list \<Rightarrow> bool" where
  "dense_from n [] = True"
| "dense_from n (e # es) = (e_seq e = n \<and> dense_from (n + 1) es)"

definition event_sequence_continues :: "row list \<Rightarrow> int \<Rightarrow> bool" where
  "event_sequence_continues events expected \<longleftrightarrow> events \<noteq> [] \<and> dense_from expected events"

section \<open>Reading a file\<close>

text \<open>The record a complete line holds, when it continues the log at \<open>expected\<close>.\<close>

definition line_events :: "codec \<Rightarrow> int \<Rightarrow> payload \<Rightarrow> row list option" where
  "line_events c expected obj = (case decode_event_record c False obj of
       None \<Rightarrow> None
     | Some es \<Rightarrow> if event_sequence_continues es expected then Some es else None)"

definition after_rows :: "int \<Rightarrow> row list \<Rightarrow> int" where
  "after_rows expected es = (if es = [] then expected else e_seq (last es) + 1)"

text \<open>\<open>iter_event_jsonl\<close>: a batch yields its members, an ordinary row the object as it is.\<close>

fun iter_rows :: "codec \<Rightarrow> int \<Rightarrow> payload list \<Rightarrow> payload list" where
  "iter_rows c expected [] = []"
| "iter_rows c expected (obj # objs) = (case line_events c expected obj of
       None \<Rightarrow> []
     | Some es \<Rightarrow> (if is_event_batch_record obj then map model_dump es else [obj]) @
         iter_rows c (after_rows expected es) objs)"

definition iter_event_jsonl :: "codec \<Rightarrow> bytes option \<Rightarrow> payload list" where
  "iter_event_jsonl c file = iter_rows c 0 (iter_jsonl (json.truncate c) file)"

record divergence =
  good_records :: int
  corrupt_line :: nat
  dropped_lines :: nat

text \<open>\<open>log_divergence\<close>: the first complete line a reader stops at, and how many non-blank complete
  lines lie behind it.\<close>

fun divergence_from :: "codec \<Rightarrow> nat \<Rightarrow> int \<Rightarrow> int \<Rightarrow> bytes list \<Rightarrow> divergence option" where
  "divergence_from c i expected good [] = None"
| "divergence_from c i expected good (l # ls) =
     (if bytes_strip l = [] then divergence_from c (i + 1) expected good ls
      else (case (case decode_jsonl_line (json.truncate c) (bytes_strip l) of
               Object obj \<Rightarrow> line_events c expected obj | _ \<Rightarrow> None) of
          None \<Rightarrow> Some \<lparr>good_records = good, corrupt_line = i + 1,
             dropped_lines = length (filter (\<lambda>later. bytes_strip later \<noteq> []) ls)\<rparr>
        | Some es \<Rightarrow> divergence_from c (i + 1) (after_rows expected es) (good + int (length es)) ls))"

definition log_divergence :: "codec \<Rightarrow> bytes option \<Rightarrow> divergence option" where
  "log_divergence c file = (case file of None \<Rightarrow> None
     | Some buf \<Rightarrow> divergence_from c 0 0 0 (complete_lines buf))"

text \<open>The receipt for a display; \<open>None\<close> as input stands for a file that could not be read.\<close>

record integrity =
  complete :: bool
  detail :: "divergence option"
  unreadable :: bool

definition log_integrity :: "codec \<Rightarrow> bytes option option \<Rightarrow> integrity" where
  "log_integrity c reading = (case reading of
       None \<Rightarrow> \<lparr>complete = False, detail = None, unreadable = True\<rparr>
     | Some file \<Rightarrow> (case log_divergence c file of
           None \<Rightarrow> \<lparr>complete = True, detail = None, unreadable = False\<rparr>
         | Some d \<Rightarrow> \<lparr>complete = False, detail = Some d, unreadable = False\<rparr>))"

text \<open>The truncation of \<open>repair_log\<close>, before the repair itself is recorded as an event.\<close>

definition repaired_bytes :: "divergence \<Rightarrow> bytes \<Rightarrow> bytes" where
  "repaired_bytes d raw = (let keep = take (corrupt_line d - 1) (split_lines raw) in
     if keep = [] then [] else join_lines keep)"

end
