(* ===== verification/EventStore.thy ===== *)
theory EventStore
  imports EventRows
begin

text \<open>
  The class \<open>EventStore\<close> (\<open>events/eventstore.py\<close>): the incremental read cache and the appends under
  the lock. A file is its bytes and what \<open>stat\<close> says of it; \<open>store\<close> has the object's fields, the
  hash object as the bytes it was fed. Each append is one critical section. How a write ends is an
  input: it lands, fails before a byte was accepted, or fails with some bytes on disk.
\<close>

section \<open>Files\<close>

record disk_file =
  content :: bytes
  entry :: "nat \<times> nat"
  mtime :: int
  ctime :: int
  attributes :: int

type_synonym identity = "(nat \<times> nat) \<times> nat \<times> int \<times> int \<times> int"

definition file_identity :: "disk_file \<Rightarrow> identity" where
  "file_identity f = (entry f, length (content f), mtime f, ctime f, attributes f)"

type_synonym stamp = "int \<times> int"

definition rewrite :: "stamp \<Rightarrow> bytes \<Rightarrow> disk_file \<Rightarrow> disk_file" where
  "rewrite st buf f = f\<lparr>content := buf, mtime := fst st, ctime := snd st\<rparr>"

record store_env = codec +
  sha256 :: "bytes \<Rightarrow> bytes"
  fresh_entry :: "nat \<times> nat"

section \<open>The object\<close>

record store =
  cache :: "row list"
  cache_bytes :: nat
  cache_mtime :: "int option"
  cache_ctime :: "int option"
  cache_identity :: "(nat \<times> nat) option"
  cache_hashed :: bytes
  trusted_growth_stat :: "identity option"
  prefix_head :: "bytes option"
  prefix_tail :: "bytes option"
  full_verified_bytes :: nat
  store_divergence :: "divergence option"
  divergence_stat :: "identity option"
  last_seq :: "int option"

definition empty_store :: store where
  "empty_store = \<lparr>cache = [], cache_bytes = 0, cache_mtime = None, cache_ctime = None, cache_identity = None,
     cache_hashed = [], trusted_growth_stat = None, prefix_head = None, prefix_tail = None,
     full_verified_bytes = 0, store_divergence = None, divergence_stat = None, last_seq = None\<rparr>"

definition cache_anchor_bytes :: int where
  "cache_anchor_bytes = 64 * 1024"

definition tail_seq :: "row list \<Rightarrow> int" where
  "tail_seq es = (if es = [] then -1 else e_seq (last es))"

section \<open>Reading\<close>

definition last_bytes :: "int \<Rightarrow> bytes \<Rightarrow> bytes" where
  "last_bytes n s = (if n = 0 then s else drop (nat (int (length s) - n)) s)"

text \<open>The rows of the new region that continue the log, and the bytes they cover.\<close>

fun accept_rows :: "codec \<Rightarrow> int \<Rightarrow> nat \<Rightarrow> (payload \<times> nat) list \<Rightarrow> nat \<Rightarrow> row list \<times> nat" where
  "accept_rows c expected ok_bytes [] consumed = ([], consumed)"
| "accept_rows c expected ok_bytes ((obj, stop) # objs) consumed = (case line_events c expected obj of
       None \<Rightarrow> ([], ok_bytes)
     | Some es \<Rightarrow> (let (more, k) = accept_rows c (after_rows expected es) stop objs consumed in (es @ more, k)))"

definition parse_jsonl_region :: "json \<Rightarrow> bytes \<Rightarrow> (payload \<times> nat) list \<times> nat" where
  "parse_jsonl_region j buf = (let (rs, consumed) = scan_jsonl_region j buf
     in (map (\<lambda>(obj, start, stop). (obj, stop + 1)) rs, consumed))"

definition read_prefix_windows :: "bytes \<Rightarrow> nat \<Rightarrow> (bytes \<times> bytes) option" where
  "read_prefix_windows buf consumed =
     (if consumed = 0 then None
      else (let window = nat (min cache_anchor_bytes (int consumed));
                head = take window buf;
                tail = (if window < consumed then take window (drop (consumed - window) buf) else head)
            in if length head < window \<or> length tail < window then None else Some (head, tail)))"

text \<open>Growth some other process made: the cheap window comparison, or the full digest, which seeds
  the windows.\<close>

definition check_prefix :: "store_env \<Rightarrow> bytes \<Rightarrow> store \<Rightarrow> bool \<times> store" where
  "check_prefix env buf s =
     (if prefix_head s \<noteq> None \<and> \<not> 2 * full_verified_bytes s \<le> cache_bytes s
      then (case read_prefix_windows buf (cache_bytes s) of
          None \<Rightarrow> (True, s)
        | Some (h, t) \<Rightarrow> (\<not> (prefix_head s = Some h \<and> prefix_tail s = Some t), s))
      else (let prefix = take (cache_bytes s) buf
            in if length prefix \<noteq> cache_bytes s \<or> sha256 env prefix \<noteq> sha256 env (cache_hashed s) then (True, s)
               else (let window = nat (min cache_anchor_bytes (int (cache_bytes s)))
                     in (False, s\<lparr>prefix_head := Some (take window prefix),
                                  prefix_tail := Some (drop (length prefix - window) prefix),
                                  full_verified_bytes := cache_bytes s\<rparr>))))"

definition drop_view :: "store \<Rightarrow> store" where
  "drop_view s = s\<lparr>cache := [], cache_bytes := 0, cache_hashed := [], store_divergence := None,
     divergence_stat := None, prefix_head := None, prefix_tail := None, full_verified_bytes := 0\<rparr>"

definition extend_windows :: "bytes \<Rightarrow> store \<Rightarrow> store" where
  "extend_windows accepted s = (case (prefix_head s, prefix_tail s) of
       (Some h, Some t) \<Rightarrow> (let window = nat (min cache_anchor_bytes (int (cache_bytes s)))
         in s\<lparr>prefix_head := Some (take window (h @ accepted)),
              prefix_tail := Some (last_bytes (int window) (t @ accepted))\<rparr>)
     | _ \<Rightarrow> s)"

definition note_divergence :: "store_env \<Rightarrow> disk_file \<Rightarrow> bytes \<Rightarrow> store \<Rightarrow> store" where
  "note_divergence env f remainder s =
     (if newline \<in> set remainder
      then s\<lparr>store_divergence := Some (case log_divergence (codec.truncate env) (Some (content f)) of
               Some d \<Rightarrow> d
             | None \<Rightarrow> \<lparr>good_records = int (length (cache s)), corrupt_line = length (cache s) + 1,
                 dropped_lines = length (filter (\<lambda>ch. ch = newline) remainder) - 1\<rparr>),
             divergence_stat := Some (file_identity f)\<rparr>
      else s)"

definition top_up :: "store_env \<Rightarrow> disk_file \<Rightarrow> store \<Rightarrow> store" where
  "top_up env f s =
     (if length (content f) \<le> cache_bytes s then s
      else (let new = drop (cache_bytes s) (content f);
                (objs, consumed) = parse_jsonl_region (json.truncate env) new;
                (evs, ok_bytes) = accept_rows (codec.truncate env) (tail_seq (cache s) + 1) 0 objs consumed;
                accepted = take ok_bytes new;
                s1 = s\<lparr>cache := cache s @ evs, cache_hashed := cache_hashed s @ accepted,
                       cache_bytes := cache_bytes s + ok_bytes\<rparr>
            in note_divergence env f (drop ok_bytes new) (extend_windows accepted s1)))"

definition same_size_rewrite :: "disk_file option \<Rightarrow> store \<Rightarrow> bool" where
  "same_size_rewrite f s \<longleftrightarrow>
     (case f of None \<Rightarrow> 0 | Some f \<Rightarrow> length (content f)) = cache_bytes s \<and> cache_mtime s \<noteq> None \<and>
     (map_option mtime f \<noteq> cache_mtime s \<or> map_option ctime f \<noteq> cache_ctime s)"

definition replaced :: "disk_file option \<Rightarrow> store \<Rightarrow> bool" where
  "replaced f s \<longleftrightarrow> cache_identity s \<noteq> None \<and> map_option entry f \<noteq> cache_identity s"

definition external_growth :: "disk_file option \<Rightarrow> store \<Rightarrow> bool" where
  "external_growth f s = (case f of None \<Rightarrow> False
     | Some g \<Rightarrow> cache_bytes s < length (content g) \<and> 0 < cache_bytes s \<and>
         trusted_growth_stat s \<noteq> Some (file_identity g) \<and> \<not> replaced f s)"

definition unchanged_divergent :: "disk_file option \<Rightarrow> store \<Rightarrow> bool" where
  "unchanged_divergent f s \<longleftrightarrow> store_divergence s \<noteq> None \<and> f \<noteq> None \<and>
     map_option file_identity f = divergence_stat s"

text \<open>\<open>read_all\<close>; its result is the cache of the store it leaves. \<open>last_seq\<close> is \<open>None\<close> while the
  constructor runs.\<close>

definition read_all :: "store_env \<Rightarrow> disk_file option \<Rightarrow> store \<Rightarrow> store" where
  "read_all env f s =
     (if unchanged_divergent f s then s
      else (let (rewritten, s1) = (case f of
                    Some g \<Rightarrow> if external_growth f s then check_prefix env (content g) s else (False, s)
                  | None \<Rightarrow> (False, s));
                invalid = ((case f of None \<Rightarrow> 0 | Some g \<Rightarrow> length (content g)) < cache_bytes s \<or>
                           replaced f s \<or> same_size_rewrite f s \<or> rewritten);
                s2 = s1\<lparr>trusted_growth_stat := None\<rparr>;
                s3 = (if invalid then drop_view s2 else s2);
                s4 = (case f of Some g \<Rightarrow> top_up env g s3 | None \<Rightarrow> s3);
                s5 = s4\<lparr>cache_mtime := map_option mtime f, cache_ctime := map_option ctime f,
                       cache_identity := map_option entry f\<rparr>
            in if invalid \<and> last_seq s5 \<noteq> None then s5\<lparr>last_seq := Some (tail_seq (cache s5))\<rparr> else s5))"

definition open_store :: "store_env \<Rightarrow> disk_file option \<Rightarrow> store" where
  "open_store env f =
     (let s = read_all env f empty_store;
          s1 = s\<lparr>last_seq := Some (tail_seq (cache s))\<rparr>
      in if cache_bytes s1 = 0 \<and> store_divergence s1 = None \<and>
            (case f of None \<Rightarrow> False | Some g \<Rightarrow> content g \<noteq> [])
         then s1\<lparr>store_divergence := log_divergence (codec.truncate env) (map_option content f)\<rparr> else s1)"

section \<open>Appending\<close>

datatype store_error = Corrupted divergence | Conflict int int | LockUnavailable | WriteFenced
  | ReservedType | BatchTooLarge | WriteFailed | BadTailSeq

definition tail_window :: int where
  "tail_window = 65536"

text \<open>\<open>_disk_last_seq\<close>: the last line of the final window that is an object with a \<open>seq\<close>.\<close>

fun seq_in_lines :: "json \<Rightarrow> bytes list \<Rightarrow> (store_error + int) option" where
  "seq_in_lines j [] = None"
| "seq_in_lines j (raw # raws) = (case loads j raw of
       Some (PDict d) \<Rightarrow> if phas d ''seq''
         then Some (case py_int (pget d ''seq'') of None \<Rightarrow> Inl BadTailSeq | Some i \<Rightarrow> Inr i)
         else seq_in_lines j raws
     | _ \<Rightarrow> seq_in_lines j raws)"

definition disk_last_seq :: "store_env \<Rightarrow> disk_file option \<Rightarrow> store \<Rightarrow> (store_error + int) \<times> store" where
  "disk_last_seq env f s = (case f of None \<Rightarrow> (Inr (-1), s)
     | Some g \<Rightarrow>
        (if content g = [] then (Inr (-1), s)
         else (case seq_in_lines (json.truncate env)
                 (rev (filter (\<lambda>l. bytes_strip l \<noteq> []) (split_lines (last_bytes tail_window (content g))))) of
             Some r \<Rightarrow> (r, s)
           | None \<Rightarrow> (let s' = read_all env f s in (Inr (tail_seq (cache s')), s')))))"

definition heal_torn_tail :: "stamp \<Rightarrow> disk_file option \<Rightarrow> disk_file option" where
  "heal_torn_tail st f = (case f of None \<Rightarrow> None
     | Some g \<Rightarrow> if content g = [] \<or> last (content g) = newline then Some g
         else Some (rewrite st (take (length (content g) - length (torn_tail (content g))) (content g)) g))"

definition uncertain_append_needs_reservation :: "store_env \<Rightarrow> disk_file option \<Rightarrow> int \<Rightarrow> store \<Rightarrow> bool" where
  "uncertain_append_needs_reservation env f sq s = (case fst (disk_last_seq env f s) of
       Inr n \<Rightarrow> n < sq \<and> (case f of None \<Rightarrow> True
         | Some g \<Rightarrow> content g \<noteq> [] \<and> last (content g) \<noteq> newline)
     | Inl e \<Rightarrow> True)"

definition mark_uncertain_append :: "store_env \<Rightarrow> disk_file option \<Rightarrow> int \<Rightarrow> store \<Rightarrow> store" where
  "mark_uncertain_append env f sq s =
     (let s1 = (if uncertain_append_needs_reservation env f sq s
                then s\<lparr>last_seq := map_option (max sq) (last_seq s)\<rparr> else s)
      in (drop_view s1)\<lparr>cache_mtime := None, cache_ctime := None, cache_identity := None,
            trusted_growth_stat := None\<rparr>)"

datatype write_outcome = Landed | NotAccepted | Failed nat

record append_call =
  expected_last_seq :: "int option"
  require_lock :: bool
  lock_available :: bool
  fenced :: bool
  heal_stamp :: stamp
  write_stamp :: stamp
  outcome :: write_outcome

definition append_bytes :: "store_env \<Rightarrow> stamp \<Rightarrow> bytes \<Rightarrow> disk_file option \<Rightarrow> disk_file" where
  "append_bytes env st buf f = (case f of
       None \<Rightarrow> \<lparr>content = buf, entry = fresh_entry env, mtime = fst st, ctime = snd st, attributes = 0\<rparr>
     | Some g \<Rightarrow> rewrite st (content g @ buf) g)"

text \<open>What a builder returns: the bytes, the last logical sequence number, and the events.\<close>

type_synonym built = "store_error + (bytes \<times> int \<times> row list)"

definition write_record :: "store_env \<Rightarrow> append_call \<Rightarrow> bytes \<Rightarrow> int \<Rightarrow> row list \<Rightarrow> disk_file option \<Rightarrow> store \<Rightarrow>
    (store_error + row list) \<times> disk_file option \<times> store" where
  "write_record env call buf sq events f s = (case outcome call of
       NotAccepted \<Rightarrow> (Inl WriteFailed, f, s)
     | Failed n \<Rightarrow> (let f' = Some (append_bytes env (write_stamp call) (take n buf) f)
                    in (Inl WriteFailed, f', mark_uncertain_append env f' sq s))
     | Landed \<Rightarrow> (let g = append_bytes env (write_stamp call) buf f;
                      s1 = s\<lparr>last_seq := Some sq, trusted_growth_stat := Some (file_identity g)\<rparr>
                  in (Inr events, Some g, read_all env (Some g) s1)))"

definition locked_append :: "store_env \<Rightarrow> append_call \<Rightarrow> (int \<Rightarrow> built) \<Rightarrow> disk_file option \<Rightarrow> store \<Rightarrow>
    (store_error + row list) \<times> disk_file option \<times> store" where
  "locked_append env call build f s =
     (if fenced call then (Inl WriteFenced, f, s)
      else if require_lock call \<and> \<not> lock_available call then (Inl LockUnavailable, f, s)
      else (let s1 = read_all env f s in case store_divergence s1 of
          Some d \<Rightarrow> (Inl (Corrupted d), f, s1)
        | None \<Rightarrow>
           (let f1 = heal_torn_tail (heal_stamp call) f;
                (disk, s2) = disk_last_seq env f1 s1
            in case disk of Inl e \<Rightarrow> (Inl e, f1, s2)
             | Inr d \<Rightarrow>
                (let cur = max (case last_seq s2 of Some q \<Rightarrow> q | None \<Rightarrow> -1) d
                 in if expected_last_seq call \<noteq> None \<and> expected_last_seq call \<noteq> Some cur
                    then (Inl (Conflict (the (expected_last_seq call)) cur), f1, s2)
                    else (case build cur of Inl e \<Rightarrow> (Inl e, f1, s2)
                      | Inr (buf, sq, events) \<Rightarrow> write_record env call buf sq events f1 s2)))))"

record draft =
  d_type :: string
  d_data :: payload

definition make_row :: "int \<Rightarrow> real \<Rightarrow> string option \<Rightarrow> string option \<Rightarrow> string \<Rightarrow> payload \<Rightarrow> row" where
  "make_row sq ts tr sp ty d = \<lparr>e_seq = sq, e_ts = ts, e_type = ty, e_data = d, r_v = 1, r_trace = tr, r_span = sp\<rparr>"

definition build_one :: "store_env \<Rightarrow> real \<Rightarrow> string option \<Rightarrow> string option \<Rightarrow> draft \<Rightarrow> int \<Rightarrow> built" where
  "build_one env ts tr sp dr cur =
     (let e = make_row (cur + 1) ts tr sp (d_type dr) (d_data dr)
      in Inr (dump_line (json.truncate env) (PDict (model_dump e)), e_seq e, [e]))"

definition append :: "store_env \<Rightarrow> append_call \<Rightarrow> real \<Rightarrow> string option \<Rightarrow> string option \<Rightarrow> draft \<Rightarrow>
    disk_file option \<Rightarrow> store \<Rightarrow> (store_error + row list) \<times> disk_file option \<times> store" where
  "append env call ts tr sp dr f s =
     (if d_type dr = event_batch_type then (Inl ReservedType, f, s)
      else locked_append env call (build_one env ts tr sp dr) f s)"

fun batch_rows :: "int \<Rightarrow> real list \<Rightarrow> string option \<Rightarrow> string option \<Rightarrow> draft list \<Rightarrow> row list" where
  "batch_rows cur (t # ts) tr sp (dr # drs) =
     make_row (cur + 1) t tr sp (d_type dr) (d_data dr) # batch_rows (cur + 1) ts tr sp drs"
| "batch_rows cur ts tr sp drs = []"

definition batch_envelope :: "string option \<Rightarrow> string option \<Rightarrow> row list \<Rightarrow> row" where
  "batch_envelope tr sp es = make_row (e_seq (last es)) (e_ts (last es)) tr sp event_batch_type
     [(''schema'', PStr event_batch_schema), (''count'', PInt (int (length es))),
      (''first_seq'', PInt (e_seq (hd es))), (''last_seq'', PInt (e_seq (last es))),
      (''events'', PList (map (\<lambda>e. PDict (model_dump e)) es))]"

definition physical_envelope :: "row \<Rightarrow> payload" where
  "physical_envelope e = dict_put ''type'' event_batch_guard (model_dump e)"

definition build_batch :: "store_env \<Rightarrow> real list \<Rightarrow> string option \<Rightarrow> string option \<Rightarrow> draft list \<Rightarrow> int \<Rightarrow> built" where
  "build_batch env ts tr sp drs cur =
     (let es = batch_rows cur ts tr sp drs;
          buf = dump_line (json.truncate env) (PDict (physical_envelope (batch_envelope tr sp es)))
      in if max_event_batch_bytes < int (length buf) then Inl BatchTooLarge
         else Inr (buf, e_seq (last es), es))"

definition append_many :: "store_env \<Rightarrow> append_call \<Rightarrow> real list \<Rightarrow> string option \<Rightarrow> string option \<Rightarrow>
    draft list \<Rightarrow> disk_file option \<Rightarrow> store \<Rightarrow> (store_error + row list) \<times> disk_file option \<times> store" where
  "append_many env call ts tr sp drs f s =
     (if drs = [] then (Inr [], f, s)
      else if max_event_batch_members < int (length drs) then (Inl BatchTooLarge, f, s)
      else if list_ex (\<lambda>dr. d_type dr = event_batch_type) drs then (Inl ReservedType, f, s)
      else locked_append env call (build_batch env ts tr sp drs) f s)"

section \<open>Retrying and repairing\<close>

datatype 'r attempt = Lost | Finished 'r

text \<open>\<open>retry_tail_cas\<close>: a plan that lost the race is run again on a fresh snapshot, a bounded number
  of times; the state it works on may be changed by others between any two operations.\<close>

fun retry_tail_cas :: "nat \<Rightarrow> ('w \<Rightarrow> row list \<times> 'w) \<Rightarrow> (row list \<Rightarrow> int \<Rightarrow> 'w \<Rightarrow> 'r attempt \<times> 'w) \<Rightarrow>
    ('w \<Rightarrow> 'r \<times> 'w) \<Rightarrow> 'w \<Rightarrow> 'r \<times> 'w" where
  "retry_tail_cas 0 read plan on_exhaust w = on_exhaust w"
| "retry_tail_cas (Suc n) read plan on_exhaust w =
     (let (events, w1) = read w in case plan events (tail_seq events) w1 of
        (Finished r, w2) \<Rightarrow> (r, w2)
      | (Lost, w2) \<Rightarrow> retry_tail_cas n read plan on_exhaust w2)"

definition repair_record :: "divergence \<Rightarrow> string \<Rightarrow> int \<Rightarrow> payload" where
  "repair_record d backup ts = [(''backup'', PStr backup), (''corrupt_line'', PInt (int (corrupt_line d))),
     (''dropped_lines'', PInt (int (dropped_lines d))), (''good_records'', PInt (good_records d)), (''ts'', PInt ts)]"

text \<open>\<open>repair_log\<close>: nothing to do on a sound log; otherwise the file is replaced by its prefix (a new
  directory entry) and the repair is appended by a store opened on it.\<close>

definition repair_log :: "store_env \<Rightarrow> append_call \<Rightarrow> real \<Rightarrow> int \<Rightarrow> string \<Rightarrow> disk_file option \<Rightarrow>
    (store_error + row list) \<times> disk_file option" where
  "repair_log env call now ts backup f =
     (if fenced call then (Inl WriteFenced, f)
      else if \<not> lock_available call then (Inl LockUnavailable, f)
      else (case (f, log_divergence (codec.truncate env) (map_option content f)) of
          (Some g, Some d) \<Rightarrow>
            (let g1 = (rewrite (heal_stamp call) (repaired_bytes d (content g)) g)\<lparr>entry := fresh_entry env\<rparr>;
                 (r, f2, s) = append env (call\<lparr>require_lock := False\<rparr>) now None None
                     \<lparr>d_type = ''log_repaired'', d_data = repair_record d backup ts\<rparr> (Some g1) (open_store env (Some g1))
             in (r, f2))
        | _ \<Rightarrow> (Inr [], f)))"

end
