(* ===== verification/EventLogSpec.thy ===== *)
theory EventLogSpec
  imports EventStore
begin

text \<open>
  The reference reading of an event log, one pass over its complete lines, and that the scanner
  with offsets, the incremental acceptance and the divergence walk all agree with it.
\<close>

section \<open>The reference reader\<close>

fun read_lines :: "codec \<Rightarrow> int \<Rightarrow> bytes list \<Rightarrow> row list \<times> bool" where
  "read_lines c n [] = ([], True)"
| "read_lines c n (l # ls) = (case decode_jsonl_line (json.truncate c) l of
       Blank \<Rightarrow> read_lines c n ls
     | Invalid \<Rightarrow> ([], False)
     | Object d \<Rightarrow> (case line_events c n d of None \<Rightarrow> ([], False)
         | Some es \<Rightarrow> (let (more, sound) = read_lines c (after_rows n es) ls in (es @ more, sound))))"

definition log_events :: "codec \<Rightarrow> bytes \<Rightarrow> row list" where
  "log_events c buf = fst (read_lines c 0 (complete_lines buf))"

definition log_sound :: "codec \<Rightarrow> bytes \<Rightarrow> bool" where
  "log_sound c buf \<longleftrightarrow> snd (read_lines c 0 (complete_lines buf))"

lemma after_rows_Nil [simp]: "after_rows n [] = n"
  by (simp add: after_rows_def)

lemma after_rows_append [simp]: "after_rows (after_rows n xs) ys = after_rows n (xs @ ys)"
  by (simp add: after_rows_def)

lemma after_rows_tail: "after_rows 0 es = tail_seq es + 1"
  by (simp add: after_rows_def tail_seq_def)

lemma read_lines_append:
  "read_lines c n xs = (es, True) \<Longrightarrow>
    read_lines c n (xs @ ys) = (es @ fst (read_lines c (after_rows n es) ys), snd (read_lines c (after_rows n es) ys))"
  by (induction c n xs arbitrary: es rule: read_lines.induct)
    (force split: decoded_line.splits option.splits prod.splits)+

lemma read_lines_unsound:
  "read_lines c n xs = (es, False) \<Longrightarrow> read_lines c n (xs @ ys) = (es, False)"
  by (induction c n xs arbitrary: es rule: read_lines.induct)
    (force split: decoded_line.splits option.splits prod.splits)+

lemma read_lines_dense: "read_lines c n ls = (es, ok) \<Longrightarrow> dense_from n es"
proof (induction c n ls arbitrary: es ok rule: read_lines.induct)
  case (2 c n l ls)
  have join: "dense_from m xs \<Longrightarrow> xs \<noteq> [] \<Longrightarrow> dense_from (after_rows m xs) ys \<Longrightarrow> dense_from m (xs @ ys)" for m xs ys
    by (induction m xs rule: dense_from.induct) (auto simp: after_rows_def split: if_splits)
  show ?case
    using "2.prems" "2.IH" join
    by (fastforce simp: line_events_def event_sequence_continues_def
        split: decoded_line.splits option.splits prod.splits if_splits)
qed simp

section \<open>The scanner with offsets\<close>

definition with_ends :: "(payload \<times> nat \<times> nat) list \<Rightarrow> (payload \<times> nat) list" where
  "with_ends rs = map (\<lambda>(obj, start, stop). (obj, stop + 1)) rs"

lemma with_ends_simps [simp]:
  "with_ends [] = []" "with_ends ((d, i, k) # rs) = (d, k + 1) # with_ends rs"
  by (simp_all add: with_ends_def)

lemma accept_scan:
  assumes "scan_lines (json.truncate c) (length (join_lines pre)) ls = (rs, k)"
    and "accept_rows c (after_rows n0 es0) ok (with_ends rs) k = (evs, ok')"
    and "ok = length (join_lines (take m0 pre))" "m0 \<le> length pre"
    and "read_lines c n0 (take m0 pre) = (es0, True)" "read_lines c n0 pre = (es0, True)"
  shows "\<exists>m \<le> length (pre @ ls). ok' = length (join_lines (take m (pre @ ls))) \<and>
    read_lines c n0 (take m (pre @ ls)) = (es0 @ evs, True) \<and>
    fst (read_lines c n0 (pre @ ls)) = es0 @ evs \<and>
    (snd (read_lines c n0 (pre @ ls)) \<longleftrightarrow> m = length (pre @ ls))"
  using assms
proof (induction ls arbitrary: pre es0 ok m0 rs evs)
  case Nil
  then show ?case by (intro exI [of _ "length pre"]) auto
next
  case (Cons l ls)
  have pos: "length (join_lines (pre @ [l])) = length (join_lines pre) + length l + 1" by simp
  have stop: ?case if bad: "read_lines c (after_rows n0 es0) (l # ls) = ([], False)" and "evs = []" "ok' = ok"
  proof -
    have "read_lines c n0 (pre @ l # ls) = (es0, False)"
      using read_lines_append [OF Cons.prems(6), of "l # ls"] bad by simp
    then show ?thesis
      using that Cons.prems(3-5) by (intro exI [of _ m0]) auto
  qed
  show ?case
  proof (cases "decode_jsonl_line (json.truncate c) l")
    case Invalid
    then show ?thesis
      using Cons.prems(1,2,6) read_lines_append [OF Cons.prems(6), of "l # ls"]
      by (intro exI [of _ "length pre"]) auto
  next
    case Blank
    have "read_lines c n0 (pre @ [l]) = (es0, True)"
      using read_lines_append [OF Cons.prems(6), of "[l]"] Blank by simp
    then show ?thesis
      using Cons.IH [of "pre @ [l]" rs es0 ok evs m0] Cons.prems Blank pos by simp
  next
    case (Object d)
    obtain rs' where rs: "rs = (d, length (join_lines pre), length (join_lines pre) + length l) # rs'"
      "scan_lines (json.truncate c) (length (join_lines (pre @ [l]))) ls = (rs', k)"
      using Cons.prems(1) Object pos by (auto split: prod.splits)
    show ?thesis
    proof (cases "line_events c (after_rows n0 es0) d")
      case None
      then show ?thesis using stop Cons.prems(2) rs Object by simp
    next
      case (Some es)
      then obtain more where more: "evs = es @ more"
        "accept_rows c (after_rows n0 (es0 @ es)) (length (join_lines (pre @ [l]))) (with_ends rs') k = (more, ok')"
        using Cons.prems(2) rs pos by (auto split: prod.splits)
      have "read_lines c n0 (pre @ [l]) = (es0 @ es, True)"
        using read_lines_append [OF Cons.prems(6), of "[l]"] Object Some by simp
      then show ?thesis
        using Cons.IH [of "pre @ [l]" rs' "es0 @ es" _ more "length (pre @ [l])"] rs(2) more by simp
    qed
  qed
qed


section \<open>Incremental acceptance is reading\<close>

lemma parse_region:
  "parse_jsonl_region j buf = (case scan_lines j 0 (complete_lines buf) of (rs, k) \<Rightarrow> (with_ends rs, k))"
  by (simp add: parse_jsonl_region_def scan_jsonl_region_def with_ends_def split: prod.splits)

lemma accept_region:
  assumes "parse_jsonl_region (json.truncate c) buf = (objs, k)" and "accept_rows c n 0 objs k = (evs, ok)"
  shows "\<exists>m \<le> length (complete_lines buf). ok = length (join_lines (take m (complete_lines buf))) \<and>
    read_lines c n (take m (complete_lines buf)) = (evs, True) \<and>
    fst (read_lines c n (complete_lines buf)) = evs \<and>
    (snd (read_lines c n (complete_lines buf)) \<longleftrightarrow> m = length (complete_lines buf))"
proof -
  obtain rs where rs: "scan_lines (json.truncate c) 0 (complete_lines buf) = (rs, k)" "objs = with_ends rs"
    using assms(1) by (auto simp: parse_region split: prod.splits)
  show ?thesis
    using accept_scan [of c "[]" "complete_lines buf" rs k n "[]" 0 evs ok 0] rs assms(2) by simp
qed

text \<open>The bytes covered by whole lines, and the lines of a region that starts at a line boundary.\<close>

lemma take_join: "take (length (join_lines (take m (complete_lines buf)))) buf = join_lines (take m (complete_lines buf))"
proof -
  have "buf = join_lines (take m (complete_lines buf)) @ join_lines (drop m (complete_lines buf)) @ torn_tail buf"
    by (metis append_assoc append_take_drop_id join_lines_append join_split)
  then show ?thesis by (metis append_eq_conv_conj)
qed

lemma drop_join:
  "drop (length (join_lines (take m (complete_lines buf)))) buf =
    join_lines (drop m (complete_lines buf)) @ torn_tail buf"
proof -
  have "buf = join_lines (take m (complete_lines buf)) @ join_lines (drop m (complete_lines buf)) @ torn_tail buf"
    by (metis append_assoc append_take_drop_id join_lines_append join_split)
  then show ?thesis by (metis append_eq_conv_conj)
qed

lemma newline_in_join: "newline \<in> set (join_lines ls @ t) \<longleftrightarrow> ls \<noteq> []" if "newline \<notin> set t"
  using that by (cases ls) auto

section \<open>The divergence walk\<close>

lemma bytes_strip_idem [simp]: "bytes_strip (bytes_strip s) = bytes_strip s"
proof -
  define u where "u = dropWhile bytes_space s"
  define w where "w = dropWhile bytes_space (rev u)"
  have w: "bytes_strip s = rev w" by (simp add: bytes_strip_def u_def w_def)
  have "dropWhile bytes_space (rev w) = rev w"
  proof (cases "w = []")
    case False
    have "rev u = takeWhile bytes_space (rev u) @ w" by (simp add: w_def)
    then have "u = rev w @ rev (takeWhile bytes_space (rev u))" by (metis rev_append rev_rev_ident)
    then have "hd u = hd (rev w)" "u \<noteq> []" using False by (metis hd_append2 rev_is_Nil_conv, auto)
    then have "\<not> bytes_space (hd (rev w))" using hd_dropWhile u_def by metis
    then show ?thesis using False by (simp add: dropWhile_eq_self_iff)
  qed simp
  then show ?thesis by (simp add: w) (simp add: bytes_strip_def w_def)
qed

lemma decode_Blank_iff: "decode_jsonl_line j l = Blank \<longleftrightarrow> bytes_strip l = []"
  by (auto simp: decode_jsonl_line_def Let_def split: option.splits pyval.splits)

lemma decode_strip [simp]: "decode_jsonl_line j (bytes_strip l) = decode_jsonl_line j l"
  by (simp add: decode_jsonl_line_def)

lemma divergence_None_iff: "divergence_from c i n good ls = None \<longleftrightarrow> snd (read_lines c n ls)"
proof (induction c i n good ls rule: divergence_from.induct)
  case (2 c i n good l ls)
  show ?case
  proof (cases "decode_jsonl_line (json.truncate c) l")
    case Blank
    then have "bytes_strip l = []" using decode_Blank_iff by blast
    then show ?thesis using 2 Blank by simp
  next
    case Invalid
    then have "bytes_strip l \<noteq> []" using decode_Blank_iff by (metis decoded_line.distinct(1))
    then show ?thesis using Invalid by simp
  next
    case (Object d)
    then have "bytes_strip l \<noteq> []" using decode_Blank_iff by (metis decoded_line.distinct(3))
    then show ?thesis using "2.IH"(2) Object by (auto split: option.splits prod.splits)
  qed
qed simp

lemma divergence_good:
  "divergence_from c i n good ls = Some d \<Longrightarrow> good_records d = good + int (length (fst (read_lines c n ls)))"
proof (induction c i n good ls rule: divergence_from.induct)
  case (2 c i n good l ls)
  show ?case
  proof (cases "decode_jsonl_line (json.truncate c) l")
    case Blank
    then have "bytes_strip l = []" using decode_Blank_iff by blast
    then show ?thesis using 2 Blank by simp
  next
    case Invalid
    then have "bytes_strip l \<noteq> []" using decode_Blank_iff by (metis decoded_line.distinct(1))
    then show ?thesis using "2.prems" Invalid by auto
  next
    case (Object e)
    then have "bytes_strip l \<noteq> []" using decode_Blank_iff by (metis decoded_line.distinct(3))
    then show ?thesis using "2.IH"(2) "2.prems" Object by (auto split: option.splits prod.splits)
  qed
qed simp

lemma log_divergence_None: "log_divergence c (Some buf) = None \<longleftrightarrow> log_sound c buf"
  by (simp add: log_divergence_def log_sound_def divergence_None_iff)

end
