(* ===== verification/EventCache.thy ===== *)
theory EventCache
  imports EventLogSpec
begin

text \<open>
  The incremental cache against the reference reading. \<open>view\<close>: the cached events are what the
  reference reads from some whole lines at the start of the file; \<open>sees\<close>: they are all it reads
  from the file, and a divergence is reported exactly when the file is not sound.
\<close>

definition view :: "store_env \<Rightarrow> bytes \<Rightarrow> store \<Rightarrow> bool" where
  "view env buf s \<longleftrightarrow> (\<exists>m \<le> length (complete_lines buf).
     cache_bytes s = length (join_lines (take m (complete_lines buf))) \<and>
     read_lines (codec.truncate env) 0 (take m (complete_lines buf)) = (cache s, True))"

definition sees :: "store_env \<Rightarrow> bytes \<Rightarrow> store \<Rightarrow> bool" where
  "sees env buf s \<longleftrightarrow> view env buf s \<and> cache s = log_events (codec.truncate env) buf \<and>
     (store_divergence s = None \<longleftrightarrow> log_sound (codec.truncate env) buf)"

text \<open>A later content of the same log: the complete lines stay, only the torn tail may be rewritten.\<close>

definition extends :: "bytes \<Rightarrow> bytes \<Rightarrow> bool" where
  "extends old new \<longleftrightarrow> (\<exists>rest. new = join_lines (complete_lines old) @ rest)"

lemma extends_lines:
  assumes "extends old new"
  shows "\<exists>more. complete_lines new = complete_lines old @ more"
proof -
  obtain rest where "new = join_lines (complete_lines old) @ rest" using assms by (auto simp: extends_def)
  then show ?thesis
    using complete_lines_append(1) [of "join_lines (complete_lines old)" rest]
    by (simp add: torn_tail_join complete_lines_join complete_lines_clean)
qed

lemma extends_refl [simp]: "extends buf buf"
  unfolding extends_def by (metis join_split)

lemma view_extends:
  assumes v: "view env old s" and e: "extends old new"
  shows "view env new s"
proof -
  obtain more where more: "complete_lines new = complete_lines old @ more"
    using extends_lines [OF e] by blast
  obtain m where "m \<le> length (complete_lines old)"
    "cache_bytes s = length (join_lines (take m (complete_lines old)))"
    "read_lines (codec.truncate env) 0 (take m (complete_lines old)) = (cache s, True)"
    using v by (auto simp: view_def)
  then show ?thesis unfolding view_def more by (intro exI [of _ m]) simp
qed

lemma view_start: "cache s = [] \<Longrightarrow> cache_bytes s = 0 \<Longrightarrow> view env buf s"
  by (auto simp: view_def intro!: exI [of _ 0])

lemma log_extends:
  assumes "extends old new"
  shows "\<exists>more. log_events c new = log_events c old @ more"
    and "log_sound c new \<Longrightarrow> log_sound c old"
    and "\<not> log_sound c old \<Longrightarrow> log_events c new = log_events c old"
proof -
  obtain more where m: "complete_lines new = complete_lines old @ more"
    using extends_lines [OF assms] by blast
  obtain es ok where r: "read_lines c 0 (complete_lines old) = (es, ok)" by (cases "read_lines c 0 (complete_lines old)")
  show "\<exists>more. log_events c new = log_events c old @ more"
    using r m read_lines_append [of c 0 "complete_lines old" es more] read_lines_unsound [of c 0 "complete_lines old" es more]
    by (cases ok) (auto simp: log_events_def)
  show "log_sound c new \<Longrightarrow> log_sound c old"
    using r m read_lines_unsound [of c 0 "complete_lines old" es more] by (cases ok) (auto simp: log_sound_def)
  show "\<not> log_sound c old \<Longrightarrow> log_events c new = log_events c old"
    using r m read_lines_unsound [of c 0 "complete_lines old" es more] by (cases ok) (auto simp: log_sound_def log_events_def)
qed

section \<open>Frames\<close>

lemma extend_windows_frame [simp]:
  "cache (extend_windows a s) = cache s" "cache_bytes (extend_windows a s) = cache_bytes s"
  "store_divergence (extend_windows a s) = store_divergence s" "last_seq (extend_windows a s) = last_seq s"
  by (simp_all add: extend_windows_def Let_def split: option.splits)

lemma note_divergence_frame [simp]:
  "cache (note_divergence env f r s) = cache s" "cache_bytes (note_divergence env f r s) = cache_bytes s"
  "store_divergence (note_divergence env f r s) = None \<longleftrightarrow> newline \<notin> set r \<and> store_divergence s = None"
  "last_seq (note_divergence env f r s) = last_seq s"
  by (simp_all add: note_divergence_def)

lemma check_prefix_frame:
  assumes "check_prefix env buf s = (b, s')"
  shows "cache s' = cache s" "cache_bytes s' = cache_bytes s" "store_divergence s' = store_divergence s"
    "last_seq s' = last_seq s" "divergence_stat s' = divergence_stat s"
  using assms by (auto simp: check_prefix_def Let_def split: if_splits option.splits)

lemma drop_view_frame [simp]:
  "cache (drop_view s) = []" "cache_bytes (drop_view s) = 0" "store_divergence (drop_view s) = None"
  "last_seq (drop_view s) = last_seq s"
  by (simp_all add: drop_view_def)

lemma top_up_last_seq [simp]: "last_seq (top_up env f s) = last_seq s"
  by (simp add: top_up_def Let_def split: prod.splits)

section \<open>One top-up\<close>

lemma top_up_sees:
  assumes v: "view env (content f) s"
    and d: "store_divergence s \<noteq> None \<Longrightarrow> \<not> log_sound (codec.truncate env) (content f)"
  shows "sees env (content f) (top_up env f s)"
proof -
  let ?c = "codec.truncate env" and ?ls = "complete_lines (content f)"
  obtain m where m: "m \<le> length ?ls" "cache_bytes s = length (join_lines (take m ?ls))"
    "read_lines ?c 0 (take m ?ls) = (cache s, True)"
    using v by (auto simp: view_def)
  have split: "content f = join_lines (take m ?ls) @ join_lines (drop m ?ls) @ torn_tail (content f)"
    by (metis append_assoc append_take_drop_id join_lines_append join_split)
  show ?thesis
  proof (cases "length (content f) \<le> cache_bytes s")
    case True
    then have "join_lines (drop m ?ls) = []" using split m(2) by (metis append_is_Nil_conv append_self_conv
          length_append le_add1 le_antisym append_eq_append_conv_if take_all_iff append_eq_conv_conj)
    then have "drop m ?ls = []" by (cases "drop m ?ls") auto
    then have all: "take m ?ls = ?ls" by simp
    then have e: "cache s = log_events ?c (content f)" and ok: "log_sound ?c (content f)"
      using m(3) by (simp_all add: log_events_def log_sound_def)
    then have "store_divergence s = None" using d by blast
    then show ?thesis using True v e ok by (simp add: sees_def top_up_def)
  next
    case False
    let ?new = "drop (cache_bytes s) (content f)"
    have new: "?new = join_lines (drop m ?ls) @ torn_tail (content f)"
      using drop_join [of m "content f"] m(2) by simp
    have lines: "complete_lines ?new = drop m ?ls"
      unfolding new by (rule split_unique(1)) (auto dest: in_set_dropD complete_lines_clean)
    obtain objs k where p: "parse_jsonl_region (json.truncate ?c) ?new = (objs, k)"
      by (cases "parse_jsonl_region (json.truncate ?c) ?new")
    obtain evs ok where a: "accept_rows ?c (tail_seq (cache s) + 1) 0 objs k = (evs, ok)"
      by (cases "accept_rows ?c (tail_seq (cache s) + 1) 0 objs k")
    obtain j where j: "j \<le> length (drop m ?ls)" "ok = length (join_lines (take j (drop m ?ls)))"
      "read_lines ?c (tail_seq (cache s) + 1) (take j (drop m ?ls)) = (evs, True)"
      "fst (read_lines ?c (tail_seq (cache s) + 1) (drop m ?ls)) = evs"
      "snd (read_lines ?c (tail_seq (cache s) + 1) (drop m ?ls)) \<longleftrightarrow> j = length (drop m ?ls)"
      using accept_region [OF p a] unfolding lines by blast
    have whole: "read_lines ?c 0 ?ls = (cache s @ evs, j = length (drop m ?ls))"
      using read_lines_append [OF m(3), of "drop m ?ls"] j(4,5)
      by (simp add: after_rows_tail prod_eq_iff)
    have part: "read_lines ?c 0 (take (m + j) ?ls) = (cache s @ evs, True)"
      using read_lines_append [OF m(3), of "take j (drop m ?ls)"] j(3) by (simp add: after_rows_tail take_add)
    have bytes: "cache_bytes s + ok = length (join_lines (take (m + j) ?ls))"
      using m(2) j(2) by (simp add: take_add)
    have rest: "newline \<in> set (drop ok ?new) \<longleftrightarrow> j < length (drop m ?ls)"
    proof -
      have "drop ok ?new = join_lines (drop j (drop m ?ls)) @ torn_tail ?new"
        using drop_join [of j ?new] j(2) lines by simp
      then show ?thesis by (simp only: newline_in_join [OF torn_tail_clean]) auto
    qed
    have top: "cache (top_up env f s) = cache s @ evs" "cache_bytes (top_up env f s) = cache_bytes s + ok"
      "store_divergence (top_up env f s) = None \<longleftrightarrow> newline \<notin> set (drop ok ?new) \<and> store_divergence s = None"
      using False p a by (simp_all add: top_up_def codec.truncate_def json.truncate_def Let_def)
    have "view env (content f) (top_up env f s)"
      unfolding view_def using top part bytes m(1) j(1) by (intro exI [of _ "m + j"]) auto
    moreover have "log_sound ?c (content f) \<longleftrightarrow> j = length (drop m ?ls)"
      using whole by (simp add: log_sound_def)
    ultimately show ?thesis
      using top whole rest j(1) d by (auto simp: sees_def log_events_def)
  qed
qed

section \<open>A read\<close>

definition detected :: "disk_file \<Rightarrow> store \<Rightarrow> bool" where
  "detected g s \<longleftrightarrow> length (content g) < cache_bytes s \<or> replaced (Some g) s \<or> same_size_rewrite (Some g) s"

lemma read_all_sees:
  assumes s: "sees env old s"
    and honest: "unchanged_divergent (Some g) s \<Longrightarrow> content g = old"
    and ext: "extends old (content g) \<or> detected g s"
  shows "sees env (content g) (read_all env (Some g) s)"
proof (cases "unchanged_divergent (Some g) s")
  case True
  then show ?thesis using s honest by (simp add: read_all_def)
next
  case False
  obtain b s1 where b: "(if external_growth (Some g) s then check_prefix env (content g) s else (False, s)) = (b, s1)"
    by fastforce
  have s1: "cache s1 = cache s" "cache_bytes s1 = cache_bytes s" "store_divergence s1 = store_divergence s"
    using b check_prefix_frame [of env "content g" s b s1] by (auto split: if_splits)
  define invalid where "invalid \<longleftrightarrow> detected g s \<or> b"
  define s3 where "s3 = (if invalid then drop_view (s1\<lparr>trusted_growth_stat := None\<rparr>) else s1\<lparr>trusted_growth_stat := None\<rparr>)"
  have v3: "view env (content g) s3"
  proof (cases invalid)
    case True
    then show ?thesis by (simp add: s3_def view_start)
  next
    case False
    then have "view env (content g) s"
      using ext s view_extends by (auto simp: invalid_def sees_def)
    then show ?thesis using False s1 by (simp add: s3_def view_def)
  qed
  have d3: "store_divergence s3 \<noteq> None \<Longrightarrow> \<not> log_sound (codec.truncate env) (content g)"
    using s ext log_extends(2) [of old "content g"] s1 by (auto simp: s3_def invalid_def sees_def split: if_splits)
  have r: "cache (read_all env (Some g) s) = cache (top_up env g s3)"
    "cache_bytes (read_all env (Some g) s) = cache_bytes (top_up env g s3)"
    "store_divergence (read_all env (Some g) s) = store_divergence (top_up env g s3)"
    using False b by (auto simp: read_all_def s3_def invalid_def detected_def Let_def)
  show ?thesis
    using top_up_sees [OF v3 d3] unfolding sees_def view_def r .
qed

lemma dense_tail: "dense_from 0 es \<Longrightarrow> tail_seq es = int (length es) - 1"
proof -
  have "dense_from n es \<Longrightarrow> es \<noteq> [] \<Longrightarrow> e_seq (last es) = n + int (length es) - 1" for n
    by (induction n es rule: dense_from.induct) auto
  then show "dense_from 0 es \<Longrightarrow> tail_seq es = int (length es) - 1" by (auto simp: tail_seq_def)
qed

lemma log_events_dense: "dense_from 0 (log_events c buf)"
  unfolding log_events_def by (rule read_lines_dense) (rule prod.collapse [symmetric])

lemma tail_mono:
  assumes "extends old new"
  shows "tail_seq (log_events c old) \<le> tail_seq (log_events c new)"
  using log_extends(1) [OF assms, of c] dense_tail [OF log_events_dense] by (metis length_append of_nat_mono
      diff_right_mono le_add1)

lemma read_all_seq:
  "last_seq (read_all env f s) = last_seq s \<or>
   last_seq (read_all env f s) = Some (tail_seq (cache (read_all env f s))) \<and> last_seq s \<noteq> None"
proof -
  obtain b s1 where b: "(case f of Some g \<Rightarrow> if external_growth f s then check_prefix env (content g) s else (False, s)
      | None \<Rightarrow> (False, s)) = (b, s1)" by fastforce
  have "last_seq s1 = last_seq s"
    using b check_prefix_frame(4) by (auto split: option.splits if_splits)
  then show ?thesis
    by (simp add: read_all_def b Let_def split: option.splits)
qed

lemma read_all_last_seq:
  assumes s: "sees env old s" and q: "last_seq s = Some q" "q \<le> tail_seq (log_events (codec.truncate env) old)"
    and honest: "unchanged_divergent (Some g) s \<Longrightarrow> content g = old"
    and ext: "extends old (content g)"
  shows "\<exists>r. last_seq (read_all env (Some g) s) = Some r \<and> r \<le> tail_seq (log_events (codec.truncate env) (content g))"
proof -
  have "cache (read_all env (Some g) s) = log_events (codec.truncate env) (content g)"
    using read_all_sees [OF s honest] ext by (simp add: sees_def)
  then show ?thesis
    using read_all_seq [of env "Some g" s] q tail_mono [OF ext, of "codec.truncate env"] by auto
qed

end
