(* ===== verification/EventAppend.thy ===== *)
theory EventAppend
  imports EventCache
begin

text \<open>
  The appends. \<open>log_ok\<close> is the file a store writes: records that decode, continue each other
  densely and carry their last sequence number in the clear; \<open>synced\<close> is a store whose cache is
  of an earlier content of the same log. Under them one append adds exactly its events, and every
  way it can fail leaves the old events or the new ones.
\<close>

section \<open>Logs as the store writes them\<close>

definition chunk_ok :: "store_env \<Rightarrow> int \<Rightarrow> bytes \<Rightarrow> row list \<Rightarrow> bool" where
  "chunk_ok env n raw es \<longleftrightarrow> newline \<notin> set raw \<and> bytes_strip raw = raw \<and> raw \<noteq> [] \<and> es \<noteq> [] \<and>
     (\<exists>d. loads env raw = Some (PDict d) \<and> line_events (codec.truncate env) n d = Some es \<and>
        phas d ''seq'' \<and> pget d ''seq'' = PInt (e_seq (last es))) \<and>
     (\<forall>k. 0 < k \<longrightarrow> k < length raw \<longrightarrow> (\<forall>d. loads env (drop k raw) \<noteq> Some (PDict d)))"

fun chunks_ok :: "store_env \<Rightarrow> int \<Rightarrow> (bytes \<times> row list) list \<Rightarrow> bool" where
  "chunks_ok env n [] = True"
| "chunks_ok env n ((raw, es) # cs) = (chunk_ok env n raw es \<and> chunks_ok env (after_rows n es) cs)"

definition log_ok :: "store_env \<Rightarrow> bytes \<Rightarrow> row list \<Rightarrow> bool" where
  "log_ok env buf es \<longleftrightarrow> (\<exists>cs. complete_lines buf = map fst cs \<and> chunks_ok env 0 cs \<and> es = concat (map snd cs))"

lemma chunks_ok_append:
  "chunks_ok env n (xs @ ys) \<longleftrightarrow> chunks_ok env n xs \<and> chunks_ok env (after_rows n (concat (map snd xs))) ys"
  by (induction env n xs rule: chunks_ok.induct) auto

lemma truncate_json [simp]: "json.truncate (codec.truncate env) = json.truncate env"
  by (simp add: json.truncate_def codec.truncate_def)

lemma truncate_fields [simp]:
  "loads (json.truncate env) = loads env" "dumps (json.truncate env) = dumps env"
  "loads (codec.truncate env) = loads env" "dumps (codec.truncate env) = dumps env"
  "validate (codec.truncate env) = validate env"
  by (simp_all add: json.truncate_def codec.truncate_def)

lemma sees_cong:
  "cache s' = cache s \<Longrightarrow> cache_bytes s' = cache_bytes s \<Longrightarrow> store_divergence s' = store_divergence s \<Longrightarrow>
    sees env buf s' = sees env buf s"
  by (simp add: sees_def view_def)

lemma chunk_decodes:
  assumes "chunk_ok env n raw es"
  shows "read_lines (codec.truncate env) n (raw # ls) =
    (es @ fst (read_lines (codec.truncate env) (after_rows n es) ls),
     snd (read_lines (codec.truncate env) (after_rows n es) ls))"
  using assms by (auto simp: chunk_ok_def decode_jsonl_line_def split: prod.splits)

lemma chunks_read:
  "chunks_ok env n cs \<Longrightarrow> read_lines (codec.truncate env) n (map fst cs) = (concat (map snd cs), True)"
proof (induction env n cs rule: chunks_ok.induct)
  case (2 env n raw es cs)
  then show ?case using chunk_decodes [of env n raw es "map fst cs"] by (simp del: read_lines.simps)
qed simp

lemma log_ok_reads:
  assumes "log_ok env buf es"
  shows "log_events (codec.truncate env) buf = es" and "log_sound (codec.truncate env) buf"
  using assms chunks_read by (auto simp: log_ok_def log_events_def log_sound_def)

lemma log_ok_lines: "complete_lines a = complete_lines b \<Longrightarrow> log_ok env a es = log_ok env b es"
  by (simp add: log_ok_def)

lemma log_ok_append:
  assumes "log_ok env buf es" and "torn_tail buf = []" and "chunk_ok env (after_rows 0 es) raw new"
  shows "log_ok env (buf @ raw @ [newline]) (es @ new)"
proof -
  obtain cs where cs: "complete_lines buf = map fst cs" "chunks_ok env 0 cs" "es = concat (map snd cs)"
    using assms(1) by (auto simp: log_ok_def)
  have "newline \<notin> set raw" using assms(3) by (simp add: chunk_ok_def)
  then have "complete_lines (raw @ [newline]) = [raw]"
    using complete_lines_join [of "[raw]"] by (simp add: join_lines_def)
  then have "complete_lines (buf @ raw @ [newline]) = map fst (cs @ [(raw, new)])"
    using complete_lines_append(1) [OF assms(2), of "raw @ [newline]"] cs(1) by simp
  moreover have "chunks_ok env 0 (cs @ [(raw, new)])"
    using cs assms(3) by (simp add: chunks_ok_append)
  ultimately show ?thesis unfolding log_ok_def using cs(3) by (intro exI [of _ "cs @ [(raw, new)]"]) simp
qed

lemma log_ok_Nil [simp]: "log_ok env [] es \<longleftrightarrow> es = []"
  by (auto simp: log_ok_def complete_lines_def)

lemma log_ok_dense: "log_ok env buf es \<Longrightarrow> dense_from 0 es"
  using log_ok_reads(1) log_events_dense by metis

section \<open>Stores of the same log\<close>

definition bytes_of :: "disk_file option \<Rightarrow> bytes" where
  "bytes_of f = (case f of None \<Rightarrow> [] | Some g \<Rightarrow> content g)"

definition synced :: "store_env \<Rightarrow> bytes \<Rightarrow> store \<Rightarrow> bool" where
  "synced env buf s \<longleftrightarrow> (\<exists>old q. sees env old s \<and> extends old buf \<and> last_seq s = Some q \<and>
     q \<le> tail_seq (log_events (codec.truncate env) old))"

lemma extends_trans:
  assumes "extends a b" "extends b c"
  shows "extends a c"
proof -
  obtain r where c: "c = join_lines (complete_lines b) @ r" using assms(2) by (auto simp: extends_def)
  obtain more where "complete_lines b = complete_lines a @ more" using extends_lines [OF assms(1)] by blast
  then show ?thesis using c by (auto simp: extends_def)
qed

lemma synced_extends: "synced env a s \<Longrightarrow> extends a b \<Longrightarrow> synced env b s"
  unfolding synced_def using extends_trans by blast

lemma synced_now:
  "sees env buf s \<Longrightarrow> last_seq s = Some q \<Longrightarrow> q \<le> tail_seq (log_events (codec.truncate env) buf) \<Longrightarrow> synced env buf s"
  unfolding synced_def using extends_refl by blast

lemma synced_healthy: "log_ok env buf es \<Longrightarrow> synced env buf s \<Longrightarrow> store_divergence s = None"
  using log_ok_reads(2) log_extends(2) by (auto simp: synced_def sees_def)

lemma sees_Nil: "cache s = [] \<Longrightarrow> cache_bytes s = 0 \<Longrightarrow> store_divergence s = None \<Longrightarrow> sees env [] s"
  by (simp add: sees_def view_start) (simp add: log_events_def log_sound_def complete_lines_def)

lemma sees_empty_lines:
  assumes "sees env old s" "complete_lines old = []" "store_divergence s = None"
  shows "cache s = [] \<and> cache_bytes s = 0"
  using assms by (auto simp: sees_def view_def log_events_def)

lemma synced_read:
  assumes ok: "log_ok env (bytes_of f) es" and s: "synced env (bytes_of f) s"
  shows "sees env (bytes_of f) (read_all env f s)" and "cache (read_all env f s) = es"
    and "store_divergence (read_all env f s) = None" and "synced env (bytes_of f) (read_all env f s)"
proof -
  obtain old q where o: "sees env old s" "extends old (bytes_of f)" "last_seq s = Some q"
    "q \<le> tail_seq (log_events (codec.truncate env) old)" using s by (auto simp: synced_def)
  have d: "store_divergence s = None" using synced_healthy [OF ok s] .
  have sees: "sees env (bytes_of f) (read_all env f s)"
  proof (cases f)
    case None
    have "complete_lines old = []" using extends_lines [OF o(2)] None by (simp add: bytes_of_def complete_lines_def)
    then have "cache s = [] \<and> cache_bytes s = 0" using sees_empty_lines [OF o(1)] d by blast
    then show ?thesis
      using None d by (auto simp: bytes_of_def read_all_def Let_def unchanged_divergent_def intro!: sees_Nil)
  next
    case (Some g)
    then show ?thesis
      using read_all_sees [OF o(1), of g] o(2) d by (simp add: bytes_of_def unchanged_divergent_def)
  qed
  then show "sees env (bytes_of f) (read_all env f s)" and c: "cache (read_all env f s) = es"
    and "store_divergence (read_all env f s) = None"
    using log_ok_reads [OF ok] by (simp_all add: sees_def)
  have "q \<le> tail_seq es" using o(4) tail_mono [OF o(2), of "codec.truncate env"] log_ok_reads(1) [OF ok] by simp
  then show "synced env (bytes_of f) (read_all env f s)"
    using sees read_all_seq [of env f s] o(3) c log_ok_reads(1) [OF ok] synced_now by (metis order_refl)
qed

lemma open_synced:
  assumes "log_ok env (bytes_of f) es"
  shows "synced env (bytes_of f) (open_store env f)"
proof -
  have e: "sees env [] empty_store" by (rule sees_Nil) (simp_all add: empty_store_def)
  have sees: "sees env (bytes_of f) (read_all env f empty_store)"
  proof (cases f)
    case None
    then show ?thesis
      by (auto simp: bytes_of_def read_all_def Let_def unchanged_divergent_def empty_store_def intro!: sees_Nil)
  next
    case (Some g)
    then show ?thesis
      using read_all_sees [OF e, of g]
      by (simp add: bytes_of_def unchanged_divergent_def empty_store_def extends_def complete_lines_def)
  qed
  define s1 where "s1 = (read_all env f empty_store)\<lparr>last_seq := Some (tail_seq (cache (read_all env f empty_store)))\<rparr>"
  have s1: "sees env (bytes_of f) s1" using sees sees_cong [of s1 "read_all env f empty_store"] by (simp add: s1_def)
  have "log_divergence (codec.truncate env) (map_option content f) = None"
    using log_divergence_None log_ok_reads(2) [OF assms]
    by (cases f) (simp_all add: bytes_of_def log_divergence_def)
  then have "sees env (bytes_of f) (open_store env f)" "last_seq (open_store env f) = last_seq s1"
    using s1 log_ok_reads(2) [OF assms]
    by (auto simp: open_store_def s1_def [symmetric] Let_def sees_def view_def)
  then show ?thesis
    using synced_now s1 by (simp add: s1_def sees_def)
qed


section \<open>Healing and the tail on disk\<close>

lemma torn_tail_newline: "torn_tail buf = [] \<longleftrightarrow> buf = [] \<or> last buf = newline"
proof -
  have e: "buf = join_lines (complete_lines buf) @ torn_tail buf" by (simp add: join_split)
  have j: "ls \<noteq> [] \<Longrightarrow> join_lines ls \<noteq> [] \<and> last (join_lines ls) = newline" for ls
    by (induction ls) (auto simp: join_lines_def)
  show ?thesis
  proof
    assume t: "torn_tail buf = []"
    then show "buf = [] \<or> last buf = newline" using e j by (metis append_Nil2 join_lines_Nil)
  next
    assume b: "buf = [] \<or> last buf = newline"
    show "torn_tail buf = []"
    proof (rule ccontr)
      assume n: "torn_tail buf \<noteq> []"
      then have "last buf = last (torn_tail buf)" by (metis e last_appendR)
      moreover have "last (torn_tail buf) \<noteq> newline" using n torn_tail_clean by (metis last_in_set)
      moreover have "buf \<noteq> []" using n e by (metis append_is_Nil_conv)
      ultimately show False using b by simp
    qed
  qed
qed

lemma heal_bytes:
  "bytes_of (heal_torn_tail st f) = join_lines (complete_lines (bytes_of f))"
  "heal_torn_tail st f = None \<longleftrightarrow> f = None"
proof -
  have t: "take (length buf - length (torn_tail buf)) buf = join_lines (complete_lines buf)" for buf
    by (metis append_eq_conv_conj join_split length_append add_diff_cancel_right')
  show "bytes_of (heal_torn_tail st f) = join_lines (complete_lines (bytes_of f))"
  proof (cases f)
    case None
    then show ?thesis by (simp add: heal_torn_tail_def bytes_of_def complete_lines_def)
  next
    case (Some g)
    show ?thesis
    proof (cases "torn_tail (content g) = []")
      case True
      then show ?thesis using Some join_split [of "content g"]
        by (auto simp: heal_torn_tail_def bytes_of_def torn_tail_newline [symmetric])
    next
      case False
      then show ?thesis using Some t [of "content g"]
        by (auto simp: heal_torn_tail_def bytes_of_def torn_tail_newline rewrite_def)
    qed
  qed
  show "heal_torn_tail st f = None \<longleftrightarrow> f = None"
    by (auto simp: heal_torn_tail_def split: option.splits)
qed

lemma heal_ok:
  assumes "log_ok env (bytes_of f) es"
  shows "log_ok env (bytes_of (heal_torn_tail st f)) es" and "torn_tail (bytes_of (heal_torn_tail st f)) = []"
    and "extends (bytes_of f) (bytes_of (heal_torn_tail st f))"
proof -
  have c: "complete_lines (join_lines (complete_lines (bytes_of f))) = complete_lines (bytes_of f)"
    by (rule complete_lines_join) (auto dest: complete_lines_clean)
  show "log_ok env (bytes_of (heal_torn_tail st f)) es"
    using assms by (simp add: heal_bytes(1) log_ok_def c)
  show "torn_tail (bytes_of (heal_torn_tail st f)) = []"
    by (simp add: heal_bytes(1) torn_tail_join complete_lines_clean)
  show "extends (bytes_of f) (bytes_of (heal_torn_tail st f))"
    unfolding heal_bytes(1) extends_def by (metis append_Nil2)
qed

text \<open>The window ends with the last record or with a proper suffix of it, which is no object.\<close>

lemma last_record_seq:
  assumes "chunk_ok env n raw es"
  shows "seq_in_lines (json.truncate env) (raw # ls) = Some (Inr (e_seq (last es)))"
  using assms by (auto simp: chunk_ok_def)

lemma seq_in_window:
  assumes pre: "torn_tail pre = []" and c: "chunk_ok env n raw es"
    and buf_def: "buf = pre @ raw @ [newline]"
    and found_def: "found = seq_in_lines (json.truncate env)
     (rev (filter (\<lambda>l. bytes_strip l \<noteq> []) (split_lines (drop k buf))))"
  shows "found = None \<or> found = Some (Inr (e_seq (last es)))"
proof -
  have raw: "newline \<notin> set raw" "bytes_strip raw \<noteq> []" using c by (simp_all add: chunk_ok_def)
  have blank: "bytes_strip [] = []" by (simp add: bytes_strip_def)
  consider "k \<le> length pre" | "length pre < k" "k \<le> length pre + length raw" | "length pre + length raw < k"
    by linarith
  then show ?thesis
  proof cases
    case 1
    have d: "drop k buf = drop k pre @ raw @ [newline]" using 1 by (simp add: buf_def)
    have "drop k pre = [] \<or> last (drop k pre) = newline"
      using pre torn_tail_newline [of pre] by (cases "k < length pre") (auto simp: last_drop)
    then have t: "torn_tail (drop k pre) = []" using torn_tail_newline by blast
    have r: "complete_lines (raw @ [newline]) = [raw]" "torn_tail (raw @ [newline]) = []"
      using complete_lines_join [of "[raw]"] torn_tail_join [of "[raw]"] raw(1) by (simp_all add: join_lines_def)
    have "complete_lines (drop k buf) = complete_lines (drop k pre) @ [raw]" "torn_tail (drop k buf) = []"
      using complete_lines_append [OF t, of "raw @ [newline]"] r d by simp_all
    then have "split_lines (drop k buf) = complete_lines (drop k pre) @ [raw] @ [[]]"
      unfolding complete_lines_def torn_tail_def
      by (metis append.assoc append_butlast_last_id split_lines_not_Nil)
    then show ?thesis
      using last_record_seq [OF c] raw(2) blank unfolding found_def by simp
  next
    case 2
    let ?j = "k - length pre"
    have "drop k buf = drop ?j raw @ [newline]" using 2 by (simp add: buf_def)
    moreover have "newline \<notin> set (drop ?j raw)" using raw(1) by (meson in_set_dropD)
    ultimately have s: "split_lines (drop k buf) = [drop ?j raw, []]"
      using split_lines_append_newline [of "drop ?j raw" "[]"] by simp
    have "\<forall>d. loads env (drop ?j raw) \<noteq> Some (PDict d) \<or> drop ?j raw = []"
    proof (cases "?j < length raw")
      case True
      then show ?thesis using c 2 by (simp add: chunk_ok_def)
    qed simp
    then show ?thesis
      unfolding found_def s using blank by (auto split: option.splits pyval.splits)
  next
    case 3
    then have "drop k buf = []" by (simp add: buf_def)
    then show ?thesis unfolding found_def using blank by simp
  qed
qed

lemma disk_tail:
  assumes ok: "log_ok env (bytes_of f) es" and t: "torn_tail (bytes_of f) = []" and s: "synced env (bytes_of f) s"
  shows "\<exists>s'. disk_last_seq env f s = (Inr (tail_seq es), s') \<and> synced env (bytes_of f) s'"
proof (cases "bytes_of f = []")
  case True
  then show ?thesis
    using ok s by (auto simp: disk_last_seq_def tail_seq_def bytes_of_def split: option.splits)
next
  case False
  then obtain g where g: "f = Some g" "content g \<noteq> []" by (auto simp: bytes_of_def split: option.splits)
  obtain cs where cs: "complete_lines (content g) = map fst cs" "chunks_ok env 0 cs" "es = concat (map snd cs)"
    using ok g by (auto simp: log_ok_def bytes_of_def)
  have whole: "content g = join_lines (map fst cs)"
    using join_split [of "content g"] t g cs(1) by (simp add: bytes_of_def)
  then have "cs \<noteq> []" using g(2) by auto
  then obtain ds raw new where ds: "cs = ds @ [(raw, new)]" by (metis rev_exhaust surj_pair)
  then have c: "chunk_ok env (after_rows 0 (concat (map snd ds))) raw new"
    using cs(2) by (simp add: chunks_ok_append)
  have buf: "content g = join_lines (map fst ds) @ raw @ [newline]"
    using whole ds by (simp add: join_lines_def)
  have clean: "torn_tail (join_lines (map fst ds)) = []"
    using complete_lines_clean cs(1) ds by (intro torn_tail_join) (metis in_set_conv_decomp map_append append_Cons append_assoc list.simps(9) in_set_butlastD append_is_Nil_conv butlast_snoc map_butlast)
  have "new \<noteq> []" using c by (simp add: chunk_ok_def)
  then have tail: "e_seq (last new) = tail_seq es" using cs(3) ds by (simp add: tail_seq_def)
  have r: "sees env (bytes_of f) (read_all env f s)" "cache (read_all env f s) = es" "synced env (bytes_of f) (read_all env f s)"
    using synced_read [OF ok s] by simp_all
  have "\<exists>k. last_bytes tail_window (content g) = drop k (content g)"
    unfolding last_bytes_def by (metis drop0)
  then obtain k where k: "last_bytes tail_window (content g) = drop k (content g)" by blast
  show ?thesis
    using seq_in_window [OF clean c refl refl, of k] r(2,3) s tail
    unfolding disk_last_seq_def g(1) buf [symmetric]
    by (auto simp: g(2) k Let_def bytes_of_def)
qed

end
