(* ===== verification/EventWrites.thy ===== *)
theory EventWrites
  imports EventAppend
begin

text \<open>
  One critical section of an append on a log the store wrote: what it decides from, and how the file
  and the store stand after each way it can end.
\<close>

definition admitted :: "append_call \<Rightarrow> bool" where
  "admitted call \<longleftrightarrow> \<not> fenced call \<and> (require_lock call \<longrightarrow> lock_available call)"

definition loses_race :: "append_call \<Rightarrow> row list \<Rightarrow> bool" where
  "loses_race call es \<longleftrightarrow> expected_last_seq call \<noteq> None \<and> expected_last_seq call \<noteq> Some (tail_seq es)"

lemma locked_append_decides:
  assumes ok: "log_ok env (bytes_of f) es" and s: "synced env (bytes_of f) s" and a: "admitted call"
  obtains f1 s1 where "f1 = heal_torn_tail (heal_stamp call) f" "log_ok env (bytes_of f1) es"
    "torn_tail (bytes_of f1) = []" "synced env (bytes_of f1) s1"
    "locked_append env call build f s =
      (if loses_race call es then (Inl (Conflict (the (expected_last_seq call)) (tail_seq es)), f1, s1)
       else (case build (tail_seq es) of Inl e \<Rightarrow> (Inl e, f1, s1)
         | Inr (buf, sq, events) \<Rightarrow> write_record env call buf sq events f1 s1))"
proof -
  let ?f1 = "heal_torn_tail (heal_stamp call) f" and ?s = "read_all env f s"
  note r = synced_read [OF ok s] and h = heal_ok [OF ok, of "heal_stamp call"]
  have s1: "synced env (bytes_of ?f1) ?s" using synced_extends [OF r(4) h(3)] .
  obtain s2 where s2: "disk_last_seq env ?f1 ?s = (Inr (tail_seq es), s2)" "synced env (bytes_of ?f1) s2"
    using disk_tail [OF h(1,2) s1] by blast
  obtain old q where q: "last_seq s2 = Some q" "q \<le> tail_seq (log_events (codec.truncate env) old)" "extends old (bytes_of ?f1)"
    using s2(2) by (auto simp: synced_def)
  have "q \<le> tail_seq es" using q tail_mono [OF q(3), of "codec.truncate env"] log_ok_reads(1) [OF h(1)] by simp
  then have cur: "max q (tail_seq es) = tail_seq es" by simp
  show ?thesis
    using a r(3) by (intro that [of ?f1 s2] h(1,2) s2(2) refl)
      (auto simp: locked_append_def admitted_def loses_race_def Let_def s2(1) q(1) cur)
qed

lemma tail_seq_append: "new \<noteq> [] \<Longrightarrow> tail_seq (es @ new) = e_seq (last new)"
  by (simp add: tail_seq_def)

lemma append_bytes_content: "content (append_bytes env st buf f) = bytes_of f @ buf"
  by (simp add: append_bytes_def bytes_of_def rewrite_def split: option.splits)

lemma extends_append: "torn_tail a = [] \<Longrightarrow> extends a (a @ b)"
  unfolding extends_def by (metis append_Nil2 join_split)

lemma write_landed:
  assumes ok: "log_ok env (bytes_of f) es" "torn_tail (bytes_of f) = []" and s: "synced env (bytes_of f) s"
    and c: "chunk_ok env (after_rows 0 es) raw new" and l: "outcome call = Landed"
  obtains g s' where "write_record env call (raw @ [newline]) (e_seq (last new)) new f s = (Inr new, Some g, s')"
    "log_ok env (content g) (es @ new)" "synced env (content g) s'" "cache s' = es @ new"
    "extends (bytes_of f) (content g)"
proof -
  let ?g = "append_bytes env (write_stamp call) (raw @ [newline]) f"
  let ?s1 = "s\<lparr>last_seq := Some (e_seq (last new)), trusted_growth_stat := Some (file_identity ?g)\<rparr>"
  let ?s' = "read_all env (Some ?g) ?s1"
  have w: "write_record env call (raw @ [newline]) (e_seq (last new)) new f s = (Inr new, Some ?g, ?s')"
    by (simp add: write_record_def l Let_def)
  have ok': "log_ok env (content ?g) (es @ new)"
    using log_ok_append [OF ok c] by (simp add: append_bytes_content)
  obtain old where old: "sees env old s" "extends old (bytes_of f)" using s by (auto simp: synced_def)
  have s1: "sees env old ?s1" using old(1) sees_cong [of ?s1 s] by simp
  have ext: "extends old (content ?g)"
    using extends_trans [OF old(2) extends_append [OF ok(2), of "raw @ [newline]"]] by (simp add: append_bytes_content)
  have d: "store_divergence ?s1 = None" using synced_healthy [OF ok(1) s] by simp
  have sees: "sees env (content ?g) ?s'"
    using read_all_sees [OF s1, of ?g] ext d by (auto simp: unchanged_divergent_def)
  then have cache: "cache ?s' = es @ new" using log_ok_reads(1) [OF ok'] by (simp add: sees_def)
  have new: "new \<noteq> []" using c by (simp add: chunk_ok_def)
  have "last_seq ?s' = Some (tail_seq (es @ new))"
    using read_all_seq [of env "Some ?g" ?s1] cache tail_seq_append [OF new, of es] by auto
  then have "synced env (content ?g) ?s'"
    using synced_now [OF sees] log_ok_reads(1) [OF ok'] by simp
  moreover have "extends (bytes_of f) (content ?g)"
    using extends_append [OF ok(2)] by (simp add: append_bytes_content)
  ultimately show ?thesis using that w ok' cache by blast
qed

text \<open>However many bytes of the record reached the file, a reader sees the old events or all the new
  ones.\<close>

lemma torn_write:
  assumes ok: "log_ok env buf es" "torn_tail buf = []" and c: "chunk_ok env (after_rows 0 es) raw new"
  shows "log_ok env (buf @ take n (raw @ [newline])) (if n \<le> length raw then es else es @ new)"
proof (cases "n \<le> length raw")
  case True
  have "newline \<notin> set raw" using c by (simp add: chunk_ok_def)
  then have "newline \<notin> set (take n raw)" by (meson in_set_takeD)
  then have "complete_lines (take n raw) = []" using split_unique(1) [of "[]" "take n raw"] by simp
  then have "complete_lines (buf @ take n (raw @ [newline])) = complete_lines buf"
    using complete_lines_append(1) [OF ok(2)] True by simp
  from log_ok_lines [OF this] show ?thesis using ok(1) True by simp
next
  case False
  then show ?thesis using log_ok_append [OF ok c] by simp
qed

lemma write_failed:
  assumes ok: "log_ok env (bytes_of f) es" "torn_tail (bytes_of f) = []"
    and c: "chunk_ok env (after_rows 0 es) raw new" and l: "outcome call = Failed n"
  obtains g s' where "write_record env call (raw @ [newline]) (e_seq (last new)) new f s = (Inl WriteFailed, Some g, s')"
    "log_ok env (content g) (if n \<le> length raw then es else es @ new)" "extends (bytes_of f) (content g)"
  using torn_write [OF ok c, of n] extends_append [OF ok(2)] that
  by (simp add: write_record_def l Let_def append_bytes_content)

section \<open>What the builders make\<close>

text \<open>The documented behaviour of the JSON library and of Pydantic on one event: the printed row is
  one line, reads back, is no object when cut at the front, and validates to itself.\<close>

definition json_text :: "store_env \<Rightarrow> payload \<Rightarrow> bool" where
  "json_text env d \<longleftrightarrow> json_line (json.truncate env) (PDict d) \<and>
     (\<forall>k. 0 < k \<longrightarrow> k < length (dumps env (PDict d)) \<longrightarrow>
        (\<forall>d'. loads env (drop k (dumps env (PDict d))) \<noteq> Some (PDict d')))"

definition row_ok :: "store_env \<Rightarrow> row \<Rightarrow> bool" where
  "row_ok env e \<longleftrightarrow> json_text env (model_dump e) \<and> validate env False (model_dump e) = Some e"

definition batch_ok :: "store_env \<Rightarrow> row \<Rightarrow> row list \<Rightarrow> bool" where
  "batch_ok env outer es \<longleftrightarrow> json_text env (physical_envelope outer) \<and>
     validate env True (model_dump outer) = Some outer \<and>
     (\<forall>e \<in> set es. validate env True (model_dump e) = Some e)"

lemma chunk_text:
  assumes "json_text env d" and "line_events (codec.truncate env) n d = Some es" and "es \<noteq> []"
    and "phas d ''seq''" "pget d ''seq'' = PInt (e_seq (last es))"
  shows "chunk_ok env n (dumps env (PDict d)) es"
  using assms by (auto simp: chunk_ok_def json_text_def json_line_def)

lemma model_dump_fields:
  "pget (model_dump e) ''seq'' = PInt (e_seq e)" "phas (model_dump e) ''seq''"
  "pget (model_dump e) ''type'' = PStr (e_type e)" "pget_or (model_dump e) ''v'' v = PInt (r_v e)"
  "has_fields (model_dump e) event_fields"
  by (simp_all add: model_dump_def has_fields_def event_fields_def dict_keys_def)

lemma chunk_one:
  assumes "row_ok env e" and "r_v e = 1" and "e_type e \<noteq> event_batch_type"
  shows "chunk_ok env (e_seq e) (dumps env (PDict (model_dump e))) [e]"
proof (rule chunk_text)
  show "line_events (codec.truncate env) (e_seq e) (model_dump e) = Some [e]"
    using assms by (simp add: line_events_def decode_event_record_def is_event_batch_record_def
        model_dump_fields row_ok_def event_sequence_continues_def event_batch_guard_def)
qed (use assms in \<open>simp_all add: row_ok_def model_dump_fields\<close>)

lemma batch_rows_props:
  assumes "length ts = length drs"
  shows "length (batch_rows cur ts tr sp drs) = length drs" "dense_from (cur + 1) (batch_rows cur ts tr sp drs)"
    "e \<in> set (batch_rows cur ts tr sp drs) \<Longrightarrow> r_v e = 1 \<and> (\<exists>dr \<in> set drs. e_type e = d_type dr)"
  using assms by (induction cur ts tr sp drs rule: batch_rows.induct) (auto simp: make_row_def)

lemma decode_members_rows:
  "dense_from n es \<Longrightarrow> (\<And>e. e \<in> set es \<Longrightarrow> validate c True (model_dump e) = Some e \<and> r_v e = 1 \<and> e_type e \<noteq> event_batch_type) \<Longrightarrow>
    decode_members c n (map (\<lambda>e. PDict (model_dump e)) es) = Some es"
  by (induction n es rule: dense_from.induct) (simp_all add: decode_member_def model_dump_fields json_eq_def)

lemma physical_fields:
  assumes "e_type e = event_batch_type"
  shows "dict_put ''type'' (PStr event_batch_type) (physical_envelope e) = model_dump e"
    "has_fields (physical_envelope e) event_fields" "pget (physical_envelope e) ''type'' = event_batch_guard"
    "pget (physical_envelope e) ''seq'' = PInt (e_seq e)" "phas (physical_envelope e) ''seq''"
  using assms by (simp_all add: physical_envelope_def model_dump_def dict_put_def has_fields_def
      event_fields_def dict_keys_def)

lemma chunk_batch:
  assumes es: "es \<noteq> []" "int (length es) \<le> max_event_batch_members" "dense_from n es" "0 \<le> n"
    and members: "\<And>e. e \<in> set es \<Longrightarrow> r_v e = 1 \<and> e_type e \<noteq> event_batch_type"
    and ok: "batch_ok env (batch_envelope tr sp es) es"
    and size: "int (length (dumps env (PDict (physical_envelope (batch_envelope tr sp es))))) + 1 \<le> max_event_batch_bytes"
  shows "chunk_ok env n (dumps env (PDict (physical_envelope (batch_envelope tr sp es)))) es"
proof (rule chunk_text)
  let ?o = "batch_envelope tr sp es"
  have o: "e_type ?o = event_batch_type" "e_seq ?o = e_seq (last es)" "r_v ?o = 1"
    by (simp_all add: batch_envelope_def make_row_def)
  note f = physical_fields [OF o(1)]
  have hd: "e_seq (hd es) = n" using es(1,3) by (cases es) auto
  have last: "e_seq (last es) = n + int (length es) - 1"
    using es(1,3) by (induction n es rule: dense_from.induct) (auto split: if_splits)
  have d: "has_fields (e_data ?o) event_batch_data_fields" "pget (e_data ?o) ''schema'' = PStr event_batch_schema"
    "pget (e_data ?o) ''count'' = PInt (int (length es))" "pget (e_data ?o) ''first_seq'' = PInt n"
    "pget (e_data ?o) ''last_seq'' = PInt (e_seq (last es))"
    "pget (e_data ?o) ''events'' = PList (map (\<lambda>e. PDict (model_dump e)) es)"
    by (simp_all add: batch_envelope_def make_row_def has_fields_def event_batch_data_fields_def dict_keys_def hd)
  have bounds: "batch_bounds_ok (codec.truncate env) (physical_envelope ?o) ?o (int (length es)) n (e_seq (last es))
      (map (\<lambda>e. PDict (model_dump e)) es)"
    using es size last o(2) by (cases es) (auto simp: batch_bounds_ok_def)
  have "decode_members (codec.truncate env) n (map (\<lambda>e. PDict (model_dump e)) es) = Some es"
    using members ok by (intro decode_members_rows es(3)) (simp add: batch_ok_def)
  then have "decode_batch_envelope (codec.truncate env) (physical_envelope ?o) = Some es"
    using ok o(3) f d bounds
    by (simp add: decode_batch_envelope_def is_event_batch_record_def batch_ok_def json_eq_def)
  then show "line_events (codec.truncate env) n (physical_envelope ?o) = Some es"
    using es by (simp add: line_events_def decode_event_record_def is_event_batch_record_def f
        event_sequence_continues_def)
  show "phas (physical_envelope ?o) ''seq''" "pget (physical_envelope ?o) ''seq'' = PInt (e_seq (last es))"
    using f o by simp_all
qed (use ok es in \<open>simp_all add: batch_ok_def\<close>)

end
