(* ===== verification/EventWorld.thy ===== *)
theory EventWorld
  imports EventWrites "HOL-Library.Sublist"
begin

text \<open>
  Any number of processes on one log: each appends events or batches, reads, and may die between any
  two operations or in the middle of a write, when a new store is opened on what reached the file.
  A process that survives a torn write is not a step of this world; what happens then is shown
  apart.
\<close>

section \<open>Operations under the invariant\<close>

lemma append_cases:
  assumes ok: "log_ok env (bytes_of f) es" and s: "synced env (bytes_of f) s"
    and bc: "build (tail_seq es) = Inr (raw @ [newline], e_seq (last new), new) \<and>
        chunk_ok env (after_rows 0 es) raw new \<or> (\<exists>e. build (tail_seq es) = Inl e)"
    and a: "locked_append env call build f s = (r, f', s')"
  shows "extends (bytes_of f) (bytes_of f') \<and>
    ((r = Inr new \<and> log_ok env (bytes_of f') (es @ new) \<and> synced env (bytes_of f') s') \<or>
    (\<exists>e. r = Inl e \<and>
      (log_ok env (bytes_of f') es \<or> log_ok env (bytes_of f') (es @ new) \<and> (\<exists>n. outcome call = Failed n)) \<and>
      (synced env (bytes_of f') s' \<or> (\<exists>n. outcome call = Failed n))))"
proof (cases "admitted call")
  case False
  then have "r = Inl WriteFenced \<or> r = Inl LockUnavailable" "f' = f" "s' = s"
    using a by (auto simp: locked_append_def admitted_def split: if_splits)
  then show ?thesis using ok s by auto
next
  case True
  obtain f1 s1 where d: "f1 = heal_torn_tail (heal_stamp call) f" "log_ok env (bytes_of f1) es"
    "torn_tail (bytes_of f1) = []" "synced env (bytes_of f1) s1"
    "locked_append env call build f s =
      (if loses_race call es then (Inl (Conflict (the (expected_last_seq call)) (tail_seq es)), f1, s1)
       else (case build (tail_seq es) of Inl e \<Rightarrow> (Inl e, f1, s1)
         | Inr (buf, sq, events) \<Rightarrow> write_record env call buf sq events f1 s1))"
    using locked_append_decides [OF ok s True, of build] by blast
  have ext: "extends (bytes_of f) (bytes_of f1)" using heal_ok(3) [OF ok] d(1) by simp
  show ?thesis
  proof (cases "loses_race call es")
    case True
    then show ?thesis using a d ext by auto
  next
    case no_race: False
    show ?thesis
    proof (cases "\<exists>e. build (tail_seq es) = Inl e")
      case True
      then show ?thesis using a d no_race ext by auto
    next
    case False
    then have b: "build (tail_seq es) = Inr (raw @ [newline], e_seq (last new), new)"
      and c: "chunk_ok env (after_rows 0 es) raw new" using bc by blast+
    have w: "write_record env call (raw @ [newline]) (e_seq (last new)) new f1 s1 = (r, f', s')"
      using a d(5) b no_race by simp
    show ?thesis
    proof (cases "outcome call")
      case Landed
      obtain g t where g: "write_record env call (raw @ [newline]) (e_seq (last new)) new f1 s1 = (Inr new, Some g, t)"
        "log_ok env (content g) (es @ new)" "synced env (content g) t" "extends (bytes_of f1) (content g)"
        using write_landed [OF d(2,3,4) c Landed] by blast
      then show ?thesis using w extends_trans [OF ext g(4)] by (auto simp: bytes_of_def)
    next
      case NotAccepted
      then show ?thesis using w d ext by (auto simp: write_record_def)
    next
      case (Failed n)
      obtain g t where g: "write_record env call (raw @ [newline]) (e_seq (last new)) new f1 s1 = (Inl WriteFailed, Some g, t)"
        "log_ok env (content g) (if n \<le> length raw then es else es @ new)" "extends (bytes_of f1) (content g)"
        using write_failed [OF d(2,3) c Failed] by blast
      then show ?thesis
        using w extends_trans [OF ext g(3)] Failed by (auto simp: bytes_of_def split: if_splits)
    qed
    qed
  qed
qed

section \<open>The world\<close>

record log_world =
  disk :: "disk_file option"
  stores :: "store list"
  acked :: "row list"

definition world_events :: "store_env \<Rightarrow> log_world \<Rightarrow> row list" where
  "world_events env w = log_events (codec.truncate env) (bytes_of (disk w))"

definition survivor :: "store_env \<Rightarrow> append_call \<Rightarrow> disk_file option \<Rightarrow> store \<Rightarrow> store" where
  "survivor env call f s = (case outcome call of Failed n \<Rightarrow> open_store env f | _ \<Rightarrow> s)"

definition acknowledged :: "store_error + row list \<Rightarrow> row list" where
  "acknowledged r = (case r of Inl e \<Rightarrow> [] | Inr es \<Rightarrow> es)"

text \<open>The events an append would make on the log as it stands, which the codec must carry.\<close>

definition carries_one :: "store_env \<Rightarrow> log_world \<Rightarrow> real \<Rightarrow> string option \<Rightarrow> string option \<Rightarrow> draft \<Rightarrow> bool" where
  "carries_one env w ts tr sp dr \<longleftrightarrow>
     row_ok env (make_row (tail_seq (world_events env w) + 1) ts tr sp (d_type dr) (d_data dr))"

definition carries_batch :: "store_env \<Rightarrow> log_world \<Rightarrow> real list \<Rightarrow> string option \<Rightarrow> string option \<Rightarrow> draft list \<Rightarrow> bool" where
  "carries_batch env w ts tr sp drs \<longleftrightarrow> length ts = length drs \<and>
     (let es = batch_rows (tail_seq (world_events env w)) ts tr sp drs in batch_ok env (batch_envelope tr sp es) es)"

inductive log_step :: "store_env \<Rightarrow> log_world \<Rightarrow> log_world \<Rightarrow> bool" for env where
  appends: "i < length (stores w) \<Longrightarrow> carries_one env w ts tr sp dr \<Longrightarrow>
    append env call ts tr sp dr (disk w) (stores w ! i) = (r, f, s) \<Longrightarrow>
    log_step env w (w\<lparr>disk := f, stores := (stores w)[i := survivor env call f s], acked := acked w @ acknowledged r\<rparr>)"
| appends_many: "i < length (stores w) \<Longrightarrow> carries_batch env w ts tr sp drs \<Longrightarrow>
    append_many env call ts tr sp drs (disk w) (stores w ! i) = (r, f, s) \<Longrightarrow>
    log_step env w (w\<lparr>disk := f, stores := (stores w)[i := survivor env call f s], acked := acked w @ acknowledged r\<rparr>)"
| reads: "i < length (stores w) \<Longrightarrow>
    log_step env w (w\<lparr>stores := (stores w)[i := read_all env (disk w) (stores w ! i)]\<rparr>)"
| opens: "log_step env w (w\<lparr>stores := stores w @ [open_store env (disk w)]\<rparr>)"
| restarts: "i < length (stores w) \<Longrightarrow> log_step env w (w\<lparr>stores := (stores w)[i := open_store env (disk w)]\<rparr>)"

definition fresh_world :: log_world where
  "fresh_world = \<lparr>disk = None, stores = [], acked = []\<rparr>"

inductive log_reachable :: "store_env \<Rightarrow> log_world \<Rightarrow> bool" for env where
  log_start: "log_reachable env fresh_world"
| log_next: "log_reachable env w \<Longrightarrow> log_step env w w' \<Longrightarrow> log_reachable env w'"

definition world_inv :: "store_env \<Rightarrow> log_world \<Rightarrow> bool" where
  "world_inv env w \<longleftrightarrow> log_ok env (bytes_of (disk w)) (world_events env w) \<and>
     (\<forall>s \<in> set (stores w). synced env (bytes_of (disk w)) s) \<and> subseq (acked w) (world_events env w)"

lemma world_invI:
  assumes "log_ok env (bytes_of (disk w)) es" and "\<And>s. s \<in> set (stores w) \<Longrightarrow> synced env (bytes_of (disk w)) s"
    and "subseq (acked w) es"
  shows "world_inv env w"
  using assms log_ok_reads(1) by (auto simp: world_inv_def world_events_def)

lemma built_step_inv:
  assumes inv: "world_inv env w" and i: "i < length (stores w)"
    and b: "build (tail_seq (world_events env w)) = Inr (raw @ [newline], e_seq (last new), new) \<and>
        chunk_ok env (after_rows 0 (world_events env w)) raw new \<or>
        (\<exists>e. build (tail_seq (world_events env w)) = Inl e)"
    and a: "locked_append env call build (disk w) (stores w ! i) = (r, f, s)"
  shows "world_inv env (w\<lparr>disk := f, stores := (stores w)[i := survivor env call f s],
    acked := acked w @ acknowledged r\<rparr>)"
proof -
  let ?es = "world_events env w"
  have ok: "log_ok env (bytes_of (disk w)) ?es" and sub: "subseq (acked w) ?es"
    and si: "synced env (bytes_of (disk w)) (stores w ! i)" and all: "\<And>t. t \<in> set (stores w) \<Longrightarrow> synced env (bytes_of (disk w)) t"
    using inv i by (auto simp: world_inv_def)
  have cases: "extends (bytes_of (disk w)) (bytes_of f) \<and>
    ((r = Inr new \<and> log_ok env (bytes_of f) (?es @ new) \<and> synced env (bytes_of f) s) \<or>
    (\<exists>e. r = Inl e \<and>
      (log_ok env (bytes_of f) ?es \<or> log_ok env (bytes_of f) (?es @ new) \<and> (\<exists>n. outcome call = Failed n)) \<and>
      (synced env (bytes_of f) s \<or> (\<exists>n. outcome call = Failed n))))"
    using append_cases [OF ok si b a] .
  then obtain es' where es': "log_ok env (bytes_of f) es'" "subseq (acked w @ acknowledged r) es'"
    using sub list_emb_append_mono [OF sub, of "[]" new] list_emb_append_mono [OF sub, of new new]
    by (auto simp: acknowledged_def)
  have "synced env (bytes_of f) (survivor env call f s)"
    using cases open_synced [OF es'(1)] by (auto simp: survivor_def split: write_outcome.splits)
  then have "t \<in> set ((stores w)[i := survivor env call f s]) \<Longrightarrow> synced env (bytes_of f) t" for t
    using cases all synced_extends set_update_subset_insert by fast
  then show ?thesis using es' by (intro world_invI [of env _ es']) auto
qed

lemma same_log_inv:
  assumes "world_inv env w" and "\<And>s. s \<in> set ss \<Longrightarrow> synced env (bytes_of (disk w)) s"
  shows "world_inv env (w\<lparr>stores := ss\<rparr>)"
  using assms by (simp add: world_inv_def world_events_def)

lemma refused_inv:
  assumes inv: "world_inv env w" and i: "i < length (stores w)"
    and r: "acknowledged r = []" "f = disk w" "s = stores w ! i"
  shows "world_inv env (w\<lparr>disk := f, stores := (stores w)[i := survivor env call f s],
    acked := acked w @ acknowledged r\<rparr>)"
proof -
  have ok: "log_ok env (bytes_of (disk w)) (world_events env w)" using inv by (simp add: world_inv_def)
  have "synced env (bytes_of (disk w)) (survivor env call f s)"
    using inv i r open_synced [OF ok] by (auto simp: survivor_def world_inv_def split: write_outcome.splits)
  then have "world_inv env (w\<lparr>stores := (stores w)[i := survivor env call f s]\<rparr>)"
    using inv by (intro same_log_inv) (auto simp: world_inv_def dest!: set_update_subset_insert [THEN subsetD])
  then show ?thesis using r by simp
qed

definition batch_refused :: "draft list \<Rightarrow> bool" where
  "batch_refused drs \<longleftrightarrow> drs = [] \<or> max_event_batch_members < int (length drs) \<or>
     list_ex (\<lambda>dr. d_type dr = event_batch_type) drs"

lemma batch_built:
  assumes "carries_batch env w ts tr sp drs" and ok: "\<not> batch_refused drs"
  defines "cur \<equiv> tail_seq (world_events env w)"
  shows "build_batch env ts tr sp drs cur =
      Inr (dumps env (PDict (physical_envelope (batch_envelope tr sp (batch_rows cur ts tr sp drs)))) @ [newline],
           e_seq (last (batch_rows cur ts tr sp drs)), batch_rows cur ts tr sp drs) \<and>
      chunk_ok env (after_rows 0 (world_events env w))
        (dumps env (PDict (physical_envelope (batch_envelope tr sp (batch_rows cur ts tr sp drs)))))
        (batch_rows cur ts tr sp drs) \<or>
    (\<exists>e. build_batch env ts tr sp drs cur = Inl e)"
proof -
  let ?es = "batch_rows cur ts tr sp drs"
  let ?raw = "dumps env (PDict (physical_envelope (batch_envelope tr sp ?es)))"
  have carries: "length ts = length drs" "batch_ok env (batch_envelope tr sp ?es) ?es"
    using assms(1) by (simp_all add: carries_batch_def Let_def cur_def)
  have rows: "length ?es = length drs" "dense_from (cur + 1) ?es"
    "\<And>e. e \<in> set ?es \<Longrightarrow> r_v e = 1 \<and> (\<exists>dr \<in> set drs. e_type e = d_type dr)"
    using batch_rows_props [OF carries(1)] by blast+
  have "0 \<le> cur + 1"
    using dense_tail [OF log_events_dense] by (simp add: world_events_def cur_def)
  moreover have "e \<in> set ?es \<Longrightarrow> r_v e = 1 \<and> e_type e \<noteq> event_batch_type" for e
    using rows(3) [of e] ok by (auto simp: batch_refused_def list_ex_iff)
  moreover have "int (length ?raw) + 1 \<le> max_event_batch_bytes" if "build_batch env ts tr sp drs cur \<noteq> Inl BatchTooLarge"
    using that by (auto simp: build_batch_def Let_def dump_line_def split: if_splits)
  ultimately have "build_batch env ts tr sp drs cur \<noteq> Inl BatchTooLarge \<Longrightarrow>
      chunk_ok env (after_rows 0 (world_events env w)) ?raw ?es"
    using rows(1,2) ok carries(2) by (intro chunk_batch) (auto simp: after_rows_tail batch_refused_def cur_def)
  then show ?thesis
    by (auto simp: build_batch_def Let_def dump_line_def)
qed

lemma log_step_inv:
  assumes "log_step env w w'" and inv: "world_inv env w"
  shows "world_inv env w'"
  using assms(1)
proof cases
  case (appends i ts tr sp dr call r f s)
  let ?e = "make_row (tail_seq (world_events env w) + 1) ts tr sp (d_type dr) (d_data dr)"
  show ?thesis
  proof (cases "d_type dr = event_batch_type")
    case True
    then show ?thesis
      unfolding appends(1) using appends(4) by (intro refused_inv [OF inv appends(2)]) (auto simp: append_def acknowledged_def)
  next
    case False
    have "chunk_ok env (after_rows 0 (world_events env w)) (dumps env (PDict (model_dump ?e))) [?e]"
      using chunk_one [of env ?e] appends(3) False by (simp add: carries_one_def make_row_def after_rows_tail)
    then show ?thesis
      unfolding appends(1)
      using built_step_inv [OF inv appends(2), of "build_one env ts tr sp dr" "dumps env (PDict (model_dump ?e))" "[?e]" call r f s]
        appends(4) False
      by (simp add: append_def build_one_def dump_line_def Let_def)
  qed
next
  case (appends_many i ts tr sp drs call r f s)
  show ?thesis
  proof (cases "batch_refused drs")
    case True
    then show ?thesis
      unfolding appends_many(1) using appends_many(4)
      by (intro refused_inv [OF inv appends_many(2)])
        (auto simp: append_many_def batch_refused_def acknowledged_def split: if_splits)
  next
    case False
    then show ?thesis
      unfolding appends_many(1)
      using built_step_inv [where build = "build_batch env ts tr sp drs" and call = call and r = r and f = f and s = s,
          OF inv appends_many(2) batch_built [OF appends_many(3) False]] appends_many(4) False
      by (simp add: append_many_def batch_refused_def)
  qed
next
  case (reads i)
  have ok: "log_ok env (bytes_of (disk w)) (world_events env w)" using inv by (simp add: world_inv_def)
  have "synced env (bytes_of (disk w)) (read_all env (disk w) (stores w ! i))"
    using synced_read(4) [OF ok] inv reads(2) by (simp add: world_inv_def)
  then show ?thesis
    unfolding reads(1) using inv
    by (intro same_log_inv) (auto simp: world_inv_def dest!: set_update_subset_insert [THEN subsetD])
next
  case opens
  then show ?thesis
    unfolding opens(1) using inv open_synced by (intro same_log_inv) (auto simp: world_inv_def)
next
  case (restarts i)
  then show ?thesis
    unfolding restarts(1) using inv open_synced
    by (intro same_log_inv) (auto simp: world_inv_def dest!: set_update_subset_insert [THEN subsetD])
qed

lemma log_reachable_inv: "log_reachable env w \<Longrightarrow> world_inv env w"
proof (induction rule: log_reachable.induct)
  case log_start
  show ?case by (simp add: world_inv_def world_events_def fresh_world_def bytes_of_def log_events_def complete_lines_def)
qed (blast intro: log_step_inv)

end
