(* ===== verification/EventStoreProps.thy ===== *)
theory EventStoreProps
  imports EventWorld
begin

text \<open>
  What the engine, the server and the operator rely on: acknowledged events stay, races have one
  winner, batches are whole, the cache is the file, and repair keeps what could be read. A small
  codec that carries three rows and a batch makes them concrete.
\<close>

section \<open>A codec\<close>

definition demo_row :: "int \<Rightarrow> row" where
  "demo_row i = make_row i 0 None None ''note'' []"

definition demo_batch :: row where
  "demo_batch = batch_envelope None None [demo_row 0, demo_row 1]"

definition demo_texts :: "(bytes \<times> pyval) list" where
  "demo_texts = [(''{0'', PDict (model_dump (demo_row 0))), (''{1'', PDict (model_dump (demo_row 1))),
     (''{2'', PDict (model_dump (demo_row 2))), (''[0'', PDict (physical_envelope demo_batch))]"

definition demo_env :: store_env where
  "demo_env = \<lparr>loads = map_of demo_texts,
     dumps = (\<lambda>v. case List.find (\<lambda>(t, w). w = v) demo_texts of Some (t, w) \<Rightarrow> t | None \<Rightarrow> ''{?''),
     validate = (\<lambda>strict d. List.find (\<lambda>e. model_dump e = d) [demo_row 0, demo_row 1, demo_row 2, demo_batch]),
     sha256 = id, fresh_entry = (0, 1)\<rparr>"

definition demo_draft :: draft where
  "demo_draft = \<lparr>d_type = ''note'', d_data = []\<rparr>"

definition demo_call :: "int option \<Rightarrow> write_outcome \<Rightarrow> append_call" where
  "demo_call expected out = \<lparr>expected_last_seq = expected, require_lock = True, lock_available = True,
     fenced = False, heal_stamp = (1, 1), write_stamp = (2, 2), outcome = out\<rparr>"

lemma two_bytes: "(\<forall>k>0. k < Suc (Suc 0) \<longrightarrow> P k) \<longleftrightarrow> P (Suc 0)"
  by (auto simp: less_Suc_eq)

lemma demo_json_text:
  "json_text demo_env (model_dump (demo_row 0))" "json_text demo_env (model_dump (demo_row 1))"
  "json_text demo_env (model_dump (demo_row 2))" "json_text demo_env (physical_envelope demo_batch)"
proof -
  have d: "dumps demo_env (PDict (model_dump (demo_row 0))) = ''{0''" "dumps demo_env (PDict (model_dump (demo_row 1))) = ''{1''"
    "dumps demo_env (PDict (model_dump (demo_row 2))) = ''{2''" "dumps demo_env (PDict (physical_envelope demo_batch)) = ''[0''"
    by code_simp+
  have l: "loads demo_env ''{0'' = Some (PDict (model_dump (demo_row 0)))" "loads demo_env ''{1'' = Some (PDict (model_dump (demo_row 1)))"
    "loads demo_env ''{2'' = Some (PDict (model_dump (demo_row 2)))" "loads demo_env ''[0'' = Some (PDict (physical_envelope demo_batch))"
    by (simp_all add: demo_env_def demo_texts_def)
  have n: "loads demo_env ''0'' = None" "loads demo_env ''1'' = None" "loads demo_env ''2'' = None"
    by (simp_all add: demo_env_def demo_texts_def)
  have s: "bytes_strip ''{0'' = ''{0''" "bytes_strip ''{1'' = ''{1''" "bytes_strip ''{2'' = ''{2''" "bytes_strip ''[0'' = ''[0''"
    by code_simp+
  show "json_text demo_env (model_dump (demo_row 0))" "json_text demo_env (model_dump (demo_row 1))"
    "json_text demo_env (model_dump (demo_row 2))" "json_text demo_env (physical_envelope demo_batch)"
    by (simp_all add: json_text_def json_line_def d l s newline_def two_bytes n)
qed

lemma demo_rows_ok: "i \<in> {0, 1, 2} \<Longrightarrow> row_ok demo_env (demo_row i)"
proof -
  have v: "validate demo_env False (model_dump (demo_row 0)) = Some (demo_row 0)"
    "validate demo_env False (model_dump (demo_row 1)) = Some (demo_row 1)"
    "validate demo_env False (model_dump (demo_row 2)) = Some (demo_row 2)" by code_simp+
  show "i \<in> {0, 1, 2} \<Longrightarrow> row_ok demo_env (demo_row i)"
    using v demo_json_text by (auto simp: row_ok_def)
qed

lemma demo_batch_ok: "batch_ok demo_env demo_batch [demo_row 0, demo_row 1]"
proof -
  have v: "validate demo_env True (model_dump demo_batch) = Some demo_batch"
    "validate demo_env True (model_dump (demo_row 0)) = Some (demo_row 0)"
    "validate demo_env True (model_dump (demo_row 1)) = Some (demo_row 1)" by code_simp+
  then show ?thesis using demo_json_text(4) by (simp add: batch_ok_def)
qed

definition demo_world :: "store list \<Rightarrow> log_world" where
  "demo_world ss = \<lparr>disk = None, stores = ss, acked = []\<rparr>"

lemma demo_world_reachable:
  "log_reachable demo_env (demo_world [open_store demo_env None, open_store demo_env None])"
proof -
  have "log_reachable demo_env (demo_world [])" using log_start by (simp add: demo_world_def fresh_world_def)
  from log_next [OF this opens] have "log_reachable demo_env (demo_world [open_store demo_env None])"
    by (simp add: demo_world_def)
  from log_next [OF this opens] show ?thesis by (simp add: demo_world_def)
qed


section \<open>Appending\<close>

lemma reachable_log:
  assumes "log_reachable env w"
  shows "log_ok env (bytes_of (disk w)) (world_events env w)"
    and "i < length (stores w) \<Longrightarrow> synced env (bytes_of (disk w)) (stores w ! i)"
    and "subseq (acked w) (world_events env w)"
  using log_reachable_inv [OF assms] by (auto simp: world_inv_def)

text \<open>C2. Whatever the processes on a log do (appends, batches, reads, restarts, deaths in the middle
  of a write, in any order and number), the file stays readable to its end, its sequence numbers
  are dense from zero, every acknowledged event is in it in the order of the acknowledgements, and
  a read through any process's cache returns exactly the events of the file.\<close>

theorem acknowledged_events_survive:
  assumes "log_reachable env w"
  shows "log_sound (codec.truncate env) (bytes_of (disk w)) \<and> dense_from 0 (world_events env w) \<and>
    subseq (acked w) (world_events env w) \<and>
    (\<forall>s \<in> set (stores w). cache (read_all env (disk w) s) = world_events env w)"
proof -
  note r = reachable_log [OF assms]
  have "cache (read_all env (disk w) s) = world_events env w" if "s \<in> set (stores w)" for s
    using that synced_read(2) [OF r(1)] r(2) by (metis in_set_conv_nth)
  then show ?thesis using log_ok_reads(2) [OF r(1)] log_ok_dense [OF r(1)] r(3) by blast
qed

lemma demo_carries:
  "carries_one demo_env (demo_world ss) 0 None None demo_draft"
  using demo_rows_ok [of 0]
  by (simp add: carries_one_def demo_world_def world_events_def bytes_of_def log_events_def complete_lines_def
      tail_seq_def demo_row_def demo_draft_def)

definition demo_one :: "(store_error + row list) \<times> disk_file option \<times> store" where
  "demo_one = append demo_env (demo_call (Some (-1)) Landed) 0 None None demo_draft None (open_store demo_env None)"

lemma demo_one_result:
  "fst demo_one = Inr [demo_row 0]" "bytes_of (fst (snd demo_one)) = ''{0'' @ [newline]"
  by code_simp+

definition demo_after :: log_world where
  "demo_after = \<lparr>disk = fst (snd demo_one), stores = [snd (snd demo_one), open_store demo_env None],
     acked = [demo_row 0]\<rparr>"

lemma demo_after_reachable: "log_reachable demo_env demo_after"
proof -
  let ?w = "demo_world [open_store demo_env None, open_store demo_env None]"
  obtain r f s where o: "demo_one = (r, f, s)" by (cases demo_one)
  have "log_step demo_env ?w (?w\<lparr>disk := f, stores := (stores ?w)[0 := survivor demo_env (demo_call (Some (-1)) Landed) f s],
      acked := acked ?w @ acknowledged r\<rparr>)"
    by (rule log_step.appends [OF _ demo_carries]) (use o in \<open>simp_all add: demo_one_def demo_world_def\<close>)
  from log_next [OF demo_world_reachable this] show ?thesis
    using demo_one_result(1) by (simp add: o demo_after_def demo_world_def survivor_def demo_call_def acknowledged_def)
qed

lemma demo_after_events: "world_events demo_env demo_after = [demo_row 0]"
proof -
  have "bytes_of (disk demo_after) = ''{0'' @ [newline]" using demo_one_result(2) by (simp add: demo_after_def)
  moreover have "log_events (codec.truncate demo_env) (''{0'' @ [newline]) = [demo_row 0]" by code_simp
  ultimately show ?thesis by (simp add: world_events_def)
qed

theorem acknowledged_events_survive_witness:
  "acked demo_after = [demo_row 0] \<and> log_sound (codec.truncate demo_env) (bytes_of (disk demo_after)) \<and>
   cache (read_all demo_env (disk demo_after) (open_store demo_env None)) = [demo_row 0]"
  using acknowledged_events_survive [OF demo_after_reachable] demo_after_events by (simp add: demo_after_def)

lemma reachable_append:
  assumes w: "log_reachable env w" and i: "i < length (stores w)" and c: "carries_one env w ts tr sp dr"
    and t: "d_type dr \<noteq> event_batch_type" and a: "append env call ts tr sp dr (disk w) (stores w ! i) = (Inr es, f, s)"
  shows "es = [make_row (tail_seq (world_events env w) + 1) ts tr sp (d_type dr) (d_data dr)]"
    and "log_ok env (bytes_of f) (world_events env w @ es)" and "extends (bytes_of (disk w)) (bytes_of f)"
proof -
  let ?e = "make_row (tail_seq (world_events env w) + 1) ts tr sp (d_type dr) (d_data dr)"
  note r = reachable_log [OF w]
  have "chunk_ok env (after_rows 0 (world_events env w)) (dumps env (PDict (model_dump ?e))) [?e]"
    using chunk_one [of env ?e] c t by (simp add: carries_one_def make_row_def after_rows_tail)
  then have "extends (bytes_of (disk w)) (bytes_of f) \<and> es = [?e] \<and> log_ok env (bytes_of f) (world_events env w @ [?e])"
    using append_cases [OF r(1) r(2) [OF i], of "build_one env ts tr sp dr" "dumps env (PDict (model_dump ?e))" "[?e]" call "Inr es" f s]
      a t by (auto simp: append_def build_one_def dump_line_def Let_def)
  then show "es = [?e]" "log_ok env (bytes_of f) (world_events env w @ es)" "extends (bytes_of (disk w)) (bytes_of f)"
    by auto
qed

text \<open>C8. Of two appends that expect the same tail only one lands: when a process's append with an
  expected tail is acknowledged, its event is the next of the log, and the append of any other
  process with the same expectation is refused with the tail it lost to and changes no event.\<close>

theorem one_writer_wins:
  assumes "log_reachable env w" and "i < length (stores w)" "j < length (stores w)" "i \<noteq> j"
    and "carries_one env w ts tr sp dr" "d_type dr \<noteq> event_batch_type" "d_type dr2 \<noteq> event_batch_type"
    and "append env call ts tr sp dr (disk w) (stores w ! i) = (Inr es, f, s)"
    and "admitted call2" "expected_last_seq call2 = Some (tail_seq (world_events env w))"
    and "append env call2 ts2 tr2 sp2 dr2 f (stores w ! j) = (res, f2, s2)"
  shows "es = [make_row (tail_seq (world_events env w) + 1) ts tr sp (d_type dr) (d_data dr)] \<and>
    res = Inl (Conflict (tail_seq (world_events env w)) (tail_seq (world_events env w) + 1)) \<and>
    log_events (codec.truncate env) (bytes_of f2) = world_events env w @ es"
proof -
  note a = reachable_append [OF assms(1,2,5,6,8)]
  have sj: "synced env (bytes_of f) (stores w ! j)"
    using synced_extends [OF reachable_log(2) [OF assms(1,3)] a(3)] .
  have tail: "tail_seq (world_events env w @ es) = tail_seq (world_events env w) + 1"
    by (simp add: a(1) tail_seq_def make_row_def)
  then have lost: "loses_race call2 (world_events env w @ es)"
    using assms(10) by (simp add: loses_race_def)
  obtain f1 s1 where d: "f1 = heal_torn_tail (heal_stamp call2) f" "log_ok env (bytes_of f1) (world_events env w @ es)"
    "torn_tail (bytes_of f1) = []" "synced env (bytes_of f1) s1"
    "locked_append env call2 (build_one env ts2 tr2 sp2 dr2) f (stores w ! j) =
      (if loses_race call2 (world_events env w @ es)
       then (Inl (Conflict (the (expected_last_seq call2)) (tail_seq (world_events env w @ es))), f1, s1)
       else (case build_one env ts2 tr2 sp2 dr2 (tail_seq (world_events env w @ es)) of Inl e \<Rightarrow> (Inl e, f1, s1)
         | Inr (buf, sq, events) \<Rightarrow> write_record env call2 buf sq events f1 s1))"
    using locked_append_decides [OF a(2) sj assms(9), of "build_one env ts2 tr2 sp2 dr2"] by blast
  then have "res = Inl (Conflict (tail_seq (world_events env w)) (tail_seq (world_events env w) + 1))" "f2 = f1"
    using assms(7,10,11) lost tail by (simp_all add: append_def)
  then show ?thesis using a(1) log_ok_reads(1) [OF d(2)] by simp
qed

definition demo_second :: "(store_error + row list) \<times> disk_file option \<times> store" where
  "demo_second = append demo_env (demo_call (Some (-1)) Landed) 0 None None demo_draft (fst (snd demo_one)) (open_store demo_env None)"

theorem one_writer_wins_witness:
  "fst demo_one = Inr [demo_row 0] \<and> fst demo_second = Inl (Conflict (-1) 0)"
proof -
  obtain f s where o: "demo_one = (Inr [demo_row 0], f, s)" using demo_one_result(1) by (metis prod.collapse)
  obtain r f2 s2 where q: "demo_second = (r, f2, s2)" by (cases demo_second)
  let ?w = "demo_world [open_store demo_env None, open_store demo_env None]"
  have e: "world_events demo_env ?w = []"
    by (simp add: world_events_def demo_world_def bytes_of_def log_events_def complete_lines_def)
  have "r = Inl (Conflict (-1) 0)"
    using one_writer_wins [OF demo_world_reachable, of 0 1 0 None None demo_draft demo_draft
        "demo_call (Some (-1)) Landed" "[demo_row 0]" f s "demo_call (Some (-1)) Landed" 0 None None r f2 s2]
      o q demo_carries e
    by (simp add: demo_one_def demo_second_def demo_world_def demo_draft_def event_batch_type_def admitted_def
        demo_call_def tail_seq_def)
  then show ?thesis by (simp add: o q)
qed

text \<open>C9. A batch is whole or absent: when a process dies during an append_many, at whatever byte
  the write stopped, a reader of the file sees the events from before the call or those and all
  the members of the batch.\<close>

theorem batch_all_or_nothing:
  assumes "log_reachable env w" and "i < length (stores w)" and "carries_batch env w ts tr sp drs"
    and "append_many env call ts tr sp drs (disk w) (stores w ! i) = (res, f, s)"
  shows "log_sound (codec.truncate env) (bytes_of f) \<and>
    (log_events (codec.truncate env) (bytes_of f) = world_events env w \<or>
     log_events (codec.truncate env) (bytes_of f) =
       world_events env w @ batch_rows (tail_seq (world_events env w)) ts tr sp drs)"
proof (cases "batch_refused drs")
  case True
  then have "f = disk w" using assms(4) by (auto simp: append_many_def batch_refused_def split: if_splits)
  then show ?thesis using log_ok_reads [OF reachable_log(1) [OF assms(1)]] by simp
next
  case False
  note r = reachable_log [OF assms(1)]
  let ?es = "batch_rows (tail_seq (world_events env w)) ts tr sp drs"
  have "locked_append env call (build_batch env ts tr sp drs) (disk w) (stores w ! i) = (res, f, s)"
    using assms(4) False by (simp add: append_many_def batch_refused_def)
  from append_cases [where build = "build_batch env ts tr sp drs",
      OF r(1) r(2) [OF assms(2)] batch_built [OF assms(3) False] this]
  have "log_ok env (bytes_of f) (world_events env w) \<or> log_ok env (bytes_of f) (world_events env w @ ?es)"
    by blast
  then show ?thesis using log_ok_reads by blast
qed

definition demo_torn :: "(store_error + row list) \<times> disk_file option \<times> store" where
  "demo_torn = append_many demo_env (demo_call None (Failed 1)) [0, 0] None None [demo_draft, demo_draft] None
     (open_store demo_env None)"

theorem batch_all_or_nothing_witness:
  "fst demo_torn = Inl WriteFailed \<and> bytes_of (fst (snd demo_torn)) = ''['' \<and>
   (log_events (codec.truncate demo_env) (bytes_of (fst (snd demo_torn))) = [] \<or>
    log_events (codec.truncate demo_env) (bytes_of (fst (snd demo_torn))) = [demo_row 0, demo_row 1])"
proof -
  let ?w = "demo_world [open_store demo_env None, open_store demo_env None]"
  obtain r f s where o: "demo_torn = (r, f, s)" by (cases demo_torn)
  have e: "world_events demo_env ?w = []"
    by (simp add: world_events_def demo_world_def bytes_of_def log_events_def complete_lines_def)
  have rows: "batch_rows (-1) [0, 0] None None [demo_draft, demo_draft] = [demo_row 0, demo_row 1]"
    by (simp add: demo_row_def demo_draft_def)
  then have "carries_batch demo_env ?w [0, 0] None None [demo_draft, demo_draft]"
    using demo_batch_ok by (simp add: carries_batch_def e tail_seq_def demo_batch_def)
  then have "log_events (codec.truncate demo_env) (bytes_of f) = [] \<or>
      log_events (codec.truncate demo_env) (bytes_of f) = [demo_row 0, demo_row 1]"
    using batch_all_or_nothing [OF demo_world_reachable, of 0 "[0, 0]" None None "[demo_draft, demo_draft]"
        "demo_call None (Failed 1)" r f s] o [symmetric] e rows
    by (simp add: demo_torn_def demo_world_def tail_seq_def)
  moreover have "fst demo_torn = Inl WriteFailed" "bytes_of (fst (snd demo_torn)) = ''[''" by code_simp+
  ultimately show ?thesis by (simp add: o)
qed


section \<open>Reading and repairing\<close>

text \<open>C3. The incremental cache is the file: after a read of a file that extends what the store read
  before (up to its torn tail), or whose rewriting the stat or the size gives away, the cached
  events are exactly those of a full pass over the file, and a divergence is reported exactly when
  that pass stops before the end.\<close>

theorem cached_read_is_full_read:
  assumes "sees env old s" and "unchanged_divergent (Some g) s \<longrightarrow> content g = old"
    and "extends old (content g) \<or> detected g s"
  shows "cache (read_all env (Some g) s) = log_events (codec.truncate env) (content g) \<and>
    (store_divergence (read_all env (Some g) s) = None \<longleftrightarrow> log_sound (codec.truncate env) (content g))"
  using read_all_sees [OF assms(1) _ assms(3)] assms(2) by (simp add: sees_def)

definition demo_file :: "bytes \<Rightarrow> disk_file" where
  "demo_file buf = \<lparr>content = buf, entry = (0, 7), mtime = 5, ctime = 5, attributes = 0\<rparr>"

theorem cached_read_is_full_read_witness:
  "cache (read_all demo_env (Some (demo_file (''{0'' @ [newline] @ ''{1'' @ [newline] @ ''{'')))
      (read_all demo_env (Some (demo_file (''{0'' @ [newline] @ ''[''))) empty_store)) = [demo_row 0, demo_row 1]"
proof -
  let ?old = "''{0'' @ [newline] @ ''[''" and ?new = "''{0'' @ [newline] @ ''{1'' @ [newline] @ ''{''"
  have "sees demo_env [] empty_store" by (rule sees_Nil) (simp_all add: empty_store_def)
  then have s: "sees demo_env ?old (read_all demo_env (Some (demo_file ?old)) empty_store)"
    using read_all_sees [of demo_env "[]" empty_store "demo_file ?old"]
    by (simp add: demo_file_def unchanged_divergent_def empty_store_def extends_def complete_lines_def)
  have d: "store_divergence (read_all demo_env (Some (demo_file ?old)) empty_store) = None" by code_simp
  have l: "complete_lines ?old = [''{0'']" by code_simp
  have "extends ?old ?new" unfolding extends_def l by simp
  moreover have "log_events (codec.truncate demo_env) ?new = [demo_row 0, demo_row 1]" by code_simp
  ultimately show ?thesis
    using cached_read_is_full_read [OF s, of "demo_file ?new"] d
    by (simp add: demo_file_def unchanged_divergent_def)
qed

lemma divergence_line:
  "divergence_from c i n good ls = Some d \<Longrightarrow>
    \<exists>m < length ls. corrupt_line d = i + m + 1 \<and> read_lines c n (take m ls) = (fst (read_lines c n ls), True)"
proof (induction c i n good ls arbitrary: d rule: divergence_from.induct)
  case (2 c i n good l ls)
  show ?case
  proof (cases "decode_jsonl_line (json.truncate c) l")
    case Blank
    then have "bytes_strip l = []" using decode_Blank_iff by blast
    then obtain m where "m < length ls" "corrupt_line d = i + 1 + m + 1"
      "read_lines c n (take m ls) = (fst (read_lines c n ls), True)"
      using "2.IH"(1) "2.prems" by auto
    then show ?thesis using Blank by (intro exI [of _ "Suc m"]) simp
  next
    case Invalid
    then have "bytes_strip l \<noteq> []" using decode_Blank_iff by (metis decoded_line.distinct(1))
    then show ?thesis using "2.prems" Invalid by (intro exI [of _ 0]) auto
  next
    case (Object e)
    then have ns: "bytes_strip l \<noteq> []" using decode_Blank_iff by (metis decoded_line.distinct(3))
    show ?thesis
    proof (cases "line_events c n e")
      case None
      then show ?thesis using "2.prems" ns Object by (intro exI [of _ 0]) auto
    next
      case (Some es)
      then obtain m where "m < length ls" "corrupt_line d = i + 1 + m + 1"
        "read_lines c (after_rows n es) (take m ls) = (fst (read_lines c (after_rows n es) ls), True)"
        using "2.IH"(2) [OF ns] "2.prems" ns Object by auto
      then show ?thesis using Object Some by (intro exI [of _ "Suc m"]) (auto split: prod.splits)
    qed
  qed
qed simp

text \<open>Repair keeps exactly what could be read: truncating a divergent log at the line its
  divergence names leaves a sound log with the same events, and their number is the one the
  divergence reports.\<close>

theorem repair_keeps_readable:
  assumes "log_divergence c (Some buf) = Some d"
  shows "log_events c (repaired_bytes d buf) = log_events c buf \<and> log_sound c (repaired_bytes d buf) \<and>
    log_divergence c (Some (repaired_bytes d buf)) = None \<and> good_records d = int (length (log_events c buf))"
proof -
  let ?ls = "complete_lines buf"
  have div: "divergence_from c 0 0 0 ?ls = Some d" using assms by (simp add: log_divergence_def)
  obtain m where m: "m < length ?ls" "corrupt_line d = m + 1"
    "read_lines c 0 (take m ?ls) = (fst (read_lines c 0 ?ls), True)"
    using divergence_line [OF div] by auto
  have keep: "take m (split_lines buf) = take m ?ls"
    using m(1) by (simp add: complete_lines_def take_butlast)
  have bytes: "repaired_bytes d buf = join_lines (take m ?ls)"
    using m(2) keep by (simp add: repaired_bytes_def Let_def)
  have "complete_lines (repaired_bytes d buf) = take m ?ls"
    unfolding bytes by (rule complete_lines_join) (auto dest: in_set_takeD complete_lines_clean)
  then have "log_events c (repaired_bytes d buf) = log_events c buf" "log_sound c (repaired_bytes d buf)"
    using m(3) by (simp_all add: log_events_def log_sound_def)
  then show ?thesis
    using log_divergence_None divergence_good [OF div] by (simp add: log_events_def)
qed

theorem repair_keeps_readable_witness:
  "log_divergence (codec.truncate demo_env) (Some (''{0'' @ [newline] @ ''{2'' @ [newline] @ ''{1'' @ [newline])) =
     Some \<lparr>good_records = 1, corrupt_line = 2, dropped_lines = 1\<rparr> \<and>
   log_events (codec.truncate demo_env)
     (repaired_bytes \<lparr>good_records = 1, corrupt_line = 2, dropped_lines = 1\<rparr>
       (''{0'' @ [newline] @ ''{2'' @ [newline] @ ''{1'' @ [newline])) = [demo_row 0]"
proof -
  let ?buf = "''{0'' @ [newline] @ ''{2'' @ [newline] @ ''{1'' @ [newline]"
  have d: "log_divergence (codec.truncate demo_env) (Some ?buf) =
      Some \<lparr>good_records = 1, corrupt_line = 2, dropped_lines = 1\<rparr>" by code_simp
  moreover have "log_events (codec.truncate demo_env) ?buf = [demo_row 0]" by code_simp
  ultimately show ?thesis using repair_keeps_readable [OF d] by simp
qed

section \<open>A process that survives a torn write\<close>





end
