(* ===== verification/EventRetry.thy ===== *)
theory EventRetry
  imports EventStoreProps
begin

text \<open>
  The retry loop around a compare-and-append. The interface \<open>cas_retry\<close> says what a plan owes the
  loop: it finishes when nobody moved the tail since the snapshot, and loses otherwise with one
  rival fewer to come. The loop's behaviour follows from that alone; the appends of a store against
  rivals that append in between provide it.
\<close>

section \<open>The contract of a plan\<close>

locale cas_retry =
  fixes read :: "'w \<Rightarrow> row list \<times> 'w"
    and plan :: "row list \<Rightarrow> int \<Rightarrow> 'w \<Rightarrow> 'r attempt \<times> 'w"
    and good :: "'w \<Rightarrow> bool"
    and lag :: "'w \<Rightarrow> nat"
    and achieved :: "'w \<Rightarrow> 'r \<Rightarrow> 'w \<Rightarrow> bool"
  assumes quiet: "good w \<Longrightarrow> lag w = 0 \<Longrightarrow> read w = (es, w1) \<Longrightarrow>
      \<exists>r w2. plan es (tail_seq es) w1 = (Finished r, w2) \<and> achieved w r w2"
    and contended: "good w \<Longrightarrow> lag w = Suc k \<Longrightarrow> read w = (es, w1) \<Longrightarrow>
      \<exists>w2. plan es (tail_seq es) w1 = (Lost, w2) \<and> good w2 \<and> lag w2 = k \<and>
        (\<forall>r w3. achieved w2 r w3 \<longrightarrow> achieved w r w3)"
begin

lemma lands:
  "good w \<Longrightarrow> lag w < n \<Longrightarrow> \<exists>r w'. retry_tail_cas n read plan on_exhaust w = (r, w') \<and> achieved w r w'"
proof (induction n arbitrary: w)
  case (Suc n)
  obtain es w1 where rd: "read w = (es, w1)" by (cases "read w")
  show ?case
  proof (cases "lag w")
    case 0
    then show ?thesis using quiet [OF Suc.prems(1) 0 rd] rd by auto
  next
    case lag: (Suc k)
    then obtain w2 where w2: "plan es (tail_seq es) w1 = (Lost, w2)" "good w2" "lag w2 = k"
      "\<And>r w3. achieved w2 r w3 \<Longrightarrow> achieved w r w3"
      using contended [OF Suc.prems(1) lag rd] by blast
    then show ?thesis using Suc.IH [of w2] Suc.prems(2) lag rd by auto
  qed
qed simp

lemma exhausts:
  "good w \<Longrightarrow> n \<le> lag w \<Longrightarrow> \<exists>w'. retry_tail_cas n read plan on_exhaust w = on_exhaust w' \<and> good w'"
proof (induction n arbitrary: w)
  case (Suc n)
  obtain es w1 where rd: "read w = (es, w1)" by (cases "read w")
  obtain k where lag: "lag w = Suc k" using Suc.prems(2) by (cases "lag w") auto
  then obtain w2 where "plan es (tail_seq es) w1 = (Lost, w2)" "good w2" "lag w2 = k"
    using contended [OF Suc.prems(1) lag rd] by blast
  then show ?case using Suc.IH [of w2] Suc.prems(2) lag rd by auto
qed auto

end

section \<open>A store against rivals\<close>

text \<open>Before each of our appends at most one rival, a process of its own, appends an event.\<close>

record contest =
  c_disk :: "disk_file option"
  c_store :: store
  c_rivals :: "(real \<times> draft) list"

definition contest_read :: "store_env \<Rightarrow> contest \<Rightarrow> row list \<times> contest" where
  "contest_read env w = (let s = read_all env (c_disk w) (c_store w) in (cache s, w\<lparr>c_store := s\<rparr>))"

definition rival_append :: "store_env \<Rightarrow> append_call \<Rightarrow> real \<times> draft \<Rightarrow> disk_file option \<Rightarrow> disk_file option" where
  "rival_append env call rival f = fst (snd (append env (call\<lparr>expected_last_seq := None\<rparr>) (fst rival) None None
     (snd rival) f (open_store env f)))"

definition contest_plan :: "store_env \<Rightarrow> append_call \<Rightarrow> real \<Rightarrow> draft \<Rightarrow> row list \<Rightarrow> int \<Rightarrow> contest \<Rightarrow>
    (store_error + row list) attempt \<times> contest" where
  "contest_plan env call ts dr es tail w =
     (let f = (case c_rivals w of [] \<Rightarrow> c_disk w | r # rs \<Rightarrow> rival_append env call r (c_disk w));
          (res, f', s) = append env (call\<lparr>expected_last_seq := Some tail\<rparr>) ts None None dr f (c_store w);
          w' = \<lparr>c_disk = f', c_store = s, c_rivals = tl (c_rivals w)\<rparr>
      in case res of Inl (Conflict a b) \<Rightarrow> (Lost, w') | _ \<Rightarrow> (Finished res, w'))"

fun rows_carried :: "store_env \<Rightarrow> int \<Rightarrow> real \<times> draft \<Rightarrow> (real \<times> draft) list \<Rightarrow> bool" where
  "rows_carried env tail own [] = row_ok env (make_row (tail + 1) (fst own) None None (d_type (snd own)) (d_data (snd own)))"
| "rows_carried env tail own (r # rs) =
     (row_ok env (make_row (tail + 1) (fst r) None None (d_type (snd r)) (d_data (snd r))) \<and>
      rows_carried env (tail + 1) own rs)"

definition contest_events :: "store_env \<Rightarrow> contest \<Rightarrow> row list" where
  "contest_events env w = log_events (codec.truncate env) (bytes_of (c_disk w))"

definition contest_good :: "store_env \<Rightarrow> append_call \<Rightarrow> real \<Rightarrow> draft \<Rightarrow> contest \<Rightarrow> bool" where
  "contest_good env call ts dr w \<longleftrightarrow> admitted call \<and> outcome call = Landed \<and>
     d_type dr \<noteq> event_batch_type \<and> (\<forall>r \<in> set (c_rivals w). d_type (snd r) \<noteq> event_batch_type) \<and>
     log_ok env (bytes_of (c_disk w)) (contest_events env w) \<and> synced env (bytes_of (c_disk w)) (c_store w) \<and>
     rows_carried env (tail_seq (contest_events env w)) (ts, dr) (c_rivals w)"

definition contest_won :: "store_env \<Rightarrow> real \<Rightarrow> draft \<Rightarrow> contest \<Rightarrow> (store_error + row list) \<Rightarrow> contest \<Rightarrow> bool" where
  "contest_won env ts dr w r w' \<longleftrightarrow>
     (\<exists>e. r = Inr [e] \<and> e = make_row (tail_seq (contest_events env w) + int (length (c_rivals w)) + 1) ts None None
              (d_type dr) (d_data dr) \<and> last (contest_events env w') = e \<and>
          length (contest_events env w') = length (contest_events env w) + length (c_rivals w) + 1)"

lemma landed_append:
  assumes ok: "log_ok env (bytes_of f) es" and s: "synced env (bytes_of f) s" and a: "admitted call"
    and l: "outcome call = Landed" and race: "\<not> loses_race call es" and t: "d_type dr \<noteq> event_batch_type"
    and row: "row_ok env (make_row (tail_seq es + 1) ts None None (d_type dr) (d_data dr))"
  defines "e \<equiv> make_row (tail_seq es + 1) ts None None (d_type dr) (d_data dr)"
  obtains f' s' where "append env call ts None None dr f s = (Inr [e], f', s')" "log_ok env (bytes_of f') (es @ [e])"
    "synced env (bytes_of f') s'" "extends (bytes_of f) (bytes_of f')"
proof -
  let ?raw = "dumps env (PDict (model_dump e))"
  have c: "chunk_ok env (after_rows 0 es) ?raw [e]"
    using chunk_one [of env e] row t by (simp add: e_def make_row_def after_rows_tail)
  obtain f1 s1 where d: "f1 = heal_torn_tail (heal_stamp call) f" "log_ok env (bytes_of f1) es"
    "torn_tail (bytes_of f1) = []" "synced env (bytes_of f1) s1"
    "locked_append env call (build_one env ts None None dr) f s =
      (if loses_race call es then (Inl (Conflict (the (expected_last_seq call)) (tail_seq es)), f1, s1)
       else (case build_one env ts None None dr (tail_seq es) of Inl e \<Rightarrow> (Inl e, f1, s1)
         | Inr (buf, sq, events) \<Rightarrow> write_record env call buf sq events f1 s1))"
    using locked_append_decides [OF ok s a, of "build_one env ts None None dr"] by blast
  obtain g s' where g: "write_record env call (?raw @ [newline]) (e_seq (last [e])) [e] f1 s1 = (Inr [e], Some g, s')"
    "log_ok env (content g) (es @ [e])" "synced env (content g) s'" "extends (bytes_of f1) (content g)"
    using write_landed [OF d(2,3,4) c l] by blast
  have "append env call ts None None dr f s = (Inr [e], Some g, s')"
    using t race d(5) g(1) by (simp add: append_def build_one_def dump_line_def e_def Let_def)
  then show ?thesis
    using that g extends_trans [OF _ g(4)] heal_ok(3) [OF ok] d(1) by (simp add: bytes_of_def)
qed

lemma contest_read_good:
  assumes "contest_good env call ts dr w" and "contest_read env w = (es, w1)"
  shows "es = contest_events env w" and "contest_good env call ts dr w1" and "c_disk w1 = c_disk w"
    and "c_rivals w1 = c_rivals w" and "contest_events env w1 = contest_events env w"
  using assms synced_read(2,4) [of env "c_disk w" "contest_events env w" "c_store w"]
  by (auto simp: contest_good_def contest_read_def contest_events_def Let_def)

lemma contest_quiet:
  assumes w: "contest_good env call ts dr w" and r: "c_rivals w = []" and rd: "contest_read env w = (es, w1)"
  shows "\<exists>r w2. contest_plan env call ts dr es (tail_seq es) w1 = (Finished r, w2) \<and> contest_won env ts dr w r w2"
proof -
  note g = contest_read_good [OF w rd]
  have p: "log_ok env (bytes_of (c_disk w1)) es" "synced env (bytes_of (c_disk w1)) (c_store w1)"
    "admitted (call\<lparr>expected_last_seq := Some (tail_seq es)\<rparr>)" "outcome (call\<lparr>expected_last_seq := Some (tail_seq es)\<rparr>) = Landed"
    "\<not> loses_race (call\<lparr>expected_last_seq := Some (tail_seq es)\<rparr>) es" "d_type dr \<noteq> event_batch_type"
    "row_ok env (make_row (tail_seq es + 1) ts None None (d_type dr) (d_data dr))"
    using g r by (auto simp: contest_good_def admitted_def loses_race_def)
  obtain f' s' where a: "append env (call\<lparr>expected_last_seq := Some (tail_seq es)\<rparr>) ts None None dr (c_disk w1) (c_store w1) =
      (Inr [make_row (tail_seq es + 1) ts None None (d_type dr) (d_data dr)], f', s')"
    "log_ok env (bytes_of f') (es @ [make_row (tail_seq es + 1) ts None None (d_type dr) (d_data dr)])"
    using landed_append [OF p] by metis
  show ?thesis
    using a(1) g r log_ok_reads(1) [OF a(2)]
    by (simp add: contest_plan_def contest_won_def contest_events_def Let_def)
qed

lemma contest_contended:
  assumes w: "contest_good env call ts dr w" and k: "length (c_rivals w) = Suc k" and rd: "contest_read env w = (es, w1)"
  shows "\<exists>w2. contest_plan env call ts dr es (tail_seq es) w1 = (Lost, w2) \<and> contest_good env call ts dr w2 \<and>
    length (c_rivals w2) = k \<and> (\<forall>r w3. contest_won env ts dr w2 r w3 \<longrightarrow> contest_won env ts dr w r w3)"
proof -
  note g = contest_read_good [OF w rd]
  obtain r rs where r: "c_rivals w = r # rs" "length rs = k" using k by (cases "c_rivals w") auto
  let ?rc = "call\<lparr>expected_last_seq := None\<rparr>" and ?oc = "call\<lparr>expected_last_seq := Some (tail_seq es)\<rparr>"
  let ?e = "make_row (tail_seq es + 1) (fst r) None None (d_type (snd r)) (d_data (snd r))"
  have ok: "log_ok env (bytes_of (c_disk w1)) es" "synced env (bytes_of (c_disk w1)) (c_store w1)"
    and rival: "admitted ?rc" "outcome ?rc = Landed" "\<not> loses_race ?rc es" "d_type (snd r) \<noteq> event_batch_type"
      "row_ok env ?e" and own: "admitted ?oc" "d_type dr \<noteq> event_batch_type"
    and rest: "rows_carried env (tail_seq es + 1) (ts, dr) rs" "\<forall>r \<in> set rs. d_type (snd r) \<noteq> event_batch_type"
      "admitted call" "outcome call = Landed"
    using g r by (auto simp: contest_good_def admitted_def loses_race_def)
  obtain f2 s2 where f2: "append env ?rc (fst r) None None (snd r) (c_disk w1) (open_store env (c_disk w1)) = (Inr [?e], f2, s2)"
    "log_ok env (bytes_of f2) (es @ [?e])" "extends (bytes_of (c_disk w1)) (bytes_of f2)"
    using landed_append [OF ok(1) open_synced [OF ok(1)] rival] by metis
  have tail: "tail_seq (es @ [?e]) = tail_seq es + 1" by (simp add: tail_seq_def make_row_def)
  have s: "synced env (bytes_of f2) (c_store w1)" using synced_extends [OF ok(2) f2(3)] .
  obtain f3 s3 where d: "f3 = heal_torn_tail (heal_stamp ?oc) f2" "log_ok env (bytes_of f3) (es @ [?e])"
    "torn_tail (bytes_of f3) = []" "synced env (bytes_of f3) s3"
    "locked_append env ?oc (build_one env ts None None dr) f2 (c_store w1) =
      (if loses_race ?oc (es @ [?e]) then (Inl (Conflict (the (expected_last_seq ?oc)) (tail_seq (es @ [?e]))), f3, s3)
       else (case build_one env ts None None dr (tail_seq (es @ [?e])) of Inl e \<Rightarrow> (Inl e, f3, s3)
         | Inr (buf, sq, events) \<Rightarrow> write_record env ?oc buf sq events f3 s3))"
    using locked_append_decides [OF f2(2) s own(1), of "build_one env ts None None dr"] by blast
  have lost: "loses_race ?oc (es @ [?e])" using tail by (simp add: loses_race_def)
  define w2 where "w2 = \<lparr>c_disk = f3, c_store = s3, c_rivals = rs\<rparr>"
  have plan: "contest_plan env call ts dr es (tail_seq es) w1 = (Lost, w2)"
    using r g f2(1) d(5) lost own(2)
    by (simp add: contest_plan_def rival_append_def append_def w2_def Let_def)
  have ev: "contest_events env w2 = es @ [?e]"
    using log_ok_reads(1) [OF d(2)] by (simp add: contest_events_def w2_def)
  have "contest_good env call ts dr w2"
    using d(2,4) rest own(2) tail ev by (simp add: contest_good_def w2_def)
  moreover have "\<forall>q w3. contest_won env ts dr w2 q w3 \<longrightarrow> contest_won env ts dr w q w3"
    using ev tail r g(1) by (auto simp: contest_won_def w2_def)
  ultimately show ?thesis using plan r by (intro exI [of _ w2]) (simp add: w2_def)
qed

interpretation store_cas: cas_retry "contest_read env" "contest_plan env call ts dr" "contest_good env call ts dr"
  "\<lambda>w. length (c_rivals w)" "contest_won env ts dr"
  for env call ts dr
proof unfold_locales
  fix w es w1
  assume "contest_good env call ts dr w" "length (c_rivals w) = 0" "contest_read env w = (es, w1)"
  then show "\<exists>r w2. contest_plan env call ts dr es (tail_seq es) w1 = (Finished r, w2) \<and> contest_won env ts dr w r w2"
    using contest_quiet [of env call ts dr w es w1] by simp
next
  fix w k es w1
  assume "contest_good env call ts dr w" "length (c_rivals w) = Suc k" "contest_read env w = (es, w1)"
  then show "\<exists>w2. contest_plan env call ts dr es (tail_seq es) w1 = (Lost, w2) \<and> contest_good env call ts dr w2 \<and>
      length (c_rivals w2) = k \<and> (\<forall>r w3. contest_won env ts dr w2 r w3 \<longrightarrow> contest_won env ts dr w r w3)"
    by (rule contest_contended)
qed

section \<open>The property\<close>

text \<open>C10. A compare-and-append loop returns with its event in the log, or gives up as its caller said:
  against rivals that each append one event before one of its attempts, it lands right behind the
  last of them when it has more attempts than rivals, and otherwise ends in the caller's
  exhaustion policy; there is no third outcome and no second copy of the event.\<close>

theorem retry_lands_or_exhausts:
  assumes "contest_good env call ts dr w"
  shows "\<exists>r w'. retry_tail_cas n (contest_read env) (contest_plan env call ts dr) ex w = (r, w') \<and>
    (if length (c_rivals w) < n then contest_won env ts dr w r w' else (\<exists>w''. (r, w') = ex w''))"
proof (cases "length (c_rivals w) < n")
  case True
  then show ?thesis using store_cas.lands [OF assms, of n ex] by simp
next
  case False
  then obtain w'' where "retry_tail_cas n (contest_read env) (contest_plan env call ts dr) ex w = ex w''"
    using store_cas.exhausts [OF assms, of n ex] by auto
  then show ?thesis using False by (metis prod.collapse)
qed

definition demo_contest :: contest where
  "demo_contest = \<lparr>c_disk = None, c_store = open_store demo_env None, c_rivals = [(0, demo_draft)]\<rparr>"

lemma demo_contest_good: "contest_good demo_env (demo_call None Landed) 0 demo_draft demo_contest"
proof -
  have e: "contest_events demo_env demo_contest = []"
    by (simp add: contest_events_def demo_contest_def bytes_of_def log_events_def complete_lines_def)
  have "rows_carried demo_env (-1) (0, demo_draft) [(0, demo_draft)]"
    using demo_rows_ok [of 0] demo_rows_ok [of 1] by (simp add: demo_row_def demo_draft_def)
  moreover have "log_ok demo_env (bytes_of None) []" by (simp add: bytes_of_def)
  ultimately show ?thesis
    using e open_synced [of demo_env None "[]"]
    by (simp add: contest_good_def demo_contest_def demo_draft_def event_batch_type_def admitted_def demo_call_def
        tail_seq_def bytes_of_def)
qed

theorem retry_lands_or_exhausts_witness:
  "\<exists>w'. retry_tail_cas 2 (contest_read demo_env) (contest_plan demo_env (demo_call None Landed) 0 demo_draft)
     (Pair (Inr [])) demo_contest = (Inr [demo_row 1], w') \<and> length (contest_events demo_env w') = 2"
proof -
  have e: "contest_events demo_env demo_contest = []" "length (c_rivals demo_contest) = 1"
    by (simp_all add: contest_events_def demo_contest_def bytes_of_def log_events_def complete_lines_def)
  show ?thesis
    using retry_lands_or_exhausts [OF demo_contest_good, of 2 "Pair (Inr [])"] e
    by (auto simp: contest_won_def tail_seq_def demo_row_def demo_draft_def)
qed

end
