(* ===== verification/SearchTree.thy ===== *)
theory SearchTree
  imports Selection
begin

text \<open>
  What the search policies (\<open>search/policy.py\<close>) read off the folded state: the scores a proposal
  shows, the credit of the operators, the bandit's choice, the parent weighted by its expansion,
  the subtree under a node with its evaluation cost, and the expansion ledger of ASHA. A node's
  evaluation seconds are read as a number; the text of a proposal's reason is not modelled.
\<close>

section \<open>Scores\<close>

text \<open>Python's \<open>round(x, 4)\<close>: to the nearest, ties to even.\<close>

definition round_half_even :: "real \<Rightarrow> int" where
  "round_half_even x = (let f = \<lfloor>x\<rfloor>; r = x - of_int f in
     if r < 1 / 2 then f else if 1 / 2 < r then f + 1 else if even f then f else f + 1)"

definition round4 :: "real \<Rightarrow> real" where
  "round4 x = of_int (round_half_even (x * 10000)) / 10000"

definition metric_scores :: "node list \<Rightarrow> (int \<times> real) list" where
  "metric_scores nodes = dict_of (List.map_filter
     (\<lambda>n. map_option (\<lambda>m. (n_id n, round4 m)) (n_metric n)) nodes)"

definition rank_by_metric :: "run_state \<Rightarrow> node list \<Rightarrow> node list" where
  "rank_by_metric st nodes = rank (search_fitness (st_direction st) False False) nodes"

section \<open>The credit of a breeding\<close>

fun seconds_value :: "pyval \<Rightarrow> real option" where
  "seconds_value (PInt i) = Some (of_int i)"
| "seconds_value (PBool b) = Some (if b then 1 else 0)"
| "seconds_value (PFloat (Fin r)) = Some r"
| "seconds_value _ = None"

definition cost_seconds :: "node \<Rightarrow> real" where
  "cost_seconds n = (case seconds_value (n_eval_seconds n) of
     None \<Rightarrow> 1 / 10 | Some r \<Rightarrow> if r = 0 then 1 / 10 else r)"

definition off_limits :: "run_state \<Rightarrow> node \<Rightarrow> bool" where
  "off_limits st n \<longleftrightarrow> n_tombstoned n \<or> n_id n \<in> set (st_aborted_nodes st) \<or> n_id n \<in> st_breed_excluded st"

definition parent_metrics :: "run_state \<Rightarrow> node \<Rightarrow> real list" where
  "parent_metrics st n = List.map_filter
     (\<lambda>p. case node_at st p of None \<Rightarrow> None | Some q \<Rightarrow> n_metric q) (n_parent_ids n)"

definition best_of :: "direction \<Rightarrow> real list \<Rightarrow> real" where
  "best_of dir ms = (case dir of Max \<Rightarrow> foldl max (hd ms) (tl ms) | Min \<Rightarrow> foldl min (hd ms) (tl ms))"

definition breeding_credits :: "run_state \<Rightarrow> (node \<times> real) list" where
  "breeding_credits st = List.map_filter (\<lambda>n.
     case n_metric n of None \<Rightarrow> None
     | Some m \<Rightarrow>
        (if n_parent_ids n = [] \<or> n_status n \<noteq> Evaluated \<or> off_limits st n \<or> \<not> n_feasible n then None
         else (let pm = parent_metrics st n in
           if pm = [] then None
           else (let base = best_of (st_direction st) pm;
                     delta = (case st_direction st of Max \<Rightarrow> m - base | Min \<Rightarrow> base - m)
                 in Some (n, max 0 delta / max (1 / 10) (cost_seconds n)))))) (nodes_of st)"

type_synonym yields = "(string \<times> (nat \<times> real)) list"

fun add_gain :: "string \<Rightarrow> real \<Rightarrow> yields \<Rightarrow> yields" where
  "add_gain key gain ys = (case (case dict_get ys key of Some d \<Rightarrow> d | None \<Rightarrow> (0, 0)) of
     (n, g) \<Rightarrow> dict_put key (Suc n, (g * of_nat n + gain) / (of_nat n + 1)) ys)"

definition mean_gain_by :: "run_state \<Rightarrow> (node \<Rightarrow> string) \<Rightarrow> yields" where
  "mean_gain_by st key = foldl (\<lambda>ys (n, gain). add_gain (key n) gain ys) [] (breeding_credits st)"

definition operator_yields :: "run_state \<Rightarrow> yields" where
  "operator_yields st = mean_gain_by st n_operator"

definition default_model_arm :: string where
  "default_model_arm = ''default''"

definition model_arm_yields :: "run_state \<Rightarrow> yields" where
  "model_arm_yields st = mean_gain_by st (\<lambda>n. if n_model_arm n = [] then default_model_arm else n_model_arm n)"

section \<open>The bandits\<close>

definition yield_of :: "yields \<Rightarrow> string \<Rightarrow> nat \<times> real" where
  "yield_of ys k = (case dict_get ys k of Some d \<Rightarrow> d | None \<Rightarrow> (0, 0))"

text \<open>The loop that keeps a candidate unless a later one is better by more than \<open>1e-12\<close>.\<close>

fun clear_winner :: "('a \<Rightarrow> real) \<Rightarrow> 'a \<Rightarrow> real \<Rightarrow> 'a list \<Rightarrow> 'a" where
  "clear_winner score k s [] = k"
| "clear_winner score k s (x # xs) =
     (if s + 1 / 10 ^ 12 < score x then clear_winner score x (score x) xs else clear_winner score k s xs)"

definition exploration :: "real \<Rightarrow> nat \<Rightarrow> nat \<Rightarrow> real" where
  "exploration c tot n = c * sqrt (ln (of_nat tot + 1) / (of_nat n + 1))"

definition or_one :: "real \<Rightarrow> real" where
  "or_one x = (if x = 0 then 1 else x)"

definition bandit_pick :: "yields \<Rightarrow> string list \<Rightarrow> string" where
  "bandit_pick ys cands = (case List.find (\<lambda>k. fst (yield_of ys k) = 0) cands of
     Some k \<Rightarrow> k
   | None \<Rightarrow>
      (let tot = max 1 (sum_list (map (fst \<circ> snd) ys));
           gmax = or_one (best_of Max (if ys = [] then [0] else map (snd \<circ> snd) ys));
           score = (\<lambda>k. snd (yield_of ys k) / gmax + exploration (8 / 10) tot (fst (yield_of ys k)))
       in clear_winner score (hd cands) (score (hd cands)) (tl cands)))"

definition model_arm_pick :: "yields \<Rightarrow> string list \<Rightarrow> (string \<times> real) list \<Rightarrow> string" where
  "model_arm_pick ys arms costs = (case List.find (\<lambda>k. fst (yield_of ys k) = 0) arms of
     Some k \<Rightarrow> k
   | None \<Rightarrow>
      (let tot = max 1 (sum_list (map (fst \<circ> yield_of ys) arms));
           scored = (\<lambda>k. snd (yield_of ys k) /
             max (1 / 10 ^ 9) (case dict_get costs k of Some r \<Rightarrow> r | None \<Rightarrow> 1));
           gmax = or_one (best_of Max (if arms = [] then [0] else map scored arms));
           score = (\<lambda>k. scored k / gmax + exploration (8 / 10) tot (fst (yield_of ys k)))
       in clear_winner score (hd arms) (score (hd arms)) (tl arms)))"

lemma clear_winner_in: "clear_winner score k s xs \<in> insert k (set xs)"
  by (induction xs arbitrary: k s) auto

lemma bandit_pick_in: "cands \<noteq> [] \<Longrightarrow> bandit_pick ys cands \<in> set cands"
  using clear_winner_in [where xs = "tl cands" and k = "hd cands"]
  by (cases cands) (auto simp: bandit_pick_def Let_def find_Some_iff split: option.splits)

section \<open>The parent weighted by its expansion\<close>

definition live_kids :: "run_state \<Rightarrow> int \<Rightarrow> nat" where
  "live_kids st p = sum_list (map (\<lambda>n. count_list (n_parent_ids n) p)
     (filter (\<lambda>n. \<not> off_limits st n) (nodes_of st)))"

definition parent_weight :: "run_state \<Rightarrow> nat \<times> node \<Rightarrow> real" where
  "parent_weight st rn = (case rn of (r, n) \<Rightarrow> (1 / of_nat r) / (1 + of_nat (live_kids st (n_id n))))"

definition weighted_parent :: "run_state \<Rightarrow> node list \<Rightarrow> int option" where
  "weighted_parent st pool = (if pool = [] then None
     else map_option (n_id \<circ> snd) (clear_winner (\<lambda>x. case x of None \<Rightarrow> -1 | Some rn \<Rightarrow> parent_weight st rn)
            None (-1) (map Some (enumerate 1 (rank_by_metric st pool)))))"

section \<open>The subtree under a node\<close>

text \<open>\<open>children\<close> as its pairs of parent and child, in the order the nodes list them, and the depth-first
  walk with its stack (the top first) and the set of seen ids.\<close>

definition child_edges :: "run_state \<Rightarrow> (int \<times> int) list" where
  "child_edges st = concat (map (\<lambda>n. map (\<lambda>p. (p, n_id n)) (n_parent_ids n)) (nodes_of st))"

definition children_in :: "(int \<times> int) list \<Rightarrow> int \<Rightarrow> int list" where
  "children_in edges p = map snd (filter (\<lambda>e. fst e = p) edges)"

function walk :: "(int \<times> int) list \<Rightarrow> int list \<Rightarrow> int list \<Rightarrow> int list" where
  "walk edges seen [] = seen"
| "walk edges seen (x # stack) =
     (if x \<in> set seen then walk edges seen stack
      else walk edges (x # seen) (rev (children_in edges x) @ stack))"
  by pat_completeness auto
termination
proof (relation "measures [\<lambda>(edges, seen, stack). card ((set (map snd edges) \<union> set stack) - set seen),
    \<lambda>(edges, seen, stack). length stack]")
  show "wf (measures [\<lambda>(edges, seen, stack). card ((set (map snd edges) \<union> set stack) - set seen),
    \<lambda>(edges, seen, stack). length stack])" by (rule wf_measures)
next
  fix edges :: "(int \<times> int) list" and seen stack :: "int list" and x :: int
  assume "x \<in> set seen"
  then have "(set (map snd edges) \<union> set (x # stack)) - set seen = (set (map snd edges) \<union> set stack) - set seen"
    by auto
  then show "((edges, seen, stack), edges, seen, x # stack) \<in> measures
      [\<lambda>(edges, seen, stack). card ((set (map snd edges) \<union> set stack) - set seen),
       \<lambda>(edges, seen, stack). length stack]" by simp
next
  fix edges :: "(int \<times> int) list" and seen stack :: "int list" and x :: int
  assume "x \<notin> set seen"
  moreover have "set (children_in edges x) \<subseteq> set (map snd edges)" by (auto simp: children_in_def)
  ultimately have "(set (map snd edges) \<union> set (rev (children_in edges x) @ stack)) - set (x # seen)
      \<subset> (set (map snd edges) \<union> set (x # stack)) - set seen"
    by auto
  then have "card ((set (map snd edges) \<union> set (rev (children_in edges x) @ stack)) - set (x # seen))
      < card ((set (map snd edges) \<union> set (x # stack)) - set seen)"
    by (intro psubset_card_mono) auto
  then show "((edges, x # seen, rev (children_in edges x) @ stack), edges, seen, x # stack) \<in> measures
      [\<lambda>(edges, seen, stack). card ((set (map snd edges) \<union> set stack) - set seen),
       \<lambda>(edges, seen, stack). length stack]" by simp
qed

definition subtree :: "run_state \<Rightarrow> int \<Rightarrow> int list" where
  "subtree st nid = walk (child_edges st) [] [nid]"

definition nodes_in :: "run_state \<Rightarrow> int list \<Rightarrow> node list" where
  "nodes_in st ids = List.map_filter (node_at st) ids"

text \<open>A measurement that counts: live, and not an artifact where its own cost is asked.\<close>

definition counted :: "run_state \<Rightarrow> node \<Rightarrow> bool" where
  "counted st n \<longleftrightarrow> n_status n = Evaluated \<and> n_feasible n \<and> \<not> off_limits st n \<and> n_kind n \<noteq> Some ''artifact''"

definition subtree_eval_cost :: "run_state \<Rightarrow> int list \<Rightarrow> real" where
  "subtree_eval_cost st ids = (let seconds = filter (\<lambda>r. 0 < r)
       (List.map_filter (\<lambda>n. seconds_value (n_eval_seconds n)) (filter (counted st) (nodes_in st ids)))
     in if seconds = [] then 0 else sum_list seconds / of_nat (length seconds))"

definition eval_cost_penalty :: "real \<Rightarrow> real \<Rightarrow> real \<Rightarrow> real" where
  "eval_cost_penalty subtree_cost run_cost weight =
     (if weight \<le> 0 \<or> run_cost \<le> 0 then 0
      else weight * (if 0 < subtree_cost then subtree_cost / run_cost else 1))"

definition mcts_reward :: "real \<Rightarrow> direction \<Rightarrow> real" where
  "mcts_reward value dir = (case dir of
       Min \<Rightarrow> if 0 \<le> value then 1 / (1 + value) else 2 - 1 / (1 - value)
     | Max \<Rightarrow> if 0 \<le> value then 2 - 1 / (1 + value) else 1 / (1 - value))"

definition value_estimate :: "real \<Rightarrow> real option \<Rightarrow> nat \<Rightarrow> real \<Rightarrow> real" where
  "value_estimate reward prior visits weight = (case prior of
       None \<Rightarrow> reward
     | Some q \<Rightarrow> if weight \<le> 0 then reward
         else reward + weight * (2 * min 1 (max 0 q) - 1) / (1 + max 1 (of_nat visits)))"

section \<open>The ledger of ASHA\<close>

definition asha_max_failed_promotions :: nat where
  "asha_max_failed_promotions = 2"

definition failed_children :: "run_state \<Rightarrow> int \<Rightarrow> nat" where
  "failed_children st p = sum_list (map (\<lambda>n. count_list (n_parent_ids n) p)
     (filter (\<lambda>n. n_status n = Failed) (nodes_of st)))"

definition has_live_child :: "run_state \<Rightarrow> int \<Rightarrow> bool" where
  "has_live_child st p \<longleftrightarrow> (\<exists>n \<in> set (nodes_of st). n_status n \<noteq> Failed \<and> p \<in> set (n_parent_ids n))"

definition retired :: "run_state \<Rightarrow> int \<Rightarrow> bool" where
  "retired st p \<longleftrightarrow> asha_max_failed_promotions \<le> failed_children st p \<and> \<not> has_live_child st p"

text \<open>The depth of each node, over the nodes in the order of their ids.\<close>

definition put_depth :: "(int \<times> int) list \<Rightarrow> node \<Rightarrow> (int \<times> int) list" where
  "put_depth gen n = dict_put (n_id n)
     (if n_parent_ids n = [] then 0
      else 1 + (let ds = map (\<lambda>p. case dict_get gen p of Some d \<Rightarrow> d | None \<Rightarrow> 0) (n_parent_ids n)
                in foldl max (hd ds) (tl ds))) gen"

definition generation_depths :: "run_state \<Rightarrow> (int \<times> int) list" where
  "generation_depths st = foldl put_depth [] (py_sorted False n_id (nodes_of st))"

section \<open>The walk is reachability\<close>

lemma set_children_in: "y \<in> set (children_in edges x) \<longleftrightarrow> (x, y) \<in> set edges"
  by (force simp: children_in_def)

lemma walk_sound:
  "\<forall>y \<in> set seen \<union> set stack. (r, y) \<in> (set edges)\<^sup>* \<Longrightarrow> \<forall>y \<in> set (walk edges seen stack). (r, y) \<in> (set edges)\<^sup>*"
proof (induction edges seen stack rule: walk.induct)
  case (2 edges seen x stack)
  then have "\<forall>y \<in> set (children_in edges x). (r, y) \<in> (set edges)\<^sup>*"
    by (auto simp: set_children_in intro: rtrancl_into_rtrancl)
  then show ?case using 2 by auto
qed auto

lemma walk_keeps: "set seen \<union> set stack \<subseteq> set (walk edges seen stack)"
  by (induction edges seen stack rule: walk.induct) auto

lemma walk_closed:
  "\<forall>x \<in> set seen. \<forall>y. (x, y) \<in> set edges \<longrightarrow> y \<in> set seen \<union> set stack \<Longrightarrow>
    \<forall>x \<in> set (walk edges seen stack). \<forall>y. (x, y) \<in> set edges \<longrightarrow> y \<in> set (walk edges seen stack)"
proof (induction edges seen stack rule: walk.induct)
  case (2 edges seen x stack)
  show ?case
  proof (cases "x \<in> set seen")
    case True
    then show ?thesis using 2 by auto
  next
    case False
    then have "\<forall>z \<in> set (x # seen). \<forall>y. (z, y) \<in> set edges \<longrightarrow>
        y \<in> set (x # seen) \<union> set (rev (children_in edges x) @ stack)"
      using "2.prems" by (auto simp: set_children_in)
    then show ?thesis using "2.IH"(2) [OF False] False by simp
  qed
qed auto

lemma walk_distinct: "distinct seen \<Longrightarrow> distinct (walk edges seen stack)"
  by (induction edges seen stack rule: walk.induct) auto

lemma set_walk: "set (walk edges [] [r]) = {y. (r, y) \<in> (set edges)\<^sup>*}"
proof (intro equalityI subsetI)
  fix y assume "y \<in> set (walk edges [] [r])"
  then show "y \<in> {y. (r, y) \<in> (set edges)\<^sup>*}" using walk_sound [of "[]" "[r]" r edges] by auto
next
  fix y assume "y \<in> {y. (r, y) \<in> (set edges)\<^sup>*}"
  then have "(r, y) \<in> (set edges)\<^sup>*" by simp
  then show "y \<in> set (walk edges [] [r])"
  proof induction
    case base
    then show ?case using walk_keeps [of "[]" "[r]" edges] by auto
  next
    case (step y z)
    then show ?case using walk_closed [of "[]" edges "[r]"] by auto
  qed
qed

lemma set_child_edges:
  "(p, k) \<in> set (child_edges st) \<longleftrightarrow> (\<exists>n \<in> set (nodes_of st). n_id n = k \<and> p \<in> set (n_parent_ids n))"
  by (auto simp: child_edges_def)

end
