(* ===== verification/Pareto.thy ===== *)
theory Pareto
  imports SearchTree
begin

text \<open>
  The set-valued read of the search (\<open>search/policy.py\<close>, with the readers of the tagged secondary
  metrics in \<open>core/models.py\<close>): the objectives every candidate can be ordered by, dominance under
  them, and the candidates nothing dominates. Dominance is a strict order, so each candidate that
  is not on the front has one above it that is.
\<close>

section \<open>The objectives\<close>

definition extra_metric_direction :: "(string \<times> string) list \<Rightarrow> string \<Rightarrow> direction option" where
  "extra_metric_direction directions key = (case dict_get directions key of
       Some w \<Rightarrow> if w = ''min'' then Some Min else if w = ''max'' then Some Max else None
     | None \<Rightarrow> None)"

definition extra_metric_channel :: "(string \<times> string) list \<Rightarrow> string \<Rightarrow> string" where
  "extra_metric_channel channels key = (case dict_get channels key of
       Some ch \<Rightarrow> if ch \<in> {''declared'', ''auto'', ''engine''} then ch else ''unknown''
     | None \<Rightarrow> ''unknown'')"

definition authenticated_extra_metrics_only :: "(string \<times> real) list \<Rightarrow> (string \<times> string) list \<Rightarrow> (string \<times> real) list" where
  "authenticated_extra_metrics_only extras channels =
     filter (\<lambda>(k, v). extra_metric_channel channels k \<in> {''declared'', ''engine''}) extras"

definition oriented_extra_metrics_only :: "(string \<times> real) list \<Rightarrow> (string \<times> string) list \<Rightarrow> (string \<times> real) list" where
  "oriented_extra_metrics_only extras directions =
     filter (\<lambda>(k, v). extra_metric_direction directions k \<noteq> None) extras"

definition primary_objective :: string where
  "primary_objective = ''metric''"

text \<open>A secondary metric of a node is a finite number, so the usability test of the code holds of it.\<close>

definition objectives_here :: "node \<Rightarrow> (string \<times> direction) list" where
  "objectives_here n = map (\<lambda>(k, v). (k, the (extra_metric_direction (n_extra_metrics_direction n) k)))
     (oriented_extra_metrics_only
       (authenticated_extra_metrics_only (n_extra_metrics n) (n_extra_metrics_provenance n))
       (n_extra_metrics_direction n))"

fun common_objectives :: "(string \<times> direction) list option \<Rightarrow> node list \<Rightarrow> (string \<times> direction) list option" where
  "common_objectives acc [] = acc"
| "common_objectives acc (n # ns) = common_objectives (Some (case acc of
       None \<Rightarrow> objectives_here n
     | Some c \<Rightarrow> filter (\<lambda>(k, d). dict_get (objectives_here n) k = Some d) c)) ns"

definition pareto_objectives :: "run_state \<Rightarrow> node list \<Rightarrow> (string \<times> direction) list" where
  "pareto_objectives st pool = (if pool = [] then []
     else foldl (\<lambda>out (k, d). dict_put k d out) [(primary_objective, st_direction st)]
       (case common_objectives None pool of Some c \<Rightarrow> c | None \<Rightarrow> []))"

section \<open>Dominance\<close>

definition objective_of :: "node \<Rightarrow> string \<Rightarrow> real option" where
  "objective_of n key = (if key = primary_objective then n_metric n else dict_get (n_extra_metrics n) key)"

fun dominates_from :: "bool \<Rightarrow> node \<Rightarrow> node \<Rightarrow> (string \<times> direction) list \<Rightarrow> bool" where
  "dominates_from strictly_better a b [] = strictly_better"
| "dominates_from strictly_better a b ((key, dir) # objectives) = (case (objective_of a key, objective_of b key) of
       (Some av, Some bv) \<Rightarrow> if is_better dir bv av then False
         else dominates_from (strictly_better \<or> is_better dir av bv) a b objectives
     | _ \<Rightarrow> False)"

definition dominates :: "node \<Rightarrow> node \<Rightarrow> (string \<times> direction) list \<Rightarrow> bool" where
  "dominates a b objectives = dominates_from False a b objectives"

definition pareto_front :: "run_state \<Rightarrow> node list \<Rightarrow> node list" where
  "pareto_front st nodes = (let pool = filter (\<lambda>n. n_metric n \<noteq> None) nodes;
       objectives = pareto_objectives st pool
     in rank_by_metric st (filter (\<lambda>n. \<not> list_ex (\<lambda>other. other \<noteq> n \<and> dominates other n objectives) pool) pool))"

section \<open>Dominance is a strict order\<close>

definition no_worse :: "node \<Rightarrow> node \<Rightarrow> string \<times> direction \<Rightarrow> bool" where
  "no_worse a b kd = (case (objective_of a (fst kd), objective_of b (fst kd)) of
     (Some av, Some bv) \<Rightarrow> \<not> is_better (snd kd) bv av | _ \<Rightarrow> False)"

definition better_in :: "node \<Rightarrow> node \<Rightarrow> string \<times> direction \<Rightarrow> bool" where
  "better_in a b kd = (case (objective_of a (fst kd), objective_of b (fst kd)) of
     (Some av, Some bv) \<Rightarrow> is_better (snd kd) av bv | _ \<Rightarrow> False)"

lemma dominates_from_iff:
  "dominates_from s a b objs \<longleftrightarrow> list_all (no_worse a b) objs \<and> (s \<or> list_ex (better_in a b) objs)"
  by (induction s a b objs rule: dominates_from.induct)
    (auto simp: no_worse_def better_in_def split: option.splits)

lemma dominates_iff:
  "dominates a b objs \<longleftrightarrow> list_all (no_worse a b) objs \<and> list_ex (better_in a b) objs"
  by (simp add: dominates_def dominates_from_iff)

lemma is_better_irrefl: "\<not> is_better d x x"
  by (cases d) auto

lemma no_worse_trans: "no_worse a b k \<Longrightarrow> no_worse b c k \<Longrightarrow> no_worse a c k"
  by (cases "snd k") (auto simp: no_worse_def split: option.splits)

lemma better_no_worse: "better_in a b k \<Longrightarrow> no_worse b c k \<Longrightarrow> better_in a c k"
  by (cases "snd k") (auto simp: no_worse_def better_in_def split: option.splits)

lemma dominates_irrefl: "\<not> dominates a a objs"
  by (auto simp: dominates_iff list_ex_iff better_in_def is_better_irrefl split: option.splits)

lemma dominates_trans: "dominates a b objs \<Longrightarrow> dominates b c objs \<Longrightarrow> dominates a c objs"
  unfolding dominates_iff list_all_iff list_ex_iff by (meson no_worse_trans better_no_worse)

text \<open>Under a strict order on a finite set every element has a maximal one at or above it.\<close>

lemma maximal_above:
  assumes fin: "finite A" and irrefl: "\<And>x. \<not> R x x" and trans: "\<And>x y z. R x y \<Longrightarrow> R y z \<Longrightarrow> R x z" and x: "x \<in> A"
  shows "\<exists>y \<in> A. (y = x \<or> R y x) \<and> (\<forall>z \<in> A. \<not> R z y)"
  using x
proof (induction "card {z \<in> A. R z x}" arbitrary: x rule: less_induct)
  case less
  show ?case
  proof (cases "\<exists>y \<in> A. R y x")
    case True
    then obtain y where y: "y \<in> A" "R y x" by blast
    have "{z \<in> A. R z y} \<subset> {z \<in> A. R z x}" using y irrefl trans by blast
    then have "card {z \<in> A. R z y} < card {z \<in> A. R z x}" using fin by (intro psubset_card_mono) auto
    then obtain w where "w \<in> A" "w = y \<or> R w y" "\<forall>z \<in> A. \<not> R z w" using less.hyps y(1) by blast
    then show ?thesis using y(2) trans by blast
  qed (use less.prems in blast)
qed

lemma set_pareto_front:
  "n \<in> set (pareto_front st nodes) \<longleftrightarrow> n \<in> set nodes \<and> n_metric n \<noteq> None \<and>
     (\<forall>z \<in> set nodes. n_metric z \<noteq> None \<longrightarrow>
        \<not> dominates z n (pareto_objectives st (filter (\<lambda>n. n_metric n \<noteq> None) nodes)))"
  using dominates_irrefl by (auto simp: pareto_front_def rank_by_metric_def rank_def Let_def list_ex_iff)

end
