(* ===== verification/Policies.thy ===== *)
theory Policies
  imports Pareto
begin

text \<open>
  The search policies (\<open>search/policy.py\<close>): greedy with its bandit, the evolutionary one, tree
  search by upper confidence bounds, and successive halving; the legal set, the forced exploit
  and the registry. Python's parser, which a simplification asks whether a cut changes the program,
  is a parameter.
\<close>

section \<open>Proposals\<close>

text \<open>Of the reason of a proposal only the mark of the operator bandit is read back, by the card lane.\<close>

datatype action = Draft | Evaluate int | Improve int | Merge int int | Ablate int | Simplify int nat string

record proposal =
  act :: action
  p_scores :: "(int \<times> real) list"
  p_chosen :: "int option"
  p_model :: "string option"
  p_rung :: "int option"
  p_promoted :: "int list"
  p_exploit :: bool
  p_bandit :: bool

definition plain :: "action \<Rightarrow> proposal" where
  "plain a = \<lparr>act = a, p_scores = [], p_chosen = None, p_model = None, p_rung = None, p_promoted = [],
     p_exploit = False, p_bandit = False\<rparr>"

definition scored :: "action \<Rightarrow> (int \<times> real) list \<Rightarrow> int \<Rightarrow> proposal" where
  "scored a scores chosen = (plain a)\<lparr>p_scores := scores, p_chosen := Some chosen\<rparr>"

text \<open>The opening every policy shares: finish what is pending, stop at the cap, seed.\<close>

definition evaluate_pending :: "run_state \<Rightarrow> proposal list" where
  "evaluate_pending st = map (\<lambda>n. plain (Evaluate (n_id n))) (pending_nodes st)"

definition total_nodes :: "run_state \<Rightarrow> int" where
  "total_nodes st = int (length (st_nodes st))"

definition seed_drafts :: "int \<Rightarrow> int \<Rightarrow> int \<Rightarrow> int \<Rightarrow> proposal list" where
  "seed_drafts seeds have max_nodes tot = replicate (nat (min (seeds - have) (max_nodes - tot))) (plain Draft)"

section \<open>Simplification\<close>

record py_ast =
  semantic_dump :: "string \<Rightarrow> string option"
  load_bearing_starts :: "string \<Rightarrow> nat list option"
  multiline_token_spans :: "string \<Rightarrow> (nat \<times> nat) list option"

definition splitlines_only_break :: "char \<Rightarrow> bool" where
  "splitlines_only_break c \<longleftrightarrow> (of_char c :: nat) \<in> {11, 12, 28, 29, 30, 133}"

definition newline_joined :: "string list \<Rightarrow> string" where
  "newline_joined ls = (case ls of [] \<Rightarrow> [] | l # ls' \<Rightarrow> l @ concat (map (\<lambda>x. CHR 10 # x) ls'))"

definition code_line :: "string \<Rightarrow> bool" where
  "code_line l \<longleftrightarrow> py_strip l \<noteq> [] \<and> \<not> py_startswith (py_strip l) ''#''"

definition cuts_token :: "(nat \<times> nat) list \<Rightarrow> nat \<times> nat \<Rightarrow> bool" where
  "cuts_token tokens block = (case block of (s, e) \<Rightarrow>
     list_ex (\<lambda>(first, last). first \<le> e \<and> s < last \<and> \<not> (s < first \<and> last \<le> e)) tokens)"

definition block_removes_something :: "py_ast \<Rightarrow> string \<Rightarrow> nat \<times> nat \<Rightarrow> bool" where
  "block_removes_something P code block = (case block of (s, e) \<Rightarrow>
     (let ls = splitlines code; whole = semantic_dump P code;
          tokens = (if whole \<noteq> None \<and> \<not> list_ex splitlines_only_break code
                    then multiline_token_spans P code else None);
          starts = (if tokens \<noteq> None then load_bearing_starts P code else None);
          code_lines = filter (\<lambda>k. code_line (ls ! k)) [s..<e];
          cut = (case (starts, tokens) of (Some _, Some ts) \<Rightarrow> cuts_token ts block | _ \<Rightarrow> True)
      in code_lines \<noteq> [] \<and>
         \<not> (whole \<noteq> None \<and> (cut \<or> \<not> list_ex (\<lambda>k. Suc k \<in> set (the starts)) code_lines) \<and>
            semantic_dump P (newline_joined (take s ls @ drop e ls)) = whole)))"

definition removes_something :: "py_ast \<Rightarrow> string \<Rightarrow> int \<Rightarrow> nat list" where
  "removes_something P code blocks = (let spans = code_blocks code in
     if int (length spans) \<noteq> blocks then []
     else map fst (filter (\<lambda>(i, block). block_removes_something P code block) (enumerate 0 spans)))"

text \<open>A key of \<open>signed_impacts\<close> is a block index written in ASCII digits.\<close>

definition decimal_key :: "string \<Rightarrow> nat option" where
  "decimal_key key = (if key \<noteq> [] \<and> list_all (\<lambda>c. digit_of c \<noteq> None) key
     then Some (nat (foldl (\<lambda>i c. 10 * i + the (digit_of c)) 0 key)) else None)"

type_synonym measured = "(nat \<times> (real option \<times> string)) list"

fun measure_blocks :: "nat list \<Rightarrow> string \<Rightarrow> (string \<times> pyval) list \<Rightarrow> measured \<Rightarrow> measured" where
  "measure_blocks substantive aid [] m = m"
| "measure_blocks substantive aid ((key, gain) # rest) m = measure_blocks substantive aid rest
     (case decimal_key key of
        Some b \<Rightarrow> if b \<in> set substantive then dict_put b (finite_metric gain, aid) m else m
      | None \<Rightarrow> m)"

definition measure_record :: "py_ast \<Rightarrow> node \<Rightarrow> payload \<Rightarrow> measured \<Rightarrow> measured" where
  "measure_record P n r m =
     (if \<not> eq_int (pget r ''parent_id'') (n_id n) \<or> \<not> eq_int (pget r ''generation'') (n_attempt n) \<or>
         pget r ''mode'' \<noteq> PStr ''code_blocks'' \<or> is_true (pget r ''superseded'') then m
      else (case (pget r ''ablation_id'', pget r ''signed_impacts'', pget r ''blocks'') of
          (PStr aid, PDict impacts, PInt blocks) \<Rightarrow>
            if aid = [] then m else measure_blocks (removes_something P (code_text n) blocks) aid impacts m
        | _ \<Rightarrow> m))"

type_synonym cut_key = "int \<times> int \<times> int"

definition taken_blocks :: "externals \<Rightarrow> run_state \<Rightarrow> node \<Rightarrow> cut_key list \<Rightarrow> int list" where
  "taken_blocks X st n spent =
     List.map_filter (\<lambda>child. case n_simplified child of None \<Rightarrow> None
       | Some receipt \<Rightarrow> if cut_spent X n child then as_int (pget receipt ''block'') else None) (nodes_of st) @
     map (snd \<circ> snd) (filter (\<lambda>(i, g, b). i = n_id n \<and> g = n_attempt n) spent)"

definition simplify_actions :: "externals \<Rightarrow> py_ast \<Rightarrow> run_state \<Rightarrow> node option \<Rightarrow> cut_key list \<Rightarrow> cut_key list \<Rightarrow>
    proposal list" where
  "simplify_actions X P st target refused spent = (case target of None \<Rightarrow> [] | Some n \<Rightarrow>
     (if n_tombstoned n \<or> n_id n \<in> set (st_aborted_nodes st) \<or> truthy (st_host_grading st) then []
      else (let m = foldl (\<lambda>m r. measure_record P n r m) [] (st_ablations st);
                taken = taken_blocks X st n spent;
                good = List.map_filter (\<lambda>(b, gain, aid). case gain of None \<Rightarrow> None
                  | Some g \<Rightarrow> if 0 \<le> g \<and> int b \<notin> set taken \<and> (n_id n, n_attempt n, int b) \<notin> set refused
                             then Some (b, g, aid) else None) m
            in map (\<lambda>(b, g, aid). plain (Simplify (n_id n) b aid))
                 (py_sorted False (\<lambda>(b, g, aid). (- g, b)) good))))"

text \<open>What the engine sets on a policy object before it asks.\<close>

record policy_env =
  simplify_ablated :: bool
  ablation_capable :: bool
  simplify_refused :: "cut_key list"
  simplify_spent :: "cut_key list"
  pe_externals :: externals
  pe_ast :: py_ast

definition simplify_best :: "policy_env \<Rightarrow> run_state \<Rightarrow> node option \<Rightarrow> proposal list" where
  "simplify_best E st n = (if simplify_ablated E \<and> ablation_capable E
     then simplify_actions (pe_externals E) (pe_ast E) st n (simplify_refused E) (simplify_spent E) else [])"

text \<open>Each policy opens with what is pending; its answer on a quiet board is a definition of its own,
  which the card lane also asks with its own pending nodes hidden.\<close>

section \<open>Greedy\<close>

record greedy =
  g_n_seeds :: int
  g_max_nodes :: int
  g_enable_merge :: bool
  g_merge_every :: int
  g_max_merges :: int
  g_ablate_every :: int
  g_operator_bandit :: bool
  g_model_arms :: "(string \<times> real) list"

definition operator_count :: "string list \<Rightarrow> run_state \<Rightarrow> int" where
  "operator_count ops st = int (length (filter (\<lambda>n. n_operator n \<in> set ops) (nodes_of st)))"

definition merge_top2 :: "run_state \<Rightarrow> node list \<Rightarrow> proposal" where
  "merge_top2 st evaluated = (let top2 = take 2 (rank_by_metric st evaluated)
     in scored (Merge (n_id (top2 ! 0)) (n_id (top2 ! 1))) (metric_scores top2) (n_id (top2 ! 0)))"

definition bandit_candidates :: "greedy \<Rightarrow> policy_env \<Rightarrow> run_state \<Rightarrow> node list \<Rightarrow> node \<Rightarrow> string list" where
  "bandit_candidates G E st evaluated b = ''improve'' #
     (if g_enable_merge G \<and> 2 \<le> length evaluated \<and> operator_count [''merge''] st < g_max_merges G
      then [''merge''] else []) @
     (if 0 < g_ablate_every G \<and> 2 \<le> length (i_params (n_idea b)) \<and> ablation_capable E
      then [''refine_block''] else [])"

definition bandit_proposal :: "greedy \<Rightarrow> policy_env \<Rightarrow> run_state \<Rightarrow> node list \<Rightarrow> node \<Rightarrow> proposal" where
  "bandit_proposal G E st evaluated b =
     (let pick = bandit_pick (operator_yields st) (bandit_candidates G E st evaluated b);
          p = (if pick = ''merge'' then merge_top2 st evaluated
               else if pick = ''refine_block'' then scored (Ablate (n_id b)) (metric_scores evaluated) (n_id b)
               else scored (Improve (n_id b)) (metric_scores evaluated) (n_id b))
      in if g_model_arms G = [] then p\<lparr>p_bandit := True\<rparr>
         else p\<lparr>p_bandit := True, p_model := Some (model_arm_pick (model_arm_yields st)
           (default_model_arm # filter (\<lambda>a. a \<noteq> default_model_arm) (dict_keys (g_model_arms G)))
           (foldl (\<lambda>d (k, v). dict_put k v d) [(default_model_arm, 1)] (g_model_arms G)))\<rparr>)"

definition greedy_breed :: "greedy \<Rightarrow> policy_env \<Rightarrow> run_state \<Rightarrow> node list \<Rightarrow> node \<Rightarrow> proposal" where
  "greedy_breed G E st evaluated b =
     (let n_improve = operator_count [''improve'', ''expand''] st; n_merge = operator_count [''merge''] st;
          n_refine = operator_count [''refine_block''] st
      in if g_enable_merge G \<and> 2 \<le> length evaluated \<and> n_merge < g_max_merges G \<and>
            g_merge_every G \<le> n_improve \<and> n_merge < n_improve div g_merge_every G
         then merge_top2 st evaluated
         else if 0 < g_ablate_every G \<and> 2 \<le> length (i_params (n_idea b)) \<and> ablation_capable E \<and>
            (n_refine + 1) * g_ablate_every G \<le> n_improve
         then scored (Ablate (n_id b)) (metric_scores evaluated) (n_id b)
         else scored (Improve (n_id b)) (metric_scores evaluated) (n_id b))"

definition greedy_quiet :: "greedy \<Rightarrow> policy_env \<Rightarrow> run_state \<Rightarrow> proposal list" where
  "greedy_quiet G E st =
     (if g_max_nodes G \<le> total_nodes st then []
      else if total_nodes st < g_n_seeds G
      then seed_drafts (g_n_seeds G) (total_nodes st) (g_max_nodes G) (total_nodes st)
      else (case best st of None \<Rightarrow> [plain Draft]
        | Some b \<Rightarrow>
           (let evaluated = breedable_nodes st in case simplify_best E st (Some b) of
               s # _ \<Rightarrow> [s\<lparr>p_scores := metric_scores evaluated, p_chosen := Some (n_id b)\<rparr>]
             | [] \<Rightarrow> [if g_operator_bandit G then bandit_proposal G E st evaluated b
                      else greedy_breed G E st evaluated b])))"

definition greedy_next :: "greedy \<Rightarrow> policy_env \<Rightarrow> run_state \<Rightarrow> proposal list" where
  "greedy_next G E st =
     (if pending_nodes st \<noteq> [] then evaluate_pending st else greedy_quiet G E st)"

section \<open>Evolutionary\<close>

record evolutionary =
  v_pop :: int
  v_max_nodes :: int
  v_elite :: nat

definition new_evolutionary :: "int \<Rightarrow> int \<Rightarrow> nat \<Rightarrow> evolutionary" where
  "new_evolutionary pop max_nodes elite = \<lparr>v_pop = pop, v_max_nodes = max_nodes, v_elite = max 1 elite\<rparr>"

definition evolve :: "evolutionary \<Rightarrow> run_state \<Rightarrow> node list \<Rightarrow> proposal" where
  "evolve V st evaluated =
     (let elites = take (v_elite V) evaluated;
          gen = nat (operator_count [''improve'', ''merge'', ''expand''] st)
      in if even gen \<and> 2 \<le> length elites
         then (let i = (gen div 2) mod length elites; j = (i + 1) mod length elites
               in plain (Merge (n_id (elites ! i)) (n_id (elites ! j))))
         else (let pid = (case weighted_parent st evaluated of Some k \<Rightarrow> k
                         | None \<Rightarrow> n_id (elites ! (gen mod length elites)))
               in scored (Improve pid) (metric_scores evaluated) pid))"

definition evolutionary_quiet :: "evolutionary \<Rightarrow> run_state \<Rightarrow> proposal list" where
  "evolutionary_quiet V st =
     (if v_max_nodes V \<le> total_nodes st then []
      else if total_nodes st < v_pop V
      then seed_drafts (v_pop V) (total_nodes st) (v_max_nodes V) (total_nodes st)
      else (let evaluated = rank_by_metric st (breedable_nodes st)
            in if evaluated = [] then [plain Draft] else [evolve V st evaluated]))"

definition evolutionary_next :: "evolutionary \<Rightarrow> run_state \<Rightarrow> proposal list" where
  "evolutionary_next V st =
     (if pending_nodes st \<noteq> [] then evaluate_pending st else evolutionary_quiet V st)"

section \<open>Tree search\<close>

record mcts =
  m_n_seeds :: int
  m_max_nodes :: int
  m_c :: real
  m_cost_weight :: real
  m_value_weight :: real

text \<open>The upper confidence bound of one node over its subtree, when the subtree has a metric.\<close>

definition subtree_visits :: "run_state \<Rightarrow> int list \<Rightarrow> nat" where
  "subtree_visits st tree = max 1 (length (filter (counted st) (nodes_in st tree)))"

definition ucb :: "mcts \<Rightarrow> run_state \<Rightarrow> nat \<Rightarrow> real \<Rightarrow> node \<Rightarrow> real option" where
  "ucb M st n_total run_cost n =
     (let tree = subtree st (n_id n);
          metrics = List.map_filter (\<lambda>k. if n_feasible k \<and> \<not> off_limits st k then n_metric k else None)
            (nodes_in st tree)
      in if metrics = [] then None
         else (let visits = subtree_visits st tree;
                   reward = value_estimate (mcts_reward (best_of (st_direction st) metrics) (st_direction st))
                     (n_value_prior n) visits (m_value_weight M)
               in Some (reward + m_c M * sqrt (ln (of_nat n_total + 1) / of_nat visits) -
                    eval_cost_penalty (subtree_eval_cost st tree) run_cost (m_cost_weight M))))"

definition ucb_scores :: "mcts \<Rightarrow> run_state \<Rightarrow> node list \<Rightarrow> (int \<times> real) list" where
  "ucb_scores M st evaluated =
     (let run_cost = subtree_eval_cost st (dict_keys (st_nodes st))
      in List.map_filter (\<lambda>n. map_option (\<lambda>u. (n_id n, u)) (ucb M st (length evaluated) run_cost n))
           (py_sorted False n_id evaluated))"

definition mcts_pick :: "mcts \<Rightarrow> run_state \<Rightarrow> node list \<Rightarrow> proposal" where
  "mcts_pick M st evaluated =
     (let us = ucb_scores M st evaluated;
          chosen = (case py_max_by snd us of Some (k, u) \<Rightarrow> k
            | None \<Rightarrow> (case best st of Some b \<Rightarrow> n_id b | None \<Rightarrow> n_id (hd (py_sorted False n_id evaluated))))
      in scored (Improve chosen) (dict_of (map (\<lambda>(k, u). (k, round4 u)) us)) chosen)"

definition mcts_quiet :: "mcts \<Rightarrow> run_state \<Rightarrow> proposal list" where
  "mcts_quiet M st =
     (if m_max_nodes M \<le> total_nodes st then []
      else if total_nodes st < m_n_seeds M
      then seed_drafts (m_n_seeds M) (total_nodes st) (m_max_nodes M) (total_nodes st)
      else if breedable_nodes st = [] then [plain Draft] else [mcts_pick M st (breedable_nodes st)])"

definition mcts_next :: "mcts \<Rightarrow> run_state \<Rightarrow> proposal list" where
  "mcts_next M st =
     (if pending_nodes st \<noteq> [] then evaluate_pending st else mcts_quiet M st)"

section \<open>Successive halving\<close>

record asha =
  a_n_seeds :: int
  a_rung0 :: int
  a_max_nodes :: int
  a_eta :: nat

definition depth_of :: "run_state \<Rightarrow> int \<Rightarrow> int" where
  "depth_of st k = (case dict_get (generation_depths st) k of Some d \<Rightarrow> d | None \<Rightarrow> 0)"

definition rung_members :: "run_state \<Rightarrow> int \<Rightarrow> node list" where
  "rung_members st r = filter (\<lambda>n. depth_of st (n_id n) = r) (breedable_nodes st)"

definition rung_survivors :: "asha \<Rightarrow> run_state \<Rightarrow> node list \<Rightarrow> int list" where
  "rung_survivors A st members = map n_id
     (take (max 1 ((length members + a_eta A - 1) div a_eta A)) (ranked (st_direction st) metric_key members))"

definition unexpanded :: "run_state \<Rightarrow> int list \<Rightarrow> int list" where
  "unexpanded st survivors = filter (\<lambda>i. \<not> has_live_child st i \<and> \<not> retired st i) survivors"

text \<open>The loop over the rungs in order; a rung of one node is passed over.\<close>

fun promote_rung :: "asha \<Rightarrow> run_state \<Rightarrow> int list \<Rightarrow> proposal option" where
  "promote_rung A st [] = None"
| "promote_rung A st (r # rs) =
     (let members = rung_members st r; survivors = rung_survivors A st members;
          open_ids = unexpanded st survivors
      in if length members \<le> 1 \<or> open_ids = [] then promote_rung A st rs
         else (let chosen = hd (sort open_ids)
               in Some ((scored (Improve chosen) (metric_scores members) chosen)
                    \<lparr>p_rung := Some (r + 1), p_promoted := survivors\<rparr>)))"

definition asha_quiet :: "asha \<Rightarrow> run_state \<Rightarrow> proposal list" where
  "asha_quiet A st =
     (if a_max_nodes A \<le> total_nodes st then []
      else (let drafts = int (length (filter (\<lambda>n. n_parent_ids n = []) (nodes_of st)))
            in if drafts < a_rung0 A then seed_drafts (a_rung0 A) drafts (a_max_nodes A) (total_nodes st)
               else if breedable_nodes st = [] then [plain Draft]
               else (case promote_rung A st
                       (sort (remdups (map (\<lambda>n. depth_of st (n_id n)) (breedable_nodes st)))) of
                   Some p \<Rightarrow> [p]
                 | None \<Rightarrow> (case best st of None \<Rightarrow> [plain Draft]
                     | Some b \<Rightarrow> [scored (Improve (n_id b)) (metric_scores (breedable_nodes st)) (n_id b)]))))"

definition asha_next :: "asha \<Rightarrow> run_state \<Rightarrow> proposal list" where
  "asha_next A st =
     (if pending_nodes st \<noteq> [] then evaluate_pending st else asha_quiet A st)"

section \<open>The registry\<close>

datatype search_policy = Greedy greedy | Evolutionary evolutionary | Mcts mcts | Asha asha

fun quiet_actions :: "search_policy \<Rightarrow> policy_env \<Rightarrow> run_state \<Rightarrow> proposal list" where
  "quiet_actions (Greedy G) E st = greedy_quiet G E st"
| "quiet_actions (Evolutionary V) E st = evolutionary_quiet V st"
| "quiet_actions (Mcts M) E st = mcts_quiet M st"
| "quiet_actions (Asha A) E st = asha_quiet A st"

fun next_actions :: "search_policy \<Rightarrow> policy_env \<Rightarrow> run_state \<Rightarrow> proposal list" where
  "next_actions (Greedy G) E st = greedy_next G E st"
| "next_actions (Evolutionary V) E st = evolutionary_next V st"
| "next_actions (Mcts M) E st = mcts_next M st"
| "next_actions (Asha A) E st = asha_next A st"

fun policy_cap :: "search_policy \<Rightarrow> int" where
  "policy_cap (Greedy G) = g_max_nodes G"
| "policy_cap (Evolutionary V) = v_max_nodes V"
| "policy_cap (Mcts M) = m_max_nodes M"
| "policy_cap (Asha A) = a_max_nodes A"

fun policy_seeds :: "search_policy \<Rightarrow> int" where
  "policy_seeds (Greedy G) = g_n_seeds G"
| "policy_seeds (Evolutionary V) = v_pop V"
| "policy_seeds (Mcts M) = m_n_seeds M"
| "policy_seeds (Asha A) = a_rung0 A"

record policy_params =
  pp_operator_bandit :: bool
  pp_model_arms :: "(string \<times> real) list"
  pp_c :: real
  pp_cost_weight :: real
  pp_value_weight :: real
  pp_eta :: int
  pp_rung_nodes :: int

type_synonym maker = "int \<Rightarrow> int \<Rightarrow> int \<Rightarrow> policy_params \<Rightarrow> search_policy"

definition make_greedy :: maker where
  "make_greedy n_seeds max_nodes ablate_every pp = Greedy \<lparr>g_n_seeds = n_seeds, g_max_nodes = max_nodes,
     g_enable_merge = True, g_merge_every = 3, g_max_merges = 2, g_ablate_every = ablate_every,
     g_operator_bandit = pp_operator_bandit pp, g_model_arms = filter (\<lambda>(k, v). 0 < v) (pp_model_arms pp)\<rparr>"

definition make_evolutionary :: maker where
  "make_evolutionary n_seeds max_nodes ablate_every pp = Evolutionary (new_evolutionary n_seeds max_nodes 2)"

definition make_mcts :: maker where
  "make_mcts n_seeds max_nodes ablate_every pp = Mcts \<lparr>m_n_seeds = n_seeds, m_max_nodes = max_nodes,
     m_c = max 0 (pp_c pp), m_cost_weight = max 0 (pp_cost_weight pp), m_value_weight = max 0 (pp_value_weight pp)\<rparr>"

definition make_asha :: maker where
  "make_asha n_seeds max_nodes ablate_every pp = Asha \<lparr>a_n_seeds = max 2 n_seeds,
     a_rung0 = (if pp_rung_nodes pp \<noteq> 0 then max 2 (pp_rung_nodes pp) else max 2 n_seeds),
     a_max_nodes = max_nodes, a_eta = nat (max 2 (pp_eta pp))\<rparr>"

definition policy_registry :: "(string \<times> maker) list" where
  "policy_registry = [(''greedy'', make_greedy), (''evolutionary'', make_evolutionary), (''mcts'', make_mcts),
     (''asha'', make_asha), (''bohb'', make_asha)]"

text \<open>An unknown name is refused.\<close>

definition make_policy :: "string \<Rightarrow> int \<Rightarrow> int \<Rightarrow> int \<Rightarrow> policy_params \<Rightarrow> search_policy option" where
  "make_policy name n_seeds max_nodes ablate_every pp =
     map_option (\<lambda>make. make n_seeds max_nodes ablate_every pp) (dict_get policy_registry name)"

definition policy_fills_width :: "string \<Rightarrow> int \<Rightarrow> bool" where
  "policy_fills_width name width \<longleftrightarrow> width \<le> 1 \<or> py_lower (py_strip name) \<notin> {''asha'', ''bohb''}"

section \<open>The legal set and the forced exploit\<close>

definition legal_actions :: "search_policy \<Rightarrow> policy_env \<Rightarrow> int \<Rightarrow> run_state \<Rightarrow> proposal list" where
  "legal_actions pol E max_nodes st =
     (if pending_nodes st \<noteq> [] then evaluate_pending st
      else if max_nodes \<le> total_nodes st then []
      else if total_nodes st < policy_seeds pol then [plain Draft]
      else (let feasible = rank_by_metric st (breedable_nodes st) in
        [plain Draft] @ map (\<lambda>n. plain (Improve (n_id n))) feasible @
        (if 2 \<le> length feasible then [plain (Merge (n_id (feasible ! 0)) (n_id (feasible ! 1)))] else []) @
        (case best st of None \<Rightarrow> []
         | Some b \<Rightarrow> (if 2 \<le> length (i_params (n_idea b)) \<and> ablation_capable E then [plain (Ablate (n_id b))] else []) @
             simplify_best E st (Some b))))"

definition is_evaluate :: "action \<Rightarrow> bool" where
  "is_evaluate a = (case a of Evaluate k \<Rightarrow> True | _ \<Rightarrow> False)"

definition exploit_min_nodes :: nat where
  "exploit_min_nodes = 3"

definition exploit_forced_action :: "search_policy \<Rightarrow> policy_env \<Rightarrow> int \<Rightarrow> real \<Rightarrow> nat \<Rightarrow> run_state \<Rightarrow> proposal option" where
  "exploit_forced_action pol E max_nodes quantile min_nodes st =
     (let legal = legal_actions pol E max_nodes st; pool = breedable_nodes st in
      if quantile \<le> 0 \<or> length legal \<le> 1 \<or> list_all (is_evaluate \<circ> act) legal \<or> length pool < max 2 min_nodes then None
      else (case py_max_by (\<lambda>n. the (n_terminal_event_seq n)) (filter (\<lambda>n. n_terminal_event_seq n \<noteq> None) pool) of
          None \<Rightarrow> None
        | Some latest \<Rightarrow>
           (let ranked_pool = rank_by_metric st pool;
                top = take (nat (max 1 (trunc_real (of_nat (length ranked_pool) * (1 - quantile))))) ranked_pool
            in if n_id latest \<in> set (map n_id top) \<and> list_ex (\<lambda>p. act p = Improve (n_id latest)) legal
               then Some ((plain (Improve (n_id latest)))\<lparr>p_exploit := True\<rparr>) else None)))"

end
