(* ===== verification/PolicyLaws.thy ===== *)
theory PolicyLaws
  imports Policies
begin

text \<open>
  What every search policy owes the engine, as the interface \<open>policy_contract\<close>: pending nodes are
  evaluated first, nothing is proposed at the cap, something is proposed below it and fits, and
  every parent named can be bred from. The four policies provide it.
\<close>

section \<open>The contract\<close>

fun parents_of_action :: "action \<Rightarrow> int list" where
  "parents_of_action (Improve k) = [k]"
| "parents_of_action (Merge j k) = [j, k]"
| "parents_of_action (Ablate k) = [k]"
| "parents_of_action (Simplify k b a) = [k]"
| "parents_of_action _ = []"

definition fit_node :: "run_state \<Rightarrow> node \<Rightarrow> bool" where
  "fit_node st n \<longleftrightarrow> n_status n = Evaluated \<and> \<not> n_tombstoned n \<and> n_feasible n \<and>
     n_id n \<notin> set (st_aborted_nodes st) \<and> n_id n \<notin> st_breed_excluded st"

definition fit_parent :: "run_state \<Rightarrow> int \<Rightarrow> bool" where
  "fit_parent st k \<longleftrightarrow> (\<exists>n \<in> set (nodes_of st). n_id n = k \<and> fit_node st n)"

definition sound_best :: "run_state \<Rightarrow> bool" where
  "sound_best st \<longleftrightarrow> (case best st of None \<Rightarrow> True | Some b \<Rightarrow> fit_node st b)"

locale policy_contract =
  fixes propose :: "run_state \<Rightarrow> proposal list" and cap :: int
  assumes pending_first: "pending_nodes st \<noteq> [] \<Longrightarrow> propose st = evaluate_pending st"
    and spent: "pending_nodes st = [] \<Longrightarrow> cap \<le> total_nodes st \<Longrightarrow> propose st = []"
    and productive: "pending_nodes st = [] \<Longrightarrow> total_nodes st < cap \<Longrightarrow> propose st \<noteq> []"
    and fits: "pending_nodes st = [] \<Longrightarrow> total_nodes st < cap \<Longrightarrow> total_nodes st + int (length (propose st)) \<le> cap"
    and creates: "pending_nodes st = [] \<Longrightarrow> p \<in> set (propose st) \<Longrightarrow> \<not> is_evaluate (act p)"
    and parents: "sound_best st \<Longrightarrow> p \<in> set (propose st) \<Longrightarrow> k \<in> set (parents_of_action (act p)) \<Longrightarrow> fit_parent st k"
begin

lemma stops_iff: "propose st = [] \<longleftrightarrow> pending_nodes st = [] \<and> cap \<le> total_nodes st"
proof (cases "pending_nodes st = []")
  case True
  then show ?thesis using spent [OF True] productive [OF True] by force
qed (simp add: pending_first evaluate_pending_def)

lemma new_nodes_fit:
  "total_nodes st + int (length (filter (\<lambda>p. \<not> is_evaluate (act p)) (propose st))) \<le> max cap (total_nodes st)"
proof (cases "pending_nodes st = []")
  case True
  then have "filter (\<lambda>p. \<not> is_evaluate (act p)) (propose st) = propose st" using creates [OF True] by simp
  then show ?thesis using spent [OF True] fits [OF True] by (cases "cap \<le> total_nodes st") auto
next
  case False
  then show ?thesis by (simp add: pending_first evaluate_pending_def is_evaluate_def plain_def comp_def filter_empty_conv)
qed

end

section \<open>The shared opening\<close>

lemma act_simps [simp]: "act (plain a) = a" "act (scored a s c) = a"
  "p_rung (plain a) = None" "p_rung (scored a s c) = None"
  by (simp_all add: plain_def scored_def)

lemma is_evaluate_simps [simp]:
  "\<not> is_evaluate Draft" "is_evaluate (Evaluate k)" "\<not> is_evaluate (Improve k)" "\<not> is_evaluate (Merge j k)"
  "\<not> is_evaluate (Ablate k)" "\<not> is_evaluate (Simplify k b a)"
  by (simp_all add: is_evaluate_def)

lemma evaluate_pending_acts: "p \<in> set (evaluate_pending st) \<Longrightarrow> \<exists>k. act p = Evaluate k"
  by (auto simp: evaluate_pending_def)

lemma seed_drafts_some: "have < seeds \<Longrightarrow> tot < cap \<Longrightarrow> seed_drafts seeds have cap tot \<noteq> []"
  by (simp add: seed_drafts_def)

lemma seed_drafts_fit: "tot < cap \<Longrightarrow> tot + int (length (seed_drafts seeds have cap tot)) \<le> cap"
  by (auto simp: seed_drafts_def)

lemma seed_drafts_acts: "p \<in> set (seed_drafts seeds have cap tot) \<Longrightarrow> act p = Draft"
  by (simp add: seed_drafts_def)

lemma breedable_fit: "n \<in> set (breedable_nodes st) \<Longrightarrow> fit_parent st (n_id n)"
  by (auto simp: set_breedable_nodes fit_parent_def fit_node_def)

lemma best_fit: "sound_best st \<Longrightarrow> best st = Some b \<Longrightarrow> fit_parent st (n_id b)"
  using best_in_nodes by (auto simp: sound_best_def fit_parent_def)

lemma set_rank_by_metric [simp]: "set (rank_by_metric st ns) = set ns"
  by (simp add: rank_by_metric_def rank_def)

lemma length_rank_by_metric [simp]: "length (rank_by_metric st ns) = length ns"
  by (simp add: rank_by_metric_def rank_def)

lemma rank_by_metric_Nil [simp]: "rank_by_metric st ns = [] \<longleftrightarrow> ns = []"
  by (simp add: rank_by_metric_def rank_def)

lemma rank_by_metric_nth: "i < length ns \<Longrightarrow> rank_by_metric st ns ! i \<in> set ns"
  using nth_mem [of i "rank_by_metric st ns"] by simp

section \<open>Greedy\<close>

lemma merge_top2_act:
  "2 \<le> length ns \<Longrightarrow> \<exists>a \<in> set ns. \<exists>b \<in> set ns. act (merge_top2 st ns) = Merge (n_id a) (n_id b)"
proof -
  assume "2 \<le> length ns"
  then have "rank_by_metric st ns ! 0 \<in> set ns" "rank_by_metric st ns ! 1 \<in> set ns"
    by (auto intro!: rank_by_metric_nth)
  then show ?thesis
    using \<open>2 \<le> length ns\<close> by (auto simp: merge_top2_def Let_def)
qed

lemma simplify_acts: "p \<in> set (simplify_best E st (Some b)) \<Longrightarrow> \<exists>blk aid. act p = Simplify (n_id b) blk aid"
  by (auto simp: simplify_best_def simplify_actions_def Let_def split: if_splits)

lemma greedy_breed_act:
  "(\<exists>x \<in> set ns. \<exists>y \<in> set ns. act (greedy_breed G E st ns b) = Merge (n_id x) (n_id y)) \<or>
   act (greedy_breed G E st ns b) \<in> {Ablate (n_id b), Improve (n_id b)}"
  using merge_top2_act [of ns st] by (auto simp: greedy_breed_def Let_def)

lemma bandit_proposal_act:
  "(\<exists>x \<in> set ns. \<exists>y \<in> set ns. act (bandit_proposal G E st ns b) = Merge (n_id x) (n_id y)) \<or>
   act (bandit_proposal G E st ns b) \<in> {Ablate (n_id b), Improve (n_id b)}"
proof -
  have "bandit_pick (operator_yields st) (bandit_candidates G E st ns b) \<in> set (bandit_candidates G E st ns b)"
    by (rule bandit_pick_in) (simp add: bandit_candidates_def)
  then have "bandit_pick (operator_yields st) (bandit_candidates G E st ns b) = ''merge'' \<Longrightarrow> 2 \<le> length ns"
    by (auto simp: bandit_candidates_def split: if_splits)
  then show ?thesis using merge_top2_act [of ns st] by (auto simp: bandit_proposal_def Let_def)
qed

lemma greedy_cases:
  assumes "p \<in> set (greedy_next G E st)"
  obtains "pending_nodes st \<noteq> []" "p \<in> set (evaluate_pending st)"
  | "pending_nodes st = []" "act p = Draft"
  | b where "pending_nodes st = []" "best st = Some b" "act p \<in> {Ablate (n_id b), Improve (n_id b)} \<or>
      (\<exists>blk aid. act p = Simplify (n_id b) blk aid) \<or>
      (\<exists>x \<in> set (breedable_nodes st). \<exists>y \<in> set (breedable_nodes st). act p = Merge (n_id x) (n_id y))"
proof (cases "pending_nodes st = []")
  case quiet: True
  show ?thesis
  proof (cases "act p = Draft")
    case False
    then obtain b where b: "best st = Some b"
      using assms quiet by (auto simp: greedy_next_def greedy_quiet_def dest: seed_drafts_acts split: if_splits option.splits)
    then have "(\<exists>s ss. simplify_best E st (Some b) = s # ss \<and> act p = act s) \<or>
        p = bandit_proposal G E st (breedable_nodes st) b \<or> p = greedy_breed G E st (breedable_nodes st) b"
      using assms quiet False
      by (auto simp: greedy_next_def greedy_quiet_def Let_def dest: seed_drafts_acts split: if_splits list.splits)
    then show ?thesis
      using that(3) [OF quiet b] simplify_acts [of _ E st b] greedy_breed_act [of "breedable_nodes st" G E st b]
        bandit_proposal_act [of "breedable_nodes st" G E st b]
      by (metis list.set_intros(1))
  qed (use that(2) quiet in blast)
qed (use assms that(1) in \<open>simp add: greedy_next_def greedy_quiet_def\<close>)

interpretation greedy_law: policy_contract "greedy_next G E" "g_max_nodes G" for G E
proof unfold_locales
  fix st assume "pending_nodes st = []" "total_nodes st < g_max_nodes G"
  then show "greedy_next G E st \<noteq> []"
    by (auto simp: greedy_next_def greedy_quiet_def Let_def seed_drafts_some split: option.splits list.splits)
next
  fix st assume "pending_nodes st = []" "total_nodes st < g_max_nodes G"
  then show "total_nodes st + int (length (greedy_next G E st)) \<le> g_max_nodes G"
    by (auto simp: greedy_next_def greedy_quiet_def Let_def seed_drafts_fit split: option.splits list.splits)
next
  fix st p assume "pending_nodes st = []" "p \<in> set (greedy_next G E st)"
  then show "\<not> is_evaluate (act p)" by (elim greedy_cases) auto
next
  fix st p k
  assume "sound_best st" "p \<in> set (greedy_next G E st)" "k \<in> set (parents_of_action (act p))"
  then show "fit_parent st k"
    by (elim greedy_cases) (auto dest: evaluate_pending_acts best_fit breedable_fit)
qed (simp_all add: greedy_next_def greedy_quiet_def)

section \<open>Evolutionary\<close>

lemma weighted_parent_in: "weighted_parent st pool = Some k \<Longrightarrow> k \<in> n_id ` set pool"
proof -
  assume "weighted_parent st pool = Some k"
  then obtain rn where rn: "clear_winner (\<lambda>x. case x of None \<Rightarrow> -1 | Some rn \<Rightarrow> parent_weight st rn) None (-1)
      (map Some (enumerate 1 (rank_by_metric st pool))) = Some rn" "k = n_id (snd rn)"
    by (auto simp: weighted_parent_def split: if_splits)
  then have "rn \<in> set (enumerate 1 (rank_by_metric st pool))"
    using clear_winner_in [of "\<lambda>x. case x of None \<Rightarrow> -1 | Some rn \<Rightarrow> parent_weight st rn" None "-1"
        "map Some (enumerate 1 (rank_by_metric st pool))"] by auto
  then have "rank_by_metric st pool ! (fst rn - 1) = snd rn" "fst rn - 1 < length pool"
    by (auto simp: in_set_enumerate_eq)
  then have "snd rn \<in> set pool" using rank_by_metric_nth [of "fst rn - 1" pool st] by simp
  then show ?thesis using rn(2) by blast
qed

lemma evolve_act:
  assumes "ns \<noteq> []" and "0 < v_elite V"
  shows "(\<exists>x \<in> set ns. \<exists>y \<in> set ns. act (evolve V st ns) = Merge (n_id x) (n_id y)) \<or>
    (\<exists>x \<in> set ns. act (evolve V st ns) = Improve (n_id x))"
proof -
  let ?el = "take (v_elite V) ns"
  have el: "?el ! (m mod length ?el) \<in> set ns" for m
  proof (rule in_set_takeD [OF nth_mem])
    show "m mod length ?el < length ?el" using assms by (intro mod_less_divisor) auto
  qed
  have "weighted_parent st ns = Some k \<Longrightarrow> k \<in> n_id ` set ns" for k by (rule weighted_parent_in)
  then show ?thesis using el by (auto simp: evolve_def Let_def split: option.splits)
qed

lemma evolutionary_cases:
  assumes "p \<in> set (evolutionary_next V st)" and "0 < v_elite V"
  obtains "pending_nodes st \<noteq> []" "p \<in> set (evaluate_pending st)"
  | "pending_nodes st = []" "act p = Draft"
  | "pending_nodes st = []" "(\<exists>x \<in> set (breedable_nodes st). \<exists>y \<in> set (breedable_nodes st). act p = Merge (n_id x) (n_id y)) \<or>
      (\<exists>x \<in> set (breedable_nodes st). act p = Improve (n_id x))"
proof (cases "pending_nodes st = []")
  case quiet: True
  show ?thesis
  proof (cases "act p = Draft")
    case False
    then have "breedable_nodes st \<noteq> []" "p = evolve V st (rank_by_metric st (breedable_nodes st))"
      using assms quiet by (auto simp: evolutionary_next_def evolutionary_quiet_def Let_def dest: seed_drafts_acts split: if_splits)
    then show ?thesis
      using evolve_act [of "rank_by_metric st (breedable_nodes st)" V st] assms(2) that(3) [OF quiet] by simp
  qed (use that(2) quiet in blast)
qed (use assms that(1) in \<open>simp add: evolutionary_next_def evolutionary_quiet_def\<close>)

interpretation evolutionary_law: policy_contract "evolutionary_next (new_evolutionary pop cap elite)" cap for pop cap elite
proof unfold_locales
  let ?V = "new_evolutionary pop cap elite"
  have V: "0 < v_elite ?V" "v_max_nodes ?V = cap" by (simp_all add: new_evolutionary_def)
  fix st
  show "pending_nodes st \<noteq> [] \<Longrightarrow> evolutionary_next ?V st = evaluate_pending st"
    and "pending_nodes st = [] \<Longrightarrow> cap \<le> total_nodes st \<Longrightarrow> evolutionary_next ?V st = []"
    using V by (simp_all add: evolutionary_next_def evolutionary_quiet_def)
  show "pending_nodes st = [] \<Longrightarrow> total_nodes st < cap \<Longrightarrow> evolutionary_next ?V st \<noteq> []"
    using V by (auto simp: evolutionary_next_def evolutionary_quiet_def Let_def seed_drafts_some)
  show "pending_nodes st = [] \<Longrightarrow> total_nodes st < cap \<Longrightarrow>
      total_nodes st + int (length (evolutionary_next ?V st)) \<le> cap"
    using V by (auto simp: evolutionary_next_def evolutionary_quiet_def Let_def seed_drafts_fit)
  fix p
  show "\<not> is_evaluate (act p)" if "pending_nodes st = []" "p \<in> set (evolutionary_next ?V st)"
    using that(2) V(1) by (rule evolutionary_cases) (use that(1) in auto)
  fix k
  assume s: "sound_best st" "k \<in> set (parents_of_action (act p))" and p: "p \<in> set (evolutionary_next ?V st)"
  from p V(1) show "fit_parent st k"
    by (rule evolutionary_cases) (use s in \<open>auto dest: evaluate_pending_acts breedable_fit\<close>)
qed

section \<open>Tree search\<close>

lemma mcts_pick_act:
  assumes "ns \<noteq> []"
  shows "(\<exists>x \<in> set ns. act (mcts_pick M st ns) = Improve (n_id x)) \<or>
    (\<exists>b. best st = Some b \<and> act (mcts_pick M st ns) = Improve (n_id b))"
proof (cases "py_max_by snd (ucb_scores M st ns)")
  case None
  have "hd (py_sorted False n_id ns) \<in> set ns" using assms by (rule hd_py_sorted_in)
  then show ?thesis using None by (auto simp: mcts_pick_def Let_def simp del: py_max_by_None split: option.splits)
next
  case (Some ku)
  then have "ku \<in> set (ucb_scores M st ns)" by (rule py_max_by_Some)
  then have "fst ku \<in> n_id ` set ns" by (auto simp: ucb_scores_def Let_def List.map_filter_def)
  then show ?thesis using Some by (auto simp: mcts_pick_def Let_def split: prod.splits)
qed

lemma mcts_cases:
  assumes "p \<in> set (mcts_next M st)"
  obtains "pending_nodes st \<noteq> []" "p \<in> set (evaluate_pending st)"
  | "pending_nodes st = []" "act p = Draft"
  | "pending_nodes st = []" "(\<exists>x \<in> set (breedable_nodes st). act p = Improve (n_id x)) \<or>
      (\<exists>b. best st = Some b \<and> act p = Improve (n_id b))"
proof (cases "pending_nodes st = []")
  case quiet: True
  show ?thesis
  proof (cases "act p = Draft")
    case False
    then have "breedable_nodes st \<noteq> []" "p = mcts_pick M st (breedable_nodes st)"
      using assms quiet by (auto simp: mcts_next_def mcts_quiet_def dest: seed_drafts_acts split: if_splits)
    then show ?thesis using mcts_pick_act [of "breedable_nodes st" M st] that(3) [OF quiet] by simp
  qed (use that(2) quiet in blast)
qed (use assms that(1) in \<open>simp add: mcts_next_def mcts_quiet_def\<close>)

interpretation mcts_law: policy_contract "mcts_next M" "m_max_nodes M" for M
proof unfold_locales
  fix st assume "pending_nodes st = []" "total_nodes st < m_max_nodes M"
  then show "mcts_next M st \<noteq> []" by (auto simp: mcts_next_def mcts_quiet_def seed_drafts_some)
next
  fix st assume "pending_nodes st = []" "total_nodes st < m_max_nodes M"
  then show "total_nodes st + int (length (mcts_next M st)) \<le> m_max_nodes M"
    by (auto simp: mcts_next_def mcts_quiet_def seed_drafts_fit)
next
  fix st p assume "pending_nodes st = []" "p \<in> set (mcts_next M st)"
  then show "\<not> is_evaluate (act p)" by (elim mcts_cases) auto
next
  fix st p k
  assume "sound_best st" "p \<in> set (mcts_next M st)" "k \<in> set (parents_of_action (act p))"
  then show "fit_parent st k"
    by (elim mcts_cases) (auto dest: evaluate_pending_acts best_fit breedable_fit)
qed (simp_all add: mcts_next_def mcts_quiet_def)

section \<open>Successive halving\<close>

lemma hd_sort_in: "xs \<noteq> [] \<Longrightarrow> hd (sort xs) \<in> set (xs :: int list)"
  by (metis hd_in_set set_empty set_sort)

lemma promote_rung_act:
  assumes "promote_rung A st rs = Some p"
  obtains r chosen where "r \<in> set rs" "act p = Improve chosen" "p_rung p = Some (r + 1)"
    "chosen \<in> set (unexpanded st (rung_survivors A st (rung_members st r)))" "1 < length (rung_members st r)"
    "p_promoted p = rung_survivors A st (rung_members st r)"
    "\<forall>k \<in> set (unexpanded st (rung_survivors A st (rung_members st r))). chosen \<le> k"
proof -
  have "\<exists>r chosen. r \<in> set rs \<and> act p = Improve chosen \<and> p_rung p = Some (r + 1) \<and>
    chosen \<in> set (unexpanded st (rung_survivors A st (rung_members st r))) \<and> 1 < length (rung_members st r) \<and>
    p_promoted p = rung_survivors A st (rung_members st r) \<and>
    (\<forall>k \<in> set (unexpanded st (rung_survivors A st (rung_members st r))). chosen \<le> k)"
    using assms
  proof (induction rs)
    case (Cons r rs)
    let ?open = "unexpanded st (rung_survivors A st (rung_members st r))"
    show ?case
    proof (cases "length (rung_members st r) \<le> 1 \<or> ?open = []")
      case True
      then show ?thesis using Cons by (auto simp: Let_def)
    next
      case False
      have "\<forall>k \<in> set ?open. hd (sort ?open) \<le> k"
        by (metis False hd_conv_nth in_set_conv_nth le0 length_greater_0_conv set_sort sorted_nth_mono sorted_sort length_sort)
      then show ?thesis
        using False Cons.prems hd_sort_in [of ?open]
        by (intro exI [of _ r] exI [of _ "hd (sort ?open)"]) (auto simp: Let_def scored_def plain_def)
    qed
  qed simp
  then show ?thesis using that by blast
qed

lemma rung_survivor_breedable:
  "k \<in> set (rung_survivors A st (rung_members st r)) \<Longrightarrow> \<exists>n \<in> set (breedable_nodes st). n_id n = k \<and> depth_of st k = r"
  by (auto simp: rung_survivors_def rung_members_def dest!: in_set_takeD)

lemma asha_cases:
  assumes "p \<in> set (asha_next A st)"
  obtains "pending_nodes st \<noteq> []" "p \<in> set (evaluate_pending st)"
  | "pending_nodes st = []" "p = plain Draft"
  | "pending_nodes st = []" "promote_rung A st (sort (remdups (map (\<lambda>n. depth_of st (n_id n)) (breedable_nodes st)))) = Some p"
  | b where "pending_nodes st = []" "best st = Some b" "act p = Improve (n_id b)" "p_rung p = None"
proof (cases "pending_nodes st = []")
  case quiet: True
  show ?thesis
  proof (cases "p = plain Draft")
    case False
    then show ?thesis
      using assms quiet that(3,4)
      by (auto simp: asha_next_def asha_quiet_def Let_def seed_drafts_def scored_def split: if_splits option.splits)
  qed (use that(2) quiet in blast)
qed (use assms that(1) in \<open>simp add: asha_next_def asha_quiet_def\<close>)

interpretation asha_law: policy_contract "asha_next A" "a_max_nodes A" for A
proof unfold_locales
  fix st assume "pending_nodes st = []" "total_nodes st < a_max_nodes A"
  then show "asha_next A st \<noteq> []" by (auto simp: asha_next_def asha_quiet_def Let_def seed_drafts_some split: option.splits)
next
  fix st assume "pending_nodes st = []" "total_nodes st < a_max_nodes A"
  then show "total_nodes st + int (length (asha_next A st)) \<le> a_max_nodes A"
    by (auto simp: asha_next_def asha_quiet_def Let_def seed_drafts_fit split: option.splits)
next
  fix st p assume p: "pending_nodes st = []" "p \<in> set (asha_next A st)"
  from p(2) show "\<not> is_evaluate (act p)" by (cases rule: asha_cases) (use p(1) in \<open>auto elim: promote_rung_act\<close>)
next
  fix st p k
  assume s: "sound_best st" "k \<in> set (parents_of_action (act p))" and p: "p \<in> set (asha_next A st)"
  from p show "fit_parent st k"
  proof (cases rule: asha_cases)
    case 3
    then obtain r where "k \<in> set (unexpanded st (rung_survivors A st (rung_members st r)))"
      using s(2) by (auto elim!: promote_rung_act)
    then show ?thesis using rung_survivor_breedable breedable_fit by (fastforce simp: unexpanded_def)
  qed (use s in \<open>auto dest: evaluate_pending_acts best_fit\<close>)
qed (simp_all add: asha_next_def asha_quiet_def)

end
