(* ===== verification/PolicyProps.thy ===== *)
theory PolicyProps
  imports PolicyLaws FoldProps
begin

text \<open>
  What the engine relies on when it asks a policy what to do next, over the states a log folds to.
\<close>

section \<open>Every policy of the registry\<close>

lemma make_policy_cases:
  assumes "make_policy name seeds cap ablate pp = Some pol"
  obtains G where "pol = Greedy G" "g_max_nodes G = cap"
  | pop where "pol = Evolutionary (new_evolutionary pop cap 2)"
  | M where "pol = Mcts M" "m_max_nodes M = cap"
  | A where "pol = Asha A" "a_max_nodes A = cap"
proof -
  obtain make where m: "dict_get policy_registry name = Some make" "pol = make seeds cap ablate pp"
    using assms by (auto simp: make_policy_def)
  have "make \<in> snd ` set policy_registry" using map_of_SomeD [OF m(1)] by force
  then consider "make = make_greedy" | "make = make_evolutionary" | "make = make_mcts" | "make = make_asha"
    unfolding policy_registry_def by auto
  then show ?thesis
  proof cases
    case 1
    then show ?thesis using that(1) m(2) by (simp add: make_greedy_def)
  next
    case 2
    then show ?thesis using that(2) m(2) by (simp add: make_evolutionary_def)
  next
    case 3
    then show ?thesis using that(3) m(2) by (simp add: make_mcts_def)
  next
    case 4
    then show ?thesis using that(4) m(2) by (simp add: make_asha_def)
  qed
qed

lemma replayed_best_sound: "sound_best (replay_fold X es)"
proof (cases "best (replay_fold X es)")
  case (Some b)
  let ?s = "raw_fold X es" and ?g = "fst (apply_trust_gate (fst (raw_fold X es)))"
  obtain k where k: "st_best_node_id (replay_fold X es) = Some k" "dict_get (st_nodes (replay_fold X es)) k = Some b"
    using Some by (auto simp: best_def split: option.splits)
  have eq: "replay_fold X es = select_best X (flagged_node_ids (fst ?s)) (c_best_confirmed (snd ?s))
      (c_best_confirmed_significant (snd ?s)) ?g"
    by (simp add: replay_fold_def finalize_fold_def split_beta)
  have wf: "wf_nodes (st_nodes ?g)" by (rule trust_gate_wf [OF wf_of_inv [OF raw_node_inv]])
  have fresh: "st_best_node_id ?g = None" by (simp add: raw_marks)
  obtain m where m: "dict_get (st_nodes ?g) k = Some m" "n_status m = Evaluated" "\<not> n_tombstoned m"
    "n_feasible m" "k \<notin> flagged_node_ids (fst ?s)" "k \<notin> set (st_aborted_nodes ?g)"
    using champion_is_eligible [OF wf fresh] k(1) unfolding eq by blast
  have "b = set_gaps (st_direction ?g) m" using k(2) m(1) unfolding eq by simp
  moreover have "n_id m = k" by (rule wf_nodes_get [OF wf m(1)])
  moreover have "st_breed_excluded ?g = flagged_node_ids (fst ?s)"
    by (simp add: apply_trust_gate_def Let_def)
  ultimately have "fit_node (replay_fold X es) b" using m unfolding eq by (simp add: fit_node_def)
  then show ?thesis using Some by (simp add: sound_best_def)
qed (simp add: sound_best_def)

text \<open>Two evaluated drafts, as the witnesses use them.\<close>

definition demo_draft_node :: "int \<Rightarrow> real \<Rightarrow> node" where
  "demo_draft_node k m = (default_node k ''draft'' (default_idea ''draft''))\<lparr>n_status := Evaluated, n_metric := Some m\<rparr>"

definition demo_search :: run_state where
  "demo_search = init_state\<lparr>st_nodes := [(0, demo_draft_node 0 (1 / 2)), (1, demo_draft_node 1 (1 / 4))]\<rparr>"

definition demo_policy_env :: policy_env where
  "demo_policy_env = \<lparr>simplify_ablated = False, ablation_capable = True, simplify_refused = [], simplify_spent = [],
     pe_externals = demo_externals, pe_ast = \<lparr>semantic_dump = (\<lambda>s. None), load_bearing_starts = (\<lambda>s. None),
     multiline_token_spans = (\<lambda>s. None)\<rparr>\<rparr>"

definition demo_params :: policy_params where
  "demo_params = \<lparr>pp_operator_bandit = False, pp_model_arms = [], pp_c = 1, pp_cost_weight = 0, pp_value_weight = 0,
     pp_eta = 2, pp_rung_nodes = 0\<rparr>"

text \<open>C35. A search ends exactly at its node cap: every policy of the registry proposes nothing precisely
  when no node is pending and the cap is reached, and the nodes it proposes to create never carry the
  tree past the cap.\<close>

theorem policies_stop_at_cap:
  assumes "make_policy name seeds cap ablate pp = Some pol"
  shows "(next_actions pol E st = [] \<longleftrightarrow> pending_nodes st = [] \<and> cap \<le> total_nodes st) \<and>
    total_nodes st + int (length (filter (\<lambda>p. \<not> is_evaluate (act p)) (next_actions pol E st))) \<le> max cap (total_nodes st)"
  using assms
proof (cases rule: make_policy_cases)
  case (1 G)
  then show ?thesis using greedy_law.stops_iff [of G E st] greedy_law.new_nodes_fit [of st G E] by simp
next
  case (2 pop)
  then show ?thesis
    using evolutionary_law.stops_iff [of pop cap 2 st] evolutionary_law.new_nodes_fit [of st pop cap 2] by simp
next
  case (3 M)
  then show ?thesis using mcts_law.stops_iff [of M st] mcts_law.new_nodes_fit [of st M] by simp
next
  case (4 A)
  then show ?thesis using asha_law.stops_iff [of A st] asha_law.new_nodes_fit [of st A] by simp
qed

theorem policies_stop_at_cap_witness:
  "\<exists>pol. make_policy ''mcts'' 1 2 0 demo_params = Some pol \<and> next_actions pol demo_policy_env demo_search = []"
proof -
  obtain pol where pol: "make_policy ''mcts'' 1 2 0 demo_params = Some pol"
    by (simp add: make_policy_def policy_registry_def)
  have "pending_nodes demo_search = []" "total_nodes demo_search = 2" by code_simp+
  then show ?thesis using policies_stop_at_cap [OF pol, of demo_policy_env demo_search] pol by simp
qed

text \<open>C34. No policy breeds from a node the record disowns: every parent that a policy of the registry
  names, on the state any log folds to, is an evaluated and feasible node of the tree that is neither
  tombstoned nor aborted and carries no trust flag.\<close>

theorem policies_breed_from_fit_nodes:
  assumes "make_policy name seeds cap ablate pp = Some pol"
    and "p \<in> set (next_actions pol E (replay_fold X es))" and "k \<in> set (parents_of_action (act p))"
  shows "\<exists>n \<in> set (nodes_of (replay_fold X es)). n_id n = k \<and> n_status n = Evaluated \<and> n_feasible n \<and>
    \<not> n_tombstoned n \<and> k \<notin> set (st_aborted_nodes (replay_fold X es)) \<and> k \<notin> st_breed_excluded (replay_fold X es)"
proof -
  note s = replayed_best_sound [of X es]
  have "fit_parent (replay_fold X es) k"
    using assms(1)
  proof (cases rule: make_policy_cases)
    case (1 G)
    then show ?thesis using greedy_law.parents [OF s _ assms(3)] assms(2) by simp
  next
    case (2 pop)
    then show ?thesis using evolutionary_law.parents [OF s _ assms(3)] assms(2) by simp
  next
    case (3 M)
    then show ?thesis using mcts_law.parents [OF s _ assms(3)] assms(2) by simp
  next
    case (4 A)
    then show ?thesis using asha_law.parents [OF s _ assms(3)] assms(2) by simp
  qed
  then show ?thesis unfolding fit_parent_def fit_node_def by metis
qed

theorem policies_breed_from_fit_nodes_witness:
  "\<exists>n \<in> set (nodes_of (replay_fold demo_externals demo_log)). n_id n = 1 \<and> n_feasible n"
proof -
  have pol: "make_policy ''evolutionary'' 2 8 0 demo_params = Some (Evolutionary (new_evolutionary 2 8 2))"
    by (simp add: make_policy_def policy_registry_def make_evolutionary_def)
  have "map act (evolutionary_next (new_evolutionary 2 8 2) (replay_fold demo_externals demo_log)) = [Merge 1 0]"
    by code_simp
  then obtain p where "p \<in> set (next_actions (Evolutionary (new_evolutionary 2 8 2)) demo_policy_env
      (replay_fold demo_externals demo_log))" "act p = Merge 1 0"
    by auto
  then show ?thesis using policies_breed_from_fit_nodes [OF pol, of p demo_policy_env demo_externals demo_log 1] by auto
qed

section \<open>The tree under a node\<close>

text \<open>The walk that gathers the nodes under a node ends on every tree, even one whose parent links
  form a cycle, and returns each descendant once: exactly the ids reachable over the links from a
  parent to a child.\<close>

theorem subtree_is_reachable:
  "set (subtree st k) = {j. (k, j) \<in> {(p, n_id n) | p n. n \<in> set (nodes_of st) \<and> p \<in> set (n_parent_ids n)}\<^sup>*} \<and>
   distinct (subtree st k)"
proof -
  have "set (child_edges st) = {(p, n_id n) | p n. n \<in> set (nodes_of st) \<and> p \<in> set (n_parent_ids n)}"
    by (auto simp: child_edges_def)
  then show ?thesis using set_walk [of "child_edges st" k] walk_distinct [of "[]" "child_edges st" "[k]"]
    by (simp add: subtree_def)
qed

lemma recip_less: "0 < a \<Longrightarrow> 0 < b \<Longrightarrow> 1 / a < 1 / b \<longleftrightarrow> b < (a :: real)"
  by (simp add: divide_simps)

definition min_reward :: "real \<Rightarrow> real" where
  "min_reward v = mcts_reward v Min"

lemma min_reward_less: "v < w \<Longrightarrow> min_reward w < min_reward v"
proof -
  assume less: "v < w"
  consider "0 \<le> v" | "v < 0" "0 \<le> w" | "w < 0" using less by linarith
  then show ?thesis
  proof cases
    case 2
    then have "min_reward w \<le> 1" "1 < min_reward v" by (simp_all add: min_reward_def mcts_reward_def divide_simps)
    then show ?thesis by linarith
  qed (use less recip_less [of "1 + w" "1 + v"] recip_less [of "1 - v" "1 - w"]
        in \<open>simp_all add: min_reward_def mcts_reward_def\<close>)
qed

lemma mcts_reward_min: "mcts_reward v dir = (case dir of Min \<Rightarrow> min_reward v | Max \<Rightarrow> 2 - min_reward v)"
  by (cases dir) (simp_all add: min_reward_def mcts_reward_def)

lemma mcts_reward_mono: "is_better dir v w \<longleftrightarrow> mcts_reward w dir < mcts_reward v dir"
  using min_reward_less [of v w] min_reward_less [of w v]
  by (cases dir; cases v w rule: linorder_cases) (auto simp: mcts_reward_min)

text \<open>The value a tree search gives to a subtree stays on the scale its exploration term is
  calibrated for: the reward lies strictly between 0 and 2 whatever the metric, a better metric has
  the higher reward in either direction, and the model's opinion moves it by at most half of its
  weight either way.\<close>

theorem mcts_value_scale:
  "0 < mcts_reward v dir \<and> mcts_reward v dir < 2 \<and>
   (is_better dir v w \<longleftrightarrow> mcts_reward w dir < mcts_reward v dir) \<and>
   \<bar>value_estimate r prior visits weight - r\<bar> \<le> max 0 weight / 2"
proof -
  have bounds: "0 < mcts_reward v dir" "mcts_reward v dir < 2"
    by (cases dir; simp add: mcts_reward_def divide_simps)+
  have "\<bar>weight * (2 * min 1 (max 0 q) - 1) / (1 + max 1 (of_nat visits))\<bar> \<le> weight / 2"
    if "0 < weight" for q :: real
  proof -
    have q: "\<bar>2 * min 1 (max 0 q) - 1\<bar> \<le> 1" by (auto simp: min_def max_def)
    have "\<bar>weight * (2 * min 1 (max 0 q) - 1)\<bar> = weight * \<bar>2 * min 1 (max 0 q) - 1\<bar>"
      using that by (simp add: abs_mult)
    also have "\<dots> \<le> weight * 1" using q that by (intro mult_left_mono) auto
    finally have n: "\<bar>weight * (2 * min 1 (max 0 q) - 1)\<bar> \<le> weight" by simp
    have "2 \<le> 1 + max 1 (real visits)" by simp
    then have "\<bar>weight * (2 * min 1 (max 0 q) - 1)\<bar> / (1 + max 1 (real visits)) \<le> weight / 2"
      using n that by (intro frac_le) auto
    then show ?thesis by (simp add: abs_divide)
  qed
  then show ?thesis
    using bounds mcts_reward_mono [of dir v w] by (auto simp: value_estimate_def not_le split: option.splits)
qed

section \<open>The front\<close>

text \<open>The Pareto front speaks for every candidate with a metric: each is on the front or is dominated
  by a candidate that is, and nothing on the front is dominated by any candidate.\<close>

theorem pareto_front_covers:
  assumes "n \<in> set nodes" and "n_metric n \<noteq> None"
    and "objectives = pareto_objectives st (filter (\<lambda>n. n_metric n \<noteq> None) nodes)"
  shows "(\<exists>f \<in> set (pareto_front st nodes). f = n \<or> dominates f n objectives) \<and>
    (\<forall>f \<in> set (pareto_front st nodes). \<not> dominates n f objectives)"
proof -
  let ?pool = "{z \<in> set nodes. n_metric z \<noteq> None}"
  have "\<exists>y \<in> ?pool. (y = n \<or> dominates y n objectives) \<and> (\<forall>z \<in> ?pool. \<not> dominates z y objectives)"
    using assms dominates_irrefl dominates_trans by (intro maximal_above) auto
  then show ?thesis using assms by (auto simp: set_pareto_front)
qed

theorem pareto_front_covers_witness:
  "\<exists>f \<in> set (pareto_front demo_search (nodes_of demo_search)). f = demo_draft_node 0 (1 / 2) \<or>
     dominates f (demo_draft_node 0 (1 / 2)) (pareto_objectives demo_search (filter (\<lambda>n. n_metric n \<noteq> None) (nodes_of demo_search)))"
  using pareto_front_covers [OF _ _ refl, of "demo_draft_node 0 (1 / 2)" "nodes_of demo_search" demo_search]
  by (simp add: demo_search_def nodes_of_def dict_values_def demo_draft_node_def)

section \<open>Successive halving\<close>

lemma ceiling_div: "0 < b \<Longrightarrow> \<lceil>real a / real b\<rceil> = int ((a + b - 1) div b)"
proof -
  assume b: "0 < b"
  let ?q = "(a + b - 1) div b"
  have "?q * b \<le> a + b - 1" by (rule div_times_less_eq_dividend)
  then have "?q * b < a + b" using b by linarith
  moreover have "a \<le> ?q * b" using dividend_less_div_times [OF b, of "a + b - 1"] b by linarith
  ultimately have "?q * b < a + b" "a \<le> ?q * b" by simp_all
  then have "real ?q * real b < real a + real b" "real a \<le> real ?q * real b"
    by (metis of_nat_add of_nat_less_iff of_nat_mult, metis of_nat_le_iff of_nat_mult)
  then have "real ?q - 1 < real a / real b" "real a / real b \<le> real ?q"
    using b by (simp_all add: field_simps)
  then show ?thesis by (simp add: ceiling_eq_iff)
qed

lemma ranked_metric_order:
  assumes "i < j" and "j < length ns"
  shows "\<not> is_better dir (the_metric (n_metric (ranked dir metric_key ns ! j))) (the_metric (n_metric (ranked dir metric_key ns ! i)))"
proof (cases dir)
  case Min
  then show ?thesis
    using sorted_wrt_nth_less [OF sorted_wrt_py_sorted [of False metric_key ns] assms(1)] assms(2)
    by (auto simp: ranked_def metric_key_def)
next
  case Max
  then show ?thesis
    using sorted_wrt_nth_less [OF sorted_wrt_py_sorted [of True metric_key ns] assms(1)] assms(2)
    by (auto simp: ranked_def metric_key_def)
qed

text \<open>A rung promotes only its best and each of them once: when a rung promotes, the node it improves
  is one of the promoted, has no child that is not failed and fewer than two failed ones, and the
  promoted are the best of the rung, one in eta of its members rounded up.\<close>

theorem asha_promotes_the_best_unexpanded:
  assumes "wf_nodes (st_nodes st)" and "2 \<le> a_eta A" and "p \<in> set (asha_next A st)" and "p_rung p = Some r"
  shows "\<exists>k. act p = Improve k \<and> k \<in> set (p_promoted p) \<and> \<not> has_live_child st k \<and> failed_children st k < 2 \<and>
    int (length (p_promoted p)) = \<lceil>real (length (rung_members st (r - 1))) / real (a_eta A)\<rceil> \<and>
    (\<forall>m \<in> set (rung_members st (r - 1)). \<forall>n \<in> set (rung_members st (r - 1)).
       n_id m \<in> set (p_promoted p) \<and> n_id n \<notin> set (p_promoted p) \<longrightarrow>
       \<not> is_better (st_direction st) (the_metric (n_metric n)) (the_metric (n_metric m)))"
proof -
  have rung: "promote_rung A st (sort (remdups (map (\<lambda>n. depth_of st (n_id n)) (breedable_nodes st)))) = Some p"
    using assms(3)
  proof (cases rule: asha_cases)
    case 1
    then show ?thesis using assms(4) by (auto simp: evaluate_pending_def plain_def)
  qed (use assms(4) in \<open>auto simp: plain_def\<close>)
  let ?ms = "rung_members st (r - 1)" and ?k = "(length (rung_members st (r - 1)) + a_eta A - 1) div a_eta A"
  let ?rk = "ranked (st_direction st) metric_key ?ms"
  obtain k where k: "act p = Improve k" "k \<in> set (unexpanded st (rung_survivors A st ?ms))" "1 < length ?ms"
    "p_promoted p = rung_survivors A st ?ms"
    using promote_rung_act [OF rung] assms(4) by (metis add_diff_cancel_right' option.inject)
  have pos: "1 \<le> ?k"
    using k(3) assms(2) div_greater_zero_iff [of "length ?ms + a_eta A - 1" "a_eta A"] by linarith
  have "length ?ms + a_eta A - 1 < (length ?ms + 1) * a_eta A"
    using k(3) assms(2) by (cases "a_eta A") (simp_all add: algebra_simps)
  then have le: "?k \<le> length ?ms" using less_mult_imp_div_less [of "length ?ms + a_eta A - 1" "length ?ms + 1" "a_eta A"] by simp
  have prom: "p_promoted p = map n_id (take ?k ?rk)"
    using k(4) pos by (simp add: rung_survivors_def max_def)
  have "int (length (p_promoted p)) = \<lceil>real (length ?ms) / real (a_eta A)\<rceil>"
    using prom le assms(2) by (simp add: ceiling_div)
  moreover have "\<not> is_better (st_direction st) (the_metric (n_metric n)) (the_metric (n_metric m))"
    if mn: "m \<in> set ?ms" "n \<in> set ?ms" "n_id m \<in> set (p_promoted p)" "n_id n \<notin> set (p_promoted p)" for m n
  proof -
    have inj: "inj_on n_id (set ?rk)"
      using wf_nodes_distinct_ids [OF assms(1)]
      by (auto simp: distinct_map rung_members_def set_breedable_nodes inj_on_def)
    have "m \<in> set (take ?k ?rk)"
      using mn(1,3) inj_onD [OF inj] in_set_takeD [of _ ?k ?rk] by (auto simp: prom)
    then obtain i where "i < length (take ?k ?rk)" "take ?k ?rk ! i = m" unfolding in_set_conv_nth by blast
    then have i: "i < ?k" "?rk ! i = m" by simp_all
    have "n \<in> set ?rk" using mn(2) by simp
    then obtain j where j: "j < length ?rk" "?rk ! j = n" unfolding in_set_conv_nth by blast
    have "n \<notin> set (take ?k ?rk)" using mn(4) by (auto simp: prom)
    then have "?k \<le> j" using j by (metis in_set_conv_nth length_take min_less_iff_conj not_le nth_take)
    then show ?thesis using ranked_metric_order [of i j ?ms "st_direction st"] i j by simp
  qed
  ultimately show ?thesis
    using k(1,2) k(4) by (auto simp: unexpanded_def retired_def asha_max_failed_promotions_def)
qed

theorem asha_promotes_the_best_unexpanded_witness:
  "\<exists>p. asha_next \<lparr>a_n_seeds = 2, a_rung0 = 2, a_max_nodes = 8, a_eta = 2\<rparr> demo_search = [p] \<and>
     act p = Improve 1 \<and> int (length (p_promoted p)) = 1"
proof -
  let ?A = "\<lparr>a_n_seeds = 2, a_rung0 = 2, a_max_nodes = 8, a_eta = 2\<rparr>"
  have e: "map (\<lambda>p. (act p, p_rung p)) (asha_next ?A demo_search) = [(Improve 1, Some 1)]" by code_simp
  then obtain p where p: "asha_next ?A demo_search = [p]" "act p = Improve 1" "p_rung p = Some 1" by auto
  have wf: "wf_nodes (st_nodes demo_search)"
    by (simp add: wf_nodes_def demo_search_def dict_keys_def demo_draft_node_def default_node_def)
  have m: "length (rung_members demo_search 0) = 2" by code_simp
  have "int (length (p_promoted p)) = \<lceil>real (length (rung_members demo_search (1 - 1))) / real (a_eta ?A)\<rceil>"
    using asha_promotes_the_best_unexpanded [OF wf, of ?A p 1] p by auto
  then show ?thesis using p m by simp
qed

end
