(* ===== verification/GpuPool.thy ===== *)
theory GpuPool
  imports PyText
begin

text \<open>
  The resource scheduler of the engine (\<open>engine/resources.py\<close>, with the footprints of
  \<open>core/cards.py\<close>): what a node asks for, the pool of GPUs with the host-wide lease in front of it,
  the reservations of the evaluations in flight with the repair hand-back, and the ledger of
  evaluation seconds. What the host answers (the gate, the queue, the lease file) is an input.
\<close>

section \<open>Footprints\<close>

record footprint =
  fp_gpus :: "int option"
  fp_mem :: "int option option"

definition no_footprint :: footprint where
  "no_footprint = \<lparr>fp_gpus = None, fp_mem = None\<rparr>"

definition resource_int_max :: int where
  "resource_int_max = 2 ^ 31 - 1"

definition resource_int :: "pyval \<Rightarrow> int option" where
  "resource_int v = (case (case v of
         PInt i \<Rightarrow> Some i
       | PFloat (Fin r) \<Rightarrow> if is_integer r then Some (trunc_real r) else None
       | _ \<Rightarrow> None) of
     Some i \<Rightarrow> if 0 \<le> i \<and> i \<le> resource_int_max then Some i else None
   | None \<Rightarrow> None)"

definition normalize_researcher_footprint :: "pyval \<Rightarrow> footprint option" where
  "normalize_researcher_footprint v = (case v of
      PDict d \<Rightarrow>
        (let out = \<lparr>fp_gpus = (if phas d ''gpus'' then resource_int (pget d ''gpus'') else None),
                    fp_mem = (if \<not> phas d ''gpu_mem_mib'' then None
                              else if pget d ''gpu_mem_mib'' = PNone then Some None
                              else map_option Some (resource_int (pget d ''gpu_mem_mib'')))\<rparr>
         in if out = no_footprint then None else Some out)
    | _ \<Rightarrow> None)"

text \<open>The pin of the operator over the declaration, and the clamp to a machine of \<open>n\<close> devices when
  the caller has one.\<close>

definition over :: "'a option \<Rightarrow> 'a option \<Rightarrow> 'a option" where
  "over pin base = (case pin of None \<Rightarrow> base | Some v \<Rightarrow> Some v)"

definition clamp_to_machine :: "nat \<Rightarrow> int list \<Rightarrow> footprint \<Rightarrow> footprint" where
  "clamp_to_machine n memory fp =
     (let gpus = (case fp_gpus fp of Some g \<Rightarrow> Some (if 0 < n \<or> g = 0 then min g (int n) else g) | None \<Rightarrow> None);
          required = (case gpus of Some g \<Rightarrow> g | None \<Rightarrow> if n = 0 then 0 else 1)
      in if required = 0 then \<lparr>fp_gpus = gpus, fp_mem = None\<rparr>
         else \<lparr>fp_gpus = gpus,
           fp_mem = (case fp_mem fp of
               Some (Some m) \<Rightarrow>
                 if 0 < n \<and> length memory = n \<and> list_all (\<lambda>v. 0 \<le> v) memory
                 then Some (Some (min m (py_sorted True id memory ! (nat (min required (int n)) - 1))))
                 else Some (Some m)
             | v \<Rightarrow> v)\<rparr>)"

definition effective_card_footprint :: "pyval \<Rightarrow> pyval \<Rightarrow> (nat \<times> int list) option \<Rightarrow> footprint option" where
  "effective_card_footprint declared pin machine =
     (let base = (case normalize_researcher_footprint declared of Some f \<Rightarrow> f | None \<Rightarrow> no_footprint);
          top = (case normalize_researcher_footprint pin of Some f \<Rightarrow> f | None \<Rightarrow> no_footprint);
          out = \<lparr>fp_gpus = over (fp_gpus top) (fp_gpus base), fp_mem = over (fp_mem top) (fp_mem base)\<rparr>
      in if out = no_footprint then None
         else if fp_gpus out = Some 0 then Some (out\<lparr>fp_mem := None\<rparr>)
         else (case machine of None \<Rightarrow> Some out | Some (n, memory) \<Rightarrow> Some (clamp_to_machine n memory out)))"

section \<open>The pool\<close>

record request =
  rq_count :: int
  rq_mem :: "int option"
  rq_cpu_only :: bool
  rq_required_unavailable :: bool
  rq_unspecified :: bool
  rq_task_gpu_capable :: bool
  rq_pin :: bool
  rq_footprint :: "footprint option"

record gpu_reservation = request +
  rs_gpu_ids :: "int list"
  rs_whole_pool_unpinned :: bool
  rs_unpinnable :: "string option"
  rs_yielded :: nat

record gpu_pool =
  gp_ids :: "int list"
  gp_mem :: "(int \<times> int) list"
  gp_physical :: "(int \<times> string) list"
  gp_free :: "int list"
  gp_lease_path :: bool
  gp_lease_held :: bool
  gp_epoch :: nat
  gp_reservations :: "((int \<times> int) \<times> gpu_reservation ) list"
  gp_eval_seconds :: "((int \<times> int) \<times> real) list"

definition new_pool :: "int list \<Rightarrow> (int \<times> int) list \<Rightarrow> (int \<times> string) list \<Rightarrow> bool \<Rightarrow> gpu_pool" where
  "new_pool ids mem physical lease = \<lparr>gp_ids = ids, gp_mem = mem, gp_physical = physical, gp_free = ids,
     gp_lease_path = lease, gp_lease_held = False, gp_epoch = 0, gp_reservations = [], gp_eval_seconds = []\<rparr>"

definition memory_envelope :: "gpu_pool \<Rightarrow> int \<Rightarrow> int option" where
  "memory_envelope P gpu_count = (let mem = dict_values (gp_mem P) in
     if mem = [] then None
     else (let n = max 1 (min (if gpu_count = 0 then 1 else gpu_count) (int (length mem)))
           in Some (py_sorted True id mem ! (nat n - 1))))"

definition clamp_resource_footprint :: "gpu_pool \<Rightarrow> footprint option \<Rightarrow> footprint option" where
  "clamp_resource_footprint P fp = (case fp of None \<Rightarrow> None | Some clean \<Rightarrow>
     (let total = int (length (gp_ids P));
          gpus = (case fp_gpus clean of
              Some g \<Rightarrow> if 0 < total \<or> g = 0 then Some (min g total) else Some g | None \<Rightarrow> None);
          mem = (case fp_mem clean of
              Some (Some m) \<Rightarrow> (case memory_envelope P (case gpus of Some g \<Rightarrow> g | None \<Rightarrow> 1) of
                  Some envelope \<Rightarrow> Some (Some (min m envelope)) | None \<Rightarrow> Some (Some m))
            | v \<Rightarrow> v)
      in Some \<lparr>fp_gpus = gpus, fp_mem = mem\<rparr>))"

definition resource_request_for_node :: "gpu_pool \<Rightarrow> int \<Rightarrow> bool \<Rightarrow> pyval \<Rightarrow> pyval \<Rightarrow> request" where
  "resource_request_for_node P eval_parallel capable declared_fp pin =
     (let raw = effective_card_footprint declared_fp pin None;
          effective = clamp_resource_footprint P raw;
          asked = (case raw of Some f \<Rightarrow> fp_gpus f | None \<Rightarrow> None);
          cpu_only = (asked = Some 0);
          pool_size = int (length (gp_ids P));
          unavailable = (case asked of Some g \<Rightarrow> 0 < g \<and> pool_size = 0 | None \<Rightarrow> False);
          parallel = max 1 (if eval_parallel = 0 then 1 else eval_parallel);
          cnt = (if cpu_only then 0
                 else if unavailable then (case asked of Some g \<Rightarrow> g | None \<Rightarrow> 0)
                 else if asked \<noteq> None
                   then (case effective of Some f \<Rightarrow> (case fp_gpus f of Some g \<Rightarrow> g | None \<Rightarrow> 0) | None \<Rightarrow> 0)
                 else if pool_size \<noteq> 0 \<and> 1 < parallel \<and> capable then 1 else 0)
      in \<lparr>rq_count = cnt, rq_mem = (case effective of Some f \<Rightarrow> (case fp_mem f of Some m \<Rightarrow> m | None \<Rightarrow> None) | None \<Rightarrow> None),
          rq_cpu_only = cpu_only, rq_required_unavailable = unavailable, rq_unspecified = (asked = None),
          rq_task_gpu_capable = capable, rq_pin = (0 < cnt \<and> \<not> unavailable), rq_footprint = effective\<rparr>)"

text \<open>A reservation stays current while the request it answered stays the same. \<open>pin\<close> follows the
  other fields, and the source leaves it out of the comparison.\<close>

definition node_resource_reservation_is_current :: "gpu_pool \<Rightarrow> int \<Rightarrow> bool \<Rightarrow> pyval \<Rightarrow> pyval \<Rightarrow> gpu_reservation \<Rightarrow> bool" where
  "node_resource_reservation_is_current P eval_parallel capable declared_fp pin r \<longleftrightarrow>
     rs_yielded r = 0 \<and>
     request.truncate r\<lparr>rq_pin := False\<rparr> = (resource_request_for_node P eval_parallel capable declared_fp pin)\<lparr>rq_pin := False\<rparr>"

section \<open>Taking and giving back\<close>

text \<open>What the host answers during one acquisition: the gate, our place in the queue (no ticket when
  the queue cannot be used), the attempt on the lease and the second one after a dead holder was
  moved aside.\<close>

datatype lease_try = Granted | Busy | Unenforceable string

record host =
  h_gate_blocked :: bool
  h_queue_head :: "bool option"
  h_lease :: lease_try
  h_abandoned :: bool
  h_lease_again :: lease_try

datatype acquired = Refused string | Wait | Got "int list"

definition lease_answer :: "host \<Rightarrow> gpu_pool \<Rightarrow> lease_try" where
  "lease_answer H P = (if \<not> gp_lease_path P \<or> gp_lease_held P then Granted
     else if h_queue_head H = Some False then Busy
     else (case h_lease H of Busy \<Rightarrow> if h_abandoned H then h_lease_again H else Busy | a \<Rightarrow> a))"

definition fitting_gpus :: "gpu_pool \<Rightarrow> int option \<Rightarrow> int list" where
  "fitting_gpus P requested = filter (\<lambda>g. case requested of None \<Rightarrow> True
     | Some m \<Rightarrow> gp_mem P = [] \<or> m \<le> (case dict_get (gp_mem P) g of Some k \<Rightarrow> k | None \<Rightarrow> -1)) (gp_free P)"

definition wanted_memory :: "gpu_pool \<Rightarrow> int \<Rightarrow> int option \<Rightarrow> int option" where
  "wanted_memory P cnt mem = (case mem of None \<Rightarrow> None
     | Some m \<Rightarrow> (case memory_envelope P cnt of Some e \<Rightarrow> Some (min (max 0 m) e) | None \<Rightarrow> Some (max 0 m)))"

definition clamped_count :: "int \<Rightarrow> gpu_pool \<Rightarrow> int" where
  "clamped_count n P = min (max 0 n) (int (length (gp_ids P)))"

definition acquire_gpus :: "host \<Rightarrow> int \<Rightarrow> int option \<Rightarrow> gpu_pool \<Rightarrow> acquired \<times> gpu_pool" where
  "acquire_gpus H n mem P =
     (let cnt = clamped_count n P in
      if cnt = 0 then (Got [], P)
      else (let fitting = fitting_gpus P (wanted_memory P cnt mem) in
        if int (length fitting) < cnt \<or> h_gate_blocked H then (Wait, P)
        else (case lease_answer H P of
            Unenforceable e \<Rightarrow> (Refused e, P)
          | Busy \<Rightarrow> (Wait, P)
          | Granted \<Rightarrow> (let chosen = take (nat cnt) fitting in
              (Got chosen, P\<lparr>gp_free := filter (\<lambda>g. g \<notin> set chosen) (gp_free P),
                 gp_lease_held := (gp_lease_held P \<or> gp_lease_path P), gp_epoch := gp_epoch P + 1\<rparr>)))))"

fun position :: "int list \<Rightarrow> int \<Rightarrow> nat" where
  "position [] x = 0"
| "position (y # ys) x = (if x = y then 0 else Suc (position ys x))"

fun add_missing :: "int list \<Rightarrow> int list \<Rightarrow> int list" where
  "add_missing free [] = free"
| "add_missing free (g # gs) = add_missing (if g \<in> set free then free else free @ [g]) gs"

definition release_gpus :: "int list \<Rightarrow> gpu_pool \<Rightarrow> gpu_pool" where
  "release_gpus ids P =
     (let released = filter (\<lambda>g. g \<in> set (gp_ids P)) ids in
      if released = [] then P
      else (let free = py_sorted False (position (gp_ids P)) (add_missing (gp_free P) released)
            in P\<lparr>gp_free := free,
                 gp_lease_held := (if length free = length (gp_ids P) then False else gp_lease_held P),
                 gp_epoch := gp_epoch P + 1\<rparr>))"

definition reservation_of :: "request \<Rightarrow> int list \<Rightarrow> bool \<Rightarrow> string option \<Rightarrow> gpu_reservation " where
  "reservation_of q ids whole unpinnable = request.extend q
     \<lparr>rs_gpu_ids = ids, rs_whole_pool_unpinned = whole, rs_unpinnable = unpinnable, rs_yielded = 0\<rparr>"

definition try_reserve :: "host \<Rightarrow> request \<Rightarrow> gpu_pool \<Rightarrow> gpu_reservation option \<times> gpu_pool" where
  "try_reserve H q P =
     (if rq_required_unavailable q then (Some (reservation_of q [] False None), P)
      else (let whole = (rq_unspecified q \<and> rq_task_gpu_capable q \<and> rq_count q = 0 \<and> gp_ids P \<noteq> []);
                cnt = (if whole then int (length (gp_ids P)) else rq_count q)
            in case acquire_gpus H cnt (rq_mem q) P of
                (Refused e, P') \<Rightarrow> (Some (reservation_of q [] False (Some (take 400 e))), P')
              | (Wait, P') \<Rightarrow> (None, P')
              | (Got ids, P') \<Rightarrow> (Some (reservation_of q ids whole None), P')))"

section \<open>The reservations of the evaluations in flight\<close>

type_synonym lane_key = "int \<times> int"

definition register_reservation :: "lane_key \<Rightarrow> gpu_reservation \<Rightarrow> gpu_pool \<Rightarrow> gpu_pool" where
  "register_reservation k r P = P\<lparr>gp_reservations := dict_put k r (gp_reservations P)\<rparr>"

definition clear_reservation :: "lane_key \<Rightarrow> gpu_pool \<Rightarrow> gpu_pool" where
  "clear_reservation k P = P\<lparr>gp_reservations := dict_pop k (gp_reservations P)\<rparr>"

definition settle_reservation :: "lane_key \<Rightarrow> gpu_reservation option \<Rightarrow> gpu_pool \<Rightarrow> gpu_pool" where
  "settle_reservation k admitted P =
     (let held = dict_get (gp_reservations P) k
      in release_gpus (case held of Some r \<Rightarrow> rs_gpu_ids r
           | None \<Rightarrow> (case admitted of Some r \<Rightarrow> rs_gpu_ids r | None \<Rightarrow> [])) (clear_reservation k P))"

definition yield_devices :: "lane_key \<Rightarrow> gpu_pool \<Rightarrow> int list \<times> gpu_pool" where
  "yield_devices k P = (case dict_get (gp_reservations P) k of
      None \<Rightarrow> ([], P)
    | Some r \<Rightarrow>
       (if rs_gpu_ids r = [] \<or> rs_unpinnable r \<noteq> None \<or> rq_required_unavailable r then ([], P)
        else (rs_gpu_ids r, release_gpus (rs_gpu_ids r)
          (register_reservation k (r\<lparr>rs_gpu_ids := [], rs_yielded := length (rs_gpu_ids r)\<rparr>) P))))"

text \<open>One turn of the loop that takes the devices back: nothing to take, taken, or wait.\<close>

datatype reclaim = Nothing_yielded | Taken gpu_reservation | Still_waiting | Reclaim_failed string

definition reclaim_devices :: "host \<Rightarrow> lane_key \<Rightarrow> gpu_pool \<Rightarrow> reclaim \<times> gpu_pool" where
  "reclaim_devices H k P = (case dict_get (gp_reservations P) k of
      None \<Rightarrow> (Nothing_yielded, P)
    | Some r \<Rightarrow>
       (if rs_yielded r = 0 then (Nothing_yielded, P)
        else (case acquire_gpus H (int (rs_yielded r)) (rq_mem r) P of
            (Refused e, P') \<Rightarrow> (Reclaim_failed e, P')
          | (Wait, P') \<Rightarrow> (Still_waiting, P')
          | (Got ids, P') \<Rightarrow>
              (if ids = [] then (Still_waiting, P')
               else (let back = r\<lparr>rs_gpu_ids := ids, rs_yielded := 0\<rparr>
                     in (Taken back, register_reservation k back P'))))))"

definition reservation_under_other_generation :: "int \<Rightarrow> int \<Rightarrow> gpu_pool \<Rightarrow> bool" where
  "reservation_under_other_generation nid gen P \<longleftrightarrow>
     list_ex (\<lambda>(n, g). n = nid \<and> g \<noteq> gen) (dict_keys (gp_reservations P))"

section \<open>The devices a child process sees\<close>

text \<open>\<open>casefold\<close> of a character below 256.\<close>

definition casefold :: "string \<Rightarrow> string" where
  "casefold s = concat (map (\<lambda>c. if of_char c = (223 :: nat) then ''ss'' else [lower_char c]) s)"

definition is_decimal :: "string \<Rightarrow> bool" where
  "is_decimal s \<longleftrightarrow> s \<noteq> [] \<and> list_all (\<lambda>c. digit_of c \<noteq> None) s"

definition decimal_value :: "string \<Rightarrow> int" where
  "decimal_value s = foldl (\<lambda>i c. 10 * i + the (digit_of c)) 0 s"

definition cuda_disabled_selectors :: "string list" where
  "cuda_disabled_selectors = [''-1'', ''none'', ''nodevfiles'', ''void'']"

definition token_identity :: "string \<Rightarrow> int + string" where
  "token_identity t = (if is_decimal t then Inl (decimal_value t) else Inr (casefold t))"

definition cuda_visible_device_tokens :: "pyval \<Rightarrow> string list option" where
  "cuda_visible_device_tokens v = (case v of
      PNone \<Rightarrow> None
    | PStr s \<Rightarrow>
        (let tokens = map py_strip (split_on CHR '','' s) in
         if list_ex (\<lambda>t. t = []) tokens \<or> list_ex (\<lambda>t. casefold t \<in> set cuda_disabled_selectors) tokens \<or>
            \<not> distinct (map token_identity tokens) then Some [] else Some tokens)
    | _ \<Rightarrow> Some [])"

definition physical_gpu_ids :: "gpu_pool \<Rightarrow> int list \<Rightarrow> string list option" where
  "physical_gpu_ids P logical =
     (if list_ex (\<lambda>g. dict_get (gp_physical P) g = None) logical then None
      else (let physical = map (\<lambda>g. py_strip (the (dict_get (gp_physical P) g))) logical
            in if logical \<noteq> [] \<and> cuda_visible_device_tokens (PStr (joined_by CHR '','' physical)) \<noteq> Some physical
               then None else Some physical))"

text \<open>\<open>CUDA_VISIBLE_DEVICES\<close> for a launch: refused, left as the host has it, or set.\<close>

datatype device_env = Refuse | Unpinned | Visible string

definition resource_eval_env :: "gpu_pool \<Rightarrow> gpu_reservation option \<Rightarrow> device_env" where
  "resource_eval_env P reservation = (case reservation of
      None \<Rightarrow> Unpinned
    | Some r \<Rightarrow>
       (if rs_unpinnable r \<notin> {None, Some []} \<or> rq_required_unavailable r then Refuse
        else if rs_whole_pool_unpinned r \<or> \<not> rq_cpu_only r \<and> rs_gpu_ids r = [] then Unpinned
        else if rq_cpu_only r then Visible []
        else (case physical_gpu_ids P (rs_gpu_ids r) of None \<Rightarrow> Refuse | Some ids \<Rightarrow> Visible (joined_by CHR '','' ids))))"

section \<open>Evaluation seconds\<close>

definition eval_time_admission_blocked :: "real \<Rightarrow> real \<Rightarrow> real \<Rightarrow> real option \<Rightarrow> bool" where
  "eval_time_admission_blocked spent reserved estimate max_es = (case max_es of
      None \<Rightarrow> False
    | Some m \<Rightarrow> m \<le> spent \<or> 0 < reserved \<and> m < spent + reserved + estimate)"

definition reserve_eval_seconds :: "lane_key \<Rightarrow> real \<Rightarrow> gpu_pool \<Rightarrow> gpu_pool" where
  "reserve_eval_seconds k seconds P = P\<lparr>gp_eval_seconds := dict_put k (max 0 seconds) (gp_eval_seconds P)\<rparr>"

definition release_eval_seconds :: "lane_key \<Rightarrow> gpu_pool \<Rightarrow> gpu_pool" where
  "release_eval_seconds k P = P\<lparr>gp_eval_seconds := dict_pop k (gp_eval_seconds P)\<rparr>"

definition reserved_eval_seconds :: "gpu_pool \<Rightarrow> real" where
  "reserved_eval_seconds P = sum_list (dict_values (gp_eval_seconds P))"

end
