(* ===== verification/GpuSystem.thy ===== *)
theory GpuSystem
  imports GpuPool "HOL-Library.Multiset"
begin

text \<open>
  The contract of the device pool and the system around it: the locale \<open>device_pool\<close> states what
  taking and giving back promise and what follows for the holders; the interpretation discharges it
  for \<open>acquire_gpus\<close> and \<open>release_gpus\<close>. The step relation \<open>gpu_step\<close> has one rule per call the
  dispatcher, the repair and the operator's track make on the pool.
\<close>

section \<open>The contract of a device pool\<close>

locale device_pool =
  fixes take_devices :: "'h \<Rightarrow> int \<Rightarrow> int option \<Rightarrow> 'p \<Rightarrow> acquired \<times> 'p"
    and give_devices :: "int list \<Rightarrow> 'p \<Rightarrow> 'p"
    and idle :: "'p \<Rightarrow> int list"
    and owned :: "'p \<Rightarrow> int list"
  assumes take_got: "take_devices h n m p = (Got ids, p') \<Longrightarrow> distinct (idle p) \<Longrightarrow> mset (idle p) = mset (ids @ idle p')"
    and take_else: "take_devices h n m p = (a, p') \<Longrightarrow> (\<And>ids. a \<noteq> Got ids) \<Longrightarrow> p' = p"
    and take_owned: "owned (snd (take_devices h n m p)) = owned p"
    and give_idle: "distinct (ids @ idle p) \<Longrightarrow> set (ids @ idle p) \<subseteq> set (owned p) \<Longrightarrow>
      mset (idle (give_devices ids p)) = mset (ids @ idle p)"
    and give_owned: "owned (give_devices ids p) = owned p"
begin

definition balanced :: "'p \<Rightarrow> int list \<Rightarrow> bool" where
  "balanced p out \<longleftrightarrow> distinct (owned p) \<and> mset (idle p @ out) = mset (owned p)"

lemma balanced_distinct: "balanced p out \<Longrightarrow> distinct (idle p @ out)"
  unfolding balanced_def using mset_eq_imp_distinct_iff by blast

lemma balanced_within: "balanced p out \<Longrightarrow> set (idle p @ out) = set (owned p)"
  unfolding balanced_def using mset_eq_setD by blast

lemma balanced_perm: "balanced p out \<Longrightarrow> mset out' = mset out \<Longrightarrow> balanced p out'"
  by (simp add: balanced_def)

lemma balanced_take:
  assumes "balanced p out" "take_devices h n m p = (Got ids, p')"
  shows "balanced p' (ids @ out)"
proof -
  have "mset (idle p) = mset (ids @ idle p')" using take_got [OF assms(2)] balanced_distinct [OF assms(1)] by simp
  then show ?thesis using assms(1) take_owned [of h n m p] assms(2)
    by (simp add: balanced_def ac_simps)
qed

lemma balanced_else:
  "balanced p out \<Longrightarrow> take_devices h n m p = (a, p') \<Longrightarrow> (\<And>ids. a \<noteq> Got ids) \<Longrightarrow> balanced p' out"
  using take_else by metis

lemma balanced_give:
  assumes "balanced p (ids @ out)"
  shows "balanced (give_devices ids p) out"
proof -
  have "distinct (ids @ idle p)" "set (ids @ idle p) \<subseteq> set (owned p)"
    using balanced_distinct [OF assms] balanced_within [OF assms] by auto
  then have "mset (idle (give_devices ids p)) = mset (ids @ idle p)" by (rule give_idle)
  then show ?thesis using assms by (simp add: balanced_def give_owned ac_simps)
qed

lemma taken_from_nobody:
  assumes "balanced p out" "take_devices h n m p = (Got ids, p')"
  shows "set ids \<inter> set out = {}" "distinct ids"
  using balanced_distinct [OF balanced_take [OF assms]] by auto

end

section \<open>The pool of the engine keeps the contract\<close>

lemma clamped_count_nonneg [simp]: "0 \<le> clamped_count n P"
  by (simp add: clamped_count_def)

lemma acquire_gpus_cases:
  assumes "acquire_gpus h n m P = (a, P')"
  obtains (none) "a = Got []" "P' = P"
  | (refused) e where "a = Refused e" "P' = P"
  | (wait) "a = Wait" "P' = P"
  | (got) chosen where "a = Got chosen" "chosen \<noteq> []"
      "chosen = take (nat (clamped_count n P)) (fitting_gpus P (wanted_memory P (clamped_count n P) m))"
      "int (length chosen) = clamped_count n P"
      "\<not> h_gate_blocked h" "lease_answer h P = Granted"
      "P' = P\<lparr>gp_free := filter (\<lambda>g. g \<notin> set chosen) (gp_free P),
         gp_lease_held := (gp_lease_held P \<or> gp_lease_path P), gp_epoch := gp_epoch P + 1\<rparr>"
proof -
  let ?cnt = "clamped_count n P"
  let ?fit = "fitting_gpus P (wanted_memory P ?cnt m)"
  note def = acquire_gpus_def Let_def
  consider "?cnt = 0" | "?cnt \<noteq> 0" "int (length ?fit) < ?cnt \<or> h_gate_blocked h"
    | "0 < ?cnt" "?cnt \<le> int (length ?fit)" "\<not> h_gate_blocked h"
    by (metis clamped_count_nonneg linorder_not_less order_le_less)
  then show thesis
  proof cases
    case 1
    then show thesis using assms none by (simp add: def)
  next
    case 2
    then show thesis using assms wait by (auto simp: def)
  next
    case 3
    then have len: "int (length (take (nat ?cnt) ?fit)) = ?cnt" by simp
    then have ne: "take (nat ?cnt) ?fit \<noteq> []" using 3 by force
    show thesis
    proof (cases "lease_answer h P")
      case Granted
      show thesis
        by (rule got [OF _ ne refl len]) (use assms 3 Granted in \<open>simp_all add: def\<close>)
    next
      case Busy
      then show thesis using assms 3 wait by (simp add: def)
    next
      case (Unenforceable e)
      then show thesis using assms 3 refused [of e] by (simp add: def)
    qed
  qed
qed

lemma set_fitting_gpus: "set (fitting_gpus P r) \<subseteq> set (gp_free P)"
  by (auto simp: fitting_gpus_def)

lemma distinct_fitting_gpus [simp]: "distinct (gp_free P) \<Longrightarrow> distinct (fitting_gpus P r)"
  by (simp add: fitting_gpus_def)

lemma mset_without:
  assumes "distinct xs" "distinct ys" "set ys \<subseteq> set xs"
  shows "mset xs = mset (ys @ filter (\<lambda>x. x \<notin> set ys) xs)"
  by (rule iffD1 [OF set_eq_iff_mset_eq_distinct]) (use assms in auto)

lemma add_missing_distinct:
  "distinct (ids @ free) \<Longrightarrow> mset (add_missing free ids) = mset (ids @ free)"
  by (induction ids arbitrary: free) auto

lemma mset_release_gpus:
  assumes "distinct (ids @ gp_free P)" "set ids \<subseteq> set (gp_ids P)"
  shows "mset (gp_free (release_gpus ids P)) = mset (ids @ gp_free P)"
proof -
  have "filter (\<lambda>g. g \<in> set (gp_ids P)) ids = ids" using assms(2) by (auto simp: filter_id_conv)
  then show ?thesis using add_missing_distinct [OF assms(1)] by (auto simp: release_gpus_def Let_def)
qed

lemma mset_acquire_gpus:
  assumes "acquire_gpus h n m P = (Got ids, P')" "distinct (gp_free P)"
  shows "mset (gp_free P) = mset (ids @ gp_free P')"
  using assms(1)
proof (cases rule: acquire_gpus_cases)
  case (got chosen)
  have "mset (gp_free P) = mset (chosen @ filter (\<lambda>g. g \<notin> set chosen) (gp_free P))"
    by (rule mset_without) (use got assms(2) set_fitting_gpus in \<open>auto simp: subset_iff dest: in_set_takeD\<close>)
  then show ?thesis using got by simp
qed auto

lemma gp_ids_release [simp]: "gp_ids (release_gpus ids P) = gp_ids P"
  by (simp add: release_gpus_def Let_def)

lemma gp_ids_acquire: "acquire_gpus h n m P = (a, P') \<Longrightarrow> gp_ids P' = gp_ids P"
  by (elim acquire_gpus_cases) auto

lemma acquire_else: "acquire_gpus h n m P = (a, P') \<Longrightarrow> (\<And>ids. a \<noteq> Got ids) \<Longrightarrow> P' = P"
  by (elim acquire_gpus_cases) auto

interpretation gpus: device_pool acquire_gpus release_gpus gp_free gp_ids
proof
  show "gp_ids (snd (acquire_gpus h n m P)) = gp_ids P" for h n m P
    using gp_ids_acquire [of h n m P] by (cases "acquire_gpus h n m P") simp
qed (use mset_acquire_gpus acquire_else mset_release_gpus in \<open>auto simp del: mset_append\<close>)

end
