(* ===== verification/GpuRun.thy ===== *)
theory GpuRun
  imports GpuSystem
begin

text \<open>
  The engine around its pool: reservations the dispatcher has in hand between admission and
  registration, the registry of the evaluations in flight, and the devices of the operator's tracks.
  Each rule of \<open>gpu_step\<close> is one call of \<open>eval_dispatch.py\<close>, \<open>speculation.py\<close>, \<open>evaluate.py\<close> or
  \<open>track_lane.py\<close> on the scheduler, run under the pool's condition.
\<close>

record gpu_engine =
  ge_pool :: gpu_pool
  ge_hand :: "gpu_reservation list"
  ge_tracks :: "int list list"

definition registered :: "gpu_pool \<Rightarrow> gpu_reservation list" where
  "registered P = dict_values (gp_reservations P)"

definition devices_out :: "gpu_engine \<Rightarrow> int list" where
  "devices_out s = concat (map rs_gpu_ids (ge_hand s)) @ concat (map rs_gpu_ids (registered (ge_pool s))) @ concat (ge_tracks s)"

text \<open>
  A lifecycle is registered once: the dispatcher pops its action from the queue before it registers
  the reservation. The last two rules of the registry are the \<open>finally\<close> of a lane and the spawn that failed.
\<close>

inductive gpu_step :: "gpu_engine \<Rightarrow> gpu_engine \<Rightarrow> bool" where
  reserve: "try_reserve H q (ge_pool s) = (Some r, P) \<Longrightarrow>
    gpu_step s (s\<lparr>ge_pool := P, ge_hand := r # ge_hand s\<rparr>)"
| reserve_wait: "try_reserve H q (ge_pool s) = (None, P) \<Longrightarrow> gpu_step s (s\<lparr>ge_pool := P\<rparr>)"
| hand_back: "ge_hand s = xs @ r # ys \<Longrightarrow>
    gpu_step s (s\<lparr>ge_pool := release_gpus (rs_gpu_ids r) (ge_pool s), ge_hand := xs @ ys\<rparr>)"
| register: "ge_hand s = xs @ r # ys \<Longrightarrow> dict_get (gp_reservations (ge_pool s)) k = None \<Longrightarrow>
    gpu_step s (s\<lparr>ge_pool := register_reservation k r (ge_pool s), ge_hand := xs @ ys\<rparr>)"
| settle: "dict_get (gp_reservations (ge_pool s)) k = Some r \<Longrightarrow>
    gpu_step s (s\<lparr>ge_pool := settle_reservation k admitted (ge_pool s)\<rparr>)"
| settle_unregistered: "ge_hand s = xs @ r # ys \<Longrightarrow> dict_get (gp_reservations (ge_pool s)) k = None \<Longrightarrow>
    gpu_step s (s\<lparr>ge_pool := settle_reservation k (Some r) (ge_pool s), ge_hand := xs @ ys\<rparr>)"
| spawn_failed: "dict_get (gp_reservations (ge_pool s)) k = Some r \<Longrightarrow>
    gpu_step s (s\<lparr>ge_pool := release_gpus (rs_gpu_ids r) (clear_reservation k (ge_pool s))\<rparr>)"
| yield: "yield_devices k (ge_pool s) = (ids, P) \<Longrightarrow> gpu_step s (s\<lparr>ge_pool := P\<rparr>)"
| reclaim: "reclaim_devices H k (ge_pool s) = (a, P) \<Longrightarrow> gpu_step s (s\<lparr>ge_pool := P\<rparr>)"
| track_take: "acquire_gpus H n None (ge_pool s) = (Got ids, P) \<Longrightarrow>
    gpu_step s (s\<lparr>ge_pool := P, ge_tracks := ids # ge_tracks s\<rparr>)"
| track_wait: "acquire_gpus H n None (ge_pool s) = (a, P) \<Longrightarrow> (\<And>ids. a \<noteq> Got ids) \<Longrightarrow> gpu_step s (s\<lparr>ge_pool := P\<rparr>)"
| track_give: "ge_tracks s = xs @ ids # ys \<Longrightarrow>
    gpu_step s (s\<lparr>ge_pool := release_gpus ids (ge_pool s), ge_tracks := xs @ ys\<rparr>)"

inductive gpu_reachable :: "gpu_engine \<Rightarrow> gpu_engine \<Rightarrow> bool" for s0 where
  start: "gpu_reachable s0 s0"
| step: "gpu_reachable s0 s \<Longrightarrow> gpu_step s t \<Longrightarrow> gpu_reachable s0 t"

definition idle_engine :: "int list \<Rightarrow> (int \<times> int) list \<Rightarrow> (int \<times> string) list \<Rightarrow> bool \<Rightarrow> gpu_engine" where
  "idle_engine ids mem physical lease = \<lparr>ge_pool = new_pool ids mem physical lease, ge_hand = [], ge_tracks = []\<rparr>"

section \<open>The invariant\<close>

definition lease_matches :: "gpu_pool \<Rightarrow> bool" where
  "lease_matches P \<longleftrightarrow> gp_lease_held P = (gp_lease_path P \<and> length (gp_free P) < length (gp_ids P))"

definition yielded_is_empty :: "gpu_pool \<Rightarrow> bool" where
  "yielded_is_empty P \<longleftrightarrow> (\<forall>r\<in>set (registered P). rs_yielded r \<noteq> 0 \<longrightarrow> rs_gpu_ids r = [])"

definition pool_ok :: "gpu_pool \<Rightarrow> int list \<Rightarrow> bool" where
  "pool_ok P out \<longleftrightarrow> gpus.balanced P out \<and> lease_matches P \<and>
     distinct (dict_keys (gp_reservations P)) \<and> yielded_is_empty P"

definition gpu_inv :: "gpu_engine \<Rightarrow> bool" where
  "gpu_inv s \<longleftrightarrow> pool_ok (ge_pool s) (devices_out s) \<and> list_all (\<lambda>r. rs_yielded r = 0) (ge_hand s)"

lemma gp_reservations_release [simp]: "gp_reservations (release_gpus ids P) = gp_reservations P"
  by (simp add: release_gpus_def Let_def)

lemma gp_reservations_acquire: "acquire_gpus h n m P = (a, P') \<Longrightarrow> gp_reservations P' = gp_reservations P"
  by (elim acquire_gpus_cases) auto

lemma gp_free_registry [simp]:
  "gp_free (register_reservation k r P) = gp_free P" "gp_ids (register_reservation k r P) = gp_ids P"
  "gp_reservations (register_reservation k r P) = dict_put k r (gp_reservations P)"
  "gp_free (clear_reservation k P) = gp_free P" "gp_ids (clear_reservation k P) = gp_ids P"
  "gp_reservations (clear_reservation k P) = dict_pop k (gp_reservations P)"
  "lease_matches (register_reservation k r P) = lease_matches P"
  "lease_matches (clear_reservation k P) = lease_matches P"
  by (simp_all add: register_reservation_def clear_reservation_def lease_matches_def)

lemma balanced_registry [simp]:
  "gpus.balanced (register_reservation k r P) out = gpus.balanced P out"
  "gpus.balanced (clear_reservation k P) out = gpus.balanced P out"
  by (simp_all add: gpus.balanced_def)

lemma lease_acquire:
  assumes "acquire_gpus h n m P = (a, P')" "lease_matches P" "gpus.balanced P out"
  shows "lease_matches P'"
  using assms(1)
proof (cases rule: acquire_gpus_cases)
  case (got chosen)
  have "set chosen \<noteq> {}" "set chosen \<subseteq> set (gp_free P)"
    using got(2) set_fitting_gpus unfolding got(3) by (auto dest!: in_set_takeD)
  then have "length (filter (\<lambda>g. g \<notin> set chosen) (gp_free P)) < length (gp_free P)"
    by (metis all_not_in_conv length_filter_less subsetD)
  moreover have "length (gp_free P) \<le> length (gp_ids P)"
    using assms(3) unfolding gpus.balanced_def by (metis le_add1 length_append size_mset)
  ultimately show ?thesis using assms(2) got by (auto simp: lease_matches_def)
qed (use assms in auto)

lemma lease_release:
  assumes "lease_matches P" "gpus.balanced P (ids @ out)"
  shows "lease_matches (release_gpus ids P)"
proof (cases "ids = []")
  case True
  then show ?thesis using assms by (simp add: release_gpus_def)
next
  case False
  have len: "length (gp_free P) + length ids + length out = length (gp_ids P)"
    using assms(2) unfolding gpus.balanced_def by (metis add.assoc length_append size_mset)
  have ids: "filter (\<lambda>g. g \<in> set (gp_ids P)) ids = ids"
    using gpus.balanced_within [OF assms(2)] by (auto simp: filter_id_conv)
  have "mset (gp_free (release_gpus ids P)) = mset (ids @ gp_free P)"
    using gpus.balanced_distinct [OF assms(2)] gpus.balanced_within [OF assms(2)]
    by (intro mset_release_gpus) auto
  then have "length (gp_free (release_gpus ids P)) = length ids + length (gp_free P)"
    by (metis length_append size_mset)
  then show ?thesis using assms(1) False len
    by (auto simp: lease_matches_def release_gpus_def Let_def ids)
qed

section \<open>Every step keeps it\<close>

lemma values_pop:
  "distinct (dict_keys d) \<Longrightarrow> dict_get d k = Some v \<Longrightarrow> mset (dict_values d) = mset (v # dict_values (dict_pop k d))"
proof (induction d)
  case (Cons e d)
  obtain j w where e: "e = (j, w)" by fastforce
  show ?case
  proof (cases "j = k")
    case True
    then have "dict_pop k d = d" using Cons.prems e
      by (simp add: dict_pop_def dict_keys_def delete_id)
    then show ?thesis using Cons.prems e True by (simp add: dict_values_def dict_pop_def)
  next
    case False
    then show ?thesis using Cons e by (simp add: dict_values_def dict_pop_def dict_keys_def)
  qed
qed simp

lemma values_put:
  "distinct (dict_keys d) \<Longrightarrow> mset (dict_values (dict_put k v d)) = mset (v # dict_values (dict_pop k d))"
proof -
  assume d: "distinct (dict_keys d)"
  have "mset (dict_values (dict_put k v d)) = mset (v # dict_values (dict_pop k (dict_put k v d)))"
    using values_pop [of "dict_put k v d" k v] d by simp
  moreover have "dict_pop k (dict_put k v d) = dict_pop k d"
    by (simp add: dict_pop_def dict_put_def delete_update_same)
  ultimately show ?thesis by simp
qed

lemma pop_absent: "dict_get d k = None \<Longrightarrow> dict_pop k d = d"
  by (auto simp: dict_pop_def delete_id map_of_eq_None_iff)

lemma mset_ids_of:
  "mset rs = mset (r # rs') \<Longrightarrow> mset (concat (map rs_gpu_ids rs)) = mset (rs_gpu_ids r @ concat (map rs_gpu_ids rs'))"
  by (metis (no_types, lifting) concat.simps(2) list.simps(9) mset_concat mset_map sum_mset_sum_list)

lemma set_values_pop: "set (dict_values (dict_pop k d)) \<subseteq> set (dict_values d)"
  by (induction d) (auto simp: dict_values_def dict_pop_def)

lemma registry_pop:
  assumes "distinct (dict_keys (gp_reservations P))" "dict_get (gp_reservations P) k = Some r"
  shows "mset (concat (map rs_gpu_ids (registered P)))
    = mset (rs_gpu_ids r @ concat (map rs_gpu_ids (registered (clear_reservation k P))))"
  by (rule mset_ids_of) (use values_pop [OF assms] in \<open>simp add: registered_def\<close>)

lemma registry_put:
  assumes "distinct (dict_keys (gp_reservations P))"
  shows "mset (concat (map rs_gpu_ids (registered (register_reservation k r P))))
    = mset (rs_gpu_ids r @ concat (map rs_gpu_ids (registered (clear_reservation k P))))"
  by (rule mset_ids_of) (use values_put [OF assms, of k r] in \<open>simp add: registered_def\<close>)

lemma registered_same [simp]:
  "registered (release_gpus ids P) = registered P"
  by (simp add: registered_def)

lemma registered_acquire: "acquire_gpus h n m P = (a, P') \<Longrightarrow> registered P' = registered P"
  using gp_reservations_acquire by (simp add: registered_def)

lemma yielded_put:
  "yielded_is_empty P \<Longrightarrow> rs_yielded r = 0 \<or> rs_gpu_ids r = [] \<Longrightarrow> distinct (dict_keys (gp_reservations P)) \<Longrightarrow>
    yielded_is_empty (register_reservation k r P)"
  using values_put [of "gp_reservations P" k r] set_values_pop [of k "gp_reservations P"]
  by (fastforce simp: yielded_is_empty_def registered_def dest: mset_eq_setD)

lemma yielded_pop: "yielded_is_empty P \<Longrightarrow> yielded_is_empty (clear_reservation k P)"
  using set_values_pop [of k "gp_reservations P"] by (auto simp: yielded_is_empty_def registered_def)

lemma yielded_same [simp]: "yielded_is_empty (release_gpus ids P) = yielded_is_empty P"
  by (simp add: yielded_is_empty_def)

lemma try_reserve_cases:
  assumes "try_reserve H q P = (a, P')"
  obtains (marker) r where "a = Some r" "P' = P" "rs_gpu_ids r = []" "rs_yielded r = 0"
  | (wait) "a = None" "P' = P"
  | (got) r n m where "a = Some r" "acquire_gpus H n m P = (Got (rs_gpu_ids r), P')" "rs_yielded r = 0"
proof (cases "rq_required_unavailable q")
  case True
  then have "a = Some (reservation_of q [] False None)" "P' = P" using assms by (simp_all add: try_reserve_def)
  then show thesis using marker by (simp add: reservation_of_def request.defs)
next
  case False
  let ?w = "rq_unspecified q \<and> rq_task_gpu_capable q \<and> rq_count q = 0 \<and> gp_ids P \<noteq> []"
  let ?n = "if ?w then int (length (gp_ids P)) else rq_count q"
  obtain b Q where ac: "acquire_gpus H ?n (rq_mem q) P = (b, Q)" by fastforce
  have res: "rs_gpu_ids (reservation_of q ids w e) = ids" "rs_yielded (reservation_of q ids w e) = 0" for ids w e
    by (simp_all add: reservation_of_def request.defs)
  note eq = assms [unfolded try_reserve_def Let_def if_not_P [OF False] ac]
  show thesis
  proof (cases b)
    case (Refused e)
    then show thesis using eq acquire_else [OF ac] by (auto intro!: marker simp: res)
  next
    case Wait
    then show thesis using eq wait acquire_else [OF ac] by simp
  next
    case (Got ids)
    then show thesis using eq ac by (auto intro!: got simp: res)
  qed
qed

lemma pool_ok_take:
  assumes "pool_ok P out" "acquire_gpus H n m P = (Got ids, P')"
  shows "pool_ok P' (ids @ out)"
proof -
  have b: "gpus.balanced P out" and l: "lease_matches P" using assms(1) by (simp_all add: pool_ok_def)
  show ?thesis
    using assms(1) gpus.balanced_take [OF b assms(2)] lease_acquire [OF assms(2) l b]
      gp_reservations_acquire [OF assms(2)] registered_acquire [OF assms(2)]
    by (simp add: pool_ok_def yielded_is_empty_def)
qed

lemma pool_ok_give: "pool_ok P (ids @ out) \<Longrightarrow> pool_ok (release_gpus ids P) out"
  unfolding pool_ok_def using lease_release gpus.balanced_give by fastforce

lemma pool_ok_perm: "pool_ok P out \<Longrightarrow> mset out' = mset out \<Longrightarrow> pool_ok P out'"
  unfolding pool_ok_def using gpus.balanced_perm by blast

lemma pool_ok_register:
  "pool_ok P out \<Longrightarrow> rs_yielded r = 0 \<or> rs_gpu_ids r = [] \<Longrightarrow> pool_ok (register_reservation k r P) out"
  by (simp add: pool_ok_def yielded_put)

lemma pool_ok_clear: "pool_ok P out \<Longrightarrow> pool_ok (clear_reservation k P) out"
  by (simp add: pool_ok_def yielded_pop)

lemma pool_ok_return:
  assumes "pool_ok P out" "mset out = mset (ids @ rest)"
  shows "pool_ok (release_gpus ids P) rest"
  by (rule pool_ok_give, rule pool_ok_perm [OF assms(1)]) (use assms(2) in simp)

lemma pool_ok_keys: "pool_ok P out \<Longrightarrow> distinct (dict_keys (gp_reservations P))"
  by (simp add: pool_ok_def)

text \<open>The holders, split at the reservation a step works on.\<close>

abbreviation ids_of :: "gpu_reservation list \<Rightarrow> int list" where
  "ids_of rs \<equiv> concat (map rs_gpu_ids rs)"

lemma settle_registered:
  "dict_get (gp_reservations P) k = Some r \<Longrightarrow>
    settle_reservation k admitted P = release_gpus (rs_gpu_ids r) (clear_reservation k P)"
  by (simp add: settle_reservation_def)

lemma settle_absent:
  "dict_get (gp_reservations P) k = None \<Longrightarrow> settle_reservation k (Some r) P = release_gpus (rs_gpu_ids r) P"
  by (simp add: settle_reservation_def clear_reservation_def pop_absent)

lemma pool_ok_drop:
  assumes "pool_ok P (hand @ ids_of (registered P) @ tracks)" "dict_get (gp_reservations P) k = Some r"
  shows "pool_ok (release_gpus (rs_gpu_ids r) (clear_reservation k P))
    (hand @ ids_of (registered (clear_reservation k P)) @ tracks)"
  by (rule pool_ok_return [OF pool_ok_clear [OF assms(1)]])
    (use registry_pop [OF pool_ok_keys [OF assms(1)] assms(2)] in simp)

lemma pool_ok_swap:
  assumes "pool_ok P (extra @ hand @ ids_of (registered P) @ tracks)" "dict_get (gp_reservations P) k = Some r0"
    and "mset (rs_gpu_ids r @ rest) = mset (rs_gpu_ids r0 @ extra)" "rs_yielded r = 0 \<or> rs_gpu_ids r = []"
  shows "pool_ok (register_reservation k r P) (rest @ hand @ ids_of (registered (register_reservation k r P)) @ tracks)"
  by (rule pool_ok_perm [OF pool_ok_register [OF assms(1,4)]])
    (use assms(3) registry_pop [OF pool_ok_keys [OF assms(1)] assms(2)]
       registry_put [OF pool_ok_keys [OF assms(1)], of k r] in \<open>simp add: ac_simps\<close>)

lemma yield_ok:
  assumes "pool_ok P (hand @ ids_of (registered P) @ tracks)" "yield_devices k P = (ids, P')"
  shows "pool_ok P' (hand @ ids_of (registered P') @ tracks)"
proof (cases "dict_get (gp_reservations P) k")
  case None
  then show ?thesis using assms by (simp add: yield_devices_def)
next
  case (Some r)
  let ?r = "r\<lparr>rs_gpu_ids := [], rs_yielded := length (rs_gpu_ids r)\<rparr>"
  have "pool_ok (register_reservation k ?r P)
      (rs_gpu_ids r @ hand @ ids_of (registered (register_reservation k ?r P)) @ tracks)"
    by (rule pool_ok_swap [where extra = "[]", OF _ Some]) (use assms(1) in simp_all)
  then have "pool_ok (release_gpus (rs_gpu_ids r) (register_reservation k ?r P))
      (hand @ ids_of (registered (register_reservation k ?r P)) @ tracks)"
    by (rule pool_ok_give)
  then show ?thesis using assms Some by (auto simp: yield_devices_def split: if_splits)
qed

lemma reclaim_ok:
  assumes "pool_ok P (hand @ ids_of (registered P) @ tracks)" "reclaim_devices H k P = (a, P')"
  shows "pool_ok P' (hand @ ids_of (registered P') @ tracks)"
proof (cases "dict_get (gp_reservations P) k")
  case None
  then show ?thesis using assms by (simp add: reclaim_devices_def)
next
  case (Some r)
  obtain b Q where ac: "acquire_gpus H (int (rs_yielded r)) (rq_mem r) P = (b, Q)" by fastforce
  note eq = assms(2) [unfolded reclaim_devices_def Some option.case ac prod.case]
  show ?thesis
  proof (cases "rs_yielded r = 0 \<or> (\<forall>ids. b \<noteq> Got ids)")
    case True
    then have "P' = P" using eq acquire_else [OF ac] by (auto split: acquired.splits if_splits)
    then show ?thesis using assms(1) by simp
  next
    case False
    then obtain ids where b: "b = Got ids" and y: "rs_yielded r \<noteq> 0" by blast
    have ok: "pool_ok Q (ids @ hand @ ids_of (registered Q) @ tracks)"
      using pool_ok_take [OF assms(1) ac [unfolded b]] registered_acquire [OF ac] by simp
    have res: "dict_get (gp_reservations Q) k = Some r" using Some gp_reservations_acquire [OF ac] by simp
    have "r \<in> set (registered P)" using dict_get_value [OF Some] by (simp add: registered_def)
    then have "rs_gpu_ids r = []" using assms(1) y by (auto simp: pool_ok_def yielded_is_empty_def)
    then have "pool_ok (register_reservation k (r\<lparr>rs_gpu_ids := ids, rs_yielded := 0\<rparr>) Q)
        ([] @ hand @ ids_of (registered (register_reservation k (r\<lparr>rs_gpu_ids := ids, rs_yielded := 0\<rparr>) Q)) @ tracks)"
      by (intro pool_ok_swap [OF ok res]) simp_all
    then show ?thesis using eq b y ok by (auto simp: Let_def split: if_splits)
  qed
qed

lemma gpu_step_inv: "gpu_step s t \<Longrightarrow> gpu_inv s \<Longrightarrow> gpu_inv t"
proof (induction rule: gpu_step.induct)
  case (reserve H q s r P)
  have ok: "pool_ok (ge_pool s) (devices_out s)" using reserve.prems by (simp add: gpu_inv_def)
  show ?case using reserve.hyps
  proof (cases rule: try_reserve_cases)
    case (marker r')
    then show ?thesis using reserve.prems ok by (simp add: gpu_inv_def devices_out_def)
  next
    case (got r' n m)
    have "pool_ok P (rs_gpu_ids r @ devices_out s)" using pool_ok_take [OF ok] got by simp
    then show ?thesis using reserve.prems got registered_acquire [OF got(2)]
      by (simp add: gpu_inv_def devices_out_def)
  qed simp
next
  case (reserve_wait H q s P)
  from reserve_wait.hyps have "P = ge_pool s" by (cases rule: try_reserve_cases) simp_all
  then show ?case using reserve_wait.prems by simp
next
  case (hand_back s xs r ys)
  have "pool_ok (ge_pool s) (devices_out s)" using hand_back.prems by (simp add: gpu_inv_def)
  from pool_ok_return [OF this, of "rs_gpu_ids r" "ids_of (xs @ ys) @ ids_of (registered (ge_pool s)) @ concat (ge_tracks s)"]
  show ?case using hand_back by (simp add: gpu_inv_def devices_out_def ac_simps)
next
  case (register s xs r ys k)
  have ok: "pool_ok (ge_pool s) (devices_out s)" and y: "rs_yielded r = 0"
    using register by (simp_all add: gpu_inv_def)
  have absent: "registered (clear_reservation k (ge_pool s)) = registered (ge_pool s)"
    using register.hyps(2) by (simp add: registered_def pop_absent)
  have "pool_ok (register_reservation k r (ge_pool s))
     (ids_of (xs @ ys) @ ids_of (registered (register_reservation k r (ge_pool s))) @ concat (ge_tracks s))"
    by (rule pool_ok_perm [OF pool_ok_register [OF ok]])
      (use y register.hyps registry_put [OF pool_ok_keys [OF ok], of k r] absent in \<open>simp_all add: devices_out_def ac_simps\<close>)
  then show ?case using register by (simp add: gpu_inv_def devices_out_def)
next
  case (settle s k r admitted)
  then have ok: "pool_ok (ge_pool s) (ids_of (ge_hand s) @ ids_of (registered (ge_pool s)) @ concat (ge_tracks s))"
    by (simp add: gpu_inv_def devices_out_def)
  show ?case using pool_ok_drop [OF ok settle.hyps] settle by (simp add: gpu_inv_def devices_out_def settle_registered)
next
  case (settle_unregistered s xs r ys k)
  have "pool_ok (ge_pool s) (devices_out s)" using settle_unregistered.prems by (simp add: gpu_inv_def)
  from pool_ok_return [OF this, of "rs_gpu_ids r" "ids_of (xs @ ys) @ ids_of (registered (ge_pool s)) @ concat (ge_tracks s)"]
  show ?case using settle_unregistered by (simp add: gpu_inv_def devices_out_def settle_absent ac_simps)
next
  case (spawn_failed s k r)
  then have ok: "pool_ok (ge_pool s) (ids_of (ge_hand s) @ ids_of (registered (ge_pool s)) @ concat (ge_tracks s))"
    by (simp add: gpu_inv_def devices_out_def)
  show ?case using pool_ok_drop [OF ok spawn_failed.hyps] spawn_failed by (simp add: gpu_inv_def devices_out_def)
next
  case (yield k s ids P)
  then show ?case using yield_ok [OF _ yield.hyps] by (simp add: gpu_inv_def devices_out_def)
next
  case (reclaim H k s a P)
  then show ?case using reclaim_ok [OF _ reclaim.hyps] by (simp add: gpu_inv_def devices_out_def)
next
  case (track_take H n s ids P)
  have "pool_ok P (ids @ devices_out s)"
    using pool_ok_take [OF _ track_take.hyps] track_take.prems by (simp add: gpu_inv_def)
  then have "pool_ok P (ids_of (ge_hand s) @ ids_of (registered P) @ ids @ concat (ge_tracks s))"
    by (rule pool_ok_perm) (use registered_acquire [OF track_take.hyps] in \<open>simp add: devices_out_def ac_simps\<close>)
  then show ?case using track_take.prems by (simp add: gpu_inv_def devices_out_def)
next
  case (track_wait H n s a P)
  then show ?case using acquire_else [OF track_wait.hyps] by simp
next
  case (track_give s xs ids ys)
  have "pool_ok (ge_pool s) (devices_out s)" using track_give.prems by (simp add: gpu_inv_def)
  from pool_ok_return [OF this, of ids "ids_of (ge_hand s) @ ids_of (registered (ge_pool s)) @ concat (xs @ ys)"]
  show ?case using track_give by (simp add: gpu_inv_def devices_out_def ac_simps)
qed

lemma gpu_reachable_inv: "gpu_reachable s0 s \<Longrightarrow> gpu_inv s0 \<Longrightarrow> gpu_inv s"
  by (induction rule: gpu_reachable.induct) (auto intro: gpu_step_inv)

lemma idle_engine_inv: "distinct ids \<Longrightarrow> gpu_inv (idle_engine ids mem physical lease)"
  by (simp add: gpu_inv_def pool_ok_def idle_engine_def new_pool_def devices_out_def registered_def
      gpus.balanced_def lease_matches_def yielded_is_empty_def dict_values_def dict_keys_def)

end
