(* ===== verification/GpuDetect.thy ===== *)
theory GpuDetect
  imports GpuPool
begin

text \<open>
  The devices a run starts with: the ordinals of the visible view (\<open>engine/orchestrator.py\<close>) and the
  map to physical selectors and free memory (\<open>engine/resources.py\<close>). The answers of the environment,
  of torch and of nvidia-smi are inputs; a probe that raised is \<open>None\<close>.
\<close>

record gpu_row =
  gr_index :: "int option"
  gr_free :: "int option"

definition row_indices :: "gpu_row list \<Rightarrow> int option list" where
  "row_indices rows = map gr_index rows"

definition schedulable_cuda_tokens :: "gpu_row list option \<Rightarrow> string list option \<Rightarrow> string list option" where
  "schedulable_cuda_tokens probe tokens = (case tokens of None \<Rightarrow> None | Some ts \<Rightarrow>
     (if ts = [] \<or> list_ex (\<lambda>t. \<not> is_decimal t) ts then Some ts
      else (case probe of None \<Rightarrow> Some ts | Some rows \<Rightarrow>
        (if rows = [] \<or> set (row_indices rows) \<noteq> set (map (\<lambda>i. Some (int i)) [0..<length rows]) then Some ts
         else Some (takeWhile (\<lambda>t. Some (decimal_value t) \<in> set (row_indices rows)) ts)))))"

definition visible_tokens_now :: "gpu_row list option \<Rightarrow> pyval \<Rightarrow> string list" where
  "visible_tokens_now probe cvd =
     (case schedulable_cuda_tokens probe (cuda_visible_device_tokens cvd) of None \<Rightarrow> [] | Some ts \<Rightarrow> ts)"

definition range_ids :: "nat \<Rightarrow> int list" where
  "range_ids n = map int [0..<n]"

definition detect_gpu_ids :: "string option \<Rightarrow> nat option \<Rightarrow> gpu_row list option \<Rightarrow> int list" where
  "detect_gpu_ids cvd torch probe = (case cvd of
      Some v \<Rightarrow> range_ids (length (visible_tokens_now probe (PStr v)))
    | None \<Rightarrow> (case torch of Some (Suc n) \<Rightarrow> range_ids (Suc n)
        | _ \<Rightarrow> (case probe of Some rows \<Rightarrow> range_ids (length rows) | None \<Rightarrow> [])))"

fun free_by_index :: "gpu_row list \<Rightarrow> (int \<times> int) list \<Rightarrow> (int \<times> int) list option" where
  "free_by_index [] seen = Some seen"
| "free_by_index (r # rs) seen = (case (gr_index r, gr_free r) of
     (Some i, Some m) \<Rightarrow> if m < 0 \<or> dict_get seen i \<noteq> None then None else free_by_index rs (dict_put i m seen)
   | _ \<Rightarrow> None)"

fun join_memory :: "(int \<times> int) list \<Rightarrow> (int \<times> string) list \<Rightarrow> (int \<times> int) list \<Rightarrow> (int \<times> int) list option" where
  "join_memory by_physical [] joined = Some joined"
| "join_memory by_physical ((logical, token) # rest) joined =
     (if \<not> is_decimal token then None
      else (case dict_get by_physical (decimal_value token) of None \<Rightarrow> None
          | Some m \<Rightarrow> join_memory by_physical rest (dict_put logical m joined)))"

definition detect_gpu_inventory :: "string option \<Rightarrow> gpu_row list option \<Rightarrow> int list \<Rightarrow>
    (int \<times> string) list \<times> (int \<times> int) list" where
  "detect_gpu_inventory cvd probe ids =
     (let tokens = (case cvd of Some v \<Rightarrow> visible_tokens_now probe (PStr v) | None \<Rightarrow> map str_of_int ids)
      in if length tokens \<noteq> length ids then ([], [])
         else (let physical = zip ids tokens
               in case probe of None \<Rightarrow> (physical, [])
                | Some rows \<Rightarrow> (case free_by_index rows [] of None \<Rightarrow> (physical, [])
                    | Some by_physical \<Rightarrow> (case join_memory by_physical physical [] of None \<Rightarrow> (physical, [])
                        | Some joined \<Rightarrow> if length joined = length ids then (physical, joined) else (physical, [])))))"

definition detected_pool :: "string option \<Rightarrow> nat option \<Rightarrow> gpu_row list option \<Rightarrow> bool \<Rightarrow> gpu_pool" where
  "detected_pool cvd torch probe lease =
     (let ids = detect_gpu_ids cvd torch probe
      in case detect_gpu_inventory cvd probe ids of (physical, mem) \<Rightarrow> new_pool ids mem physical (lease \<and> ids \<noteq> []))"

section \<open>The detected box\<close>

lemma distinct_map_takeWhile: "distinct (map f xs) \<Longrightarrow> distinct (map f (takeWhile Q xs))"
  by (induction xs) (auto dest: set_takeWhileD)

lemma distinct_visible_tokens: "distinct (map token_identity (visible_tokens_now probe v))"
proof (cases "cuda_visible_device_tokens v")
  case None
  then show ?thesis by (simp add: visible_tokens_now_def schedulable_cuda_tokens_def)
next
  case (Some ts)
  then have "distinct (map token_identity ts)"
    by (auto simp: cuda_visible_device_tokens_def Let_def split: pyval.splits if_splits)
  then have "distinct (map token_identity (takeWhile Q ts))" for Q
    by (rule distinct_map_takeWhile)
  then show ?thesis using \<open>distinct (map token_identity ts)\<close> Some
    by (simp add: visible_tokens_now_def schedulable_cuda_tokens_def split: option.splits)
qed

lemma visible_tokens_stripped: "t \<in> set (visible_tokens_now probe v) \<Longrightarrow> \<exists>u. t = py_strip u"
  by (auto simp: visible_tokens_now_def schedulable_cuda_tokens_def cuda_visible_device_tokens_def Let_def
      dest!: set_takeWhileD split: option.splits if_splits pyval.splits)

lemma dropWhile_rev_rev:
  "dropWhile p (rev (dropWhile p (rev (dropWhile p xs)))) = rev (dropWhile p (rev (dropWhile p xs)))"
proof -
  let ?ys = "dropWhile p xs"
  let ?zs = "rev (dropWhile p (rev ?ys))"
  have "rev ?ys = takeWhile p (rev ?ys) @ dropWhile p (rev ?ys)" by (simp only: takeWhile_dropWhile_id)
  then have split: "?ys = ?zs @ rev (takeWhile p (rev ?ys))" by (metis rev_append rev_rev_ident)
  show ?thesis
  proof (cases "?zs = []")
    case False
    then have "hd ?zs = hd ?ys" "?ys \<noteq> []" using split by (metis hd_append append_is_Nil_conv)+
    then have "\<not> p (hd ?zs)" using hd_dropWhile by metis
    then show ?thesis by (metis dropWhile_eq_self_iff)
  next
    case True
    then show ?thesis by (simp only: dropWhile.simps)
  qed
qed

lemma py_strip_idem [simp]: "py_strip (py_strip s) = py_strip s"
  by (simp only: py_strip_def dropWhile_rev_rev rev_rev_ident dropWhile_idem)

lemma digit_char_simps [simp]:
  "n < 10 \<Longrightarrow> digit_of (char_of (48 + n)) = Some (int n)" "n < 10 \<Longrightarrow> \<not> is_space (char_of (48 + n))"
  by (simp_all add: digit_of_def is_space_def Let_def of_char_of)

lemma str_of_nat_digits: "str_of_nat n \<noteq> [] \<and> (\<forall>c\<in>set (str_of_nat n). digit_of c \<noteq> None \<and> \<not> is_space c)"
proof (induction n rule: str_of_nat.induct)
  case (1 n)
  then show ?case by (subst (1 2) str_of_nat.simps) auto
qed

lemma decimal_value_snoc: "decimal_value (s @ [c]) = 10 * decimal_value s + the (digit_of c)"
  by (simp add: decimal_value_def)

lemma decimal_value_str_of_nat: "decimal_value (str_of_nat n) = int n"
proof (induction n rule: str_of_nat.induct)
  case (1 n)
  show ?case
  proof (cases "n < 10")
    case True
    then show ?thesis by (subst str_of_nat.simps) (simp add: decimal_value_def)
  next
    case False
    then show ?thesis using 1
      by (subst str_of_nat.simps) (simp add: decimal_value_snoc zmod_int zdiv_int)
  qed
qed

lemma py_strip_plain: "\<forall>c\<in>set s. \<not> is_space c \<Longrightarrow> py_strip s = s"
  by (simp add: py_strip_def dropWhile_eq_self_iff)
     (metis dropWhile_eq_self_iff hd_in_set list.set_sel(1) rev_rev_ident set_rev)

lemma str_of_ordinal:
  "0 \<le> i \<Longrightarrow> py_strip (str_of_int i) = str_of_int i \<and> token_identity (str_of_int i) = Inl i"
  using str_of_nat_digits [of "nat i"]
  by (simp add: str_of_int_def py_strip_plain token_identity_def is_decimal_def list_all_iff decimal_value_str_of_nat)

lemma map_snd_zip_tokens: "length ids = length ts \<Longrightarrow> map (\<lambda>(g, t). f t) (zip ids ts) = map f ts"
  by (simp add: case_prod_unfold flip: map_map [of f snd, unfolded comp_def])

lemma join_memory_keys:
  "join_memory by_physical physical joined = Some out \<Longrightarrow>
    set (dict_keys out) = set (map fst physical) \<union> set (dict_keys joined) \<and>
    (distinct (dict_keys joined) \<longrightarrow> distinct (dict_keys out))"
proof (induction by_physical physical joined rule: join_memory.induct)
  case (2 by_physical logical token rest joined)
  then show ?case by (auto simp: set_dict_keys_put split: if_splits option.splits)
qed simp

lemma detected_ids: "\<exists>n. detect_gpu_ids cvd torch probe = range_ids n"
  unfolding detect_gpu_ids_def
  by (cases cvd; cases torch; cases probe) (auto simp: range_ids_def split: nat.splits intro: exI [of _ "0 :: nat"] simp del: upt_Suc)

lemma detected_box_is_consistent:
  "distinct (gp_ids (detected_pool cvd torch probe lease)) \<and>
   dict_keys (gp_physical (detected_pool cvd torch probe lease)) = gp_ids (detected_pool cvd torch probe lease) \<and>
   distinct (map (\<lambda>(g, t). token_identity (py_strip t)) (gp_physical (detected_pool cvd torch probe lease))) \<and>
   (gp_mem (detected_pool cvd torch probe lease) = [] \<or>
    distinct (dict_keys (gp_mem (detected_pool cvd torch probe lease))) \<and>
    set (dict_keys (gp_mem (detected_pool cvd torch probe lease))) = set (gp_ids (detected_pool cvd torch probe lease)))"
proof -
  define ids where "ids = detect_gpu_ids cvd torch probe"
  define physical where "physical = fst (detect_gpu_inventory cvd probe ids)"
  define mem where "mem = snd (detect_gpu_inventory cvd probe ids)"
  define tokens where "tokens = (case cvd of Some v \<Rightarrow> visible_tokens_now probe (PStr v) | None \<Rightarrow> map str_of_int ids)"
  obtain n where n: "ids = range_ids n" using detected_ids ids_def by blast
  have len: "length tokens = length ids"
    by (cases cvd) (simp_all add: tokens_def ids_def detect_gpu_ids_def range_ids_def)
  have phys: "physical = zip ids tokens"
    using len unfolding physical_def detect_gpu_inventory_def tokens_def [symmetric] Let_def
    by (simp split: option.splits)
  have "distinct (map (\<lambda>t. token_identity (py_strip t)) tokens)"
  proof (cases cvd)
    case None
    have "map (\<lambda>t. token_identity (py_strip t)) tokens = map Inl ids"
      unfolding tokens_def None n by (simp add: range_ids_def str_of_ordinal)
    then show ?thesis by (simp add: n range_ids_def distinct_map inj_on_def)
  next
    case (Some v)
    have "map (\<lambda>t. token_identity (py_strip t)) tokens = map token_identity tokens"
      using visible_tokens_stripped by (force simp: tokens_def Some)
    then show ?thesis using distinct_visible_tokens by (metis Some option.case(2) tokens_def)
  qed
  then have "distinct (map (\<lambda>(g, t). token_identity (py_strip t)) physical)"
    using len by (simp add: phys map_snd_zip_tokens)
  moreover have "mem = [] \<or> distinct (dict_keys mem) \<and> set (dict_keys mem) = set ids"
  proof (cases "mem = []")
    case False
    then obtain by_physical where "join_memory by_physical (zip ids tokens) [] = Some mem"
      using len unfolding mem_def detect_gpu_inventory_def tokens_def [symmetric] Let_def
      by (auto split: option.splits if_splits)
    from join_memory_keys [OF this] show ?thesis using len by (simp add: dict_keys_def)
  qed simp
  moreover have "detected_pool cvd torch probe lease = new_pool ids mem physical (lease \<and> ids \<noteq> [])"
    by (simp add: detected_pool_def ids_def mem_def physical_def case_prod_beta Let_def)
  ultimately show ?thesis using len n
    by (simp add: phys dict_keys_def range_ids_def distinct_map new_pool_def)
qed

end
