(* ===== verification/EvalClock.thy ===== *)
theory EvalClock
  imports GpuPool
begin

text \<open>
  The ledger of evaluation seconds around the lanes of a run: a lane is admitted by
  \<open>eval_time_admission_blocked\<close>, commits its worst case, is charged what it really cost when its
  terminal lands, and then gives the reservation back in its \<open>finally\<close> (\<open>eval_dispatch.py\<close>).
\<close>

record eval_clock =
  ec_spent :: real
  ec_pool :: gpu_pool
  ec_charged :: "lane_key list"
  ec_overrun :: real

text \<open>Steps: \<open>g\<close> is the estimate the gate was asked with (before the scan, the one of the run), \<open>e\<close>
  the one the lane commits, \<open>a\<close> what it cost. The overrun collects what lanes cost above their commitment.\<close>

inductive lane_clock_step :: "real \<Rightarrow> real \<Rightarrow> eval_clock \<Rightarrow> eval_clock \<Rightarrow> bool" for limit worst where
  admit: "\<not> eval_time_admission_blocked (ec_spent c) (reserved_eval_seconds (ec_pool c)) g (Some limit) \<Longrightarrow>
    0 \<le> g \<Longrightarrow> e \<le> worst \<Longrightarrow> dict_get (gp_eval_seconds (ec_pool c)) k = None \<Longrightarrow>
    lane_clock_step limit worst c (c\<lparr>ec_pool := reserve_eval_seconds k e (ec_pool c)\<rparr>)"
| charge: "dict_get (gp_eval_seconds (ec_pool c)) k = Some e \<Longrightarrow> k \<notin> set (ec_charged c) \<Longrightarrow> 0 \<le> a \<Longrightarrow>
    lane_clock_step limit worst c (c\<lparr>ec_spent := ec_spent c + a, ec_charged := k # ec_charged c,
      ec_overrun := ec_overrun c + max 0 (a - e)\<rparr>)"
| release: "lane_clock_step limit worst c (c\<lparr>ec_pool := release_eval_seconds k (ec_pool c),
      ec_charged := filter (\<lambda>j. j \<noteq> k) (ec_charged c)\<rparr>)"

inductive lane_clock_reachable :: "real \<Rightarrow> real \<Rightarrow> eval_clock \<Rightarrow> bool" for limit worst where
  start: "gp_eval_seconds P = [] \<Longrightarrow> lane_clock_reachable limit worst \<lparr>ec_spent = 0, ec_pool = P, ec_charged = [], ec_overrun = 0\<rparr>"
| step: "lane_clock_reachable limit worst c \<Longrightarrow> lane_clock_step limit worst c d \<Longrightarrow> lane_clock_reachable limit worst d"

definition still_to_charge :: "eval_clock \<Rightarrow> real" where
  "still_to_charge c = sum_list (map snd (filter (\<lambda>(k, e). k \<notin> set (ec_charged c)) (gp_eval_seconds (ec_pool c))))"

definition lane_clock_inv :: "real \<Rightarrow> real \<Rightarrow> eval_clock \<Rightarrow> bool" where
  "lane_clock_inv limit worst c \<longleftrightarrow> distinct (dict_keys (gp_eval_seconds (ec_pool c))) \<and>
     list_all (\<lambda>e. 0 \<le> e) (dict_values (gp_eval_seconds (ec_pool c))) \<and> 0 \<le> ec_overrun c \<and>
     ec_spent c + still_to_charge c \<le> limit + worst + ec_overrun c"

lemma sum_filter_le:
  "list_all (\<lambda>e. (0::real) \<le> e) (dict_values d) \<Longrightarrow> sum_list (map snd (filter Q d)) \<le> sum_list (dict_values d)"
  by (induction d) (auto simp: dict_values_def)

lemma sum_filter_pop:
  assumes "list_all (\<lambda>e. (0::real) \<le> e) (dict_values d)"
  shows "sum_list (map snd (filter (\<lambda>(j, e). j \<noteq> k \<and> j \<notin> K) d)) \<le> sum_list (map snd (filter (\<lambda>(j, e). j \<notin> K) d))"
  using assms by (induction d) (auto simp: dict_values_def)

lemma sum_filter_split:
  "distinct (dict_keys d) \<Longrightarrow> dict_get d k = Some (e::real) \<Longrightarrow> k \<notin> K \<Longrightarrow>
    sum_list (map snd (filter (\<lambda>(j, x). j \<notin> K) d)) = e + sum_list (map snd (filter (\<lambda>(j, x). j \<noteq> k \<and> j \<notin> K) d))"
proof (induction d)
  case (Cons p d)
  obtain j x where p: "p = (j, x)" by fastforce
  show ?case
  proof (cases "j = k")
    case True
    then have "filter (\<lambda>(j, x). j \<noteq> k \<and> j \<notin> K) d = filter (\<lambda>(j, x). j \<notin> K) d"
      using Cons.prems(1) p by (intro filter_cong) (auto simp: dict_keys_def image_iff)
    then show ?thesis using Cons.prems p True by simp
  next
    case False
    then show ?thesis using Cons p by (simp add: dict_keys_def algebra_simps)
  qed
qed simp

lemma dict_put_absent: "dict_get d k = None \<Longrightarrow> dict_put k v d = d @ [(k, v)]"
  by (induction d) (auto simp: dict_put_def split: if_splits)

lemma lane_clock_step_inv:
  assumes "lane_clock_step limit worst c d" "lane_clock_inv limit worst c" "0 \<le> worst"
  shows "lane_clock_inv limit worst d"
  using assms(1)
proof cases
  case (admit g e k)
  let ?d = "gp_eval_seconds (ec_pool c)" and ?K = "set (ec_charged c)"
  have new: "dict_put k (max 0 e) ?d = ?d @ [(k, max 0 e)]"
    using admit(5) by (rule dict_put_absent)
  have le: "still_to_charge c \<le> reserved_eval_seconds (ec_pool c)"
    unfolding still_to_charge_def reserved_eval_seconds_def
    by (rule sum_filter_le) (use assms(2) in \<open>simp add: lane_clock_inv_def\<close>)
  have room: "ec_spent c + reserved_eval_seconds (ec_pool c) \<le> limit"
    using admit(2,3) by (auto simp: eval_time_admission_blocked_def)
  have "still_to_charge d \<le> still_to_charge c + max 0 e"
    using admit(1) new by (simp add: still_to_charge_def reserve_eval_seconds_def)
  moreover have "distinct (dict_keys (?d @ [(k, max 0 e)]))"
    unfolding new [symmetric] using assms(2) by (simp add: lane_clock_inv_def)
  ultimately show ?thesis using assms(2,3) admit(1,4) new le room
    by (auto simp: lane_clock_inv_def reserve_eval_seconds_def dict_values_def)
next
  case (charge k e a)
  have "still_to_charge c = e + still_to_charge d"
    using sum_filter_split [OF _ charge(2,3)] assms(2) charge(1)
    by (simp add: lane_clock_inv_def still_to_charge_def)
  then show ?thesis using assms(2) charge(1) by (auto simp: lane_clock_inv_def)
next
  case (release k)
  let ?d = "gp_eval_seconds (ec_pool c)"
  have "still_to_charge d = sum_list (map snd (filter (\<lambda>(j, e). j \<noteq> k \<and> j \<notin> set (ec_charged c)) ?d))"
    using release by (auto simp: still_to_charge_def release_eval_seconds_def dict_pop_def AList.delete_eq
        intro!: arg_cong [where f = "\<lambda>xs. sum_list (map snd xs)"] filter_cong)
  then have "still_to_charge d \<le> still_to_charge c"
    unfolding still_to_charge_def using assms(2)
    by (simp only: lane_clock_inv_def) (elim conjE, rule sum_filter_pop)
  moreover have "list_all (\<lambda>e. 0 \<le> e) (dict_values (dict_pop k ?d))"
    using assms(2) by (auto simp: lane_clock_inv_def list_all_iff dict_values_def dict_pop_def AList.delete_eq)
  ultimately show ?thesis using assms(2) release by (auto simp: lane_clock_inv_def release_eval_seconds_def)
qed

lemma lane_clock_reachable_inv: "lane_clock_reachable limit worst c \<Longrightarrow> 0 \<le> limit \<Longrightarrow> 0 \<le> worst \<Longrightarrow> lane_clock_inv limit worst c"
proof (induction rule: lane_clock_reachable.induct)
  case (start P)
  then show ?case by (simp add: lane_clock_inv_def still_to_charge_def dict_keys_def dict_values_def)
qed (use lane_clock_step_inv in blast)

end
