(* ===== verification/GpuProps.thy ===== *)
theory GpuProps
  imports GpuRun GpuDetect EvalClock
begin

text \<open>
  What the resource scheduler promises: the properties of the pool, of the lease in front of it, of
  the seconds ledger and of the devices a child process sees.
\<close>

section \<open>Over-declared requests\<close>

lemma count_of_sorted_desc:
  fixes xs :: "int list"
  assumes "sorted_wrt (\<lambda>x y. y \<le> x) xs" "n < length xs"
  shows "Suc n \<le> length (filter (\<lambda>x. xs ! n \<le> x) xs)"
proof -
  have "xs ! n \<le> x" if "x \<in> set (take (Suc n) xs)" for x
  proof -
    obtain i where "i < length (take (Suc n) xs)" "take (Suc n) xs ! i = x"
      using \<open>x \<in> set (take (Suc n) xs)\<close> by (auto simp only: in_set_conv_nth)
    then show ?thesis using assms by (cases "i = n") (auto simp: sorted_wrt_iff_nth_less)
  qed
  then have "filter (\<lambda>x. xs ! n \<le> x) (take (Suc n) xs) = take (Suc n) xs" by (simp add: filter_id_conv)
  moreover have "length (filter (\<lambda>x. xs ! n \<le> x) xs) = length (filter (\<lambda>x. xs ! n \<le> x) (take (Suc n) xs))
      + length (filter (\<lambda>x. xs ! n \<le> x) (drop (Suc n) xs))"
    by (metis append_take_drop_id filter_append length_append)
  ultimately show ?thesis using assms(2) by simp
qed

lemma memory_envelope_fits:
  assumes "memory_envelope P n = Some e" "1 \<le> n" "n \<le> int (length (gp_mem P))"
  shows "n \<le> int (length (filter (\<lambda>m. e \<le> m) (dict_values (gp_mem P))))"
proof -
  let ?s = "py_sorted True id (dict_values (gp_mem P))"
  have e: "e = ?s ! (nat n - 1)" using assms by (auto simp: memory_envelope_def Let_def min_def dict_values_def split: if_splits)
  have "sorted_wrt (\<lambda>x y. y \<le> x) ?s"
    using sorted_wrt_py_sorted [where r = True and key = id and xs = "dict_values (gp_mem P)"] by simp
  moreover have "nat n - 1 < length ?s" using assms by (simp add: dict_values_def)
  ultimately have "Suc (nat n - 1) \<le> length (filter (\<lambda>x. e \<le> x) ?s)"
    unfolding e by (rule count_of_sorted_desc)
  also have "length (filter (\<lambda>x. e \<le> x) ?s) = length (filter (\<lambda>x. e \<le> x) (dict_values (gp_mem P)))"
    by (metis mset_filter mset_py_sorted size_mset)
  finally show ?thesis using assms(2) by simp
qed

lemma length_filter_weaken:
  "(\<And>x. P x \<Longrightarrow> Q x) \<Longrightarrow> length (filter P xs) \<le> length (filter Q xs)"
  by (induction xs) (auto simp: le_SucI)

text \<open>The memory inventory of a pool is empty or has one row per device.\<close>

definition inventory_ok :: "gpu_pool \<Rightarrow> bool" where
  "inventory_ok P \<longleftrightarrow> distinct (gp_ids P) \<and> (gp_mem P = [] \<or>
     distinct (dict_keys (gp_mem P)) \<and> set (dict_keys (gp_mem P)) = set (gp_ids P))"

lemma fitting_when_idle:
  assumes "inventory_ok P" "mset (gp_free P) = mset (gp_ids P)" "1 \<le> n" "n \<le> int (length (gp_ids P))"
  shows "n \<le> int (length (fitting_gpus P (wanted_memory P n m)))"
proof -
  have len: "length (gp_free P) = length (gp_ids P)" using assms(2) by (metis size_mset)
  show ?thesis
  proof (cases "m = None \<or> gp_mem P = []")
    case True
    then have "fitting_gpus P (wanted_memory P n m) = gp_free P"
      by (auto simp: fitting_gpus_def wanted_memory_def filter_id_conv split: option.splits)
    then show ?thesis using assms(4) len by simp
  next
    case False
    then obtain m0 where m: "m = Some m0" and mem: "gp_mem P \<noteq> []" by (cases m) auto
    have keys: "distinct (dict_keys (gp_mem P))" "set (dict_keys (gp_mem P)) = set (gp_ids P)"
      using assms(1) mem by (auto simp: inventory_ok_def)
    then have lmem: "length (gp_mem P) = length (gp_ids P)"
      using assms(1) by (metis dict_keys_def distinct_card inventory_ok_def length_map)
    obtain e where e: "memory_envelope P n = Some e"
      using mem by (auto simp: memory_envelope_def Let_def dict_values_def)
    let ?w = "min (max 0 m0) e"
    have perm: "mset (gp_free P) = mset (dict_keys (gp_mem P))"
      using keys assms(1,2) by (metis inventory_ok_def set_eq_iff_mset_eq_distinct)
    have "fitting_gpus P (wanted_memory P n m)
        = filter (\<lambda>g. ?w \<le> (case dict_get (gp_mem P) g of Some k \<Rightarrow> k | None \<Rightarrow> -1)) (gp_free P)"
      using m e mem by (simp add: fitting_gpus_def wanted_memory_def)
    then have "length (fitting_gpus P (wanted_memory P n m))
        = length (filter (\<lambda>g. ?w \<le> (case dict_get (gp_mem P) g of Some k \<Rightarrow> k | None \<Rightarrow> -1)) (dict_keys (gp_mem P)))"
      using perm by (metis mset_filter size_mset)
    also have "\<dots> = length (filter (\<lambda>(g, k). ?w \<le> k) (gp_mem P))"
      unfolding dict_keys_def filter_map length_map comp_def
      by (rule arg_cong [where f = length], rule filter_cong) (use keys(1) in \<open>auto simp: dict_keys_def\<close>)
    also have "\<dots> = length (filter (\<lambda>k. ?w \<le> k) (dict_values (gp_mem P)))"
      by (simp add: dict_values_def filter_map comp_def case_prod_unfold)
    finally have "length (fitting_gpus P (wanted_memory P n m)) \<ge> length (filter (\<lambda>k. e \<le> k) (dict_values (gp_mem P)))"
      using length_filter_weaken [of "\<lambda>k. e \<le> k" "\<lambda>k. ?w \<le> k"] by (simp add: min_le_iff_disj)
    then show ?thesis using memory_envelope_fits [OF e assms(3)] assms(4) lmem by linarith
  qed
qed

lemma served_when_idle:
  assumes "inventory_ok P" "mset (gp_free P) = mset (gp_ids P)"
    and "\<not> h_gate_blocked h" "lease_answer h P = Granted"
  shows "\<exists>ids. fst (acquire_gpus h n m P) = Got ids \<and> int (length ids) = min (max 0 n) (int (length (gp_ids P))) \<and>
    distinct ids \<and> set ids \<subseteq> set (gp_ids P)"
proof -
  obtain a P' where ac: "acquire_gpus h n m P = (a, P')" by fastforce
  have dist: "distinct (gp_free P)" "set (gp_free P) = set (gp_ids P)"
    using assms(1,2) by (auto simp: inventory_ok_def dest: mset_eq_setD mset_eq_imp_distinct_iff)
  show ?thesis
  proof (cases "clamped_count n P = 0")
    case True
    then show ?thesis by (auto simp: acquire_gpus_def clamped_count_def)
  next
    case False
    then have c: "1 \<le> clamped_count n P" using clamped_count_nonneg [of n P] by linarith
    have le: "clamped_count n P \<le> int (length (gp_ids P))" by (simp add: clamped_count_def)
    let ?f = "fitting_gpus P (wanted_memory P (clamped_count n P) m)"
    have fit: "clamped_count n P \<le> int (length ?f)" by (rule fitting_when_idle [OF assms(1,2) c le])
    then have "fst (acquire_gpus h n m P) = Got (take (nat (clamped_count n P)) ?f)"
      using False assms(3,4) by (simp add: acquire_gpus_def Let_def)
    moreover have "set (take (nat (clamped_count n P)) ?f) \<subseteq> set (gp_ids P)"
      using set_take_subset [of _ ?f] set_fitting_gpus [of P] dist(2) by blast
    ultimately show ?thesis using fit dist(1) by (auto simp: clamped_count_def)
  qed
qed

definition detected_engine :: "string option \<Rightarrow> nat option \<Rightarrow> gpu_row list option \<Rightarrow> bool \<Rightarrow> gpu_engine" where
  "detected_engine cvd torch probe lease = \<lparr>ge_pool = detected_pool cvd torch probe lease, ge_hand = [], ge_tracks = []\<rparr>"

lemma detected_engine_idle:
  obtains ids mem physical where
    "detected_engine cvd torch probe lease = idle_engine ids mem physical (lease \<and> ids \<noteq> [])"
    "detected_pool cvd torch probe lease = new_pool ids mem physical (lease \<and> ids \<noteq> [])"
  by (cases "detect_gpu_inventory cvd probe (detect_gpu_ids cvd torch probe)")
    (auto simp: detected_engine_def detected_pool_def idle_engine_def Let_def)

section \<open>Every device has one holder\<close>

text \<open>What the machine is never changes under a run.\<close>

definition box_of :: "gpu_pool \<Rightarrow> int list \<times> (int \<times> int) list \<times> (int \<times> string) list \<times> bool" where
  "box_of P = (gp_ids P, gp_mem P, gp_physical P, gp_lease_path P)"

lemma box_of_simps [simp]:
  "box_of (release_gpus ids P) = box_of P" "box_of (register_reservation k r P) = box_of P"
  "box_of (clear_reservation k P) = box_of P" "box_of (settle_reservation k a P) = box_of P"
  by (simp_all add: box_of_def release_gpus_def Let_def register_reservation_def clear_reservation_def settle_reservation_def)

lemma box_of_acquire: "acquire_gpus h n m P = (a, P') \<Longrightarrow> box_of P' = box_of P"
  by (elim acquire_gpus_cases) (auto simp: box_of_def)

lemma box_of_step: "gpu_step s t \<Longrightarrow> box_of (ge_pool t) = box_of (ge_pool s)"
proof (induction rule: gpu_step.induct)
  case (yield k s ids P)
  then show ?case by (auto simp: yield_devices_def split: option.splits if_splits)
next
  case (reclaim H k s a P)
  then show ?case
    by (auto simp: reclaim_devices_def Let_def dest: box_of_acquire split: option.splits if_splits acquired.splits prod.splits)
qed (auto elim!: try_reserve_cases dest: box_of_acquire)

lemma gpu_reachable_box: "gpu_reachable s0 s \<Longrightarrow> box_of (ge_pool s) = box_of (ge_pool s0)"
  by (induction rule: gpu_reachable.induct) (simp_all add: box_of_step)

lemma idle_engine_box: "box_of (ge_pool (idle_engine ids mem physical lease)) = (ids, mem, physical, lease)"
  by (simp add: box_of_def idle_engine_def new_pool_def)

lemma reachable_ok:
  "distinct ids \<Longrightarrow> gpu_reachable (idle_engine ids mem physical lease) s \<Longrightarrow>
    pool_ok (ge_pool s) (devices_out s) \<and> box_of (ge_pool s) = (ids, mem, physical, lease)"
  using gpu_reachable_inv idle_engine_inv gpu_reachable_box idle_engine_box by (metis gpu_inv_def)

definition box :: gpu_engine where
  "box = detected_engine (Some ''4,GPU-ab'') None (Some [\<lparr>gr_index = Some 0, gr_free = Some 80\<rparr>]) True"

lemma box_idle: "box = idle_engine [0, 1] [] [(0, ''4''), (1, ''GPU-ab'')] True"
  by code_simp

definition open_host :: host where
  "open_host = \<lparr>h_gate_blocked = False, h_queue_head = Some True, h_lease = Granted, h_abandoned = False, h_lease_again = Busy\<rparr>"

definition one_gpu :: request where
  "one_gpu = \<lparr>rq_count = 1, rq_mem = Some 30, rq_cpu_only = False, rq_required_unavailable = False,
     rq_unspecified = False, rq_task_gpu_capable = True, rq_pin = True, rq_footprint = None\<rparr>"

definition with_lane :: "lane_key \<Rightarrow> gpu_engine \<Rightarrow> gpu_engine" where
  "with_lane k s = (case try_reserve open_host one_gpu (ge_pool s) of
      (Some r, P) \<Rightarrow> s\<lparr>ge_pool := register_reservation k r P\<rparr> | (None, P) \<Rightarrow> s)"

definition busy_box :: gpu_engine where
  "busy_box = with_lane (2, 0) (with_lane (1, 0) box)"

lemma with_lane_reachable:
  assumes "gpu_reachable s0 s" "ge_hand s = []" "dict_get (gp_reservations (ge_pool s)) k = None"
  shows "gpu_reachable s0 (with_lane k s)"
proof (cases "fst (try_reserve open_host one_gpu (ge_pool s))")
  case None
  then have "with_lane k s = s" by (simp add: with_lane_def case_prod_beta)
  then show ?thesis using assms(1) by simp
next
  case (Some r)
  then obtain P where tr: "try_reserve open_host one_gpu (ge_pool s) = (Some r, P)" by (metis prod.collapse)
  have 1: "gpu_reachable s0 (s\<lparr>ge_pool := P, ge_hand := [r]\<rparr>)"
    using gpu_reachable.step [OF assms(1) gpu_step.reserve [OF tr]] assms(2) by simp
  have regs: "gp_reservations P = gp_reservations (ge_pool s)"
    using tr by (elim try_reserve_cases) (auto simp: gp_reservations_acquire)
  have "gpu_step (s\<lparr>ge_pool := P, ge_hand := [r]\<rparr>) (s\<lparr>ge_pool := register_reservation k r P, ge_hand := []\<rparr>)"
    using gpu_step.register [of "s\<lparr>ge_pool := P, ge_hand := [r]\<rparr>" "[]" r "[]" k] assms(3) regs by simp
  with 1 have "gpu_reachable s0 (s\<lparr>ge_pool := register_reservation k r P, ge_hand := []\<rparr>)" by (rule gpu_reachable.step)
  then show ?thesis using tr assms(2) by (cases s) (simp add: with_lane_def)
qed

lemma busy_box_reachable: "gpu_reachable box busy_box"
proof -
  have 1: "ge_hand box = []" "dict_get (gp_reservations (ge_pool box)) (1, 0) = None" by code_simp+
  have 2: "ge_hand (with_lane (1, 0) box) = []"
    "dict_get (gp_reservations (ge_pool (with_lane (1, 0) box))) (2, 0) = None" by code_simp+
  show ?thesis unfolding busy_box_def
    by (rule with_lane_reachable [OF with_lane_reachable [OF gpu_reachable.start 1] 2])
qed

lemma busy_box_devices: "devices_out busy_box = [0, 1]"
  by code_simp

text \<open>C11. Whatever the dispatcher, the inline repairs and the operator's tracks do, and however the
  host answers, each GPU of the box is at every moment in exactly one place: free, or with one holder.
  No two evaluations are given the same device, and none is lost.\<close>

theorem no_gpu_is_shared:
  assumes "distinct ids" "gpu_reachable (idle_engine ids mem physical lease) s"
  shows "mset (gp_free (ge_pool s) @ devices_out s) = mset ids \<and> distinct (gp_free (ge_pool s) @ devices_out s)"
proof -
  have ok: "gpus.balanced (ge_pool s) (devices_out s)" "gp_ids (ge_pool s) = ids"
    using reachable_ok [OF assms] by (simp_all add: pool_ok_def box_of_def)
  then show ?thesis using gpus.balanced_distinct [OF ok(1)] by (simp add: gpus.balanced_def)
qed

text \<open>The lease on the host's GPUs is held exactly while some device of this run is out: it is
  never given back under a running evaluation, and never kept by an idle run.\<close>

theorem lease_held_while_a_gpu_is_out:
  assumes "distinct ids" "gpu_reachable (idle_engine ids mem physical lease) s"
  shows "gp_lease_held (ge_pool s) \<longleftrightarrow> lease \<and> devices_out s \<noteq> []"
proof -
  have ok: "pool_ok (ge_pool s) (devices_out s)" "gp_ids (ge_pool s) = ids" "gp_lease_path (ge_pool s) = lease"
    using reachable_ok [OF assms] by (simp_all add: box_of_def)
  then have "length (gp_free (ge_pool s)) + length (devices_out s) = length ids"
    unfolding pool_ok_def gpus.balanced_def by (metis length_append size_mset)
  then have "devices_out s \<noteq> [] \<longleftrightarrow> length (gp_free (ge_pool s)) < length ids"
    by (cases "devices_out s") auto
  then show ?thesis using ok by (simp add: pool_ok_def lease_matches_def)
qed

section \<open>What a launched evaluation sees\<close>





theorem no_gpu_is_shared_witness:
  "mset (gp_free (ge_pool busy_box) @ devices_out busy_box) = mset [0, 1] \<and>
     distinct (gp_free (ge_pool busy_box) @ devices_out busy_box)"
  by (rule no_gpu_is_shared) (use busy_box_reachable in \<open>auto simp: box_idle\<close>)

theorem lease_held_while_a_gpu_is_out_witness:
  "(gp_lease_held (ge_pool busy_box) \<longleftrightarrow> True \<and> devices_out busy_box \<noteq> []) \<and> devices_out busy_box = [0, 1]"
  using lease_held_while_a_gpu_is_out [of "[0, 1]", OF _ busy_box_reachable [unfolded box_idle]] busy_box_devices by simp



section \<open>A request larger than the box\<close>

text \<open>A request that asks for more devices or more memory than the box has is never refused
  for its size: when nothing is out, the gate is open and the lease free, _acquire_gpus answers at once
  with the requested number of devices, capped at the box, whatever count and memory were asked.\<close>

theorem over_declared_request_is_served:
  assumes "gpu_reachable (detected_engine cvd torch probe lease) s" "devices_out s = []"
    and "\<not> h_gate_blocked h" "lease_answer h (ge_pool s) = Granted"
  shows "\<exists>ids. fst (acquire_gpus h n m (ge_pool s)) = Got ids \<and> distinct ids \<and> set ids \<subseteq> set (gp_ids (ge_pool s)) \<and>
    int (length ids) = min (max 0 n) (int (length (detect_gpu_ids cvd torch probe)))"
proof -
  obtain ids mem physical where eng: "detected_engine cvd torch probe lease = idle_engine ids mem physical (lease \<and> ids \<noteq> [])"
    and pool: "detected_pool cvd torch probe lease = new_pool ids mem physical (lease \<and> ids \<noteq> [])"
    by (rule detected_engine_idle)
  have ids: "distinct ids" "ids = detect_gpu_ids cvd torch probe"
    using detected_box_is_consistent [of cvd torch probe lease] pool
    by (auto simp: new_pool_def detected_pool_def Let_def split: prod.splits)
  have ok: "pool_ok (ge_pool s) []" "box_of (ge_pool s) = (ids, mem, physical, lease \<and> ids \<noteq> [])"
    using reachable_ok [OF ids(1) assms(1) [unfolded eng]] assms(2) by simp_all
  have "inventory_ok (ge_pool s)"
    using detected_box_is_consistent [of cvd torch probe lease] ok(2) by (auto simp: pool new_pool_def inventory_ok_def box_of_def)
  moreover have "mset (gp_free (ge_pool s)) = mset (gp_ids (ge_pool s))"
    using ok(1) by (simp add: pool_ok_def gpus.balanced_def)
  ultimately show ?thesis using served_when_idle [OF _ _ assms(3,4), of n m] ok(2) ids(2)
    by (auto simp: box_of_def)
qed

theorem over_declared_request_is_served_witness:
  "\<exists>ids. fst (acquire_gpus open_host 7 (Some 9000) (ge_pool box)) = Got ids \<and> distinct ids \<and> set ids \<subseteq> set (gp_ids (ge_pool box)) \<and>
     int (length ids) = min (max 0 7) (int (length (detect_gpu_ids (Some ''4,GPU-ab'') None (Some [\<lparr>gr_index = Some 0, gr_free = Some 80\<rparr>]))))"
  by (rule over_declared_request_is_served [of _ _ _ True])
    (simp_all add: gpu_reachable.start box_def [symmetric], code_simp+)

section \<open>Evaluation seconds\<close>

text \<open>However lanes are admitted, charged and settled in parallel, the seconds a run is charged
  pass the limit by at most one worst-case evaluation, plus what evaluations cost above their own
  worst case; the seconds the lanes in flight may still charge are inside the same bound.\<close>

theorem eval_seconds_overshoot_is_one_evaluation:
  assumes "lane_clock_reachable limit worst c" "0 \<le> limit" "0 \<le> worst"
  shows "0 \<le> still_to_charge c \<and> ec_spent c + still_to_charge c \<le> limit + worst + ec_overrun c"
proof -
  have inv: "lane_clock_inv limit worst c" by (rule lane_clock_reachable_inv [OF assms])
  have "0 \<le> still_to_charge c" unfolding still_to_charge_def
    by (rule sum_list_nonneg) (use inv in \<open>auto simp: lane_clock_inv_def list_all_iff dict_values_def\<close>)
  then show ?thesis using inv by (simp add: lane_clock_inv_def)
qed

definition one_lane_clock :: eval_clock where
  "one_lane_clock = \<lparr>ec_spent = 0, ec_pool = reserve_eval_seconds (1, 0) 5 (ge_pool box), ec_charged = [], ec_overrun = 0\<rparr>"

lemma one_lane_clock_is_reachable: "lane_clock_reachable 4 6 one_lane_clock"
proof -
  let ?c = "\<lparr>ec_spent = 0, ec_pool = ge_pool box, ec_charged = [], ec_overrun = 0\<rparr>"
  have empty: "gp_eval_seconds (ge_pool box) = []" by (simp add: box_idle idle_engine_def new_pool_def)
  have "lane_clock_step 4 6 ?c (?c\<lparr>ec_pool := reserve_eval_seconds (1, 0) 5 (ec_pool ?c)\<rparr>)"
    by (rule lane_clock_step.admit [where g = 5])
      (simp_all add: empty eval_time_admission_blocked_def reserved_eval_seconds_def dict_values_def)
  from lane_clock_reachable.step [OF lane_clock_reachable.start this] show ?thesis
    by (simp add: empty one_lane_clock_def)
qed

theorem eval_seconds_overshoot_is_one_evaluation_witness:
  "0 \<le> still_to_charge one_lane_clock \<and>
     ec_spent one_lane_clock + still_to_charge one_lane_clock \<le> 4 + 6 + ec_overrun one_lane_clock"
  by (rule eval_seconds_overshoot_is_one_evaluation [OF one_lane_clock_is_reachable]) simp_all

end
