(* ===== verification/GlobMatch.thy ===== *)
theory GlobMatch
  imports PyText
begin

text \<open>
  Shell-style patterns as \<open>fnmatch\<close> of the standard library reads them: the pattern becomes a list of
  items, the matcher consumes the name item by item, and \<open>glob_lang\<close> says what a list of items
  stands for. \<open>glob_match_correct\<close> is the equivalence of the two; \<open>path_match\<close> is the matcher of
  \<open>tools/patch.py\<close> on top of it.
\<close>

datatype set_item = One char | Range char char

datatype glob_item = Lit char | Any | Star | OneOf bool "set_item list"

section \<open>Reading a pattern\<close>

text \<open>The inside of a bracket: a hyphen between two characters is a range, elsewhere itself.\<close>

fun set_items :: "string \<Rightarrow> set_item list" where
  "set_items (a # h # b # cs) = (if h = CHR ''-'' then Range a b # set_items cs else One a # set_items (h # b # cs))"
| "set_items [a, b] = [One a, One b]"
| "set_items [a] = [One a]"
| "set_items [] = []"

text \<open>A bracket reaches to the first closing one after an optional \<open>!\<close> and one more character; without
  it the bracket is a plain character.\<close>

definition bracket_body :: "string \<Rightarrow> (bool \<times> string \<times> string) option" where
  "bracket_body cs =
     (let negated = (take 1 cs = ''!'');
          rest = (if negated then drop 1 cs else cs);
          k = (if take 1 rest = '']'' then 1 else 0);
          inside = take k rest @ takeWhile (\<lambda>c. c \<noteq> CHR '']'') (drop k rest);
          after = dropWhile (\<lambda>c. c \<noteq> CHR '']'') (drop k rest)
      in case after of [] \<Rightarrow> None | _ # r \<Rightarrow> Some (negated, inside, r))"

lemma bracket_body_shorter: "bracket_body cs = Some (n, body, rest) \<Longrightarrow> length rest < length cs"
proof -
  assume a: "bracket_body cs = Some (n, body, rest)"
  define r0 where "r0 = (if take 1 cs = ''!'' then drop 1 cs else cs)"
  define ys where "ys = drop (if take 1 r0 = '']'' then 1 else 0) r0"
  obtain x where "dropWhile (\<lambda>c. c \<noteq> CHR '']'') ys = x # rest"
    using a unfolding bracket_body_def Let_def r0_def [symmetric] ys_def [symmetric] by (auto split: list.splits)
  then have "length (x # rest) \<le> length ys" by (metis length_dropWhile_le)
  moreover have "length ys \<le> length cs" by (simp add: ys_def r0_def)
  ultimately show ?thesis by simp
qed

function (sequential) glob_items :: "string \<Rightarrow> glob_item list" where
  "glob_items [] = []"
| "glob_items (c # cs) =
     (if c = CHR ''*'' then Star # glob_items cs
      else if c = CHR ''?'' then Any # glob_items cs
      else if c = CHR ''['' then (case bracket_body cs of
          None \<Rightarrow> Lit c # glob_items cs
        | Some (negated, body, rest) \<Rightarrow> OneOf negated (set_items body) # glob_items rest)
      else Lit c # glob_items cs)"
  by pat_completeness auto
termination by (relation "measure length") (auto dest: bracket_body_shorter)

section \<open>Matching a name\<close>

fun set_holds :: "char \<Rightarrow> set_item \<Rightarrow> bool" where
  "set_holds c (One d) \<longleftrightarrow> c = d"
| "set_holds c (Range a b) \<longleftrightarrow> (of_char a :: nat) \<le> of_char c \<and> (of_char c :: nat) \<le> of_char b"

fun item_holds :: "char \<Rightarrow> glob_item \<Rightarrow> bool" where
  "item_holds c (Lit d) \<longleftrightarrow> c = d"
| "item_holds c Any \<longleftrightarrow> True"
| "item_holds c Star \<longleftrightarrow> True"
| "item_holds c (OneOf negated items) \<longleftrightarrow> list_ex (set_holds c) items \<noteq> negated"

fun glob_match :: "glob_item list \<Rightarrow> string \<Rightarrow> bool" where
  "glob_match [] s \<longleftrightarrow> s = []"
| "glob_match (p # ps) [] \<longleftrightarrow> p = Star \<and> glob_match ps []"
| "glob_match (p # ps) (c # cs) \<longleftrightarrow>
     (if p = Star then glob_match ps (c # cs) \<or> glob_match (p # ps) cs
      else item_holds c p \<and> glob_match ps cs)"

definition fnmatch :: "string \<Rightarrow> string \<Rightarrow> bool" where
  "fnmatch name pat \<longleftrightarrow> glob_match (glob_items pat) name"

section \<open>What a pattern stands for\<close>

definition conc :: "string set \<Rightarrow> string set \<Rightarrow> string set" where
  "conc A B = {u @ v | u v. u \<in> A \<and> v \<in> B}"

definition item_lang :: "glob_item \<Rightarrow> string set" where
  "item_lang p = (if p = Star then UNIV else {[c] | c. item_holds c p})"

primrec glob_lang :: "glob_item list \<Rightarrow> string set" where
  "glob_lang [] = {[]}"
| "glob_lang (p # ps) = conc (item_lang p) (glob_lang ps)"

lemma conc_assoc: "conc (conc A B) C = conc A (conc B C)"
  unfolding conc_def by (auto simp: append_assoc) (metis append_assoc)+

lemma conc_Nil [simp]: "conc {[]} B = B"
  by (simp add: conc_def)

lemma conc_UNIV_Cons: "c # cs \<in> conc UNIV B \<longleftrightarrow> c # cs \<in> B \<or> cs \<in> conc UNIV B"
  by (auto simp: conc_def Cons_eq_append_conv)

lemma conc_chars: "x \<in> conc {[c] | c. P c} B \<longleftrightarrow> (\<exists>c v. x = c # v \<and> P c \<and> v \<in> B)"
proof
  assume "x \<in> conc {[c] | c. P c} B"
  then obtain u v where "x = u @ v" "u \<in> {[c] | c. P c}" "v \<in> B" unfolding conc_def by blast
  then show "\<exists>c v. x = c # v \<and> P c \<and> v \<in> B" by auto
next
  assume "\<exists>c v. x = c # v \<and> P c \<and> v \<in> B"
  then obtain c v where "x = [c] @ v" "P c" "v \<in> B" by auto
  then show "x \<in> conc {[c] | c. P c} B" unfolding conc_def by blast
qed

lemma glob_match_correct: "glob_match ps s \<longleftrightarrow> s \<in> glob_lang ps"
proof (induction ps s rule: glob_match.induct)
  case (2 p ps)
  then show ?case by (auto simp: item_lang_def conc_def)
next
  case (3 p ps c cs)
  show ?case
  proof (cases "p = Star")
    case True
    then show ?thesis using 3 conc_UNIV_Cons [of c cs "glob_lang ps"] by (simp add: item_lang_def)
  next
    case False
    have "c # cs \<in> glob_lang (p # ps) \<longleftrightarrow> item_holds c p \<and> cs \<in> glob_lang ps"
      by (simp add: item_lang_def False conc_chars)
    moreover have "glob_match (p # ps) (c # cs) \<longleftrightarrow> item_holds c p \<and> glob_match ps cs" by (simp add: False)
    ultimately show ?thesis using 3(3) False by blast
  qed
qed simp

lemma glob_lang_append: "glob_lang (ps @ qs) = conc (glob_lang ps) (glob_lang qs)"
  by (induction ps) (simp_all add: conc_assoc)

lemma glob_match_append: "glob_match ps u \<Longrightarrow> glob_match qs v \<Longrightarrow> glob_match (ps @ qs) (u @ v)"
  unfolding glob_match_correct by (auto simp: glob_lang_append conc_def)

lemma glob_match_Star: "glob_match ps v \<Longrightarrow> glob_match (Star # ps) (u @ v)"
  unfolding glob_match_correct by (auto simp: item_lang_def conc_def)

text \<open>A pattern without special characters stands for itself.\<close>

definition plain_pattern :: "string \<Rightarrow> bool" where
  "plain_pattern s \<longleftrightarrow> list_all (\<lambda>c. c \<notin> set ''*?['') s"

lemma glob_items_plain: "plain_pattern u \<Longrightarrow> glob_items (u @ v) = map Lit u @ glob_items v"
proof (induction u)
  case (Cons c u)
  then have "c \<noteq> CHR ''*''" "c \<noteq> CHR ''?''" "c \<noteq> CHR ''[''" "plain_pattern u" by (auto simp: plain_pattern_def)
  then show ?case using Cons.IH by simp
qed simp

lemma glob_match_lits: "glob_match (map Lit u) s \<longleftrightarrow> s = u"
proof (induction u arbitrary: s)
  case (Cons a u)
  then show ?case by (cases s) auto
qed simp

lemma fnmatch_plain: "plain_pattern g \<Longrightarrow> fnmatch s g \<longleftrightarrow> s = g"
  using glob_items_plain [of g "[]"] by (simp add: fnmatch_def glob_match_lits)

section \<open>The matcher of the edit surface\<close>

definition path_match :: "string \<Rightarrow> string \<Rightarrow> bool" where
  "path_match path pat \<longleftrightarrow> fnmatch path pat \<or>
     py_startswith pat ''**/'' \<and> fnmatch path (drop 3 pat) \<or>
     occurs_in ''**/'' pat \<and> fnmatch path (replace_first ''**/'' [] pat)"

lemma replace_first_plain:
  assumes "plain_pattern u"
  shows "replace_first ''**/'' [] (u @ ''**/'' @ v) = u @ v"
  using assms
proof (induction u)
  case (Cons c u)
  then have "c \<noteq> CHR ''*''" "plain_pattern u" by (auto simp: plain_pattern_def)
  then show ?case using Cons.IH by (simp add: py_startswith_def)
qed (simp add: py_startswith_def)

text \<open>A \<open>**/\<close> stands for any number of directories, none included.\<close>

lemma double_star_matches:
  assumes "plain_pattern u" "fnmatch f g" "d = [] \<or> last d = CHR ''/''"
  shows "path_match (u @ d @ f) (u @ ''**/'' @ g)"
proof (cases "d = []")
  case True
  have "fnmatch (u @ f) (u @ g)"
    using assms(2) by (simp add: fnmatch_def glob_items_plain [OF assms(1)] glob_match_append glob_match_lits)
  moreover have "occurs_in ''**/'' (u @ ''**/'' @ g)" by (rule occurs_in_append)
  ultimately show ?thesis using True unfolding path_match_def replace_first_plain [OF assms(1)] by simp
next
  case False
  then obtain e where d: "d = e @ ''/''" using assms(3) by (metis append_butlast_last_id)
  have "glob_match (Star # Star # Lit CHR ''/'' # glob_items g) (e @ CHR ''/'' # f)"
    using assms(2) glob_match_Star [of _ _ e] glob_match_Star [of _ _ "[]"] by (simp add: fnmatch_def)
  then have "glob_match (glob_items (''**/'' @ g)) (d @ f)" by (simp add: d)
  then have "fnmatch (u @ d @ f) (u @ ''**/'' @ g)"
    unfolding fnmatch_def glob_items_plain [OF assms(1)] by (intro glob_match_append) (simp_all add: glob_match_lits)
  then show ?thesis by (simp add: path_match_def)
qed

end
