(* ===== verification/PatchGate.thy ===== *)
theory PatchGate
  imports GlobMatch CodeBlocks "HOL-Library.Char_ord"
begin

text \<open>
  The gate in front of every patch an agent submits (\<open>tools/patch.py\<close>): the paths a unified diff
  names, the paths it makes symbolic links, the policy of the edit surface, and the function that
  writes. Decoding a C-quoted path and git itself are parameters.
\<close>

section \<open>The paths of a diff\<close>

definition unquote_git_path :: "(string \<Rightarrow> string) \<Rightarrow> string \<Rightarrow> string" where
  "unquote_git_path decode p =
     (if 2 \<le> length p \<and> hd p = CHR 34 \<and> last p = CHR 34 then decode (butlast (tl p)) else p)"

definition strip_side :: "string \<Rightarrow> string" where
  "strip_side p = (if take 2 p = ''a/'' \<or> take 2 p = ''b/'' then drop 2 p else p)"

record diff_scan =
  ds_paths :: "string list"
  ds_fallback :: "string list"
  ds_has_header :: bool

definition scan_diff_line :: "(string \<Rightarrow> string) \<Rightarrow> string \<Rightarrow> diff_scan \<Rightarrow> diff_scan" where
  "scan_diff_line decode line s =
     (if py_startswith line ''diff --git '' then
        \<lparr>ds_paths = (if ds_has_header s then ds_paths s else ds_paths s @ ds_fallback s),
         ds_fallback = map (\<lambda>tok. strip_side (unquote_git_path decode tok)) (drop 2 (split_words line)),
         ds_has_header = False\<rparr>
      else if py_startswith line ''+++ '' \<or> py_startswith line ''--- '' then
        (let p = unquote_git_path decode (hd (split_on (CHR 9) (py_strip (drop 4 line))))
         in s\<lparr>ds_has_header := True,
              ds_paths := (if p = ''/dev/null'' then ds_paths s else ds_paths s @ [strip_side p])\<rparr>)
      else s)"

definition paths_of_lines :: "(string \<Rightarrow> string) \<Rightarrow> string list \<Rightarrow> string list" where
  "paths_of_lines decode ls =
     (let s = fold (scan_diff_line decode) ls \<lparr>ds_paths = [], ds_fallback = [], ds_has_header = True\<rparr>
      in py_sorted False id (remdups (if ds_has_header s then ds_paths s else ds_paths s @ ds_fallback s)))"

definition changed_paths :: "(string \<Rightarrow> string) \<Rightarrow> string \<Rightarrow> string list" where
  "changed_paths decode diff = paths_of_lines decode (splitlines diff)"

definition is_hex :: "char \<Rightarrow> bool" where
  "is_hex c \<longleftrightarrow> (let n = (of_char c :: nat) in 48 \<le> n \<and> n \<le> 57 \<or> 65 \<le> n \<and> n \<le> 70 \<or> 97 \<le> n \<and> n \<le> 102)"

definition after_text :: "string \<Rightarrow> string \<Rightarrow> string option" where
  "after_text p s = (if py_startswith s p then Some (drop (length p) s) else None)"

definition after_hex :: "string \<Rightarrow> string option" where
  "after_hex s = (if takeWhile is_hex s = [] then None else Some (dropWhile is_hex s))"

definition blank_rest :: "string option \<Rightarrow> bool" where
  "blank_rest r = (case r of Some s \<Rightarrow> list_all is_space s | None \<Rightarrow> False)"

definition symlink_mode_line :: "string \<Rightarrow> bool" where
  "symlink_mode_line line \<longleftrightarrow>
     blank_rest (after_text ''new file mode 120000'' line) \<or>
     blank_rest (after_text ''new mode 120000'' line) \<or>
     blank_rest (Option.bind (Option.bind (Option.bind (Option.bind (after_text ''index '' line) after_hex)
        (after_text ''..'')) after_hex) (after_text '' 120000''))"

text \<open>The blocks of a diff: a \<open>diff --git\<close> line opens one when lines came before it.\<close>

fun diff_blocks :: "string list \<Rightarrow> string list \<Rightarrow> string list list" where
  "diff_blocks block [] = [block]"
| "diff_blocks block (l # ls) =
     (if py_startswith l ''diff --git '' \<and> block \<noteq> [] then block # diff_blocks [l] ls
      else diff_blocks (block @ [l]) ls)"

definition symlink_paths :: "(string \<Rightarrow> string) \<Rightarrow> string \<Rightarrow> string list" where
  "symlink_paths decode diff =
     py_sorted False id (remdups (concat (map (\<lambda>b. changed_paths decode (joined_by (CHR 10) b))
       (filter (list_ex symlink_mode_line) (diff_blocks [] (splitlines diff))))))"

section \<open>The edit surface\<close>

definition forward_slashes :: "string \<Rightarrow> string" where
  "forward_slashes s = map (\<lambda>c. if c = CHR 92 then CHR ''/'' else c) s"

definition is_letter :: "char \<Rightarrow> bool" where
  "is_letter c \<longleftrightarrow> (let n = (of_char c :: nat) in 65 \<le> n \<and> n \<le> 90 \<or> 97 \<le> n \<and> n \<le> 122)"

definition has_drive :: "string \<Rightarrow> bool" where
  "has_drive p \<longleftrightarrow> (case p of c # d # _ \<Rightarrow> is_letter c \<and> d = CHR '':'' | _ \<Rightarrow> False)"

definition escapes :: "string \<Rightarrow> bool" where
  "escapes path \<longleftrightarrow> py_startswith (forward_slashes path) ''/'' \<or> has_drive path \<or> py_startswith path ''/'' \<or>
     ''..'' \<in> set (split_on CHR ''/'' (forward_slashes path))"

definition ci :: "string \<Rightarrow> string" where
  "ci s = py_lower (forward_slashes s)"

definition is_grade_glob :: "string \<Rightarrow> bool" where
  "is_grade_glob g \<longleftrightarrow> occurs_in ''grade'' (py_lower g) \<or> occurs_in ''grading'' (py_lower g)"

definition under :: "string \<Rightarrow> string \<Rightarrow> bool" where
  "under pre s \<longleftrightarrow> py_startswith s (pre @ ''/'')"

definition surface_globs :: "string list \<Rightarrow> string list \<Rightarrow> string \<Rightarrow> string list" where
  "surface_globs allow prefixes pl = (case List.find (\<lambda>pre. under pre pl) prefixes of
      Some owner \<Rightarrow> if owner \<noteq> [] then filter (under owner) allow
        else filter (\<lambda>g. \<not> list_ex (\<lambda>pre. under pre g) prefixes) allow
    | None \<Rightarrow> filter (\<lambda>g. \<not> list_ex (\<lambda>pre. under pre g) prefixes) allow)"

definition in_surface :: "string \<Rightarrow> string list \<Rightarrow> string list \<Rightarrow> bool" where
  "in_surface p allow prefixes \<longleftrightarrow> list_ex (path_match (forward_slashes p)) (surface_globs allow prefixes (forward_slashes p))"

record surface_policy =
  sp_surface :: "string list option"
  sp_prefixes :: "string list"
  sp_exact :: bool
  sp_protected :: "string list"
  sp_exceptions :: "string list"
  sp_check_escapes :: bool

definition new_policy :: "string list option \<Rightarrow> string list \<Rightarrow> string list \<Rightarrow> bool \<Rightarrow> bool \<Rightarrow> string list \<Rightarrow> surface_policy" where
  "new_policy surface protected prefixes exact check exceptions =
     \<lparr>sp_surface = surface, sp_prefixes = prefixes, sp_exact = exact,
      sp_protected = (if exact then protected else map ci protected),
      sp_exceptions = map ci exceptions, sp_check_escapes = check\<rparr>"

definition has_glob :: "string \<Rightarrow> bool" where
  "has_glob g \<longleftrightarrow> list_ex (\<lambda>c. c \<in> set ''*?['') g"

definition is_protected :: "surface_policy \<Rightarrow> string \<Rightarrow> bool" where
  "is_protected P path =
     (if sp_exact P then
        path \<in> set (sp_protected P) \<or>
        list_ex (\<lambda>g. py_endswith g ''/**'' \<and> path = take (length g - 3) g \<or> has_glob g \<and> path_match path g) (sp_protected P)
      else
        (let pc = ci path; matched = filter (\<lambda>g. pc = g \<or> path_match pc g) (sp_protected P)
         in matched \<noteq> [] \<and>
            \<not> (list_ex (\<lambda>g. pc = g \<or> path_match pc g) (sp_exceptions P) \<and> list_all is_grade_glob matched)))"

datatype refusal = Escapes | Protected | Outside_surface

definition policy_check :: "surface_policy \<Rightarrow> string \<Rightarrow> refusal option" where
  "policy_check P path =
     (if sp_check_escapes P \<and> escapes path then Some Escapes
      else if is_protected P path then Some Protected
      else (case sp_surface P of
          Some allow \<Rightarrow> if in_surface path allow (sp_prefixes P) then None else Some Outside_surface
        | None \<Rightarrow> None))"

section \<open>The gate and the writer\<close>

record gate_answer =
  ga_ok :: bool
  ga_paths :: "string list"
  ga_rejected :: "string list"

definition diff_policy :: "string list \<Rightarrow> string list \<Rightarrow> string list \<Rightarrow> string list \<Rightarrow> surface_policy" where
  "diff_policy allow protect prefixes exceptions =
     new_policy (Some allow) protect (map (py_rstrip CHR ''/'') prefixes) False True exceptions"

definition gate :: "(string \<Rightarrow> string) \<Rightarrow> string \<Rightarrow> string list \<Rightarrow> string list \<Rightarrow> string list \<Rightarrow> string list \<Rightarrow> gate_answer" where
  "gate decode diff allow protect prefixes exceptions =
     (let paths = changed_paths decode diff;
          rejected = filter (\<lambda>p. policy_check (diff_policy allow protect prefixes exceptions) p \<noteq> None) paths
      in \<lparr>ga_ok = (paths \<noteq> [] \<and> rejected = []), ga_paths = paths, ga_rejected = rejected\<rparr>)"

text \<open>What git does with the text of a patch in a work tree: the dry run, and the run with whether it
  returned zero and the tree it leaves.\<close>

record 'r git =
  git_check :: "string \<Rightarrow> 'r \<Rightarrow> bool"
  git_apply :: "string \<Rightarrow> 'r \<Rightarrow> bool \<times> 'r"

datatype patch_error = Out_of_surface | Empty_patch | Symbolic_link | Check_failed | Apply_failed

record patch_result =
  pr_applied :: bool
  pr_paths :: "string list"
  pr_rejected :: "string list"
  pr_error :: "patch_error option"

definition apply_patch :: "'r git \<Rightarrow> (string \<Rightarrow> string) \<Rightarrow> string \<Rightarrow> 'r \<Rightarrow> string list \<Rightarrow> string list \<Rightarrow> string list \<Rightarrow>
    string list \<Rightarrow> patch_result \<times> 'r" where
  "apply_patch git decode diff tree allow protect prefixes exceptions =
     (let g = gate decode diff allow protect prefixes exceptions in
      if \<not> ga_ok g then
        (\<lparr>pr_applied = False, pr_paths = ga_paths g, pr_rejected = ga_rejected g,
          pr_error = Some (if ga_rejected g \<noteq> [] then Out_of_surface else Empty_patch)\<rparr>, tree)
      else (let links = symlink_paths decode diff in
        if links \<noteq> [] then
          (\<lparr>pr_applied = False, pr_paths = ga_paths g, pr_rejected = links, pr_error = Some Symbolic_link\<rparr>, tree)
        else if \<not> git_check git diff tree then
          (\<lparr>pr_applied = False, pr_paths = ga_paths g, pr_rejected = [], pr_error = Some Check_failed\<rparr>, tree)
        else (case git_apply git diff tree of (ok, tree') \<Rightarrow>
          (\<lparr>pr_applied = ok, pr_paths = ga_paths g, pr_rejected = [],
            pr_error = (if ok then None else Some Apply_failed)\<rparr>, tree'))))"

end
