(* ===== verification/PatchProps.thy ===== *)
theory PatchProps
  imports PatchGate
begin

text \<open>
  What the patch gate promises: an applied patch touches only editable paths, protection ignores case,
  an exception opens no structural rule, a \<open>**/\<close> pattern covers every depth, the paths of a patch are
  read back exactly, and the one kind of block whose path the gate does not see.
\<close>

section \<open>The contract of a write gate\<close>













section \<open>What an applied patch touches\<close>





text \<open>A rule of the protect list that is not a grader rule holds against every spelling of its
  path, whatever the surface and the exceptions allow.\<close>

theorem exceptions_open_no_structural_rule:
  assumes "g \<in> set protect" "\<not> is_grade_glob (ci g)" "ci path = ci g \<or> path_match (ci path) (ci g)"
  shows "policy_check (new_policy surface protect prefixes False check exceptions) path \<in> {Some Escapes, Some Protected}"
proof -
  let ?P = "new_policy surface protect prefixes False check exceptions"
  have "ci g \<in> set (filter (\<lambda>h. ci path = h \<or> path_match (ci path) h) (sp_protected ?P))"
    using assms by (simp add: new_policy_def)
  then have "is_protected ?P path"
    using assms(2) by (auto simp: is_protected_def Let_def new_policy_def list_all_iff filter_empty_conv)
  then show ?thesis by (simp add: policy_check_def)
qed

theorem exceptions_open_no_structural_rule_witness:
  "policy_check (new_policy None [''answers/**''] [] False True [''**/upgrade.py'']) ''Answers/upgrade.py'' \<in> {Some Escapes, Some Protected}"
  by (rule exceptions_open_no_structural_rule [of "''answers/**''"]) code_simp+

text \<open>A pattern with a double star after a plain directory covers the files of the last part at
  every depth below that directory, none included, so an edit surface written that way hides no file.\<close>

theorem double_star_covers_every_depth:
  assumes "plain_pattern u" "fnmatch f g" "d = [] \<or> last d = CHR ''/''"
    and "CHR 92 \<notin> set (u @ d @ f)" "u @ ''**/'' @ g \<in> set allow"
  shows "in_surface (u @ d @ f) allow []"
proof -
  have "forward_slashes (u @ d @ f) = u @ d @ f"
    unfolding forward_slashes_def by (rule map_idI) (use assms(4) in auto)
  then show ?thesis using double_star_matches [OF assms(1-3)] assms(5)
    by (auto simp: in_surface_def surface_globs_def list_ex_iff)
qed

theorem double_star_covers_every_depth_witness:
  "in_surface (''model/'' @ ''deep/er/'' @ ''train.py'') [''model/'' @ ''**/'' @ ''*.py''] []"
  by (rule double_star_covers_every_depth [where g = "''*.py''"]) code_simp+

section \<open>Reading the paths back\<close>
















end
