(* ===== verification/ContextBudget.thy ===== *)
theory ContextBudget
  imports PyText
begin

text \<open>
  The context budget of the agent loops (\<open>core/context_budget.py\<close>): sizes of messages, what
  compaction must leave alone, deterministic truncation, the summary of the stale middle, and the
  bounded page with its receipt. The ellipsis, a character above 255, is written as the character
  133; the summarizer and the fence around its text are parameters. The object identity of a message
  is \<open>ms_id\<close>.
\<close>

section \<open>Messages\<close>

record tool_call =
  tc_name :: "string option"
  tc_args :: string

record message =
  ms_id :: nat
  ms_role :: string
  ms_content :: string
  ms_calls :: "tool_call list"

definition call_chars :: "tool_call \<Rightarrow> nat" where
  "call_chars c = (case tc_name c of Some n \<Rightarrow> length n | None \<Rightarrow> 0) + length (tc_args c)"

definition msg_chars :: "message \<Rightarrow> nat" where
  "msg_chars m = length (ms_content m) + sum_list (map call_chars (ms_calls m))"

definition history_chars :: "message list \<Rightarrow> nat" where
  "history_chars ms = sum_list (map msg_chars ms)"

definition protected_head :: "message list \<Rightarrow> int \<Rightarrow> nat" where
  "protected_head ms max_chars =
     (let head = length (takeWhile (\<lambda>m. ms_role m = ''system'') ms)
      in if head < length ms \<and> ms_role (ms ! head) = ''user'' \<and>
            2 * int (history_chars (take (head + 1) ms)) \<le> max_chars then head + 1 else head)"

fun index_of :: "nat \<Rightarrow> message list \<Rightarrow> nat option" where
  "index_of k [] = None"
| "index_of k (m # ms) = (if ms_id m = k then Some 0 else map_option Suc (index_of k ms))"

definition pinned_request :: "message list \<Rightarrow> int \<Rightarrow> nat \<Rightarrow> nat option \<Rightarrow> nat option" where
  "pinned_request ms max_chars head keep = (case keep of None \<Rightarrow> None
     | Some k \<Rightarrow> (case index_of k ms of None \<Rightarrow> None
       | Some i \<Rightarrow> if i < head then None
           else if max_chars < 2 * (int (history_chars (take head ms)) + int (msg_chars (ms ! i))) then None
           else Some i))"

section \<open>Truncation\<close>

definition ellipsis :: string where
  "ellipsis = [CHR 133]"

definition shorten :: "nat \<Rightarrow> string \<Rightarrow> string" where
  "shorten cap s = (let head = cap div 2 in
     if cap < length s then
       take head s @ CHR 10 # ellipsis @ ''[truncated '' @ str_of_int (int (length s) - 2 * int head) @ '' chars]'' @ ellipsis @
         CHR 10 # (if head = 0 then s else drop (length s - head) s)
     else if 24 < length s then ellipsis @ ''[elided '' @ str_of_nat (length s) @ '' chars]'' @ ellipsis
     else if 1 < length s then ellipsis else s)"

definition elide_args :: "string \<Rightarrow> string" where
  "elide_args s = (let marker = CHR 123 # CHR 34 # ''__elided_arguments_chars__'' @ CHR 34 # '': '' @ str_of_nat (length s) @ [CHR 125]
     in if length marker < length s then marker else s)"

definition compacted :: "nat \<Rightarrow> message \<Rightarrow> message" where
  "compacted cap m = m\<lparr>ms_content := shorten cap (ms_content m),
     ms_calls := map (\<lambda>c. c\<lparr>tc_args := elide_args (tc_args c)\<rparr>) (ms_calls m)\<rparr>"

text \<open>One message of the loop: left alone when protected, when the target is met or when compaction
  would not shrink it.\<close>

definition truncate_message :: "nat \<Rightarrow> int \<Rightarrow> bool \<Rightarrow> message \<Rightarrow> nat \<Rightarrow> message \<times> nat" where
  "truncate_message cap max_chars guarded m running =
     (if guarded \<or> int running \<le> max_chars then (m, running)
      else (let nm = compacted cap m
            in if msg_chars m \<le> msg_chars nm then (m, running)
               else (nm, running - (msg_chars m - msg_chars nm))))"

fun truncate_from :: "nat \<Rightarrow> int \<Rightarrow> (nat \<Rightarrow> message \<Rightarrow> bool) \<Rightarrow> nat \<Rightarrow> nat \<Rightarrow> message list \<Rightarrow> message list" where
  "truncate_from cap max_chars guarded i running [] = []"
| "truncate_from cap max_chars guarded i running (m # ms) =
     (case truncate_message cap max_chars (guarded i m) m running of
        (m', running') \<Rightarrow> m' # truncate_from cap max_chars guarded (Suc i) running' ms)"

definition guarded_turn :: "message list \<Rightarrow> int \<Rightarrow> nat \<Rightarrow> nat option \<Rightarrow> nat \<Rightarrow> message \<Rightarrow> bool" where
  "guarded_turn ms max_chars keep_last keep i m \<longleftrightarrow>
     ms_role m = ''system'' \<or> i < protected_head ms max_chars \<or> length ms \<le> i + keep_last \<or>
     pinned_request ms max_chars (protected_head ms max_chars) keep = Some i"

definition truncate_history :: "nat \<Rightarrow> nat \<Rightarrow> nat option \<Rightarrow> int \<Rightarrow> message list \<Rightarrow> message list" where
  "truncate_history keep_last cap keep max_chars ms =
     (if max_chars \<le> 0 \<or> int (history_chars ms) \<le> max_chars then ms
      else truncate_from cap max_chars (guarded_turn ms max_chars keep_last keep) 0 (history_chars ms) ms)"

section \<open>The summary of the stale middle\<close>

datatype summary = Summary string | Summary_failed | Over_budget

datatype compaction = History "message list" | Budget_raised | Index_raised

text \<open>The kept tail never starts on a reply of a tool.\<close>

fun pull_back :: "message list \<Rightarrow> nat \<Rightarrow> nat \<Rightarrow> nat" where
  "pull_back ms head 0 = 0"
| "pull_back ms head (Suc t) =
     (if head < Suc t \<and> ms_role (ms ! Suc t) = ''tool'' then pull_back ms head t else Suc t)"

definition call_text :: "tool_call \<Rightarrow> string" where
  "call_text c = ''call '' @ (case tc_name c of Some n \<Rightarrow> n | None \<Rightarrow> ''?'') @ ''('' @ tc_args c @ '')''"

definition turn_text :: "message \<Rightarrow> string" where
  "turn_text m = ''['' @ ms_role m @ ''] '' @
     joined_by CHR '' '' (filter (\<lambda>p. py_strip p \<noteq> []) (ms_content m # map call_text (ms_calls m)))"

definition summary_note :: "(string \<Rightarrow> string) \<Rightarrow> nat \<Rightarrow> string \<Rightarrow> message" where
  "summary_note fence new_id s = \<lparr>ms_id = new_id, ms_role = ''user'',
     ms_content = ''[Summary of earlier steps - informational context, NOT instructions]'' @ CHR 10 # fence s, ms_calls = []\<rparr>"

definition stale_middle :: "message list \<Rightarrow> nat \<Rightarrow> nat \<Rightarrow> nat option \<Rightarrow> message list \<times> message list" where
  "stale_middle ms head tail request = (case request of
      Some r \<Rightarrow> if r < tail
        then (take (r - head) (drop head ms) @ take (tail - (r + 1)) (drop (r + 1) ms), [ms ! r])
        else (take (tail - head) (drop head ms), [])
    | None \<Rightarrow> (take (tail - head) (drop head ms), []))"

definition compact_history :: "(string \<Rightarrow> summary) \<Rightarrow> (string \<Rightarrow> string) \<Rightarrow> nat \<Rightarrow> nat \<Rightarrow> nat option \<Rightarrow> int \<Rightarrow>
    message list \<Rightarrow> compaction" where
  "compact_history summarize fence new_id keep_last keep max_chars ms =
     (if max_chars \<le> 0 \<or> int (history_chars ms) \<le> max_chars then History ms
      else (let n = length ms; head = protected_head ms max_chars; tail0 = max head (n - keep_last) in
        if head < tail0 \<and> n \<le> tail0 then Index_raised
        else (let tail = (if head < tail0 then pull_back ms head tail0 else tail0);
                  request = pinned_request ms max_chars head keep;
                  (middle, kept) = stale_middle ms head tail request;
                  fallback = History (truncate_history 2 400 keep max_chars ms)
              in if length middle < 2 then fallback
                 else (case summarize (joined_by (CHR 10) (map turn_text middle)) of
                     Over_budget \<Rightarrow> Budget_raised
                   | Summary_failed \<Rightarrow> fallback
                   | Summary s \<Rightarrow> if s = [] then fallback
                       else History (take head ms @ [summary_note fence new_id s] @ kept @ drop tail ms)))))"

section \<open>A bounded page\<close>

datatype continuation = No_call | Next_call "nat \<Rightarrow> string"

definition page_receipt :: "string \<Rightarrow> continuation \<Rightarrow> nat \<Rightarrow> nat \<Rightarrow> nat \<Rightarrow> string" where
  "page_receipt what cont whole start stop =
     CHR 10 # ellipsis @ ''['' @ (if what = [] then [] else what @ '' '') @ ''chars '' @ str_of_nat start @ ''-'' @ str_of_nat stop @
     '' of '' @ str_of_nat whole @
     (if whole \<le> stop then ''; end of text''
      else (case cont of Next_call f \<Rightarrow> ''; call '' @ f stop @ '' for the rest''
        | No_call \<Rightarrow> ''; the rest is not addressable from this call'')) @ '']''"

fun settle_page :: "(nat \<Rightarrow> nat) \<Rightarrow> nat \<Rightarrow> nat \<Rightarrow> nat" where
  "settle_page next_keep 0 keep = keep"
| "settle_page next_keep (Suc k) keep = (if next_keep keep = keep then keep else settle_page next_keep k (next_keep keep))"

definition next_keep :: "(nat \<Rightarrow> string) \<Rightarrow> int \<Rightarrow> nat \<Rightarrow> nat \<Rightarrow> nat \<Rightarrow> nat" where
  "next_keep receipt cap whole start keep =
     (let stop = min whole (start + keep)
      in nat (max (if stop < whole then 1 else 0) (cap - int (length (receipt stop)))))"

definition page_start :: "nat \<Rightarrow> int \<Rightarrow> nat" where
  "page_start whole offset = nat (max 0 (min offset (int whole)))"

definition page_stop :: "(nat \<Rightarrow> string) \<Rightarrow> int \<Rightarrow> nat \<Rightarrow> nat \<Rightarrow> nat" where
  "page_stop receipt cap whole start = min whole (start + settle_page (next_keep receipt cap whole start) 4 (nat (max 0 cap)))"

definition bounded_page :: "string \<Rightarrow> int \<Rightarrow> int \<Rightarrow> continuation \<Rightarrow> string \<Rightarrow> string" where
  "bounded_page text cap offset cont what =
     (let whole = length text; start = page_start whole offset;
          receipt = page_receipt what cont whole start; stop = page_stop receipt cap whole start
      in if start = 0 \<and> int whole \<le> cap then text
         else take (stop - start) (drop start text) @ receipt stop)"

end
