(* ===== verification/ContextProps.thy ===== *)
theory ContextProps
  imports ContextBudget "HOL-Library.Sublist"
begin

text \<open>
  What the context budget promises: a compacted history is one an endpoint accepts, keeps what the
  model needs, and meets its target or its floor; the pages of a text, followed through their
  receipts, are the text.
\<close>

section \<open>Replies and their calls\<close>

text \<open>Every reply of a tool stands behind the assistant turn that made the call, with only replies
  between. The flag says whether such a turn is open.\<close>

fun replies_owned :: "bool \<Rightarrow> message list \<Rightarrow> bool" where
  "replies_owned opened [] \<longleftrightarrow> True"
| "replies_owned opened (m # ms) \<longleftrightarrow>
     (if ms_role m = ''tool'' then opened \<and> replies_owned True ms
      else replies_owned (ms_role m = ''assistant'' \<and> ms_calls m \<noteq> []) ms)"

lemma replies_owned_take: "replies_owned f ms \<Longrightarrow> replies_owned f (take k ms)"
proof (induction ms arbitrary: f k)
  case (Cons m ms)
  then show ?case by (cases k) (auto split: if_splits)
qed simp

lemma replies_owned_mono: "replies_owned f ms \<Longrightarrow> (f \<longrightarrow> g) \<Longrightarrow> replies_owned g ms"
  by (induction ms arbitrary: f g) (auto split: if_splits)

lemma replies_owned_drop: "replies_owned f ms \<Longrightarrow> \<exists>g. replies_owned g (drop k ms)"
proof (induction ms arbitrary: f k)
  case (Cons m ms)
  show ?case
  proof (cases k)
    case 0
    then show ?thesis using Cons.prems by auto
  next
    case (Suc j)
    then show ?thesis using Cons.IH Cons.prems by (auto split: if_splits)
  qed
qed simp

lemma replies_owned_start:
  "replies_owned g ms \<Longrightarrow> ms = [] \<or> ms_role (hd ms) \<noteq> ''tool'' \<Longrightarrow> replies_owned f ms"
  by (cases ms) auto

lemma replies_owned_append:
  "replies_owned f xs \<Longrightarrow> replies_owned False ys \<Longrightarrow> replies_owned f (xs @ ys)"
proof (induction xs arbitrary: f)
  case Nil
  then show ?case using replies_owned_mono [of False ys f] by simp
qed (auto split: if_splits)

definition same_turn :: "message \<Rightarrow> message \<Rightarrow> bool" where
  "same_turn m m' \<longleftrightarrow> ms_id m' = ms_id m \<and> ms_role m' = ms_role m \<and> map tc_name (ms_calls m') = map tc_name (ms_calls m)"

lemma replies_owned_same: "list_all2 same_turn ms ms' \<Longrightarrow> replies_owned f ms \<Longrightarrow> replies_owned f ms'"
proof (induction ms ms' arbitrary: f rule: list_all2_induct)
  case (Cons m ms m' ms')
  then have "ms_role m' = ms_role m" "ms_calls m' = [] \<longleftrightarrow> ms_calls m = []"
    by (auto simp: same_turn_def)
  then show ?case using Cons by (auto split: if_splits)
qed simp

section \<open>Truncation\<close>

lemma same_turn_refl [simp]: "same_turn m m"
  by (simp add: same_turn_def)

lemma same_turn_compacted [simp]: "same_turn m (compacted cap m)"
  by (simp add: same_turn_def compacted_def comp_def)

lemma truncate_message_cases:
  assumes "truncate_message cap max_chars g m running = (m', r')" "msg_chars m \<le> running"
  shows "same_turn m m' \<and> msg_chars m' \<le> msg_chars m \<and> r' + msg_chars m = running + msg_chars m' \<and>
    (g \<longrightarrow> m' = m) \<and> (int running \<le> max_chars \<longrightarrow> m' = m) \<and>
    (\<not> g \<longrightarrow> max_chars < int running \<longrightarrow> msg_chars m' \<le> msg_chars (compacted cap m))"
  using assms by (auto simp: truncate_message_def Let_def split: if_splits)

lemma truncate_from_props:
  assumes "history_chars ms \<le> running"
  shows "list_all2 same_turn ms (truncate_from cap max_chars guarded i running ms) \<and>
    history_chars (truncate_from cap max_chars guarded i running ms) \<le> history_chars ms \<and>
    (\<forall>k<length ms. guarded (i + k) (ms ! k) \<longrightarrow> truncate_from cap max_chars guarded i running ms ! k = ms ! k) \<and>
    (int (running + history_chars (truncate_from cap max_chars guarded i running ms)) \<le> max_chars + int (history_chars ms) \<or>
      (\<forall>k<length ms. \<not> guarded (i + k) (ms ! k) \<longrightarrow>
        msg_chars (truncate_from cap max_chars guarded i running ms ! k) \<le> msg_chars (compacted cap (ms ! k))))"
  using assms
proof (induction ms arbitrary: i running)
  case (Cons m ms)
  obtain m' r' where step: "truncate_message cap max_chars (guarded i m) m running = (m', r')" by fastforce
  have le: "msg_chars m + history_chars ms \<le> running" using Cons.prems by (simp add: history_chars_def)
  note c = truncate_message_cases [OF step]
  have r: "history_chars ms \<le> r'" using c le by linarith
  note IH = Cons.IH [OF r, of "Suc i"]
  let ?ms' = "truncate_from cap max_chars guarded (Suc i) r' ms"
  have eq: "truncate_from cap max_chars guarded i running (m # ms) = m' # ?ms'" by (simp add: step)
  have sums: "history_chars (m # ms) = msg_chars m + history_chars ms" "history_chars (m' # ?ms') = msg_chars m' + history_chars ?ms'"
    by (simp_all add: history_chars_def)
  show ?case unfolding eq sums
    using IH c le
    by (auto simp: nth_Cons split: nat.splits)
qed (simp add: history_chars_def)

text \<open>Truncating a history changes no turn's place, role or calls and no guarded turn at all, never
  makes it longer, and ends below the target or with every unguarded turn compacted as far as it goes.\<close>

lemma truncation_meets_target_or_floor:
  "list_all2 same_turn ms (truncate_history keep_last cap keep max_chars ms) \<and>
   history_chars (truncate_history keep_last cap keep max_chars ms) \<le> history_chars ms \<and>
   (\<forall>k<length ms. guarded_turn ms max_chars keep_last keep k (ms ! k) \<longrightarrow>
      truncate_history keep_last cap keep max_chars ms ! k = ms ! k) \<and>
   (0 < max_chars \<longrightarrow> int (history_chars (truncate_history keep_last cap keep max_chars ms)) \<le> max_chars \<or>
      (\<forall>k<length ms. \<not> guarded_turn ms max_chars keep_last keep k (ms ! k) \<longrightarrow>
         msg_chars (truncate_history keep_last cap keep max_chars ms ! k) \<le> msg_chars (compacted cap (ms ! k))))"
proof (cases "max_chars \<le> 0 \<or> int (history_chars ms) \<le> max_chars")
  case True
  then show ?thesis by (auto simp: truncate_history_def list_all2_same)
next
  case False
  then show ?thesis
    using truncate_from_props [of ms "history_chars ms" cap max_chars "guarded_turn ms max_chars keep_last keep" 0]
    by (simp add: truncate_history_def)
qed

section \<open>Compaction\<close>

lemma pull_back_props:
  "pull_back ms head t \<le> t \<and> (head \<le> t \<longrightarrow> head \<le> pull_back ms head t) \<and>
    (pull_back ms head t \<le> head \<or> ms_role (ms ! pull_back ms head t) \<noteq> ''tool'')"
  by (induction t) auto

lemma index_of_Some: "index_of k ms = Some i \<Longrightarrow> i < length ms \<and> ms_id (ms ! i) = k"
  by (induction ms arbitrary: i) (auto split: if_splits)

lemma pinned_request_Some:
  "pinned_request ms max_chars head keep = Some r \<Longrightarrow> head \<le> r \<and> r < length ms \<and> keep = Some (ms_id (ms ! r))"
  by (auto simp: pinned_request_def dest!: index_of_Some split: option.splits if_splits)

lemma stale_middle_cases:
  assumes "stale_middle ms head tail request = (middle, kept)" "2 \<le> length middle"
    "\<And>r. request = Some r \<Longrightarrow> head \<le> r"
  shows "head < tail \<and> (kept = [] \<or> (\<exists>r. request = Some r \<and> r < tail \<and> kept = [ms ! r])) \<and>
    (\<forall>r. request = Some r \<and> r < tail \<longrightarrow> kept = [ms ! r])"
  using assms by (fastforce simp: stale_middle_def split: option.splits if_splits)

lemma compact_history_cases:
  assumes "compact_history summarize fence new_id keep_last keep max_chars ms = History out"
  obtains (same) "out = ms"
  | (truncated) "out = truncate_history 2 400 keep max_chars ms"
  | (summarized) s tail kept where "out = take (protected_head ms max_chars) ms @ [summary_note fence new_id s] @ kept @ drop tail ms"
      "protected_head ms max_chars < tail" "tail \<le> max (protected_head ms max_chars) (length ms - keep_last)"
      "tail < length ms" "ms_role (ms ! tail) \<noteq> ''tool''"
      "kept = [] \<or> (\<exists>r. pinned_request ms max_chars (protected_head ms max_chars) keep = Some r \<and> r < tail \<and> kept = [ms ! r])"
      "\<And>r. pinned_request ms max_chars (protected_head ms max_chars) keep = Some r \<Longrightarrow> r < tail \<Longrightarrow> kept = [ms ! r]"
proof -
  let ?head = "protected_head ms max_chars"
  let ?edge = "max ?head (length ms - keep_last)"
  define tail where "tail = (if ?head < ?edge then pull_back ms ?head ?edge else ?edge)"
  let ?req = "pinned_request ms max_chars ?head keep"
  obtain middle kept where mk: "stale_middle ms ?head tail ?req = (middle, kept)" by fastforce
  show thesis
  proof (cases "max_chars \<le> 0 \<or> int (history_chars ms) \<le> max_chars")
    case True
    then show thesis using assms same by (simp add: compact_history_def)
  next
    case False
    let ?rest = "if length middle < 2 then History (truncate_history 2 400 keep max_chars ms)
        else (case summarize (joined_by (CHR 10) (map turn_text middle)) of
            Over_budget \<Rightarrow> Budget_raised
          | Summary_failed \<Rightarrow> History (truncate_history 2 400 keep max_chars ms)
          | Summary s \<Rightarrow> if s = [] then History (truncate_history 2 400 keep max_chars ms)
              else History (take ?head ms @ [summary_note fence new_id s] @ kept @ drop tail ms))"
    have eq: "(if ?head < ?edge \<and> length ms \<le> ?edge then Index_raised else ?rest) = History out"
      using assms unfolding compact_history_def if_not_P [OF False] Let_def tail_def [symmetric] mk prod.case .
    have bounds: "\<not> (?head < ?edge \<and> length ms \<le> ?edge)"
    proof (rule notI)
      assume b: "?head < ?edge \<and> length ms \<le> ?edge"
      show False using eq unfolding if_P [OF b] by (rule compaction.distinct(3) [THEN notE, OF sym])
    qed
    have rest: "?rest = History out" using eq unfolding if_not_P [OF bounds] .
    show thesis
    proof (cases "out = truncate_history 2 400 keep max_chars ms")
      case True
      then show thesis by (rule truncated)
    next
      case other: False
      then obtain s where two: "2 \<le> length middle"
        and out: "out = take ?head ms @ [summary_note fence new_id s] @ kept @ drop tail ms"
        using rest by (auto split: summary.splits if_splits)
      have st: "?head < tail \<and> (kept = [] \<or> (\<exists>r. ?req = Some r \<and> r < tail \<and> kept = [ms ! r])) \<and>
          (\<forall>r. ?req = Some r \<and> r < tail \<longrightarrow> kept = [ms ! r])"
        by (rule stale_middle_cases [OF mk two]) (auto dest: pinned_request_Some)
      then have h: "?head < ?edge" by (auto simp: tail_def split: if_splits)
      then have t: "tail = pull_back ms ?head ?edge" unfolding tail_def by (rule if_P)
      show thesis
      proof (rule summarized [OF out])
        show "?head < tail" "kept = [] \<or> (\<exists>r. ?req = Some r \<and> r < tail \<and> kept = [ms ! r])" using st by blast+
        show "kept = [ms ! r]" if "?req = Some r" "r < tail" for r using st that by blast
        show "tail \<le> ?edge" unfolding t using pull_back_props by blast
        then show "tail < length ms" using h bounds by linarith
        show "ms_role (ms ! tail) \<noteq> ''tool''"
          using st pull_back_props [of ms ?head ?edge] unfolding t by linarith
      qed
    qed
  qed
qed

text \<open>C16. A compacted history is one an endpoint accepts: when every tool reply stood behind the turn
  that called it, it still does, whatever the summarizer answers and however few turns are kept.\<close>

theorem compaction_keeps_replies_owned:
  assumes "replies_owned False ms" "compact_history summarize fence new_id keep_last keep max_chars ms = History out"
    and "\<forall>m\<in>set ms. keep = Some (ms_id m) \<longrightarrow> ms_role m \<noteq> ''tool''"
  shows "replies_owned False out"
  using assms(2)
proof (cases rule: compact_history_cases)
  case same
  then show ?thesis using assms(1) by simp
next
  case truncated
  then show ?thesis using replies_owned_same [OF _ assms(1)] truncation_meets_target_or_floor by metis
next
  case (summarized s tail kept)
  obtain g where "replies_owned g (drop tail ms)" using replies_owned_drop [OF assms(1)] by blast
  then have tl: "replies_owned f (drop tail ms)" for f
    by (rule replies_owned_start) (use summarized(4,5) in \<open>simp add: hd_drop_conv_nth\<close>)
  have "replies_owned False (kept @ drop tail ms)"
    using summarized(6) tl assms(3) by (auto dest!: pinned_request_Some)
  then have "replies_owned False ([summary_note fence new_id s] @ kept @ drop tail ms)" by (simp add: summary_note_def)
  then show ?thesis unfolding summarized(1)
    by (intro replies_owned_append [OF replies_owned_take [OF assms(1)]])
qed

definition demo_turn :: "nat \<Rightarrow> string \<Rightarrow> string \<Rightarrow> tool_call list \<Rightarrow> message" where
  "demo_turn i role content calls = \<lparr>ms_id = i, ms_role = role, ms_content = content, ms_calls = calls\<rparr>"

definition read_call :: tool_call where
  "read_call = \<lparr>tc_name = Some ''read'', tc_args = ''a.py''\<rparr>"

definition demo_history :: "message list" where
  "demo_history = [demo_turn 0 ''system'' ''role'' [], demo_turn 1 ''user'' ''task'' [],
     demo_turn 2 ''assistant'' ''thinking about it'' [read_call], demo_turn 3 ''tool'' ''the text of the file'' [],
     demo_turn 4 ''user'' ''and now this'' [], demo_turn 5 ''assistant'' [] [read_call, read_call],
     demo_turn 6 ''tool'' ''first'' [], demo_turn 7 ''tool'' ''second'' []]"

definition demo_compacted :: "message list" where
  "demo_compacted = [demo_turn 0 ''system'' ''role'' [], demo_turn 1 ''user'' ''task'' [],
     summary_note id 9 ''short'', demo_turn 4 ''user'' ''and now this'' [], demo_turn 5 ''assistant'' [] [read_call, read_call],
     demo_turn 6 ''tool'' ''first'' [], demo_turn 7 ''tool'' ''second'' []]"

lemma demo_compaction: "compact_history (\<lambda>b. Summary ''short'') id 9 2 (Some 4) 60 demo_history = History demo_compacted"
  by code_simp

theorem compaction_keeps_replies_owned_witness: "replies_owned False demo_compacted"
  by (rule compaction_keeps_replies_owned [OF _ demo_compaction]) code_simp+



section \<open>Pages\<close>

lemma str_of_nat_small: "n < 10 \<Longrightarrow> length (str_of_nat n) = 1"
  by (subst str_of_nat.simps) simp

lemma str_of_nat_large: "\<not> n < 10 \<Longrightarrow> length (str_of_nat n) = Suc (length (str_of_nat (n div 10)))"
  by (subst str_of_nat.simps) simp

lemma str_of_nat_Suc: "length (str_of_nat (Suc n)) \<le> Suc (length (str_of_nat n))"
proof (induction n rule: less_induct)
  case (less n)
  consider "Suc n < 10" | "n = 9" | "10 \<le> n" by linarith
  then show ?case
  proof cases
    case 1
    then show ?thesis by (simp add: str_of_nat_small)
  next
    case 2
    then show ?thesis using str_of_nat_large [of 10] by (simp add: str_of_nat_small)
  next
    case 3
    have "Suc n div 10 = n div 10 \<or> Suc n div 10 = Suc (n div 10)" by linarith
    then show ?thesis using 3 less [of "n div 10"] str_of_nat_large [of n] str_of_nat_large [of "Suc n"] by auto
  qed
qed

lemma str_of_nat_add: "length (str_of_nat (n + k)) \<le> length (str_of_nat n) + k"
proof (induction k)
  case (Suc k)
  then show ?case using str_of_nat_Suc [of "n + k"] by simp
qed simp

text \<open>The last receipt of a text is not longer than an earlier one by as much as the text left.\<close>

lemma last_receipt_short:
  assumes "stop < whole"
  shows "length (page_receipt what cont whole start whole) < length (page_receipt what cont whole start stop) + (whole - stop)"
  using str_of_nat_add [of stop "whole - stop"] assms
  by (auto simp: page_receipt_def ellipsis_def split: continuation.splits)

lemma settle_last:
  "settle_page f 4 k = k \<and> f k = k \<or> settle_page f 4 k = f k \<and> f (f k) = f k \<or>
   settle_page f 4 k = f (f k) \<and> f (f (f k)) = f (f k) \<or>
   settle_page f 4 k = f (f (f k)) \<and> f (f (f (f k))) = f (f (f k)) \<or> settle_page f 4 k = f (f (f (f k)))"
  by (simp add: numeral_eq_Suc)

lemma page_progress:
  assumes "0 < cap" "start < whole"
  shows "start < page_stop (page_receipt what cont whole start) cap whole start"
proof -
  let ?R = "page_receipt what cont whole start"
  let ?f = "next_keep ?R cap whole start"
  have pos: "0 < ?f k" if "start + k < whole" for k using that by (simp add: next_keep_def Let_def)
  have past: "?f k = nat (cap - int (length (?R whole)))" if "whole \<le> start + k" for k
    using that by (simp add: next_keep_def Let_def min_absorb1)
  have f0: "0 < ?f 0" using pos [of 0] assms(2) by simp
  have le: "?f k \<le> max 1 (nat (cap - int (length (?R (start + k)))))" if "start + k < whole" for k
    using that by (auto simp: next_keep_def Let_def)
  have "0 < settle_page ?f 4 (nat (max 0 cap))"
  proof (rule ccontr)
    assume "\<not> ?thesis"
    then have z: "settle_page ?f 4 (nat (max 0 cap)) = 0" by simp
    let ?k0 = "nat (max 0 cap)" let ?k1 = "?f ?k0" let ?k2 = "?f ?k1" let ?k3 = "?f ?k2"
    have "?f ?k3 = 0" using settle_last [of ?f ?k0] z f0 assms(1) by auto
    then have 3: "whole \<le> start + ?k3" "cap \<le> int (length (?R whole))"
      using pos [of ?k3] past [of ?k3] by (force simp: not_less)+
    have zero: "?f k = 0" if "whole \<le> start + k" for k using past [OF that] 3(2) by simp
    have k2: "start + ?k2 < whole" using zero [of ?k2] 3(1) assms(2) by (cases "start + ?k2 < whole") auto
    have k3: "whole - start \<le> max 1 (nat (cap - int (length (?R (start + ?k2)))))" using le [OF k2] 3(1) by linarith
    show False
    proof (cases "whole - start = 1")
      case True
      then have "?k2 = 0" using k2 by linarith
      then have "start + ?k1 \<ge> whole" using pos [of ?k1] by (metis linorder_not_less not_less_zero)
      then have "?k1 \<noteq> 0" using assms(2) by linarith
      then have "start + ?k0 < whole" using zero [of ?k0] by (metis linorder_not_less)
      then show False using True assms(1) by linarith
    next
      case False
      then have "int (whole - start) + int (length (?R (start + ?k2))) \<le> cap" using k3 assms(2) by linarith
      then have "whole - start + length (?R (start + ?k2)) \<le> length (?R whole)" using 3(2) by linarith
      then show False using last_receipt_short [OF k2, of what cont start] by linarith
    qed
  qed
  then show ?thesis using assms(2) by (simp add: page_stop_def)
qed

text \<open>A caller that follows the continuation of each page until the end of the text.\<close>

fun follow_pages :: "nat \<Rightarrow> string \<Rightarrow> int \<Rightarrow> continuation \<Rightarrow> string \<Rightarrow> nat \<Rightarrow> string option" where
  "follow_pages 0 text cap cont what offset = None"
| "follow_pages (Suc fuel) text cap cont what offset =
     (let start = page_start (length text) (int offset);
          receipt = page_receipt what cont (length text) start;
          stop = page_stop receipt cap (length text) start;
          page = bounded_page text cap (int offset) cont what
      in if start = 0 \<and> int (length text) \<le> cap then Some page
         else (let body = take (length page - length (receipt stop)) page
               in if length text \<le> stop then Some body
                  else map_option (\<lambda>rest. body @ rest) (follow_pages fuel text cap cont what stop)))"

lemma take_without_receipt: "take (length (a @ b) - length b) (a @ b) = a"
  by simp

lemma page_start_0 [simp]: "page_start n 0 = 0"
  by (simp add: page_start_def)

lemma follow_pages_from:
  assumes "0 < cap" "length text - offset < fuel" "offset \<le> length text"
  shows "follow_pages fuel text cap cont what offset = Some (drop offset text)"
  using assms(2,3)
proof (induction fuel arbitrary: offset)
  case (Suc fuel)
  have start: "page_start (length text) (int offset) = offset" using Suc.prems by (simp add: page_start_def)
  let ?R = "page_receipt what cont (length text) offset"
  let ?stop = "page_stop ?R cap (length text) offset"
  let ?page = "bounded_page text cap (int offset) cont what"
  let ?body = "take (length ?page - length (?R ?stop)) ?page"
  have stop: "offset \<le> ?stop" "?stop \<le> length text" using Suc.prems by (simp_all add: page_stop_def)
  have eq: "follow_pages (Suc fuel) text cap cont what offset =
      (if offset = 0 \<and> int (length text) \<le> cap then Some ?page
       else if length text \<le> ?stop then Some ?body
       else map_option (\<lambda>rest. ?body @ rest) (follow_pages fuel text cap cont what ?stop))"
    by (simp only: follow_pages.simps Let_def start)
  show ?case
  proof (cases "offset = 0 \<and> int (length text) \<le> cap")
    case True
    then show ?thesis unfolding eq by (simp add: bounded_page_def Let_def)
  next
    case False
    have page: "?page = take (?stop - offset) (drop offset text) @ ?R ?stop"
      unfolding bounded_page_def Let_def start if_not_P [OF False] ..
    have body: "?body = take (?stop - offset) (drop offset text)" unfolding page by (rule take_without_receipt)
    show ?thesis
    proof (cases "length text \<le> ?stop")
      case True
      then show ?thesis unfolding eq if_not_P [OF False] if_P [OF True] body by simp
    next
      case more: False
      then have "offset < ?stop" using stop by (intro page_progress [OF assms(1)]) linarith
      then have "follow_pages fuel text cap cont what ?stop = Some (drop ?stop text)"
        using Suc.prems stop more by (intro Suc.IH) linarith+
      moreover have "take (?stop - offset) (drop offset text) @ drop ?stop text = drop offset text"
        using stop(1) by (metis append_take_drop_id drop_drop le_add_diff_inverse2)
      ultimately show ?thesis unfolding eq if_not_P [OF False] if_not_P [OF more] body by simp
    qed
  qed
qed simp

text \<open>C17. A reader that follows the continuation of each page gets the whole text and stops: under any
  positive cap every page but the last moves on by a character at least, and the pages without their
  receipts, put together, are the text.\<close>

theorem pages_followed_give_the_text:
  assumes "0 < cap" "length text < fuel"
  shows "follow_pages fuel text cap cont what 0 = Some text"
  using follow_pages_from [OF assms(1), of "text" 0 fuel] assms(2) by simp


theorem pages_followed_give_the_text_witness:
  "follow_pages 31 ''some thirty characters of text'' 25 No_call [] 0 = Some ''some thirty characters of text''"
  by (rule pages_followed_give_the_text) simp_all

definition read_on :: continuation where
  "read_on = Next_call (\<lambda>n. ''f('' @ str_of_nat n @ '')'')"

lemma read_on_receipt:
  "stop < 200 \<Longrightarrow> length (page_receipt [] read_on 200 0 stop) = 42 + 2 * length (str_of_nat stop)"
  using str_of_nat_large [of 200] str_of_nat_large [of 20]
  by (simp add: page_receipt_def read_on_def ellipsis_def str_of_nat_small)

lemma read_on_rounds:
  "next_keep (page_receipt [] read_on 200 0) 146 200 0 146 = 98"
  "next_keep (page_receipt [] read_on 200 0) 146 200 0 98 = 100"
  "next_keep (page_receipt [] read_on 200 0) 146 200 0 100 = 98"
  using str_of_nat_large [of 146] str_of_nat_large [of 14] str_of_nat_large [of 98] str_of_nat_large [of 100] str_of_nat_large [of 10]
  by (simp_all add: next_keep_def Let_def read_on_receipt str_of_nat_small)

lemma settle_four:
  "f k \<noteq> k \<Longrightarrow> f (f k) \<noteq> f k \<Longrightarrow> f (f (f k)) \<noteq> f (f k) \<Longrightarrow> f (f (f (f k))) \<noteq> f (f (f k)) \<Longrightarrow>
    settle_page f 4 k = f (f (f (f k)))"
  using settle_last [of f k] by metis

lemma read_on_page: "length t = 200 \<Longrightarrow> length (bounded_page t 146 0 read_on []) = 148"
proof -
  assume t: "length t = 200"
  have "settle_page (next_keep (page_receipt [] read_on 200 0) 146 200 0) 4 146 = 100"
    using settle_four [of "next_keep (page_receipt [] read_on 200 0) 146 200 0" 146] by (simp add: read_on_rounds)
  then have stop: "page_stop (page_receipt [] read_on 200 0) 146 200 0 = 100" by (simp add: page_stop_def)
  have "length (page_receipt [] read_on 200 0 100) = 48"
    using str_of_nat_large [of 100] str_of_nat_large [of 10] by (simp add: read_on_receipt str_of_nat_small)
  then show ?thesis using t stop by (simp add: bounded_page_def Let_def)
qed

text \<open>A page can pass its cap: at a change in the number of digits the four rounds that size the
  receipt end on the longer of two sizes, and the page comes out two characters over a cap that had
  room for a hundred.\<close>

theorem page_over_its_cap:
  "length (bounded_page (replicate 200 CHR ''x'') 146 0 read_on []) = 148"
  by (rule read_on_page) (rule length_replicate)

end
