(* ===== verification/Concepts.thy ===== *)
theory Concepts
  imports PyText "HOL-Library.Char_ord"
begin

text \<open>
  Concept identity (\<open>core/concepts.py\<close>): the canonical spelling of a concept id, the consolidation map
  and the bounded walk through it, the bounded sets of ids, and the receipts of a failed
  materialization. Characters are Latin-1; a Python set is a list without repetitions here.
\<close>

definition max_concept_id_chars :: nat where
  "max_concept_id_chars = 256"

definition max_concept_id_depth :: nat where
  "max_concept_id_depth = 12"

definition concept_rename_hop_cap :: nat where
  "concept_rename_hop_cap = 16"

section \<open>Reasons and receipts\<close>

datatype concept_reason = ModeUnsupported | MissingRunBase | MissingParent | UnknownParentMembership
  | DependencyCycle | InvalidConsolidationMap | RenameCycle | RenameHopCap | InvalidId | PerNodeCap

fun reason_name :: "concept_reason \<Rightarrow> string" where
  "reason_name ModeUnsupported = ''concept_mode_unsupported''"
| "reason_name MissingRunBase = ''delta_dependency_missing_run_base''"
| "reason_name MissingParent = ''delta_dependency_missing_parent''"
| "reason_name UnknownParentMembership = ''delta_dependency_unknown_parent_membership''"
| "reason_name DependencyCycle = ''delta_dependency_cycle''"
| "reason_name InvalidConsolidationMap = ''invalid_consolidation_map''"
| "reason_name RenameCycle = ''rename_cycle''"
| "reason_name RenameHopCap = ''rename_hop_cap''"
| "reason_name InvalidId = ''invalid_concept_id''"
| "reason_name PerNodeCap = ''concepts_per_node_cap''"

text \<open>The public priority of the reasons: their place in this list.\<close>

definition concept_reasons :: "concept_reason list" where
  "concept_reasons = [ModeUnsupported, MissingRunBase, MissingParent, UnknownParentMembership, DependencyCycle,
     InvalidConsolidationMap, RenameCycle, RenameHopCap, InvalidId, PerNodeCap]"

fun reason_priority :: "concept_reason \<Rightarrow> nat" where
  "reason_priority ModeUnsupported = 0"
| "reason_priority MissingRunBase = 1"
| "reason_priority MissingParent = 2"
| "reason_priority UnknownParentMembership = 3"
| "reason_priority DependencyCycle = 4"
| "reason_priority InvalidConsolidationMap = 5"
| "reason_priority RenameCycle = 6"
| "reason_priority RenameHopCap = 7"
| "reason_priority InvalidId = 8"
| "reason_priority PerNodeCap = 9"

text \<open>The reasons are ordered by that priority.\<close>

lemma reason_priority_inj [simp]: "reason_priority r = reason_priority s \<longleftrightarrow> r = s"
  by (cases r; cases s) simp_all

instantiation concept_reason :: linorder
begin

definition less_eq_concept_reason :: "concept_reason \<Rightarrow> concept_reason \<Rightarrow> bool" where
  "less_eq_concept_reason r s \<longleftrightarrow> reason_priority r \<le> reason_priority s"

definition less_concept_reason :: "concept_reason \<Rightarrow> concept_reason \<Rightarrow> bool" where
  "less_concept_reason r s \<longleftrightarrow> reason_priority r < reason_priority s"

instance
proof
  fix r s :: concept_reason
  assume "r \<le> s" "s \<le> r"
  then show "r = s" unfolding less_eq_concept_reason_def using reason_priority_inj [of r s] by linarith
qed (auto simp: less_eq_concept_reason_def less_concept_reason_def)

end

definition concept_materialization_reason :: "pyval \<Rightarrow> concept_reason option" where
  "concept_materialization_reason raw = (case raw of
      PStr s \<Rightarrow> find (\<lambda>r. reason_name r = s) concept_reasons
    | _ \<Rightarrow> None)"

definition unavailable_reasons :: "concept_reason set" where
  "unavailable_reasons = {ModeUnsupported, MissingRunBase, MissingParent, UnknownParentMembership,
     DependencyCycle, InvalidConsolidationMap}"

definition select_concept_materialization_reason :: "concept_reason list \<Rightarrow> concept_reason option" where
  "select_concept_materialization_reason reasons = py_min_by id reasons"

record receipt =
  re_available :: bool
  re_reasons :: "concept_reason list"

definition concept_materialization_receipt :: "concept_reason list \<Rightarrow> receipt option" where
  "concept_materialization_receipt reasons =
     (let ordered = py_sorted False id (remdups reasons)
      in if ordered = [] then None
         else Some \<lparr>re_available = \<not> list_ex (\<lambda>r. r \<in> unavailable_reasons) ordered,
           re_reasons = take (length concept_reasons) ordered\<rparr>)"

text \<open>The envelope as it is stored.\<close>

definition receipt_value :: "receipt \<Rightarrow> pyval" where
  "receipt_value r = PDict [(''status'', PStr (if re_available r then ''partial'' else ''unavailable'')),
     (''reasons'', PList (map (PStr \<circ> reason_name) (re_reasons r)))]"

definition normalized_concept_materialization_receipt :: "pyval \<Rightarrow> receipt option" where
  "normalized_concept_materialization_receipt raw = (case raw of
      PDict d \<Rightarrow>
        (if set (dict_keys d) \<noteq> {''status'', ''reasons''} then None
         else (case pget d ''reasons'' of
             PList vs \<Rightarrow>
               (if vs = [] then None
                else if list_ex (\<lambda>v. concept_materialization_reason v = None) vs then None
                else (case concept_materialization_receipt (List.map_filter concept_materialization_reason vs) of
                    None \<Rightarrow> None
                  | Some canonical \<Rightarrow>
                      if pget d ''status'' = PStr (if re_available canonical then ''partial'' else ''unavailable'') \<and>
                         vs = map (PStr \<circ> reason_name) (re_reasons canonical)
                      then Some canonical else None))
           | _ \<Rightarrow> None))
    | _ \<Rightarrow> None)"

section \<open>The spelling of an id\<close>

definition is_alnum :: "char \<Rightarrow> bool" where
  "is_alnum c \<longleftrightarrow> (let n = (of_char c :: nat) in
     (48 \<le> n \<and> n \<le> 57) \<or> (65 \<le> n \<and> n \<le> 90) \<or> (97 \<le> n \<and> n \<le> 122) \<or>
     n \<in> {170, 178, 179, 181, 185, 186, 188, 189, 190} \<or> (192 \<le> n \<and> n \<noteq> 215 \<and> n \<noteq> 247))"

definition concept_char :: "char \<Rightarrow> bool" where
  "concept_char c \<longleftrightarrow> is_alnum c \<or> c \<in> {CHR ''-'', CHR ''.'', CHR ''_''}"

definition concept_segment :: "string \<Rightarrow> bool" where
  "concept_segment part \<longleftrightarrow> part \<noteq> [] \<and> list_ex is_alnum part \<and> list_all concept_char part"

definition strip_char :: "char \<Rightarrow> string \<Rightarrow> string" where
  "strip_char d s = py_rstrip d (dropWhile (\<lambda>c. c = d) s)"

definition dashed :: "string \<Rightarrow> string" where
  "dashed s = map (\<lambda>c. if c = CHR '' '' then CHR ''-'' else c) s"

definition normalize_concept_id :: "pyval \<Rightarrow> string option" where
  "normalize_concept_id raw = (case raw of
      PStr s \<Rightarrow>
        (if max_concept_id_chars < length s then None
         else (let value = strip_char (CHR ''/'') (dashed (py_lower (py_strip s)));
                   parts = split_on (CHR ''/'') value
               in if value = [] \<or> max_concept_id_chars < length value \<or> max_concept_id_depth < length parts \<or>
                     \<not> list_all concept_segment parts then None
                  else Some value))
    | _ \<Rightarrow> None)"

section \<open>The consolidation map\<close>

record renames =
  rn_map :: "(string \<times> string option) list"
  rn_problem :: "concept_reason option"
  rn_endpoint_problem :: bool

record rename_scan =
  sc_candidates :: "(string \<times> string list) list"
  sc_invalid :: "string list"
  sc_endpoint :: bool

definition scan_rename :: "rename_scan \<Rightarrow> string \<times> pyval \<Rightarrow> rename_scan" where
  "scan_rename s row = (case normalize_concept_id (PStr (fst row)) of
      None \<Rightarrow> s\<lparr>sc_endpoint := True\<rparr>
    | Some source \<Rightarrow>
       (case normalize_concept_id (snd row) of
          None \<Rightarrow> s\<lparr>sc_endpoint := True, sc_invalid := sc_invalid s @ [source]\<rparr>
        | Some target \<Rightarrow> s\<lparr>sc_candidates := dict_put source
            ((case dict_get (sc_candidates s) source of Some ts \<Rightarrow> ts | None \<Rightarrow> []) @ [target]) (sc_candidates s)\<rparr>))"

definition normalized_concept_renames :: "pyval \<Rightarrow> renames" where
  "normalized_concept_renames raw = (case raw of
      PNone \<Rightarrow> \<lparr>rn_map = [], rn_problem = None, rn_endpoint_problem = False\<rparr>
    | PDict d \<Rightarrow>
       (let s = foldl scan_rename \<lparr>sc_candidates = [], sc_invalid = [], sc_endpoint = False\<rparr> d
        in \<lparr>rn_map = map (\<lambda>source. (source,
               case dict_get (sc_candidates s) source of None \<Rightarrow> None | Some ts \<Rightarrow> py_min_by id ts))
              (py_sorted False id (remdups (dict_keys (sc_candidates s) @ sc_invalid s))),
            rn_problem = None, rn_endpoint_problem = sc_endpoint s\<rparr>)
    | _ \<Rightarrow> \<lparr>rn_map = [], rn_problem = Some InvalidConsolidationMap, rn_endpoint_problem = False\<rparr>)"

text \<open>The walk along the map, the hops left counted down.\<close>

fun follow_renames :: "nat \<Rightarrow> (string \<times> string option) list \<Rightarrow> string list \<Rightarrow> string \<Rightarrow> string + concept_reason" where
  "follow_renames 0 rename seen current = Inr RenameHopCap"
| "follow_renames (Suc hops) rename seen current =
     (if current \<in> set seen then Inr RenameCycle
      else (case dict_get rename current of
          None \<Rightarrow> Inl current
        | Some None \<Rightarrow> Inr InvalidId
        | Some (Some target) \<Rightarrow> follow_renames hops rename (current # seen) target))"

definition resolve_concept :: "renames \<Rightarrow> nat \<Rightarrow> pyval \<Rightarrow> string + concept_reason" where
  "resolve_concept rename hop_cap raw = (case rn_problem rename of
      Some problem \<Rightarrow> Inr problem
    | None \<Rightarrow> (case normalize_concept_id raw of
        None \<Rightarrow> Inr InvalidId
      | Some current \<Rightarrow> follow_renames (hop_cap + 1) (rn_map rename) [] current))"

section \<open>Bounded sets of ids\<close>

record accumulator =
  ac_limit :: nat
  ac_values :: "string list"
  ac_overflow :: bool

definition largest :: "string list \<Rightarrow> string" where
  "largest vs = (case py_max_by id vs of Some v \<Rightarrow> v | None \<Rightarrow> [])"

definition ac_add :: "accumulator \<Rightarrow> string \<Rightarrow> accumulator" where
  "ac_add a v =
     (if v \<in> set (ac_values a) then a
      else if length (ac_values a) < ac_limit a then a\<lparr>ac_values := ac_values a @ [v]\<rparr>
      else if ac_limit a \<noteq> 0 \<and> v < largest (ac_values a)
      then a\<lparr>ac_overflow := True, ac_values := remove1 (largest (ac_values a)) (ac_values a) @ [v]\<rparr>
      else a\<lparr>ac_overflow := True\<rparr>)"

definition bounded_concept_set :: "string list \<Rightarrow> nat \<Rightarrow> string list \<times> bool" where
  "bounded_concept_set values cap =
     (let a = foldl ac_add \<lparr>ac_limit = cap, ac_values = [], ac_overflow = False\<rparr> values
      in (ac_values a, ac_overflow a))"

text \<open>A whole collection resolved, with every problem met on the way.\<close>

definition resolve_into :: "renames \<Rightarrow> nat \<Rightarrow> string list \<times> concept_reason set \<Rightarrow> pyval \<Rightarrow>
    string list \<times> concept_reason set" where
  "resolve_into rename cap acc raw = (case acc of (resolved, problems) \<Rightarrow>
     (case resolve_concept rename concept_rename_hop_cap raw of
        Inr problem \<Rightarrow> (resolved, insert problem problems)
      | Inl canonical \<Rightarrow>
          if canonical \<in> set resolved then (resolved, problems)
          else if length resolved < cap then (resolved @ [canonical], problems)
          else if cap \<noteq> 0 \<and> canonical < largest resolved
          then (remove1 (largest resolved) resolved @ [canonical], insert PerNodeCap problems)
          else (resolved, insert PerNodeCap problems)))"

definition resolve_concept_set_reasons :: "renames \<Rightarrow> nat \<Rightarrow> pyval \<Rightarrow> string list \<times> concept_reason set" where
  "resolve_concept_set_reasons rename cap values = (case values of
      PList vs \<Rightarrow> foldl (resolve_into rename cap) ([], {}) vs
    | _ \<Rightarrow> ([], {InvalidId}))"

text \<open>An untrusted list healed into bounded raw spellings, with its cap and validity flags.\<close>

record raw_scan =
  rs_selected :: accumulator
  rs_raw :: "(string \<times> string) list"
  rs_invalid :: bool

definition scan_raw_concept :: "raw_scan \<Rightarrow> pyval \<Rightarrow> raw_scan" where
  "scan_raw_concept s raw = (case (normalize_concept_id raw, raw) of
      (Some canonical, PStr spelling) \<Rightarrow>
        (let before = rs_selected s;
             evicted = (if canonical \<notin> set (ac_values before) \<and> ac_limit before \<le> length (ac_values before) \<and>
                           ac_limit before \<noteq> 0
                        then Some (largest (ac_values before)) else None);
             after = ac_add before canonical;
             raws = (if canonical \<in> set (ac_values after) \<and> dict_get (rs_raw s) canonical = None
                     then dict_put canonical spelling (rs_raw s) else rs_raw s)
         in s\<lparr>rs_selected := after,
              rs_raw := (case evicted of
                  Some e \<Rightarrow> if e \<notin> set (ac_values after) then dict_pop e raws else raws
                | None \<Rightarrow> raws)\<rparr>)
    | _ \<Rightarrow> s\<lparr>rs_invalid := True\<rparr>)"

definition bounded_raw_concept_values :: "pyval \<Rightarrow> nat \<Rightarrow> pyval list \<times> bool \<times> bool" where
  "bounded_raw_concept_values values cap = (case values of
      PList vs \<Rightarrow>
        (if length vs \<le> cap
         then (filter (\<lambda>raw. normalize_concept_id raw \<noteq> None) vs, False,
               list_ex (\<lambda>raw. normalize_concept_id raw = None) vs)
         else (let s = foldl scan_raw_concept \<lparr>rs_selected = \<lparr>ac_limit = cap, ac_values = [], ac_overflow = False\<rparr>,
                         rs_raw = [], rs_invalid = False\<rparr> vs
               in (map (\<lambda>c. PStr (the (dict_get (rs_raw s) c))) (py_sorted False id (ac_values (rs_selected s))),
                   ac_overflow (rs_selected s), rs_invalid s)))
    | _ \<Rightarrow> ([], False, True))"

end
