(* ===== verification/ConceptProps.thy ===== *)
theory ConceptProps
  imports Concepts
begin

text \<open>
  What concept identity promises: the canonical spelling is a fixed point, a resolved id is canonical and
  stays where it is, the walk through the consolidation map is bounded, the bounded sets keep the
  lexically smallest ids whatever their order, and receipts are read back as they were written.
\<close>

section \<open>The canonical spelling\<close>

lemma lower_char_idem [simp]: "lower_char (lower_char c) = lower_char c"
proof -
  have "(of_char c :: nat) < 256" by (simp add: nat_of_char_less_256)
  then show ?thesis by (auto simp: lower_char_def Let_def)
qed

lemma concept_char_plain:
  "concept_char c \<Longrightarrow> \<not> is_space c \<and> c \<noteq> CHR '' '' \<and> c \<noteq> CHR ''/''"
  by (auto simp: concept_char_def is_alnum_def is_space_def Let_def)

lemma dropWhile_not_hd: "xs \<noteq> [] \<Longrightarrow> \<not> P (hd xs) \<Longrightarrow> dropWhile P xs = xs"
  by (cases xs) simp_all

lemma py_strip_no_blanks: "list_all (\<lambda>c. \<not> is_space c) s \<Longrightarrow> py_strip s = s"
  by (cases "s = []") (simp_all add: py_strip_def dropWhile_not_hd list_all_iff hd_rev)

lemma py_lower_fixed: "set s \<subseteq> range lower_char \<Longrightarrow> py_lower s = s"
  by (induction s) (auto simp: py_lower_def)

lemma set_split_on: "part \<in> set (split_on d s) \<Longrightarrow> set part \<subseteq> set s"
proof (induction s arbitrary: part)
  case (Cons c s)
  obtain l ls where ls: "split_on d s = l # ls" by (cases "split_on d s") (simp_all add: split_on_Cons_ne)
  then show ?case using Cons.IH [of part] Cons.IH [of l] Cons.prems by (auto split: if_splits)
qed simp

lemma set_of_split_on: "c \<in> set s \<Longrightarrow> c = d \<or> (\<exists>part\<in>set (split_on d s). c \<in> set part)"
  by (induction s) (auto split: if_splits list.splits simp: split_on_Cons_ne)

lemma hd_split_on: "s \<noteq> [] \<Longrightarrow> hd (split_on d s) \<noteq> [] \<Longrightarrow> hd s \<noteq> d"
  by (cases s) (auto split: if_splits)

lemma split_on_snoc: "split_on d (s @ [d]) = split_on d s @ [[]]"
  by (induction s) (auto split: list.splits simp: split_on_Cons_ne)

lemma last_split_on: "s \<noteq> [] \<Longrightarrow> last (split_on d s) \<noteq> [] \<Longrightarrow> last s \<noteq> d"
  by (cases s rule: rev_cases) (auto simp: split_on_snoc)

lemma strip_char_fixed: "s \<noteq> [] \<Longrightarrow> hd s \<noteq> d \<Longrightarrow> last s \<noteq> d \<Longrightarrow> strip_char d s = s"
  by (simp add: strip_char_def py_rstrip_def dropWhile_not_hd hd_rev)

lemma set_strip_char: "set (strip_char d s) \<subseteq> set s"
  by (auto simp: strip_char_def py_rstrip_def dest!: set_dropWhileD)

lemma normalized_shape:
  assumes "normalize_concept_id raw = Some v"
  shows "v \<noteq> []" "length v \<le> max_concept_id_chars" "length (split_on CHR ''/'' v) \<le> max_concept_id_depth"
    "list_all concept_segment (split_on CHR ''/'' v)" "set v \<subseteq> range lower_char"
proof -
  obtain s where s: "raw = PStr s" "v = strip_char CHR ''/'' (dashed (py_lower (py_strip s)))"
    using assms by (auto simp: normalize_concept_id_def Let_def split: pyval.splits if_splits)
  show "v \<noteq> []" "length v \<le> max_concept_id_chars" "length (split_on CHR ''/'' v) \<le> max_concept_id_depth"
    "list_all concept_segment (split_on CHR ''/'' v)"
    using assms by (auto simp: normalize_concept_id_def Let_def split: pyval.splits if_splits)
  have "CHR ''-'' = lower_char CHR ''-''" by code_simp
  then have "set (dashed (py_lower (py_strip s))) \<subseteq> range lower_char"
    by (auto simp: dashed_def py_lower_def)
  then show "set v \<subseteq> range lower_char" using s(2) set_strip_char by blast
qed

lemma normalize_fixed:
  assumes "v \<noteq> []" "length v \<le> max_concept_id_chars" "length (split_on CHR ''/'' v) \<le> max_concept_id_depth"
    "list_all concept_segment (split_on CHR ''/'' v)" "set v \<subseteq> range lower_char"
  shows "normalize_concept_id (PStr v) = Some v"
proof -
  have plain: "\<not> is_space c \<and> c \<noteq> CHR '' ''" if c: "c \<in> set v" for c
  proof (cases "c = CHR ''/''")
    case True
    then show ?thesis by (simp add: is_space_def)
  next
    case False
    then obtain part where "part \<in> set (split_on CHR ''/'' v)" "c \<in> set part"
      using set_of_split_on [OF c] by blast
    then show ?thesis using assms(4) concept_char_plain by (auto simp: list_all_iff concept_segment_def)
  qed
  have ends: "hd (split_on CHR ''/'' v) \<noteq> []" "last (split_on CHR ''/'' v) \<noteq> []"
    using assms(4) split_on_Cons_ne [of "CHR ''/''" v] by (auto simp: list_all_iff concept_segment_def)
  have "py_strip v = v" using plain by (simp add: py_strip_no_blanks list_all_iff)
  moreover have "py_lower v = v" using assms(5) by (rule py_lower_fixed)
  moreover have "dashed v = v" unfolding dashed_def by (rule map_idI) (use plain in auto)
  moreover have "strip_char CHR ''/'' v = v"
    using strip_char_fixed assms(1) hd_split_on [OF assms(1) ends(1)] last_split_on [OF assms(1) ends(2)] by blast
  ultimately show ?thesis using assms by (simp add: normalize_concept_id_def Let_def not_less)
qed

lemma normalize_idem: "normalize_concept_id raw = Some v \<Longrightarrow> normalize_concept_id (PStr v) = Some v"
  by (rule normalize_fixed) (rule normalized_shape, assumption)+

section \<open>Resolution\<close>

lemma resolve_cases:
  "resolve_concept rename hops raw = Inl c \<longleftrightarrow> rn_problem rename = None \<and>
     (\<exists>current. normalize_concept_id raw = Some current \<and> follow_renames (hops + 1) (rn_map rename) [] current = Inl c)"
  by (auto simp: resolve_concept_def split: option.splits)

lemma follow_lands:
  "follow_renames hops rename seen current = Inl c \<Longrightarrow>
     dict_get rename c = None \<and> (c = current \<or> Some c \<in> ran (dict_get rename))"
  by (induction hops rename seen current rule: follow_renames.induct)
    (auto split: if_splits option.splits simp: ran_def)

lemma scan_rename_normal:
  assumes "\<forall>ts\<in>ran (dict_get (sc_candidates s)). ts \<noteq> [] \<and> (\<forall>t\<in>set ts. normalize_concept_id (PStr t) = Some t)"
  shows "\<forall>ts\<in>ran (dict_get (sc_candidates (scan_rename s row))). ts \<noteq> [] \<and> (\<forall>t\<in>set ts. normalize_concept_id (PStr t) = Some t)"
proof (cases "normalize_concept_id (PStr (fst row))")
  case (Some source)
  then show ?thesis
  proof (cases "normalize_concept_id (snd row)")
    case (Some target)
    have "ran (dict_get (sc_candidates (scan_rename s row))) \<subseteq> insert ((case dict_get (sc_candidates s) source of
        Some ts \<Rightarrow> ts | None \<Rightarrow> []) @ [target]) (ran (dict_get (sc_candidates s)))"
      using Some \<open>normalize_concept_id (PStr (fst row)) = Some source\<close>
      by (auto simp: scan_rename_def dict_put_def update_conv' ran_def)
    moreover have "\<forall>t\<in>set ((case dict_get (sc_candidates s) source of Some ts \<Rightarrow> ts | None \<Rightarrow> []) @ [target]).
        normalize_concept_id (PStr t) = Some t"
      by (cases "dict_get (sc_candidates s) source") (use assms normalize_idem [OF Some] in \<open>auto simp: ran_def\<close>)
    ultimately show ?thesis using assms by blast
  qed (use assms in \<open>simp add: scan_rename_def\<close>)
qed (use assms in \<open>simp add: scan_rename_def\<close>)

lemma foldl_keeps: "I s \<Longrightarrow> (\<And>s x. x \<in> set xs \<Longrightarrow> I s \<Longrightarrow> I (f s x)) \<Longrightarrow> I (foldl f s xs)"
  by (induction xs arbitrary: s) auto

lemma map_of_keyed: "dict_get (map (\<lambda>x. (x, f x)) xs) k = (if k \<in> set xs then Some (f k) else None)"
  by (induction xs) auto

lemma rename_targets_normal:
  assumes "dict_get (rn_map (normalized_concept_renames raw)) k = Some (Some t)"
  shows "normalize_concept_id (PStr t) = Some t"
proof -
  obtain d where d: "raw = PDict d" using assms by (cases raw) (auto simp: normalized_concept_renames_def)
  define s where "s = foldl scan_rename \<lparr>sc_candidates = [], sc_invalid = [], sc_endpoint = False\<rparr> d"
  have "\<forall>ts\<in>ran (dict_get (sc_candidates s)). ts \<noteq> [] \<and> (\<forall>t\<in>set ts. normalize_concept_id (PStr t) = Some t)"
    unfolding s_def by (rule foldl_keeps) (simp, metis scan_rename_normal)
  moreover have "\<exists>ts. dict_get (sc_candidates s) k = Some ts \<and> py_min_by id ts = Some t"
    using assms by (auto simp: d normalized_concept_renames_def Let_def map_of_keyed simp flip: s_def
        split: if_splits option.splits)
  ultimately show ?thesis using py_min_by_Some(1) by (fastforce simp: ran_def)
qed

text \<open>C19. A concept id resolved through the consolidation map of a run is in its canonical spelling and
  resolves to itself, so an alias and its target name one concept however often they are resolved.\<close>

theorem resolved_concept_is_canonical:
  assumes "resolve_concept (normalized_concept_renames raw_map) hops raw = Inl c"
  shows "normalize_concept_id (PStr c) = Some c \<and>
    (\<forall>more_hops. resolve_concept (normalized_concept_renames raw_map) more_hops (PStr c) = Inl c)"
proof -
  let ?R = "normalized_concept_renames raw_map"
  obtain current where cur: "rn_problem ?R = None" "normalize_concept_id raw = Some current"
    "follow_renames (hops + 1) (rn_map ?R) [] current = Inl c"
    using assms by (auto simp: resolve_cases)
  have lands: "dict_get (rn_map ?R) c = None" "c = current \<or> Some c \<in> ran (dict_get (rn_map ?R))"
    using follow_lands [OF cur(3)] by auto
  then have "normalize_concept_id (PStr c) = Some c"
    using cur(2) normalize_idem rename_targets_normal by (auto simp: ran_def)
  then show ?thesis using cur(1) lands(1) by (simp add: resolve_cases)
qed

definition demo_renames :: pyval where
  "demo_renames = PDict [(''Loss X'', PStr ''loss-x/focal''), (''reg'', PStr ''loss x'')]"

theorem resolved_concept_is_canonical_witness:
  "resolve_concept (normalized_concept_renames demo_renames) 16 (PStr '' Reg/'') = Inl ''loss-x/focal'' \<and>
   normalize_concept_id (PStr ''loss-x/focal'') = Some ''loss-x/focal''"
proof -
  have run: "resolve_concept (normalized_concept_renames demo_renames) 16 (PStr '' Reg/'') = Inl ''loss-x/focal''"
    by code_simp
  then show ?thesis using resolved_concept_is_canonical [OF run] by simp
qed

section \<open>Bounded sets\<close>

text \<open>What a capped collection of a set is: the least members of it, up to the cap.\<close>

definition least_of :: "nat \<Rightarrow> 'a::linorder set \<Rightarrow> 'a list \<Rightarrow> bool" where
  "least_of cap S vs \<longleftrightarrow> distinct vs \<and> set vs \<subseteq> S \<and> length vs = min cap (card S) \<and>
     (\<forall>x\<in>S - set vs. \<forall>y\<in>set vs. y < x)"

definition insert_capped :: "nat \<Rightarrow> string list \<Rightarrow> string \<Rightarrow> string list" where
  "insert_capped cap vs v = (if v \<in> set vs then vs else if length vs < cap then vs @ [v]
     else if cap \<noteq> 0 \<and> v < largest vs then remove1 (largest vs) vs @ [v] else vs)"

lemma largest_max:
  assumes "vs \<noteq> []"
  shows "largest vs \<in> set vs" "y \<in> set vs \<Longrightarrow> y \<le> largest vs"
proof -
  obtain m where "py_max_by id vs = Some m" using assms by (metis not_None_eq py_max_by_None)
  then show "largest vs \<in> set vs" "y \<in> set vs \<Longrightarrow> y \<le> largest vs"
    using py_max_by_Some [of id vs m] by (simp_all add: largest_def)
qed

lemma full_covers:
  assumes "least_of cap S vs" "finite S" "length vs < cap"
  shows "set vs = S"
proof -
  have "set vs \<subseteq> S" "card (set vs) = card S" using assms by (auto simp: least_of_def distinct_card)
  then show ?thesis using assms(2) by (simp add: card_subset_eq)
qed

lemma least_of_swap:
  fixes v :: "'a::linorder"
  assumes "finite S" "least_of cap S vs" "v \<notin> set vs" "length vs = cap"
    and m: "m \<in> set vs" "\<And>y. y \<in> set vs \<Longrightarrow> y \<le> m" "v < m"
  shows "least_of cap (insert v S) (remove1 m vs @ [v])"
proof -
  have base: "distinct vs" "set vs \<subseteq> S" "cap \<le> card S"
    and above: "\<And>x y. x \<in> S \<Longrightarrow> x \<notin> set vs \<Longrightarrow> y \<in> set vs \<Longrightarrow> y < x"
    using assms(2,4) by (auto simp: least_of_def)
  have kept: "set (remove1 m vs @ [v]) = insert v (set vs - {m})" using base(1) by (simp add: set_remove1_eq)
  have "y < x" if x: "x \<in> insert v S" "x \<notin> insert v (set vs - {m})" and y: "y \<in> insert v (set vs - {m})" for x y
  proof (cases "x = m")
    case True
    then show ?thesis using y m by (metis DiffD1 DiffD2 insertE order_le_less singletonI)
  next
    case False
    then have "x \<in> S" "x \<notin> set vs" using x by auto
    then have "m < x" using above m(1) by blast
    then show ?thesis using y m by (metis DiffD1 insertE order_le_less_trans order_less_trans)
  qed
  moreover have "cap \<le> card (insert v S)" using base(3) assms(1) by (simp add: card_insert_if)
  moreover have "length (remove1 m vs @ [v]) = cap"
    using m(1) assms(4) length_pos_if_in_set [OF m(1)] by (simp add: length_remove1)
  moreover have "distinct (remove1 m vs @ [v])" using base(1) assms(3) by (simp add: set_remove1_eq)
  ultimately show ?thesis using base(2) unfolding least_of_def kept by auto
qed

lemma least_of_skip:
  assumes "finite S" "least_of cap S vs" "length vs = cap" "\<And>y. y \<in> set vs \<Longrightarrow> y < v"
  shows "least_of cap (insert v S) vs"
proof -
  have "cap \<le> card S" using assms(2,3) unfolding least_of_def by linarith
  then have "cap \<le> card (insert v S)" using assms(1) by (simp add: card_insert_if)
  then show ?thesis using assms by (auto simp: least_of_def)
qed

lemma least_of_grow:
  assumes "finite S" "least_of cap S vs" "v \<notin> set vs" "length vs < cap"
  shows "least_of cap (insert v S) (vs @ [v])"
proof -
  have S: "S = set vs" using full_covers assms by blast
  have "distinct vs" using assms(2) by (simp add: least_of_def)
  then have "card (insert v S) = Suc (length vs)" using assms(3) by (simp add: S distinct_card)
  then show ?thesis using \<open>distinct vs\<close> assms(3,4) unfolding least_of_def S by simp
qed

lemma full_skip_below:
  assumes "vs \<noteq> []" "v \<notin> set vs" "\<not> v < largest vs" "y \<in> set vs"
  shows "y < v"
proof -
  have "y \<le> largest vs" "largest vs \<in> set vs" using largest_max [OF assms(1)] assms(4) by blast+
  moreover have "largest vs \<le> v" using assms(3) by simp
  ultimately show ?thesis using assms(2,4) by (metis order.not_eq_order_implies_strict order_trans)
qed

lemma least_of_insert:
  assumes "finite S" "least_of cap S vs"
  shows "least_of cap (insert v S) (insert_capped cap vs v)"
proof (cases "v \<in> set vs")
  case True
  then have "insert v S = S" using assms(2) by (auto simp: least_of_def)
  then show ?thesis using True assms(2) by (simp add: insert_capped_def)
next
  case new: False
  show ?thesis
  proof (cases "length vs < cap")
    case True
    then show ?thesis using least_of_grow [OF assms new] new by (simp add: insert_capped_def)
  next
    case False
    then have len: "length vs = cap" using assms(2) unfolding least_of_def by linarith
    show ?thesis
    proof (cases "cap \<noteq> 0 \<and> v < largest vs")
      case True
      then have "vs \<noteq> []" using len by auto
      then show ?thesis
        using least_of_swap [OF assms new len largest_max(1) largest_max(2)] True False new by (simp add: insert_capped_def)
    next
      case small: False
      have "y < v" if "y \<in> set vs" for y
        using full_skip_below [of vs v y] that small len new by (cases vs) auto
      then have "least_of cap (insert v S) vs" by (rule least_of_skip [OF assms len])
      then show ?thesis using small False new by (auto simp: insert_capped_def)
    qed
  qed
qed

lemma least_of_unique:
  assumes "finite S" "least_of cap S vs" "least_of cap S us"
  shows "set vs = set us"
proof (rule ccontr)
  assume differ: "set vs \<noteq> set us"
  have same: "card (set vs) = card (set us)" using assms by (auto simp: least_of_def distinct_card)
  have "\<not> set vs \<subseteq> set us" using card_subset_eq [of "set us" "set vs"] differ same by auto
  moreover have "\<not> set us \<subseteq> set vs" using card_subset_eq [of "set vs" "set us"] differ same by auto
  ultimately obtain x y where xy: "x \<in> set vs" "x \<notin> set us" "y \<in> set us" "y \<notin> set vs" by blast
  have "y < x" using assms(2,3) xy unfolding least_of_def by blast
  moreover have "x < y" using assms(2,3) xy unfolding least_of_def by blast
  ultimately show False by simp
qed

lemma least_of_sorted: "least_of cap (set vs) (take cap (sort (remdups vs)))"
proof -
  let ?s = "sort (remdups vs)"
  have "y < x" if "x \<in> set (drop cap ?s)" "y \<in> set (take cap ?s)" for x y
  proof -
    have "sorted (take cap ?s @ drop cap ?s)" "distinct (take cap ?s @ drop cap ?s)" by simp_all
    then have "y \<le> x" "y \<noteq> x" using that unfolding sorted_append distinct_append by auto
    then show ?thesis by simp
  qed
  moreover have "set vs = set (take cap ?s) \<union> set (drop cap ?s)"
    by (metis append_take_drop_id set_append set_remdups set_sort)
  moreover have "length (take cap ?s) = min cap (card (set vs))" by (simp add: card_set min.commute)
  ultimately show ?thesis unfolding least_of_def by (simp add: distinct_take) blast
qed

lemma foldl_insert_capped:
  "finite S \<Longrightarrow> least_of cap S vs \<Longrightarrow> least_of cap (S \<union> set xs) (foldl (insert_capped cap) vs xs)"
proof (induction xs arbitrary: S vs)
  case (Cons x xs)
  then show ?case using Cons.IH [of "insert x S" "insert_capped cap vs x"] least_of_insert by simp
qed simp

lemma ac_add_values:
  "ac_limit (ac_add a v) = ac_limit a" "ac_values (ac_add a v) = insert_capped (ac_limit a) (ac_values a) v"
  by (simp_all add: ac_add_def insert_capped_def)

lemma foldl_ac_add:
  "ac_limit (foldl ac_add a vs) = ac_limit a \<and>
   ac_values (foldl ac_add a vs) = foldl (insert_capped (ac_limit a)) (ac_values a) vs"
  by (induction vs arbitrary: a) (simp_all add: ac_add_values)

lemma ac_overflow_step:
  assumes "finite S" "least_of (ac_limit a) S (ac_values a)" "ac_overflow a \<longleftrightarrow> ac_limit a < card S"
  shows "ac_overflow (ac_add a v) \<longleftrightarrow> ac_limit a < card (insert v S)"
proof (cases "v \<in> set (ac_values a)")
  case True
  then have "insert v S = S" using assms(2) by (auto simp: least_of_def)
  then show ?thesis using True assms(3) by (simp add: ac_add_def)
next
  case new: False
  show ?thesis
  proof (cases "length (ac_values a) < ac_limit a")
    case True
    then have S: "set (ac_values a) = S" using full_covers assms by blast
    then have "card S = length (ac_values a)" using assms(2) unfolding least_of_def by (metis distinct_card)
    moreover have "card (insert v S) = Suc (card S)" using new S assms(1) by simp
    ultimately show ?thesis using True new assms(3) by (simp add: ac_add_def)
  next
    case False
    then have len: "length (ac_values a) = ac_limit a" using assms(2) unfolding least_of_def by linarith
    have "card (set (ac_values a)) < card (insert v S)"
      using assms(1,2) new by (intro psubset_card_mono) (auto simp: least_of_def)
    then have "ac_limit a < card (insert v S)"
      using assms(2) len unfolding least_of_def by (metis distinct_card)
    then show ?thesis using False new by (simp add: ac_add_def)
  qed
qed

lemma ac_overflow_invariant:
  assumes "finite S" "least_of (ac_limit a) S (ac_values a)" "ac_overflow a \<longleftrightarrow> ac_limit a < card S"
  shows "ac_overflow (foldl ac_add a vs) \<longleftrightarrow> ac_limit a < card (S \<union> set vs)"
  using assms
proof (induction vs arbitrary: a S)
  case (Cons v vs)
  show ?case
    using Cons.IH [of "insert v S" "ac_add a v"] Cons.prems ac_overflow_step [OF Cons.prems, of v]
      least_of_insert [OF Cons.prems(1,2), of v]
    by (simp add: ac_add_values)
qed simp

text \<open>The bounded set of a stream of concept ids is the lexically smallest ones of it, as many as
  the cap allows, whatever the order they came in and however often; the flag says whether any was left out.\<close>

theorem bounded_concept_set_is_sorted_prefix:
  "distinct (fst (bounded_concept_set ids cap)) \<and>
   set (fst (bounded_concept_set ids cap)) = set (take cap (sort (remdups ids))) \<and>
   (snd (bounded_concept_set ids cap) \<longleftrightarrow> cap < card (set ids))"
proof -
  let ?a = "\<lparr>ac_limit = cap, ac_values = [], ac_overflow = False\<rparr>"
  have start: "least_of cap {} ([] :: string list)" by (simp add: least_of_def)
  have least: "least_of cap (set ids) (foldl (insert_capped cap) [] ids)"
    using foldl_insert_capped [OF _ start, of ids] by simp
  have kept: "fst (bounded_concept_set ids cap) = foldl (insert_capped cap) [] ids"
    using foldl_ac_add [of ?a ids] by (simp add: bounded_concept_set_def)
  have "set (foldl (insert_capped cap) [] ids) = set (take cap (sort (remdups ids)))"
    by (rule least_of_unique [OF _ least least_of_sorted]) simp
  moreover have "distinct (foldl (insert_capped cap) [] ids)" using least by (simp add: least_of_def)
  moreover have "snd (bounded_concept_set ids cap) \<longleftrightarrow> cap < card (set ids)"
    using ac_overflow_invariant [of "{}" ?a ids] start by (simp add: bounded_concept_set_def Let_def)
  ultimately show ?thesis by (simp only: kept simp_thms)
qed

text \<open>The collection resolver keeps the same selection of what resolves.\<close>

definition resolved_ids :: "renames \<Rightarrow> pyval list \<Rightarrow> string list" where
  "resolved_ids rename vs = List.map_filter (\<lambda>raw. case resolve_concept rename concept_rename_hop_cap raw of
     Inl c \<Rightarrow> Some c | Inr problem \<Rightarrow> None) vs"

lemma resolve_into_ids:
  "fst (foldl (resolve_into rename cap) acc vs) = foldl (insert_capped cap) (fst acc) (resolved_ids rename vs)"
  by (induction vs arbitrary: acc)
    (auto simp: resolved_ids_def map_filter_simps resolve_into_def insert_capped_def split: sum.splits prod.splits)

lemma resolved_set_is_sorted_prefix:
  "set (fst (resolve_concept_set_reasons rename cap (PList vs))) =
   set (take cap (sort (remdups (resolved_ids rename vs))))"
proof -
  have "least_of cap {} ([] :: string list)" by (simp add: least_of_def)
  then have "least_of cap (set (resolved_ids rename vs)) (foldl (insert_capped cap) [] (resolved_ids rename vs))"
    using foldl_insert_capped [of "{}" cap "[]" "resolved_ids rename vs"] by simp
  then show ?thesis
    using least_of_unique [OF _ _ least_of_sorted] by (simp add: resolve_concept_set_reasons_def resolve_into_ids)
qed

section \<open>Receipts\<close>

lemma reason_of_name [simp]: "concept_materialization_reason (PStr (reason_name r)) = Some r"
  by (cases r) (simp_all add: concept_materialization_reason_def concept_reasons_def)

lemma concept_reasons_all: "set concept_reasons = UNIV"
proof -
  have "r \<in> set concept_reasons" for r by (cases r) (simp_all add: concept_reasons_def)
  then show ?thesis by auto
qed

lemma receipt_reasons:
  assumes "concept_materialization_receipt reasons = Some r"
  shows "re_reasons r = py_sorted False id (remdups reasons)" "re_reasons r \<noteq> []"
    "re_available r = (\<not> list_ex (\<lambda>r. r \<in> unavailable_reasons) (re_reasons r))"
proof -
  have "length (remdups reasons) \<le> length concept_reasons"
    using card_mono [of "set concept_reasons" "set reasons"] card_length [of concept_reasons]
    unfolding length_remdups_card_conv by (simp only: finite_set concept_reasons_all subset_UNIV) (metis List.finite_set concept_reasons_all order_trans)
  then have all: "take (length concept_reasons) (py_sorted False id (remdups reasons)) = py_sorted False id (remdups reasons)"
    by simp
  then show "re_reasons r = py_sorted False id (remdups reasons)" "re_reasons r \<noteq> []"
    "re_available r = (\<not> list_ex (\<lambda>r. r \<in> unavailable_reasons) (re_reasons r))"
    using assms by (auto simp: concept_materialization_receipt_def Let_def split: if_splits)
qed

lemma reasons_of_names: "List.map_filter concept_materialization_reason (map (PStr \<circ> reason_name) rs) = rs"
  by (induction rs) (simp_all add: map_filter_simps)

lemma receipt_of_reasons:
  assumes "concept_materialization_receipt reasons = Some r"
  shows "concept_materialization_receipt (re_reasons r) = Some r"
proof -
  let ?o = "py_sorted False id (remdups reasons)"
  have "py_sorted False id ?o = ?o" by (simp add: py_sorted_def id_def sorted_sort_id)
  then show ?thesis
    using assms receipt_reasons(1) [OF assms]
    by (simp add: concept_materialization_receipt_def Let_def distinct_remdups_id split: if_splits)
qed

text \<open>A receipt of failed materialization is read back as it was written: the validator accepts
  every envelope the writer builds, and returns the same reasons and status.\<close>

theorem receipt_round_trip:
  assumes "concept_materialization_receipt reasons = Some r"
  shows "normalized_concept_materialization_receipt (receipt_value r) = Some r"
proof -
  have "list_all (\<lambda>v. concept_materialization_reason v \<noteq> None) (map (PStr \<circ> reason_name) (re_reasons r))"
    by (simp add: list_all_iff)
  then have "\<not> list_ex (\<lambda>v. concept_materialization_reason v = None) (map (PStr \<circ> reason_name) (re_reasons r))"
    by (auto simp: list_ex_iff list_all_iff)
  then show ?thesis
    using receipt_of_reasons [OF assms] receipt_reasons(2) [OF assms]
    by (auto simp: normalized_concept_materialization_receipt_def receipt_value_def dict_keys_def pget_def reasons_of_names)
qed

theorem receipt_round_trip_witness:
  "normalized_concept_materialization_receipt
     (receipt_value \<lparr>re_available = False, re_reasons = [MissingParent, InvalidId]\<rparr>) =
   Some \<lparr>re_available = False, re_reasons = [MissingParent, InvalidId]\<rparr>"
  by (rule receipt_round_trip [of "[InvalidId, MissingParent, InvalidId]"]) code_simp

end
