(* ===== verification/Cards.thy ===== *)
theory Cards
  imports Concepts GpuPool Policies
begin

text \<open>
  Cards (\<open>core/cards.py\<close>, \<open>core/models.py\<close>, \<open>search/card_selection.py\<close>): the work items of the board as
  the election reads them, the macro action a card stands for, the freshness fences, the resource
  envelope of the machine, and the one predicate that says which nodes spend the budget. The card
  ledger that derives the cards from the log is not modelled: a board carries its result. The
  finalized resource declaration of a node is kept beside the run state, whose \<open>Idea\<close> has no such field.
\<close>

section \<open>The work item\<close>

datatype identity_kind = NativeIdentity | LegacyHash | SynthesizedShadow
datatype action_source = FromCardAdded | FromNode | FromMixed | FromNone
datatype fence_state = Current | Stale | Unknown
datatype owner_state = OwnerNone | OwnerInFlight | OwnerTerminal | OwnerMixed | OwnerUnknown

datatype selection_blocker = IdentityNotNative | ActionOwnerMissing | ActionOwnerAmbiguous
  | ActionReceiptIncomplete | FreshnessUnknown | FreshnessStale | WorkInFlight | WorkTerminal
  | WorkOwnerUnknown | CardTerminal | MergedWorkItems

record concept_source =
  cs_receipt_valid :: bool
  cs_membership_present :: bool
  cs_complete :: bool
  cs_provenance :: "string option"

record work_card =
  wc_id :: string
  wc_status :: string
  wc_verdict :: string
  wc_actionable :: bool
  wc_identity :: identity_kind
  wc_durable :: bool
  wc_receipt_valid :: bool
  wc_action_source :: action_source
  wc_owner_count :: nat
  wc_action_complete :: bool
  wc_freshness :: fence_state
  wc_owner_state :: owner_state
  wc_blockers :: "selection_blocker list"
  wc_selection_ready :: bool
  wc_evidence :: "int list"
  wc_best_delta :: "real option"
  wc_dropped_reason :: "string option"
  wc_merged_into :: "string option"
  wc_aliases :: "string list"
  wc_operator :: "string option"
  wc_parent_id :: "int option"
  wc_parent_ids :: "int list"
  wc_parent_generations :: "(string \<times> int) list option"
  wc_scored_against :: "int option"
  wc_scored_generation :: "int option"
  wc_scored_empty :: bool
  wc_concept_tags :: "string list"
  wc_concept_source :: "concept_source option"
  wc_priority :: "int option"
  wc_pinned :: bool
  wc_confidence :: pyval
  wc_novelty_verdict :: pyval
  wc_footprint :: pyval
  wc_resource_pin :: pyval

text \<open>The board an election reads: the folded state, its cards under their ids, the trusted concept
  memberships with the consolidation map, and the resource declarations of the nodes.\<close>

record card_board =
  cb_state :: run_state
  cb_cards :: "(string \<times> work_card) list"
  cb_memberships :: "(int \<times> string list) list"
  cb_renames :: renames
  cb_footprints :: "(int \<times> pyval) list"

definition card_is_direction :: "work_card \<Rightarrow> bool" where
  "card_is_direction c \<longleftrightarrow> wc_action_source c = FromNone"

section \<open>The action of a card\<close>

definition card_parent_ids :: "work_card \<Rightarrow> int list option" where
  "card_parent_ids c =
     (let named = wc_parent_ids c;
          parents = (case wc_parent_id c of
              Some p \<Rightarrow> if named = [] then Some [p] else if hd named \<noteq> p then None else Some named
            | None \<Rightarrow> Some named)
      in case parents of
           None \<Rightarrow> None
         | Some ps \<Rightarrow> if list_ex (\<lambda>p. p < 0) ps then None
                      else if length ps \<noteq> length (remdups ps) then None else Some ps)"

definition card_action :: "work_card \<Rightarrow> action option" where
  "card_action c = (case (card_parent_ids c, wc_operator c) of
      (Some ps, Some oper) \<Rightarrow>
        (if oper = ''draft'' \<and> ps = [] then Some Draft
         else if oper \<in> {''improve'', ''expand''} \<and> length ps = 1 then Some (Improve (ps ! 0))
         else if oper = ''merge'' \<and> length ps = 2 then Some (Merge (ps ! 0) (ps ! 1))
         else None)
    | _ \<Rightarrow> None)"

type_synonym keyed_action = "string \<times> int list"

text \<open>Two actions with one key are the same work: a merge is symmetric in its parents.\<close>

fun action_key :: "action \<Rightarrow> keyed_action option" where
  "action_key Draft = Some (''draft'', [])"
| "action_key (Improve p) = Some (''improve'', [p])"
| "action_key (Ablate p) = Some (''ablate'', [p])"
| "action_key (Merge p q) = Some (''merge'', sort [p, q])"
| "action_key (Evaluate k) = None"
| "action_key (Simplify p b aid) = None"

definition card_key :: "work_card \<Rightarrow> keyed_action option" where
  "card_key c = (case card_action c of None \<Rightarrow> None | Some a \<Rightarrow> action_key a)"

section \<open>Freshness\<close>

definition card_score_fence_state :: "int option \<Rightarrow> int option \<Rightarrow> bool \<Rightarrow> bool \<Rightarrow> int option \<Rightarrow> fence_state" where
  "card_score_fence_state scored_against generation no_incumbent anchor_live anchor_attempt =
     (case scored_against of
        None \<Rightarrow> if \<not> no_incumbent then Unknown else if generation = None then Current else Stale
      | Some anchor \<Rightarrow>
          if \<not> anchor_live then Stale
          else if generation = None then Unknown
          else if anchor_attempt = None \<or> generation \<noteq> anchor_attempt then Stale else Current)"

definition live_anchor :: "run_state \<Rightarrow> int \<Rightarrow> bool" where
  "live_anchor st k = (case dict_get (st_nodes st) k of
      None \<Rightarrow> False
    | Some n \<Rightarrow> \<not> n_tombstoned n \<and> k \<notin> set (st_aborted_nodes st))"

definition attempt_of :: "run_state \<Rightarrow> int \<Rightarrow> int option" where
  "attempt_of st k = map_option n_attempt (dict_get (st_nodes st) k)"

definition card_generation_fences_current :: "run_state \<Rightarrow> work_card \<Rightarrow> bool" where
  "card_generation_fences_current st c = (case (card_parent_ids c, wc_parent_generations c) of
      (Some ps, Some gens) \<Rightarrow>
        set (dict_keys gens) = set (map str_of_int ps) \<and>
        list_all (\<lambda>p. live_anchor st p \<and> dict_get gens (str_of_int p) = attempt_of st p) ps \<and>
        card_score_fence_state (wc_scored_against c) (wc_scored_generation c) (wc_scored_empty c)
          (case wc_scored_against c of None \<Rightarrow> False | Some a \<Rightarrow> live_anchor st a)
          (case wc_scored_against c of None \<Rightarrow> None | Some a \<Rightarrow> attempt_of st a) = Current
    | _ \<Rightarrow> False)"

definition strictly_selection_ready :: "work_card \<Rightarrow> bool" where
  "strictly_selection_ready c \<longleftrightarrow>
     wc_selection_ready c \<and> wc_blockers c = [] \<and>
     wc_identity c = NativeIdentity \<and> wc_durable c \<and> wc_receipt_valid c \<and>
     wc_action_source c = FromCardAdded \<and> wc_owner_count c = 1 \<and> wc_action_complete c \<and>
     wc_freshness c = Current \<and> wc_owner_state c = OwnerNone \<and>
     wc_status c = ''proposed'' \<and> wc_verdict c = ''open'' \<and> wc_evidence c = [] \<and>
     wc_dropped_reason c = None \<and> wc_merged_into c = None"

definition live_card_action :: "int list \<Rightarrow> int list \<Rightarrow> work_card \<Rightarrow> bool" where
  "live_card_action breedable top_two c = (case (card_parent_ids c, wc_operator c) of
      (Some ps, Some oper) \<Rightarrow>
        (if oper = ''draft'' then ps = []
         else if oper \<in> {''improve'', ''expand''} then length ps = 1 \<and> hd ps \<in> set breedable
         else if oper = ''merge''
         then length ps = 2 \<and> length top_two = 2 \<and> set ps = set top_two \<and> list_all (\<lambda>p. p \<in> set breedable) ps
         else False)
    | _ \<Rightarrow> False)"

definition breedable_ids :: "run_state \<Rightarrow> int list" where
  "breedable_ids st = map n_id (breedable_nodes st)"

definition top_two_ids :: "run_state \<Rightarrow> int list" where
  "top_two_ids st = map n_id (take 2 (rank_by_metric st (breedable_nodes st)))"

definition eligible_cards :: "card_board \<Rightarrow> work_card list" where
  "eligible_cards B = filter (\<lambda>c. strictly_selection_ready c \<and>
       live_card_action (breedable_ids (cb_state B)) (top_two_ids (cb_state B)) c)
     (map snd (py_sorted False fst (cb_cards B)))"

section \<open>The resource envelope\<close>

record resource_envelope =
  ev_gpu_count :: nat
  ev_memory :: "int list"

definition metadata_of_card :: "(string \<times> pyval) list" where
  "metadata_of_card = [(''proposed_by'', PStr ''researcher''), (''finalized_by'', PStr ''developer'')]"

definition metadata_of_pin :: "(string \<times> pyval) list" where
  "metadata_of_pin = [(''pinned_by'', PStr ''operator'')]"

definition quantity_survives :: "footprint option \<Rightarrow> string \<Rightarrow> bool" where
  "quantity_survives fp key = (case fp of None \<Rightarrow> False
     | Some f \<Rightarrow> if key = ''gpus'' then fp_gpus f \<noteq> None else fp_mem f \<noteq> None)"

definition valid_source :: "(string \<times> pyval) list \<Rightarrow> pyval \<Rightarrow> bool" where
  "valid_source metadata raw = (case raw of
      PNone \<Rightarrow> True
    | PDict d \<Rightarrow>
        d \<noteq> [] \<and> set (dict_keys d) \<subseteq> {''gpus'', ''gpu_mem_mib''} \<union> set (dict_keys metadata) \<and>
        list_all (\<lambda>key. phas d key \<longrightarrow> quantity_survives (normalize_researcher_footprint raw) key)
          [''gpus'', ''gpu_mem_mib''] \<and>
        list_all (\<lambda>(key, v). phas d key \<longrightarrow> pget d key = v) metadata \<and>
        (normalize_researcher_footprint raw \<noteq> None \<or> list_ex (\<lambda>(key, v). phas d key) metadata)
    | _ \<Rightarrow> False)"

definition fits :: "resource_envelope \<Rightarrow> footprint option \<Rightarrow> bool" where
  "fits E fp = (case fp of
      None \<Rightarrow> True
    | Some f \<Rightarrow>
        if f = no_footprint \<or> fp_gpus f = Some 0 then True
        else if fp_gpus f \<noteq> None \<and> ev_gpu_count E = 0 then False
        else (let required = (case fp_gpus f of Some g \<Rightarrow> min g (int (ev_gpu_count E))
                              | None \<Rightarrow> if ev_gpu_count E = 0 then 0 else 1)
              in (case fp_mem f of
                  Some (Some wanted) \<Rightarrow>
                    if required = 0 \<or> length (ev_memory E) \<noteq> ev_gpu_count E then True
                    else (let memory = min wanted (py_sorted True id (ev_memory E) ! (nat required - 1))
                          in required \<le> int (length (filter (\<lambda>v. memory \<le> v) (ev_memory E))))
                | _ \<Rightarrow> True)))"

definition card_fits_resource_envelope :: "work_card \<Rightarrow> resource_envelope option \<Rightarrow> pyval option \<Rightarrow> bool" where
  "card_fits_resource_envelope c envelope node = (case envelope of
      None \<Rightarrow> True
    | Some E \<Rightarrow>
        valid_source metadata_of_card (wc_footprint c) \<and> valid_source metadata_of_pin (wc_resource_pin c) \<and>
        (case node of None \<Rightarrow> True | Some declared \<Rightarrow> valid_source [] declared) \<and>
        fits E (effective_card_footprint (wc_footprint c) (wc_resource_pin c) (Some (ev_gpu_count E, ev_memory E))) \<and>
        (case node of None \<Rightarrow> True | Some declared \<Rightarrow>
           fits E (effective_card_footprint declared (wc_resource_pin c) (Some (ev_gpu_count E, ev_memory E)))))"

section \<open>The node budget\<close>

definition card_freshness_superseded_error :: string where
  "card_freshness_superseded_error = ''superseded by Card freshness gate''"

definition durable_speculative_lifecycle :: "run_state \<Rightarrow> node \<Rightarrow> bool" where
  "durable_speculative_lifecycle st n \<longleftrightarrow> n_attempt n = 0 \<and> n_speculative n \<and>
     (case dict_get (st_speculative_nodes st) (n_id n) of
        None \<Rightarrow> False
      | Some (card_id, generation) \<Rightarrow>
          i_card_id (n_idea n) = Some card_id \<and> n_card_build_generation n = Some generation)"

definition is_unevaluated_speculative_discard :: "run_state \<Rightarrow> node \<Rightarrow> bool" where
  "is_unevaluated_speculative_discard st n \<longleftrightarrow>
     n_status n = Failed \<and> durable_speculative_lifecycle st n \<and> n_eval_start_boundary n \<and>
     \<not> n_eval_started n \<and> eq_int (n_eval_seconds n) 0 \<and> n_stages n = [] \<and>
     (n_never_evaluated n \<or>
      n_error_reason n = ''superseded'' \<and> n_error n = PStr card_freshness_superseded_error)"

definition node_counts_toward_card_budget :: "run_state \<Rightarrow> node \<Rightarrow> bool" where
  "node_counts_toward_card_budget st n \<longleftrightarrow> \<not> n_tombstoned n \<and> n_feasible n \<and>
     n_id n \<notin> st_breed_excluded st \<and> \<not> is_unevaluated_speculative_discard st n"

definition card_budget_used :: "run_state \<Rightarrow> int" where
  "card_budget_used st = int (length (filter (node_counts_toward_card_budget st) (nodes_of st)))"

definition refunded_card_budget_node_ids :: "run_state \<Rightarrow> int list" where
  "refunded_card_budget_node_ids st =
     map fst (filter (\<lambda>(k, n). is_unevaluated_speculative_discard st n) (st_nodes st))"

definition refunded_node_reservations :: "run_state \<Rightarrow> int \<Rightarrow> int" where
  "refunded_node_reservations st cap = min (int (length (refunded_card_budget_node_ids st))) (max 0 cap)"

definition first_of :: "'a list \<Rightarrow> 'a option" where
  "first_of xs = (case xs of [] \<Rightarrow> None | x # ys \<Rightarrow> Some x)"

text \<open>The universe a policy sees is the one that spends the budget.\<close>

definition effective_policy_state :: "run_state \<Rightarrow> run_state" where
  "effective_policy_state st =
     (let kept = filter (\<lambda>(k, n). node_counts_toward_card_budget st n) (st_nodes st)
      in if length kept = length (st_nodes st) then st
         else st\<lparr>st_nodes := kept,
           st_best_node_id :=
             (case st_best_node_id st of
                Some b \<Rightarrow> if b \<in> set (dict_keys kept) then Some b
                          else map_option n_id (first_of (rank_by_metric st
                            (filter (\<lambda>n. n_id n \<in> set (dict_keys kept)) (breedable_nodes st))))
              | None \<Rightarrow> map_option n_id (first_of (rank_by_metric st
                            (filter (\<lambda>n. n_id n \<in> set (dict_keys kept)) (breedable_nodes st)))))\<rparr>)"

section \<open>What the board holds unconsumed\<close>

definition dead_on_this_board :: "run_state \<Rightarrow> work_card \<Rightarrow> bool" where
  "dead_on_this_board st c =
     (if wc_operator c = Some ''debug'' then True
      else if wc_operator c \<noteq> Some ''merge'' then False
      else (case card_parent_ids c of
          None \<Rightarrow> False
        | Some ps \<Rightarrow>
            length ps = 2 \<and>
            list_all (\<lambda>p. case dict_get (st_nodes st) p of None \<Rightarrow> False | Some n \<Rightarrow> n_status n = Evaluated) ps \<and>
            set ps \<noteq> set (top_two_ids st)))"

definition unconsumed_card :: "run_state \<Rightarrow> string list \<Rightarrow> work_card \<Rightarrow> bool" where
  "unconsumed_card st exclude c \<longleftrightarrow> wc_id c \<notin> set exclude \<and> \<not> card_is_direction c \<and>
     wc_status c = ''proposed'' \<and> wc_verdict c = ''open'' \<and> wc_dropped_reason c = None \<and>
     wc_merged_into c = None \<and> \<not> dead_on_this_board st c"

definition unconsumed_card_inventory :: "card_board \<Rightarrow> string list \<Rightarrow> nat" where
  "unconsumed_card_inventory B exclude =
     length (filter (unconsumed_card (cb_state B) exclude) (dict_values (cb_cards B)))"

end
