(* ===== verification/CardScore.thy ===== *)
theory CardScore
  imports Cards
begin

text \<open>
  The scorer of the card lane (\<open>search/card_selection.py\<close>): the bounded treatment, the novelty,
  coverage, priority and foresight signals, and the score of a card against the proposals of the policy.
  Scores are exact reals rounded to twelve places; a stance Python cannot hash raises (\<open>None\<close>).
\<close>

section \<open>The treatment\<close>

definition finite_number :: "pyval \<Rightarrow> real option" where
  "finite_number v = (case v of PInt i \<Rightarrow> Some (of_int i) | PFloat (Fin r) \<Rightarrow> Some r | _ \<Rightarrow> None)"

definition unit_float :: "pyval \<Rightarrow> real \<Rightarrow> real" where
  "unit_float v d = (case finite_number v of None \<Rightarrow> d | Some x \<Rightarrow> min 1 (max 0 x))"

datatype stance = Explore | Balanced | Exploit

record card_scoring =
  sg_stance :: stance
  sg_novelty_weight :: real
  sg_coverage_weight :: real
  sg_confidence_weight :: real

datatype treatment_source = FromTreatment pyval pyval pyval pyval | FromMapping payload | NoTreatment

definition stance_of :: "pyval \<Rightarrow> stance option" where
  "stance_of raw = (case raw of
      PStr s \<Rightarrow> Some (if s = ''explore'' then Explore else if s = ''exploit'' then Exploit else Balanced)
    | PList xs \<Rightarrow> None
    | PDict d \<Rightarrow> None
    | _ \<Rightarrow> Some Balanced)"

definition normalize_card_scoring :: "treatment_source \<Rightarrow> card_scoring option" where
  "normalize_card_scoring source =
     (case (case source of
          FromTreatment s n c f \<Rightarrow> (s, n, c, f)
        | FromMapping d \<Rightarrow> (pget_or d ''stance'' (PStr ''balanced''), pget_or d ''novelty_weight'' (PFloat (Fin (1 / 2))),
            pget_or d ''coverage_weight'' (PFloat (Fin (1 / 2))), pget_or d ''confidence_weight'' (PFloat (Fin 0)))
        | NoTreatment \<Rightarrow> (PStr ''balanced'', PFloat (Fin (1 / 2)), PFloat (Fin (1 / 2)), PFloat (Fin 0))) of
       (s, n, c, f) \<Rightarrow> map_option (\<lambda>st. \<lparr>sg_stance = st, sg_novelty_weight = unit_float n (1 / 2),
          sg_coverage_weight = unit_float c (1 / 2), sg_confidence_weight = unit_float f 0\<rparr>) (stance_of s))"

section \<open>The signals\<close>

definition novelty_level_credit :: "int \<Rightarrow> real" where
  "novelty_level_credit level = (if level = 0 then 1 else if level = 1 then 0 else if level = 2 then 1 / 10
     else if level = 3 then 6 / 10 else if level = 4 then 4 / 10 else if level = 5 then 3 / 10 else 1 / 2)"

definition novelty_signal :: "work_card \<Rightarrow> real" where
  "novelty_signal c = (case wc_novelty_verdict c of
      PDict d \<Rightarrow>
        (if (case pget d ''recommendation'' of
               PStr r \<Rightarrow> py_lower r \<in> {''block'', ''drop'', ''reject'', ''supersede''} | _ \<Rightarrow> False) then 0
         else (case pget d ''level'' of
             PInt i \<Rightarrow> novelty_level_credit i
           | PFloat (Fin r) \<Rightarrow> if r = of_int \<lfloor>r\<rfloor> then novelty_level_credit \<lfloor>r\<rfloor> else 1 / 2
           | PFloat special \<Rightarrow> 1 / 2
           | _ \<Rightarrow> 0))
    | _ \<Rightarrow> 1 / 2)"

definition independently_classified :: "work_card \<Rightarrow> bool" where
  "independently_classified c \<longleftrightarrow> (case wc_concept_source c of
      None \<Rightarrow> False
    | Some s \<Rightarrow> cs_receipt_valid s \<and> cs_membership_present s \<and> cs_complete s \<and>
        cs_provenance s \<in> {Some ''classifier'', Some ''operator-edited''})"

definition recorded_concepts :: "renames \<Rightarrow> work_card \<Rightarrow> string list" where
  "recorded_concepts rename c = remdups (List.map_filter (\<lambda>tag.
     case resolve_concept rename concept_rename_hop_cap (PStr tag) of Inl concept \<Rightarrow> Some concept | Inr problem \<Rightarrow> None)
     (wc_concept_tags c))"

definition unverified_coverage_ceiling :: real where
  "unverified_coverage_ceiling = 1 / 2"

definition coverage_signal :: "string list \<Rightarrow> renames \<Rightarrow> work_card \<Rightarrow> real" where
  "coverage_signal explored rename c =
     (let concepts = recorded_concepts rename c;
          fraction = of_nat (length (filter (\<lambda>t. t \<notin> set explored) concepts)) / of_nat (length concepts)
      in if concepts = [] then 0
         else if independently_classified c then fraction else min fraction unverified_coverage_ceiling)"

definition explored_concepts :: "card_board \<Rightarrow> string list" where
  "explored_concepts B = concat (map snd (filter (\<lambda>(k, concepts). case dict_get (st_nodes (cb_state B)) k of
       None \<Rightarrow> False | Some n \<Rightarrow> node_counts_toward_card_budget (cb_state B) n) (cb_memberships B)))"

definition priority_signal :: "work_card \<Rightarrow> real" where
  "priority_signal c = (case wc_priority c of
      None \<Rightarrow> 0 | Some p \<Rightarrow> if p < 0 then 0 else 1 / (of_int p + 1))"

definition foresight_signal :: "real \<Rightarrow> real \<Rightarrow> real \<Rightarrow> real" where
  "foresight_signal confidence priority confidence_weight =
     confidence_weight * confidence + (1 - confidence_weight) * priority"

section \<open>The score\<close>

type_synonym score_value = "real \<times> real list"

definition round12 :: "real \<Rightarrow> real" where
  "round12 x = of_int (round_half_even (x * 10 ^ 12)) / 10 ^ 12"

definition policy_keys :: "proposal list \<Rightarrow> keyed_action list" where
  "policy_keys actions = List.map_filter (\<lambda>p. action_key (act p)) actions"

definition card_band :: "proposal list \<Rightarrow> work_card \<Rightarrow> real" where
  "card_band actions c = (if wc_pinned c then 3
     else (case card_key c of
         None \<Rightarrow> 0
       | Some key \<Rightarrow> if key \<in> set (policy_keys actions) then 2
           else if list_ex (\<lambda>k. fst k = fst key) (policy_keys actions) then 1 else 0))"

definition exploration_value :: "card_scoring \<Rightarrow> real \<Rightarrow> real \<Rightarrow> real" where
  "exploration_value T novelty coverage =
     (let total_weight = sg_novelty_weight T + sg_coverage_weight T
      in if 0 < total_weight
         then (sg_novelty_weight T * novelty + sg_coverage_weight T * coverage) / total_weight else 0)"

definition primary_secondary :: "stance \<Rightarrow> real \<Rightarrow> real \<Rightarrow> real \<times> real" where
  "primary_secondary s explore foresight = (case s of
      Explore \<Rightarrow> (explore, foresight)
    | Exploit \<Rightarrow> (foresight, explore)
    | Balanced \<Rightarrow> ((explore + foresight) / 2, explore))"

definition card_score :: "card_board \<Rightarrow> card_scoring \<Rightarrow> proposal list \<Rightarrow> work_card \<Rightarrow> score_value" where
  "card_score B T actions c =
     (let novelty = novelty_signal c;
          coverage = coverage_signal (explored_concepts B) (cb_renames B) c;
          confidence = unit_float (wc_confidence c) 0;
          priority = priority_signal c;
          explore = exploration_value T novelty coverage;
          foresight = foresight_signal confidence priority (sg_confidence_weight T)
      in case primary_secondary (sg_stance T) explore foresight of
           (primary, secondary) \<Rightarrow>
             (card_band actions c, map round12 [primary, secondary, priority, confidence, novelty, coverage]))"

text \<open>What an extension's scorer may answer, and what is accepted of it.\<close>

datatype score_answer = ScoreRaised | Scalar pyval | Pair pyval pyval | OtherScore

definition coerce_card_score :: "score_answer \<Rightarrow> score_value option" where
  "coerce_card_score answer = (case answer of
      Scalar v \<Rightarrow> map_option (\<lambda>x. (0, [x])) (finite_number v)
    | Pair band raw_key \<Rightarrow>
       (case finite_number band of
          None \<Rightarrow> None
        | Some b \<Rightarrow>
           (case raw_key of
              PList items \<Rightarrow> if list_ex (\<lambda>v. finite_number v = None) items then None
                             else Some (b, List.map_filter finite_number items)
            | v \<Rightarrow> map_option (\<lambda>x. (b, [x])) (finite_number v)))
    | _ \<Rightarrow> None)"

end
