(* ===== verification/CardLane.thy ===== *)
theory CardLane
  imports CardScore
begin

text \<open>
  The card lane (\<open>search/card_selection.py\<close>): the forced prefix, the lane of successive halving, the
  cadence a due action keeps, the election and the actions of one turn. A search policy is one of the
  four built-in ones, or an extension whose methods are parameters; either may carry the operator's
  lane width and the two optional hooks.
\<close>

section \<open>The policy an election asks\<close>

datatype select_answer = SelectRaised | NotASequence | Picked "string option list"

record lane_policy =
  lp_builtin :: "search_policy option"
  lp_env :: policy_env
  lp_extension :: "run_state \<Rightarrow> int list \<Rightarrow> proposal list"
  lp_extension_seeds :: int
  lp_select_k :: "int option"
  lp_score_hook :: "(card_board \<Rightarrow> work_card \<Rightarrow> card_scoring \<Rightarrow> score_answer) option"
  lp_select_hook :: "(card_board \<Rightarrow> work_card list \<Rightarrow> int \<Rightarrow> select_answer) option"

text \<open>A policy view: the state the policy reads and the pending nodes hidden from it.\<close>

type_synonym policy_view = "run_state \<times> int list"

definition visible_pending :: "policy_view \<Rightarrow> node list" where
  "visible_pending W = filter (\<lambda>n. n_id n \<notin> set (snd W)) (pending_nodes (fst W))"

definition policy_answer :: "lane_policy \<Rightarrow> policy_view \<Rightarrow> proposal list" where
  "policy_answer L W = (case lp_builtin L of
      None \<Rightarrow> lp_extension L (fst W) (snd W)
    | Some pol \<Rightarrow> if visible_pending W \<noteq> [] then map (\<lambda>n. plain (Evaluate (n_id n))) (visible_pending W)
                  else quiet_actions pol (lp_env L) (fst W))"

definition is_asha :: "lane_policy \<Rightarrow> bool" where
  "is_asha L = (case lp_builtin L of Some (Asha A) \<Rightarrow> True | _ \<Rightarrow> False)"

definition or_else :: "int \<Rightarrow> int \<Rightarrow> int" where
  "or_else k d = (if 0 < k then k else d)"

definition seed_target :: "lane_policy \<Rightarrow> int" where
  "seed_target L = (case lp_builtin L of
      None \<Rightarrow> max 0 (lp_extension_seeds L)
    | Some (Asha A) \<Rightarrow> or_else (a_rung0 A) (max 0 (a_n_seeds A))
    | Some (Greedy G) \<Rightarrow> max 0 (g_n_seeds G)
    | Some (Mcts M) \<Rightarrow> max 0 (m_n_seeds M)
    | Some (Evolutionary V) \<Rightarrow> max 0 (v_pop V))"

definition card_lane_width :: "lane_policy \<Rightarrow> int" where
  "card_lane_width L = (case lp_select_k L of
      Some k \<Rightarrow> max 1 k
    | None \<Rightarrow> (case lp_builtin L of
        Some (Evolutionary V) \<Rightarrow> or_else (int (v_elite V)) 1
      | Some (Mcts M) \<Rightarrow> or_else (m_n_seeds M) 1
      | _ \<Rightarrow> 1))"

section \<open>Actions of a turn\<close>

record lane_action =
  la_proposal :: proposal
  la_card :: "string option"

definition bare :: "proposal \<Rightarrow> lane_action" where
  "bare p = \<lparr>la_proposal = p, la_card = None\<rparr>"

definition card_lane_action :: "work_card \<Rightarrow> lane_action option" where
  "card_lane_action c = map_option (\<lambda>a. \<lparr>la_proposal = plain a, la_card = Some (wc_id c)\<rparr>) (card_action c)"

fun parent_of_action :: "action \<Rightarrow> int option" where
  "parent_of_action (Improve p) = Some p"
| "parent_of_action (Ablate p) = Some p"
| "parent_of_action (Simplify p b aid) = Some p"
| "parent_of_action a = None"

text \<open>The audit data of the policy, kept on the action a card stands for.\<close>

definition policy_metadata_for :: "lane_policy \<Rightarrow> action \<Rightarrow> proposal list \<Rightarrow> proposal" where
  "policy_metadata_for L a fallback =
     (let exact = find (\<lambda>p. action_key (act p) = action_key a) fallback;
          promotion = is_asha L \<and> length fallback = 1 \<and> p_rung (hd fallback) \<noteq> None \<and>
            (case action_key a of Some (kind, ps) \<Rightarrow> kind = ''improve'' | None \<Rightarrow> False)
      in if promotion then (hd fallback)\<lparr>act := a, p_chosen := parent_of_action a\<rparr>
         else (case exact of Some p \<Rightarrow> p\<lparr>act := a\<rparr> | None \<Rightarrow> plain a))"

definition card_actions_of :: "lane_policy \<Rightarrow> proposal list \<Rightarrow> work_card list \<Rightarrow> lane_action list" where
  "card_actions_of L fallback selected = List.map_filter (\<lambda>c. map_option
     (\<lambda>a. \<lparr>la_proposal = policy_metadata_for L a fallback, la_card = Some (wc_id c)\<rparr>) (card_action c)) selected"

section \<open>The forced prefix\<close>

definition seeded_count :: "lane_policy \<Rightarrow> run_state \<Rightarrow> int" where
  "seeded_count L st = (if is_asha L
     then int (length (filter (\<lambda>n. n_parent_ids n = [] \<and> node_counts_toward_card_budget st n) (nodes_of st)))
     else card_budget_used st)"

definition ready_drafts :: "card_board \<Rightarrow> int \<Rightarrow> lane_action list" where
  "ready_drafts B width = take (nat width)
     (List.map_filter card_lane_action (filter (\<lambda>c. wc_operator c = Some ''draft'') (eligible_cards B)))"

text \<open>\<open>None\<close>: scoring may run. An empty list is the end of the budget.\<close>

definition forced_masked :: "lane_policy \<Rightarrow> card_board \<Rightarrow> int \<Rightarrow> int list \<Rightarrow> lane_action list option" where
  "forced_masked L B max_nodes ignored =
     (let st = cb_state B; pending = visible_pending (st, ignored); used = card_budget_used st; cap = max 0 max_nodes
      in if pending \<noteq> [] then Some (map (\<lambda>n. bare (plain (Evaluate (n_id n)))) pending)
         else if cap \<le> used then Some []
         else if seeded_count L st < seed_target L
         then (let width = min (seed_target L - seeded_count L st) (cap - used); drafts = ready_drafts B width
               in if drafts \<noteq> [] then Some drafts else Some (replicate (nat width) (bare (plain Draft))))
         else None)"

definition forced_card_actions :: "lane_policy \<Rightarrow> card_board \<Rightarrow> int \<Rightarrow> lane_action list option" where
  "forced_card_actions L B max_nodes = forced_masked L B max_nodes []"

section \<open>Lanes and cadence\<close>

record asha_lane =
  al_keys :: "keyed_action list"
  al_width :: nat

definition no_lane :: asha_lane where
  "no_lane = \<lparr>al_keys = [], al_width = 0\<rparr>"

definition legal_survivors :: "run_state \<Rightarrow> int list \<Rightarrow> int list" where
  "legal_survivors st survivors = filter (\<lambda>p. p \<in> set (breedable_ids st) \<and> \<not> has_live_child st p \<and> \<not> retired st p) survivors"

definition asha_lane_of :: "run_state \<Rightarrow> proposal list \<Rightarrow> asha_lane" where
  "asha_lane_of st fallback = (case fallback of
      [p] \<Rightarrow>
       (case action_key (act p) of
          None \<Rightarrow> no_lane
        | Some key \<Rightarrow>
           (case p_rung p of
              None \<Rightarrow> \<lparr>al_keys = [key], al_width = 1\<rparr>
            | Some rung \<Rightarrow>
                (let survivors = p_promoted p; legal = legal_survivors st survivors
                 in if rung < 1 \<or> survivors = [] \<or> list_ex (\<lambda>k. k < 0) survivors \<or> \<not> distinct survivors then no_lane
                    else (case act p of
                        Improve chosen \<Rightarrow> if chosen \<in> set legal
                          then \<lparr>al_keys = map (\<lambda>k. (''improve'', [k])) legal, al_width = length legal\<rparr> else no_lane
                      | _ \<Rightarrow> no_lane))))
    | _ \<Rightarrow> no_lane)"

definition protected_due_action :: "proposal list \<Rightarrow> keyed_action option" where
  "protected_due_action fallback = (case fallback of
      [p] \<Rightarrow>
       (case act p of
          Simplify parent b aid \<Rightarrow> Some (''simplify'', [parent])
        | a \<Rightarrow> (case action_key a of
              None \<Rightarrow> None
            | Some key \<Rightarrow> if fst key \<in> {''merge'', ''ablate''} \<or> p_bandit p then Some key else None))
    | _ \<Rightarrow> None)"

section \<open>The election\<close>

definition score_for_policy :: "lane_policy \<Rightarrow> card_board \<Rightarrow> card_scoring \<Rightarrow> proposal list \<Rightarrow> work_card \<Rightarrow> score_value option" where
  "score_for_policy L B T fallback c = (case lp_score_hook L of
      Some hook \<Rightarrow> coerce_card_score (hook B c T)
    | None \<Rightarrow> (case lp_builtin L of None \<Rightarrow> None | Some pol \<Rightarrow> Some (card_score B T fallback c)))"

type_synonym niche = "string option \<times> int list \<times> string list"

definition diversity_key :: "work_card \<Rightarrow> niche" where
  "diversity_key c = (wc_operator c, (case card_parent_ids c of Some ps \<Rightarrow> ps | None \<Rightarrow> []),
     py_sorted False id (remdups (wc_concept_tags c)))"

text \<open>One card of every niche first; the flag says the limit was reached.\<close>

fun take_niches :: "int \<Rightarrow> work_card list \<Rightarrow> niche list \<Rightarrow> work_card list \<Rightarrow> work_card list \<times> bool" where
  "take_niches cap selected seen [] = (selected, False)"
| "take_niches cap selected seen (c # cs) =
     (if diversity_key c \<in> set seen then take_niches cap selected seen cs
      else if cap \<le> int (length (selected @ [c])) then (selected @ [c], True)
      else take_niches cap (selected @ [c]) (diversity_key c # seen) cs)"

fun fill_rest :: "int \<Rightarrow> work_card list \<Rightarrow> work_card list \<Rightarrow> work_card list" where
  "fill_rest cap selected [] = selected"
| "fill_rest cap selected (c # cs) =
     (if wc_id c \<in> set (map wc_id selected) then fill_rest cap selected cs
      else if cap \<le> int (length (selected @ [c])) then selected @ [c]
      else fill_rest cap (selected @ [c]) cs)"

definition default_select :: "int \<Rightarrow> work_card list \<Rightarrow> work_card list" where
  "default_select cap pool = (case take_niches cap [] [] pool of
      (selected, full) \<Rightarrow> if full then selected else fill_rest cap selected pool)"

text \<open>Successive halving promotes a survivor once.\<close>

fun one_per_action :: "int \<Rightarrow> work_card list \<Rightarrow> keyed_action list \<Rightarrow> work_card list \<Rightarrow> work_card list" where
  "one_per_action cap selected seen [] = selected"
| "one_per_action cap selected seen (c # cs) = (case card_key c of
      None \<Rightarrow> one_per_action cap selected seen cs
    | Some key \<Rightarrow>
        if key \<in> set seen then one_per_action cap selected seen cs
        else if cap \<le> int (length (selected @ [c])) then selected @ [c]
        else one_per_action cap (selected @ [c]) (key # seen) cs)"

text \<open>The ids an extension picked, read against the pool cards.\<close>

fun pick_named :: "int \<Rightarrow> work_card list \<Rightarrow> work_card list \<Rightarrow> string option list \<Rightarrow> work_card list" where
  "pick_named cap pool selected [] = selected"
| "pick_named cap pool selected (item # items) =
     (case item of
        None \<Rightarrow> []
      | Some k \<Rightarrow>
         (if k \<in> set (map wc_id selected) then []
          else (case find (\<lambda>c. wc_id c = k) (rev pool) of
              None \<Rightarrow> []
            | Some c \<Rightarrow> if cap \<le> int (length (selected @ [c])) then selected @ [c]
                        else pick_named cap pool (selected @ [c]) items)))"

definition hook_select :: "lane_policy \<Rightarrow> card_board \<Rightarrow> int \<Rightarrow> work_card list \<Rightarrow> work_card list option" where
  "hook_select L B cap pool = (case lp_select_hook L of
      None \<Rightarrow> None
    | Some hook \<Rightarrow> (case hook B pool cap of
        Picked items \<Rightarrow> Some (pick_named cap pool [] items)
      | _ \<Rightarrow> Some []))"

text \<open>Best score first, the lower id on a tie.\<close>

definition ranked_cards :: "(work_card \<times> score_value) list \<Rightarrow> work_card list" where
  "ranked_cards marks = map fst (py_sorted True snd (py_sorted False (\<lambda>(c, s). wc_id c) marks))"

definition lane_candidates :: "lane_policy \<Rightarrow> run_state \<Rightarrow> proposal list \<Rightarrow> work_card list \<Rightarrow> work_card list" where
  "lane_candidates L view_state fallback cards =
     (if is_asha L then filter (\<lambda>c. card_key c \<in> Some ` set (al_keys (asha_lane_of view_state fallback))) cards
      else (case protected_due_action fallback of
          Some due \<Rightarrow> if list_ex wc_pinned cards then cards else filter (\<lambda>c. card_key c = Some due) cards
        | None \<Rightarrow> cards))"

definition scored_cards :: "lane_policy \<Rightarrow> card_board \<Rightarrow> card_scoring \<Rightarrow> proposal list \<Rightarrow> work_card list \<Rightarrow> (work_card \<times> score_value) list" where
  "scored_cards L B T fallback cards =
     List.map_filter (\<lambda>c. map_option (\<lambda>s. (c, s)) (score_for_policy L B T fallback c)) cards"

definition lane_limit :: "lane_policy \<Rightarrow> run_state \<Rightarrow> proposal list \<Rightarrow> int \<Rightarrow> int \<Rightarrow> int" where
  "lane_limit L view_state fallback remaining n = min n (min remaining
     (if is_asha L then int (al_width (asha_lane_of view_state fallback)) else min remaining (card_lane_width L)))"

definition choose_cards :: "lane_policy \<Rightarrow> card_board \<Rightarrow> int \<Rightarrow> card_scoring \<Rightarrow> run_state \<Rightarrow> proposal list \<Rightarrow>
    work_card list \<Rightarrow> work_card list" where
  "choose_cards L B max_nodes T view_state fallback cards =
     (let remaining = max 0 (max 0 max_nodes - card_budget_used (cb_state B));
          pool = ranked_cards (scored_cards L B T fallback (lane_candidates L view_state fallback cards));
          cap = lane_limit L view_state fallback remaining (int (length pool));
          custom = hook_select L B cap pool
      in if cap \<le> 0 then []
         else if is_asha L then one_per_action cap [] [] (case custom of Some cs \<Rightarrow> cs | None \<Rightarrow> pool)
         else (case custom of Some cs \<Rightarrow> cs | None \<Rightarrow> default_select cap pool))"

definition selection_after_gates :: "lane_policy \<Rightarrow> card_board \<Rightarrow> int \<Rightarrow> card_scoring \<Rightarrow> policy_view \<Rightarrow> work_card list \<Rightarrow>
    string list \<Rightarrow> work_card list \<times> proposal list" where
  "selection_after_gates L B max_nodes T view cards refused =
     (let fallback = policy_answer L view
      in (choose_cards L B max_nodes T (fst view) fallback (filter (\<lambda>c. wc_id c \<notin> set refused) cards), fallback))"

definition elect :: "lane_policy \<Rightarrow> card_board \<Rightarrow> int \<Rightarrow> card_scoring \<Rightarrow> string list \<Rightarrow> work_card list \<times> proposal list" where
  "elect L B max_nodes T refused =
     selection_after_gates L B max_nodes T (effective_policy_state (cb_state B), []) (eligible_cards B) refused"

definition card_selection_set :: "lane_policy \<Rightarrow> card_board \<Rightarrow> int \<Rightarrow> card_scoring \<Rightarrow> string list \<Rightarrow> work_card list" where
  "card_selection_set L B max_nodes T refused =
     (if forced_card_actions L B max_nodes \<noteq> None then [] else fst (elect L B max_nodes T refused))"

section \<open>The turn\<close>

definition creates :: "action \<Rightarrow> bool" where
  "creates a = (case a of Evaluate k \<Rightarrow> False | _ \<Rightarrow> True)"

fun bounded_fallback :: "int \<Rightarrow> int \<Rightarrow> proposal list \<Rightarrow> proposal list" where
  "bounded_fallback remaining claimed [] = []"
| "bounded_fallback remaining claimed (p # ps) =
     (if creates (act p)
      then (if remaining \<le> claimed then bounded_fallback remaining claimed ps
            else p # bounded_fallback remaining (claimed + 1) ps)
      else p # bounded_fallback remaining claimed ps)"

definition turn_actions :: "lane_policy \<Rightarrow> int \<Rightarrow> work_card list \<Rightarrow> proposal list \<Rightarrow> lane_action list" where
  "turn_actions L remaining selected fallback =
     (let actions = card_actions_of L fallback selected; bounded = bounded_fallback remaining 0 fallback
      in if actions \<noteq> [] then actions
         else if bounded \<noteq> [] then map bare bounded
         else if 0 < remaining then [bare (plain Draft)] else [])"

definition card_next_actions :: "lane_policy \<Rightarrow> card_board \<Rightarrow> int \<Rightarrow> card_scoring \<Rightarrow> string list \<Rightarrow> lane_action list" where
  "card_next_actions L B max_nodes T refused = (case forced_card_actions L B max_nodes of
      Some forced \<Rightarrow> forced
    | None \<Rightarrow> (case elect L B max_nodes T refused of (selected, fallback) \<Rightarrow>
        turn_actions L (max 0 (max 0 max_nodes - card_budget_used (cb_state B))) selected fallback))"

end
