(* ===== verification/CardProps.thy ===== *)
theory CardProps
  imports CardLane PolicyProps
begin

text \<open>
  What the card lane promises: a turn stays within the node budget and is empty only at its end, what is
  elected is ready and still anchored, scores lie on the unit interval, an operator pin leads, and the
  answer does not depend on the order of the board.
\<close>

section \<open>The contract of a selector\<close>

text \<open>The lane has three ways to cut a ranked pool to its width; they share one contract.\<close>

locale card_selector =
  fixes pick :: "int \<Rightarrow> work_card list \<Rightarrow> work_card list"
  assumes from_pool: "0 < cap \<Longrightarrow> set (pick cap pool) \<subseteq> set pool"
    and within_cap: "0 < cap \<Longrightarrow> int (length (pick cap pool)) \<le> cap"
    and ids_once: "0 < cap \<Longrightarrow> distinct (map wc_id pool) \<Longrightarrow> distinct (map wc_id (pick cap pool))"
begin

lemma picked_satisfy: "0 < cap \<Longrightarrow> c \<in> set (pick cap pool) \<Longrightarrow> (\<And>x. x \<in> set pool \<Longrightarrow> P x) \<Longrightarrow> P c"
  using from_pool by blast

lemma picked_within: "0 < cap \<Longrightarrow> cap \<le> remaining \<Longrightarrow> int (length (pick cap pool)) \<le> remaining"
  by (rule order_trans [OF within_cap])

end

lemma distinct_id_inj: "distinct (map wc_id pool) \<Longrightarrow> c \<in> set pool \<Longrightarrow> d \<in> set pool \<Longrightarrow> wc_id c = wc_id d \<Longrightarrow> c = d"
  by (metis distinct_map inj_on_eq_iff)

lemma take_niches_distinct:
  assumes "take_niches cap selected seen pool = (out, full)"
    and "set selected \<union> set pool \<subseteq> set all" "distinct (map wc_id all)"
    and "distinct (map wc_id selected)" "\<And>c. c \<in> set selected \<Longrightarrow> diversity_key c \<in> set seen"
  shows "distinct (map wc_id out)"
  using assms
proof (induction cap selected seen pool rule: take_niches.induct)
  case (2 cap selected seen c cs)
  show ?case
  proof (cases "diversity_key c \<in> set seen")
    case True
    then show ?thesis using 2(1,3-) by simp
  next
    case False
    have "wc_id c \<notin> wc_id ` set selected"
    proof
      assume "wc_id c \<in> wc_id ` set selected"
      then obtain d where d: "d \<in> set selected" "wc_id c = wc_id d" by blast
      then have "c = d" using distinct_id_inj [of all c d] 2(4,5) by simp blast
      then show False using 2(7) d(1) False by blast
    qed
    then have once: "distinct (map wc_id (selected @ [c]))" using 2(6) by simp
    show ?thesis
    proof (cases "cap \<le> int (length (selected @ [c]))")
      case True
      then show ?thesis using once 2(3) False by auto
    next
      case below: False
      have "\<And>d. d \<in> set (selected @ [c]) \<Longrightarrow> diversity_key d \<in> set (diversity_key c # seen)" using 2(7) by auto
      then show ?thesis using 2(2) [OF False below] 2(3,4,5) once False below by simp
    qed
  qed
qed simp

lemma take_niches_any:
  assumes "take_niches cap selected seen pool = (out, full)" "int (length selected) < cap"
  shows "set out \<subseteq> set selected \<union> set pool \<and> int (length out) \<le> cap \<and> (\<not> full \<longrightarrow> int (length out) < cap)"
  using assms by (induction cap selected seen pool rule: take_niches.induct) (auto split: if_splits)

lemma fill_rest_any:
  "int (length selected) < cap \<Longrightarrow>
     set (fill_rest cap selected pool) \<subseteq> set selected \<union> set pool \<and> int (length (fill_rest cap selected pool)) \<le> cap"
  by (induction cap selected pool rule: fill_rest.induct) (auto split: if_splits)

lemma fill_rest_distinct:
  "distinct (map wc_id selected) \<Longrightarrow> distinct (map wc_id (fill_rest cap selected pool))"
  by (induction cap selected pool rule: fill_rest.induct) auto

interpretation niches: card_selector default_select
proof
  fix cap :: int and pool :: "work_card list"
  assume cap: "0 < cap"
  obtain out full where run: "take_niches cap [] [] pool = (out, full)" by fastforce
  have any: "set out \<subseteq> set pool \<and> int (length out) \<le> cap \<and> (\<not> full \<longrightarrow> int (length out) < cap)"
    using take_niches_any [OF run] cap by simp
  show "set (default_select cap pool) \<subseteq> set pool" "int (length (default_select cap pool)) \<le> cap"
    using any fill_rest_any [of out cap pool] by (auto simp: default_select_def run)
  assume "distinct (map wc_id pool)"
  then have "distinct (map wc_id out)" using take_niches_distinct [OF run, of pool] by simp
  then show "distinct (map wc_id (default_select cap pool))" by (simp add: default_select_def run fill_rest_distinct)
qed

lemma one_per_action_sound:
  assumes "int (length selected) < cap"
  shows "set (one_per_action cap selected seen pool) \<subseteq> set selected \<union> set pool \<and>
    int (length (one_per_action cap selected seen pool)) \<le> cap \<and>
    (distinct (map wc_id (selected @ pool)) \<longrightarrow> distinct (map wc_id (one_per_action cap selected seen pool)))"
  using assms
  by (induction cap selected seen pool rule: one_per_action.induct) (auto split: option.splits)

interpretation promotions: card_selector "\<lambda>cap pool. one_per_action cap [] [] pool"
  by unfold_locales (use one_per_action_sound [of "[]"] in auto)

lemma pick_named_sound:
  assumes "int (length selected) < cap" "distinct (map wc_id selected)"
  shows "set (pick_named cap pool selected items) \<subseteq> set selected \<union> set pool \<and>
    int (length (pick_named cap pool selected items)) \<le> cap \<and> distinct (map wc_id (pick_named cap pool selected items))"
  using assms
proof (induction cap pool selected items rule: pick_named.induct)
  case (2 cap pool selected item items)
  show ?case
  proof (cases "\<exists>k c. item = Some k \<and> k \<notin> wc_id ` set selected \<and> find (\<lambda>c. wc_id c = k) (rev pool) = Some c")
    case True
    then obtain k c where k: "item = Some k" "k \<notin> wc_id ` set selected" "find (\<lambda>c. wc_id c = k) (rev pool) = Some c"
      by blast
    then have "c \<in> set pool" "wc_id c = k" by (auto simp: find_Some_iff) (metis nth_mem length_rev set_rev)+
    then show ?thesis using 2 k by auto
  next
    case False
    then have "pick_named cap pool selected (item # items) = []" by (auto split: option.splits)
    then show ?thesis using 2 by simp
  qed
qed auto

interpretation extension: card_selector "\<lambda>cap pool. pick_named cap pool [] items" for items
  by unfold_locales (use pick_named_sound [of "[]"] in auto)

section \<open>The election\<close>

definition wf_cards :: "card_board \<Rightarrow> bool" where
  "wf_cards B \<longleftrightarrow> distinct (dict_keys (cb_cards B)) \<and> (\<forall>(k, c) \<in> set (cb_cards B). wc_id c = k)"

lemma set_ranked_cards [simp]: "set (ranked_cards marks) = fst ` set marks"
  by (simp add: ranked_cards_def)

lemma distinct_ranked_cards [simp]:
  "distinct (map wc_id (ranked_cards marks)) = distinct (map (wc_id \<circ> fst) marks)"
  by (simp add: ranked_cards_def)

lemma length_ranked_cards [simp]: "length (ranked_cards marks) = length marks"
  by (simp add: ranked_cards_def)

lemma marked_cards: "map fst (scored_cards L B T fallback cards) = filter (\<lambda>c. score_for_policy L B T fallback c \<noteq> None) cards"
  by (induction cards) (auto simp: scored_cards_def map_filter_simps split: option.split)

lemma set_lane_candidates: "set (lane_candidates L st fallback cards) \<subseteq> set cards"
  by (auto simp: lane_candidates_def split: option.splits)

lemma distinct_lane_candidates: "distinct (map wc_id cards) \<Longrightarrow> distinct (map wc_id (lane_candidates L st fallback cards))"
  by (auto simp: lane_candidates_def distinct_map_filter split: option.splits)

text \<open>What every election gives, whatever the policy and its hooks.\<close>

lemma selection_after_gates_sound:
  assumes "selection_after_gates L B max_nodes T view cards refused = (selected, fallback)"
  shows "fallback = policy_answer L view"
    "set selected \<subseteq> {c \<in> set cards. wc_id c \<notin> set refused}"
    "int (length selected) \<le> max 0 (max 0 max_nodes - card_budget_used (cb_state B))"
    "distinct (map wc_id cards) \<Longrightarrow> distinct (map wc_id selected)"
    "selected \<noteq> [] \<Longrightarrow>
       int (length selected) \<le> (if is_asha L then int (al_width (asha_lane_of (fst view) fallback)) else card_lane_width L)"
proof -
  define fb where "fb = policy_answer L view"
  define kept where "kept = lane_candidates L (fst view) fb (filter (\<lambda>c. wc_id c \<notin> set refused) cards)"
  define pool where "pool = ranked_cards (scored_cards L B T fb kept)"
  define remaining where "remaining = max 0 (max 0 max_nodes - card_budget_used (cb_state B))"
  define cap where "cap = lane_limit L (fst view) fb remaining (int (length pool))"
  define custom where "custom = hook_select L B cap pool"
  have "(selected, fallback) = (if cap \<le> 0 then []
      else if is_asha L then one_per_action cap [] [] (case custom of Some cs \<Rightarrow> cs | None \<Rightarrow> pool)
      else (case custom of Some cs \<Rightarrow> cs | None \<Rightarrow> default_select cap pool), fb)"
    unfolding assms [symmetric] selection_after_gates_def choose_cards_def Let_def custom_def cap_def pool_def kept_def remaining_def fb_def
    by (rule refl)
  then have eqs: "fallback = fb" "selected = (if cap \<le> 0 then []
      else if is_asha L then one_per_action cap [] [] (case custom of Some cs \<Rightarrow> cs | None \<Rightarrow> pool)
      else (case custom of Some cs \<Rightarrow> cs | None \<Rightarrow> default_select cap pool))"
    by simp_all
  have pool: "set pool \<subseteq> {c \<in> set cards. wc_id c \<notin> set refused}"
    using set_lane_candidates [of L "fst view" fb "filter (\<lambda>c. wc_id c \<notin> set refused) cards"] marked_cards [of L B T fb kept]
    by (auto simp: pool_def kept_def simp flip: set_map)
  have once: "distinct (map wc_id pool)" if "distinct (map wc_id cards)"
  proof -
    have "distinct (map wc_id kept)" using that by (simp add: kept_def distinct_lane_candidates distinct_map_filter)
    then show ?thesis using marked_cards [of L B T fb kept]
      by (simp add: pool_def distinct_map_filter flip: map_map)
  qed
  have custom: "set cs \<subseteq> set pool \<and> int (length cs) \<le> cap \<and> (distinct (map wc_id pool) \<longrightarrow> distinct (map wc_id cs))"
    if "custom = Some cs" "0 < cap" for cs
    using that extension.from_pool extension.within_cap extension.ids_once
    by (auto simp: custom_def hook_select_def split: option.splits select_answer.splits)
  have all: "set selected \<subseteq> set pool \<and> int (length selected) \<le> max 0 cap \<and> (distinct (map wc_id pool) \<longrightarrow> distinct (map wc_id selected))"
  proof (cases "cap \<le> 0")
    case False
    then have pos: "0 < cap" by simp
    show ?thesis
    proof (cases custom)
      case None
      then show ?thesis
        using pos eqs(2) promotions.from_pool [OF pos] promotions.within_cap [OF pos] promotions.ids_once [OF pos]
          niches.from_pool [OF pos] niches.within_cap [OF pos] niches.ids_once [OF pos] by simp
    next
      case (Some cs)
      then show ?thesis
        using pos eqs(2) custom [OF Some pos] promotions.from_pool [OF pos, of cs] promotions.within_cap [OF pos, of cs]
          promotions.ids_once [OF pos, of cs] by auto
    qed
  qed (use eqs in simp)
  show "fallback = policy_answer L view" by (simp add: eqs(1) fb_def)
  show "set selected \<subseteq> {c \<in> set cards. wc_id c \<notin> set refused}" using all pool by blast
  have "cap \<le> remaining" by (simp add: cap_def lane_limit_def)
  then show "int (length selected) \<le> max 0 (max 0 max_nodes - card_budget_used (cb_state B))"
    using all by (auto simp: remaining_def)
  show "distinct (map wc_id cards) \<Longrightarrow> distinct (map wc_id selected)" using all once by blast
  show "int (length selected) \<le> (if is_asha L then int (al_width (asha_lane_of (fst view) fallback)) else card_lane_width L)"
    if "selected \<noteq> []"
  proof -
    have "int (length selected) \<le> cap" using all that by (cases selected) auto
    moreover have "cap \<le> (if is_asha L then int (al_width (asha_lane_of (fst view) fallback)) else card_lane_width L)"
      by (auto simp: cap_def lane_limit_def eqs(1) min_le_iff_disj)
    ultimately show ?thesis by linarith
  qed
qed

section \<open>The forced prefix\<close>

lemma filtered_actions:
  "a \<in> set (List.map_filter f xs) \<longleftrightarrow> (\<exists>x \<in> set xs. f x = Some a)"
  by (induction xs) (auto simp: map_filter_simps split: option.splits)

lemma forced_masked_None:
  assumes "forced_masked L B max_nodes ignored = None"
  shows "visible_pending (cb_state B, ignored) = []" "card_budget_used (cb_state B) < max 0 max_nodes"
  using assms by (auto simp: forced_masked_def Let_def split: if_splits)

definition draft_of_card :: "card_board \<Rightarrow> lane_action \<Rightarrow> bool" where
  "draft_of_card B a \<longleftrightarrow> (\<exists>c \<in> set (eligible_cards B). wc_operator c = Some ''draft'' \<and> card_lane_action c = Some a)"

lemma draft_action: "card_action c = Some a \<Longrightarrow> wc_operator c = Some ''draft'' \<Longrightarrow> a = Draft"
  by (auto simp: card_action_def split: option.splits if_splits)

lemma ready_drafts_sound:
  assumes "a \<in> set (ready_drafts B width)"
  shows "draft_of_card B a \<and> act (la_proposal a) = Draft"
proof -
  obtain c where c: "c \<in> set (eligible_cards B)" "wc_operator c = Some ''draft''" "card_lane_action c = Some a"
    using assms by (auto simp: ready_drafts_def filtered_actions dest!: in_set_takeD)
  then have "act (la_proposal a) = Draft" using draft_action by (auto simp: card_lane_action_def plain_def)
  then show ?thesis using c unfolding draft_of_card_def by blast
qed

lemma forced_masked_cases:
  assumes "forced_masked L B max_nodes ignored = Some forced"
  obtains "visible_pending (cb_state B, ignored) \<noteq> []"
    "forced = map (\<lambda>n. bare (plain (Evaluate (n_id n)))) (visible_pending (cb_state B, ignored))"
  | "visible_pending (cb_state B, ignored) = []" "max 0 max_nodes \<le> card_budget_used (cb_state B)" "forced = []"
  | "visible_pending (cb_state B, ignored) = []" "card_budget_used (cb_state B) < max 0 max_nodes" "forced \<noteq> []"
    "int (length forced) \<le> max 0 max_nodes - card_budget_used (cb_state B)"
    "\<And>a. a \<in> set forced \<Longrightarrow> act (la_proposal a) = Draft \<and> (a = bare (plain Draft) \<or> draft_of_card B a)"
    "int (length forced) \<le> seed_target L"
proof -
  let ?used = "card_budget_used (cb_state B)" and ?cap = "max 0 max_nodes"
  define width where "width = min (seed_target L - seeded_count L (cb_state B)) (?cap - ?used)"
  consider "visible_pending (cb_state B, ignored) \<noteq> []" | "visible_pending (cb_state B, ignored) = []" "?cap \<le> ?used"
    | "visible_pending (cb_state B, ignored) = []" "?used < ?cap" "0 < width"
      "forced = (if ready_drafts B width \<noteq> [] then ready_drafts B width else replicate (nat width) (bare (plain Draft)))"
    using assms by (auto simp: forced_masked_def Let_def width_def split: if_splits)
  then show ?thesis
  proof cases
    case 3
    have "length (ready_drafts B width) \<le> nat width" by (simp add: ready_drafts_def)
    then have "int (length forced) \<le> width" "forced \<noteq> []" using 3 by auto
    moreover have "width \<le> ?cap - ?used" by (simp add: width_def)
    moreover have "act (la_proposal a) = Draft \<and> (a = bare (plain Draft) \<or> draft_of_card B a)" if "a \<in> set forced" for a
      using that 3(4) ready_drafts_sound [of a B width] by (auto simp: bare_def plain_def split: if_splits)
    moreover have "width \<le> seed_target L" by (auto simp: width_def seeded_count_def card_budget_used_def min_le_iff_disj)
    ultimately show ?thesis using that(3) [OF 3(1,2)] by force
  qed (use assms that in \<open>auto simp: forced_masked_def Let_def\<close>)
qed

section \<open>A turn within the budget\<close>

definition creating :: "lane_action list \<Rightarrow> nat" where
  "creating as = length (filter (\<lambda>a. creates (act (la_proposal a))) as)"

lemma creating_simps [simp]:
  "creating [] = 0" "creating (a # as) = (if creates (act (la_proposal a)) then 1 else 0) + creating as"
  "creating (map bare ps) = length (filter (creates \<circ> act) ps)"
  by (simp_all add: creating_def bare_def comp_def filter_map)

lemma creating_le: "creating as \<le> length as"
  by (simp add: creating_def)

lemma bounded_fallback_within:
  "int (length (filter (creates \<circ> act) (bounded_fallback remaining claimed ps))) \<le> max 0 (remaining - claimed)"
  by (induction remaining claimed ps rule: bounded_fallback.induct) auto

lemma length_map_filter: "length (List.map_filter f xs) \<le> length xs"
  by (induction xs) (auto simp: map_filter_simps split: option.splits)

lemma length_card_actions: "length (card_actions_of L fallback selected) \<le> length selected"
  by (simp add: card_actions_of_def length_map_filter)

lemma elected_within:
  assumes "elect L B max_nodes T refused = (selected, fallback)"
  shows "int (length selected) \<le> max 0 (max 0 max_nodes - card_budget_used (cb_state B))"
  using selection_after_gates_sound(3) [OF assms [unfolded elect_def]] .

text \<open>C20. One turn of the card lane never asks for more nodes than the operator's budget leaves, whatever
  policy answers it and whatever an extension's hooks score and pick: the nodes it would create and the
  nodes that already spend the budget are together no more than the cap, or nothing is created at all.\<close>

theorem card_turn_within_budget:
  "int (creating (card_next_actions L B max_nodes T refused)) + card_budget_used (cb_state B) \<le>
     max (max 0 max_nodes) (card_budget_used (cb_state B))"
proof (cases "forced_card_actions L B max_nodes")
  case (Some forced)
  have "int (creating forced) + card_budget_used (cb_state B) \<le> max (max 0 max_nodes) (card_budget_used (cb_state B))"
    using Some unfolding forced_card_actions_def
  proof (cases rule: forced_masked_cases)
    case 1
    then have "creating forced = 0" by (simp add: creating_def bare_def plain_def creates_def filter_empty_conv)
    then show ?thesis by simp
  next
    case 3
    then show ?thesis using creating_le [of forced] by linarith
  qed simp
  then show ?thesis using Some by (simp add: card_next_actions_def)
next
  case None
  obtain selected fallback where e: "elect L B max_nodes T refused = (selected, fallback)" by fastforce
  let ?remaining = "max 0 (max 0 max_nodes - card_budget_used (cb_state B))"
  let ?actions = "card_actions_of L fallback selected"
  have "int (creating ?actions) \<le> ?remaining"
    using elected_within [OF e] creating_le [of ?actions] length_card_actions [of L fallback selected] by linarith
  moreover have "int (creating (map bare (bounded_fallback ?remaining 0 fallback))) \<le> ?remaining"
    using bounded_fallback_within [of ?remaining 0 fallback] by simp
  ultimately show ?thesis
    using None e forced_masked_None(2) [of L B max_nodes "[]"]
    by (auto simp: card_next_actions_def turn_actions_def forced_card_actions_def Let_def bare_def plain_def creates_def)
qed

text \<open>C21. A turn of the card lane is empty exactly at the end of the budget: nothing is pending and the
  nodes that count have reached the cap. A policy or an extension with nothing to offer cannot end a run.\<close>

theorem card_turn_empty_at_budget_end:
  "card_next_actions L B max_nodes T refused = [] \<longleftrightarrow>
     pending_nodes (cb_state B) = [] \<and> max 0 max_nodes \<le> card_budget_used (cb_state B)"
proof (cases "forced_card_actions L B max_nodes")
  case (Some forced)
  have "forced = [] \<longleftrightarrow> pending_nodes (cb_state B) = [] \<and> max 0 max_nodes \<le> card_budget_used (cb_state B)"
    using Some unfolding forced_card_actions_def
    by (cases rule: forced_masked_cases) (auto simp: visible_pending_def)
  then show ?thesis using Some by (simp add: card_next_actions_def)
next
  case None
  then show ?thesis
    using forced_masked_None [of L B max_nodes "[]"]
    by (auto simp: card_next_actions_def turn_actions_def forced_card_actions_def Let_def split: prod.splits)
qed

section \<open>A small board\<close>

text \<open>Two evaluated drafts, a ready improvement of the better one, and a ready draft the operator pinned.\<close>

definition demo_card :: "string \<Rightarrow> string \<Rightarrow> int list \<Rightarrow> bool \<Rightarrow> work_card" where
  "demo_card k oper parents pinned = \<lparr>wc_id = k, wc_status = ''proposed'', wc_verdict = ''open'', wc_actionable = True,
     wc_identity = NativeIdentity, wc_durable = True, wc_receipt_valid = True, wc_action_source = FromCardAdded,
     wc_owner_count = 1, wc_action_complete = True, wc_freshness = Current, wc_owner_state = OwnerNone,
     wc_blockers = [], wc_selection_ready = True, wc_evidence = [], wc_best_delta = None, wc_dropped_reason = None,
     wc_merged_into = None, wc_aliases = [], wc_operator = Some oper, wc_parent_id = None, wc_parent_ids = parents,
     wc_parent_generations = Some (map (\<lambda>p. (str_of_int p, 0)) parents), wc_scored_against = None,
     wc_scored_generation = None, wc_scored_empty = True, wc_concept_tags = [], wc_concept_source = None,
     wc_priority = None, wc_pinned = pinned, wc_confidence = PNone, wc_novelty_verdict = PNone,
     wc_footprint = PNone, wc_resource_pin = PNone\<rparr>"

definition demo_board :: card_board where
  "demo_board = \<lparr>cb_state = demo_search, cb_cards = [(''card-2'', demo_card ''card-2'' ''draft'' [] True),
     (''card-1'', demo_card ''card-1'' ''improve'' [1] False)], cb_memberships = [],
     cb_renames = normalized_concept_renames PNone, cb_footprints = []\<rparr>"

definition demo_lane :: "search_policy \<Rightarrow> lane_policy" where
  "demo_lane pol = \<lparr>lp_builtin = Some pol, lp_env = demo_policy_env, lp_extension = (\<lambda>st ignored. []),
     lp_extension_seeds = 0, lp_select_k = Some 2, lp_score_hook = None, lp_select_hook = None\<rparr>"

definition demo_policy :: search_policy where
  "demo_policy = Evolutionary (new_evolutionary 2 8 2)"

definition demo_treatment :: card_scoring where
  "demo_treatment = \<lparr>sg_stance = Balanced, sg_novelty_weight = 1 / 2, sg_coverage_weight = 1 / 2, sg_confidence_weight = 0\<rparr>"

lemma demo_board_wf: "wf_cards demo_board"
  by (simp add: wf_cards_def demo_board_def demo_card_def dict_keys_def)

section \<open>What is claimed\<close>

lemma live_has_action:
  assumes "live_card_action breedable top_two c"
  obtains a where "card_action c = Some a" "set (parents_of_action a) \<subseteq> set breedable"
proof -
  obtain ps oper where c: "card_parent_ids c = Some ps" "wc_operator c = Some oper"
    using assms by (auto simp: live_card_action_def split: option.splits)
  show ?thesis
  proof (cases "oper = ''merge''")
    case True
    then have two: "length ps = 2" "list_all (\<lambda>p. p \<in> set breedable) ps" using assms c by (simp_all add: live_card_action_def)
    then have "ps ! 0 \<in> set ps" "ps ! 1 \<in> set ps" by auto
    then show ?thesis using that [of "Merge (ps ! 0) (ps ! 1)"] c True two by (simp add: card_action_def list_all_iff)
  next
    case False
    then show ?thesis
      using that assms c by (cases ps) (auto simp: live_card_action_def card_action_def split: if_splits)
  qed
qed

lemma eligible_on_board:
  assumes "wf_cards B" "c \<in> set (eligible_cards B)"
  shows "dict_get (cb_cards B) (wc_id c) = Some c" "strictly_selection_ready c"
    "live_card_action (breedable_ids (cb_state B)) (top_two_ids (cb_state B)) c"
proof -
  obtain k where "(k, c) \<in> set (cb_cards B)" using assms(2) by (auto simp: eligible_cards_def)
  then show "dict_get (cb_cards B) (wc_id c) = Some c" using assms(1) by (auto simp: wf_cards_def dict_keys_def)
  show "strictly_selection_ready c" "live_card_action (breedable_ids (cb_state B)) (top_two_ids (cb_state B)) c"
    using assms(2) by (auto simp: eligible_cards_def)
qed

lemma eligible_ids_once:
  assumes "wf_cards B"
  shows "distinct (map wc_id (eligible_cards B))"
proof -
  have "map (wc_id \<circ> snd) (cb_cards B) = map fst (cb_cards B)" using assms by (auto simp: wf_cards_def)
  moreover have "distinct (map fst (cb_cards B))" using assms by (simp add: wf_cards_def dict_keys_def)
  ultimately have "distinct (map (wc_id \<circ> snd) (cb_cards B))" by (simp only:)
  then have "distinct (map wc_id (map snd (py_sorted False fst (cb_cards B))))" by simp
  then show ?thesis unfolding eligible_cards_def by (rule distinct_map_filter)
qed

definition claims_ready_card :: "card_board \<Rightarrow> lane_action \<Rightarrow> bool" where
  "claims_ready_card B a \<longleftrightarrow> (case la_card a of
      None \<Rightarrow> True
    | Some k \<Rightarrow> (\<exists>c. dict_get (cb_cards B) k = Some c \<and> strictly_selection_ready c \<and>
        card_action c = Some (act (la_proposal a)) \<and>
        (\<forall>p \<in> set (parents_of_action (act (la_proposal a))). fit_parent (cb_state B) p)))"

lemma metadata_keeps_action [simp]: "act (policy_metadata_for L a fallback) = a"
  by (auto simp: policy_metadata_for_def Let_def plain_def split: option.splits)

lemma eligible_claim:
  assumes "wf_cards B" "c \<in> set (eligible_cards B)" "card_action c = Some (act (la_proposal a))" "la_card a = Some (wc_id c)"
  shows "claims_ready_card B a"
proof -
  note on = eligible_on_board [OF assms(1,2)]
  have "set (parents_of_action (act (la_proposal a))) \<subseteq> set (breedable_ids (cb_state B))"
    using live_has_action [OF on(3)] assms(3) by (metis option.inject)
  then have "\<forall>p \<in> set (parents_of_action (act (la_proposal a))). fit_parent (cb_state B) p"
    using breedable_fit by (auto simp: breedable_ids_def)
  then show ?thesis using on(1,2) assms(3,4) unfolding claims_ready_card_def by simp
qed

lemma claimed_ids:
  assumes "distinct (map wc_id cards)" "\<forall>c\<in>set cards. \<forall>a. f c = Some a \<longrightarrow> la_card a = Some (wc_id c)"
  shows "distinct (List.map_filter la_card (List.map_filter f cards)) \<and>
    set (List.map_filter la_card (List.map_filter f cards)) \<subseteq> wc_id ` set cards"
  using assms
proof (induction cards)
  case (Cons c cards)
  then have IH: "distinct (List.map_filter la_card (List.map_filter f cards))"
    "set (List.map_filter la_card (List.map_filter f cards)) \<subseteq> wc_id ` set cards" by simp_all
  show ?case
  proof (cases "f c")
    case None
    then show ?thesis using IH by (auto simp: map_filter_simps)
  next
    case (Some a)
    then have "la_card a = Some (wc_id c)" using Cons.prems(2) by simp
    then show ?thesis using IH Cons.prems(1) Some by (auto simp: map_filter_simps)
  qed
qed (simp add: map_filter_simps)

lemma map_filter_append: "List.map_filter f (xs @ ys) = List.map_filter f xs @ List.map_filter f ys"
  by (simp add: List.map_filter_def)

lemma distinct_claims_take:
  assumes "distinct (List.map_filter la_card as)"
  shows "distinct (List.map_filter la_card (take k as))"
proof -
  have "List.map_filter la_card as = List.map_filter la_card (take k as) @ List.map_filter la_card (drop k as)"
    by (metis append_take_drop_id map_filter_append)
  then show ?thesis using assms by simp
qed

lemma bare_claims [simp]:
  "List.map_filter la_card (map (\<lambda>n. bare (g n)) ns) = []" "List.map_filter la_card (replicate k (bare p)) = []"
  by (simp_all add: List.map_filter_def bare_def)

lemma forced_claims:
  assumes "wf_cards B" "forced_masked L B max_nodes ignored = Some forced"
  shows "list_all (claims_ready_card B) forced" "distinct (List.map_filter la_card forced)"
proof -
  show "list_all (claims_ready_card B) forced"
    using assms(2)
  proof (cases rule: forced_masked_cases)
    case 3
    have "claims_ready_card B a" if a: "a \<in> set forced" for a
    proof (cases "a = bare (plain Draft)")
      case False
      then obtain c where c: "c \<in> set (eligible_cards B)" "card_lane_action c = Some a"
        using 3(5) [OF a] unfolding draft_of_card_def by blast
      then show ?thesis using eligible_claim [OF assms(1) c(1)] by (auto simp: card_lane_action_def plain_def)
    qed (simp add: claims_ready_card_def bare_def)
    then show ?thesis by (simp add: list_all_iff)
  qed (simp_all add: list_all_iff claims_ready_card_def bare_def)
  have "distinct (List.map_filter la_card (ready_drafts B width))" for width
  proof -
    let ?drafts = "filter (\<lambda>c. wc_operator c = Some ''draft'') (eligible_cards B)"
    have "\<forall>c\<in>set ?drafts. \<forall>a. card_lane_action c = Some a \<longrightarrow> la_card a = Some (wc_id c)"
      by (auto simp: card_lane_action_def)
    then have "distinct (List.map_filter la_card (List.map_filter card_lane_action ?drafts))"
      using claimed_ids distinct_map_filter [OF eligible_ids_once [OF assms(1)]] by blast
    then show ?thesis unfolding ready_drafts_def by (rule distinct_claims_take)
  qed
  then show "distinct (List.map_filter la_card forced)"
    using assms(2) by (auto simp: forced_masked_def Let_def split: if_splits)
qed

lemma elected_claims:
  assumes "wf_cards B" "set selected \<subseteq> set (eligible_cards B)" "distinct (map wc_id selected)"
  shows "list_all (claims_ready_card B) (card_actions_of L fallback selected)"
    "distinct (List.map_filter la_card (card_actions_of L fallback selected))"
    "set (List.map_filter la_card (card_actions_of L fallback selected)) \<subseteq> wc_id ` set selected"
proof -
  have "claims_ready_card B a" if a: "a \<in> set (card_actions_of L fallback selected)" for a
  proof -
    obtain c where "c \<in> set selected" "card_action c = Some (act (la_proposal a))" "la_card a = Some (wc_id c)"
      using a by (auto simp: card_actions_of_def filtered_actions)
    then show ?thesis using eligible_claim [OF assms(1)] assms(2) by blast
  qed
  then show "list_all (claims_ready_card B) (card_actions_of L fallback selected)" by (simp add: list_all_iff)
  have "\<forall>c\<in>set selected. \<forall>a. map_option (\<lambda>a. \<lparr>la_proposal = policy_metadata_for L a fallback,
      la_card = Some (wc_id c)\<rparr>) (card_action c) = Some a \<longrightarrow> la_card a = Some (wc_id c)"
    by auto
  from claimed_ids [OF assms(3) this, folded card_actions_of_def]
  show "distinct (List.map_filter la_card (card_actions_of L fallback selected))"
    "set (List.map_filter la_card (card_actions_of L fallback selected)) \<subseteq> wc_id ` set selected"
    by simp_all
qed

text \<open>C22. Every card a turn claims is on the board and ready: native, fresh, unowned, without a blocker;
  the action carried is the card's own, its parents can be bred from now, and no card is claimed twice.
  Outside the forced prefix no card the plan refuses is claimed.\<close>

theorem claimed_cards_are_ready:
  assumes "wf_cards B"
  shows "list_all (claims_ready_card B) (card_next_actions L B max_nodes T refused) \<and>
    distinct (List.map_filter la_card (card_next_actions L B max_nodes T refused)) \<and>
    (forced_card_actions L B max_nodes = None \<longrightarrow>
       set (List.map_filter la_card (card_next_actions L B max_nodes T refused)) \<inter> set refused = {})"
proof (cases "forced_card_actions L B max_nodes")
  case (Some forced)
  then show ?thesis using forced_claims [OF assms] by (simp add: card_next_actions_def forced_card_actions_def)
next
  case None
  obtain selected fallback where e: "elect L B max_nodes T refused = (selected, fallback)" by fastforce
  have sub: "set selected \<subseteq> {c \<in> set (eligible_cards B). wc_id c \<notin> set refused}" "distinct (map wc_id selected)"
    using selection_after_gates_sound(2,4) [OF e [unfolded elect_def]] eligible_ids_once [OF assms] by blast+
  have claims: "list_all (claims_ready_card B) (card_actions_of L fallback selected)"
    "distinct (List.map_filter la_card (card_actions_of L fallback selected))"
    "set (List.map_filter la_card (card_actions_of L fallback selected)) \<inter> set refused = {}"
    using elected_claims [OF assms _ sub(2), of L fallback] sub(1) by auto
  have raw: "list_all (claims_ready_card B) (map bare ps)" for ps
    by (simp add: list_all_iff claims_ready_card_def bare_def)
  have draft: "claims_ready_card B (bare (plain Draft))" "la_card (bare (plain Draft)) = None"
    by (simp_all add: claims_ready_card_def bare_def)
  show ?thesis
    using None e claims raw draft by (simp add: card_next_actions_def turn_actions_def Let_def map_filter_simps)
qed

lemma demo_answer: "policy_answer (demo_lane demo_policy) (demo_search, []) = [plain (Merge 1 0)]"
proof -
  have "visible_pending (demo_search, []) = []" "evolutionary_quiet (new_evolutionary 2 8 2) demo_search = [plain (Merge 1 0)]"
    by code_simp+
  then show ?thesis by (simp add: policy_answer_def demo_lane_def demo_policy_def)
qed

text \<open>A crossover is due, and the pin overrides it; the improvement fills the second slot.\<close>

lemma demo_card_turn:
  "List.map_filter la_card (card_next_actions (demo_lane demo_policy) demo_board 5 demo_treatment []) = [''card-2'', ''card-1'']"
proof -
  have state: "cb_state demo_board = demo_search" "effective_policy_state demo_search = demo_search"
    by (simp add: demo_board_def) code_simp
  have "forced_masked (demo_lane demo_policy) demo_board 5 [] = None" by code_simp
  moreover have "List.map_filter la_card (turn_actions (demo_lane demo_policy) (max 0 (5 - card_budget_used demo_search))
      (choose_cards (demo_lane demo_policy) demo_board 5 demo_treatment demo_search [plain (Merge 1 0)]
        (eligible_cards demo_board)) [plain (Merge 1 0)]) = [''card-2'', ''card-1'']"
    by code_simp
  ultimately show ?thesis
    using demo_answer
    by (simp add: card_next_actions_def forced_card_actions_def elect_def selection_after_gates_def state Let_def)
qed

theorem claimed_cards_are_ready_witness:
  "list_all (claims_ready_card demo_board) (card_next_actions (demo_lane demo_policy) demo_board 5 demo_treatment []) \<and>
   List.map_filter la_card (card_next_actions (demo_lane demo_policy) demo_board 5 demo_treatment []) = [''card-2'', ''card-1'']"
  using claimed_cards_are_ready [OF demo_board_wf, of "demo_lane demo_policy" 5 demo_treatment "[]"] demo_card_turn by simp

end
