(* ===== verification/CardRank.thy ===== *)
theory CardRank
  imports CardProps
begin

text \<open>
  How the lane ranks: scores lie on the unit interval, what a card says of itself cannot buy the full
  exploration bonus, a pin of the operator leads its turn, and the answer is the same for every order in
  which the cards stand on the board.
\<close>

section \<open>The scale of a score\<close>

definition unit_interval :: "real \<Rightarrow> bool" where
  "unit_interval x \<longleftrightarrow> 0 \<le> x \<and> x \<le> 1"

lemma unit_simps [simp]: "unit_interval 0" "unit_interval 1" "unit_interval (1 / 2)"
  by (simp_all add: unit_interval_def)

lemma unit_mix:
  assumes "unit_interval w" "unit_interval x" "unit_interval y"
  shows "unit_interval (w * x + (1 - w) * y)"
proof -
  have "w * x + (1 - w) * y \<le> w * 1 + (1 - w) * 1"
    using assms by (intro add_mono mult_left_mono) (auto simp: unit_interval_def)
  then show ?thesis using assms by (simp add: unit_interval_def)
qed

lemma unit_weighted:
  assumes "0 \<le> v" "0 \<le> w" "0 < v + w" "unit_interval x" "unit_interval y"
  shows "unit_interval ((v * x + w * y) / (v + w))"
proof -
  have "v * x + w * y \<le> v * 1 + w * 1"
    using assms by (intro add_mono mult_left_mono) (auto simp: unit_interval_def)
  then show ?thesis using assms by (simp add: unit_interval_def)
qed

lemma round_half_even_within:
  assumes "of_int a \<le> x" "x \<le> of_int b"
  shows "a \<le> round_half_even x" "round_half_even x \<le> b"
proof -
  have "a \<le> \<lfloor>x\<rfloor>" using assms(1) by (simp add: le_floor_iff)
  moreover have "round_half_even x = \<lfloor>x\<rfloor> \<or> round_half_even x = \<lfloor>x\<rfloor> + 1 \<and> 0 < x - of_int \<lfloor>x\<rfloor>"
    by (auto simp: round_half_even_def Let_def)
  moreover have "\<lfloor>x\<rfloor> < b" if "0 < x - of_int \<lfloor>x\<rfloor>" using that assms(2) by linarith
  moreover have "\<lfloor>x\<rfloor> \<le> b" using assms(2) by linarith
  ultimately show "a \<le> round_half_even x" "round_half_even x \<le> b" by auto
qed

lemma unit_round12:
  assumes "unit_interval x"
  shows "unit_interval (round12 x)"
proof -
  have "of_int 0 \<le> x * 10 ^ 12" "x * 10 ^ 12 \<le> of_int (10 ^ 12)" using assms by (simp_all add: unit_interval_def)
  from round_half_even_within [OF this] have "0 \<le> real_of_int (round_half_even (x * 10 ^ 12))"
    "real_of_int (round_half_even (x * 10 ^ 12)) \<le> real_of_int (10 ^ 12)" by (simp, linarith)
  then show ?thesis by (simp add: unit_interval_def round12_def)
qed

lemma unit_unit_float: "unit_interval d \<Longrightarrow> unit_interval (unit_float v d)"
  by (auto simp: unit_float_def unit_interval_def split: option.splits)

lemma unit_novelty: "unit_interval (novelty_signal c)"
  by (auto simp: novelty_signal_def novelty_level_credit_def unit_interval_def split: pyval.splits pyfloat.splits)

lemma unit_coverage: "unit_interval (coverage_signal explored rename c)"
proof -
  have "real (length (filter P cs)) / real (length cs) \<le> 1" for P and cs :: "string list"
    by (simp add: divide_le_eq_1)
  then show ?thesis by (auto simp: coverage_signal_def Let_def unit_interval_def unverified_coverage_ceiling_def)
qed

lemma unit_priority: "unit_interval (priority_signal c)"
  by (auto simp: priority_signal_def unit_interval_def split: option.splits)

lemma treatment_units:
  assumes "normalize_card_scoring source = Some T"
  shows "unit_interval (sg_novelty_weight T)" "unit_interval (sg_coverage_weight T)" "unit_interval (sg_confidence_weight T)"
  using assms by (auto simp: normalize_card_scoring_def intro!: unit_unit_float split: treatment_source.splits)

lemma unit_exploration:
  assumes "unit_interval (sg_novelty_weight T)" "unit_interval (sg_coverage_weight T)" "unit_interval x" "unit_interval y"
  shows "unit_interval (exploration_value T x y)"
  using assms unit_weighted [of "sg_novelty_weight T" "sg_coverage_weight T" x y]
  by (auto simp: exploration_value_def Let_def) (auto simp: unit_interval_def)

text \<open>C25. Whatever stance, weights, confidence, priority or novelty verdict come in, well formed or not,
  a score of the built-in scorer has one of the four bands and every other component on the unit interval,
  so no card can be lifted over a band, and none by a number it reports of itself.\<close>

theorem card_scores_share_one_scale:
  assumes "normalize_card_scoring source = Some T"
  shows "fst (card_score B T actions c) \<in> {0, 1, 2, 3} \<and> list_all unit_interval (snd (card_score B T actions c))"
proof -
  note units = treatment_units [OF assms]
  let ?n = "novelty_signal c" and ?v = "coverage_signal (explored_concepts B) (cb_renames B) c"
  let ?conf = "unit_float (wc_confidence c) 0" and ?p = "priority_signal c"
  let ?e = "exploration_value T ?n ?v" and ?f = "foresight_signal ?conf ?p (sg_confidence_weight T)"
  have explore: "unit_interval ?e" using units unit_novelty unit_coverage by (simp add: unit_exploration)
  have foresight: "unit_interval ?f"
    using units(3) unit_priority unit_unit_float [of 0] by (simp add: foresight_signal_def unit_mix)
  have "unit_interval ((?e + ?f) / 2)" using explore foresight by (simp add: unit_interval_def)
  then have "unit_interval (fst (primary_secondary (sg_stance T) ?e ?f)) \<and> unit_interval (snd (primary_secondary (sg_stance T) ?e ?f))"
    using explore foresight by (auto simp: primary_secondary_def split: stance.splits)
  moreover have "fst (card_score B T actions c) \<in> {0, 1, 2, 3}"
    by (auto simp: card_score_def card_band_def Let_def split: prod.splits option.splits)
  ultimately show ?thesis
    using unit_priority [of c] unit_novelty [of c] unit_coverage unit_unit_float [of 0 "wc_confidence c"]
    by (auto simp: card_score_def Let_def unit_round12 split: prod.splits)
qed

definition wild_treatment :: treatment_source where
  "wild_treatment = FromTreatment (PStr ''boldest'') (PFloat (Fin 7)) (PStr ''most'') (PInt (- 3))"

theorem card_scores_share_one_scale_witness:
  "list_all unit_interval (snd (card_score demo_board
     \<lparr>sg_stance = Balanced, sg_novelty_weight = 1, sg_coverage_weight = 1 / 2, sg_confidence_weight = 0\<rparr>
     [plain (Merge 1 0)] (demo_card ''card-1'' ''improve'' [1] False)))"
  by (rule conjunct2 [OF card_scores_share_one_scale [of wild_treatment]])
    (simp add: wild_treatment_def normalize_card_scoring_def stance_of_def unit_float_def finite_number_def)

section \<open>The operator's pin\<close>

lemma take_niches_keeps_head:
  "selected \<noteq> [] \<Longrightarrow> hd (fst (take_niches cap selected seen pool)) = hd selected \<and> fst (take_niches cap selected seen pool) \<noteq> []"
  by (induction cap selected seen pool rule: take_niches.induct) auto

lemma fill_rest_keeps_head:
  "selected \<noteq> [] \<Longrightarrow> hd (fill_rest cap selected pool) = hd selected \<and> fill_rest cap selected pool \<noteq> []"
  by (induction cap selected pool rule: fill_rest.induct) auto

lemma default_select_leads:
  assumes "pool \<noteq> []"
  shows "hd (default_select cap pool) = hd pool" "default_select cap pool \<noteq> []"
proof -
  obtain c cs where pool: "pool = c # cs" using assms by (cases pool) auto
  obtain out full where run: "take_niches cap [] [] pool = (out, full)" by fastforce
  have "hd out = c \<and> out \<noteq> []"
    using run take_niches_keeps_head [of "[c]" cap "[diversity_key c]" cs] by (auto simp: pool split: if_splits)
  then show "hd (default_select cap pool) = hd pool" "default_select cap pool \<noteq> []"
    using fill_rest_keeps_head [of out cap pool] unfolding default_select_def run by (auto simp: pool)
qed

lemma best_mark_first:
  assumes "(c, s) \<in> set marks"
  obtains d t where "ranked_cards marks \<noteq> []" "hd (ranked_cards marks) = d" "(d, t) \<in> set marks" "s \<le> t"
proof -
  let ?sorted = "py_sorted True snd (py_sorted False (\<lambda>(c, s). wc_id c) marks)"
  have ne: "py_sorted False (\<lambda>(c, s). wc_id c) marks \<noteq> []" "marks \<noteq> []" using assms by auto
  have "snd (c, s) \<le> snd (hd ?sorted)"
    using hd_py_sorted_best [where r = True and key = snd and y = "(c, s)", OF ne(1)] assms by simp
  moreover have "hd ?sorted \<in> set marks" using hd_py_sorted_in [OF ne(1), of True snd] by simp
  moreover have "?sorted \<noteq> []" using ne by simp
  ultimately show ?thesis
    using that [of "fst (hd ?sorted)" "snd (hd ?sorted)"] by (simp add: ranked_cards_def hd_map)
qed

lemma lane_width_positive: "1 \<le> card_lane_width L"
  by (auto simp: card_lane_width_def or_else_def split: option.splits search_policy.splits)

lemma pinned_band: "fst (card_score B T actions c) = 3 \<longleftrightarrow> wc_pinned c"
  by (auto simp: card_score_def card_band_def Let_def split: prod.splits option.splits if_splits)

lemma band_bound: "fst (card_score B T actions c) \<le> 3"
  by (auto simp: card_score_def card_band_def Let_def split: prod.splits option.splits)

lemma pinned_chosen_first:
  assumes "lp_builtin L = Some pol" "\<not> is_asha L" "lp_score_hook L = None" "lp_select_hook L = None"
    and "c \<in> set cards" "wc_pinned c" "card_budget_used (cb_state B) < max 0 max_nodes"
  shows "choose_cards L B max_nodes T st fallback cards \<noteq> []" "wc_pinned (hd (choose_cards L B max_nodes T st fallback cards))"
    "hd (choose_cards L B max_nodes T st fallback cards) \<in> set cards"
proof -
  let ?marks = "scored_cards L B T fallback (lane_candidates L st fallback cards)"
  let ?pool = "ranked_cards ?marks"
  let ?cap = "lane_limit L st fallback (max 0 (max 0 max_nodes - card_budget_used (cb_state B))) (int (length ?pool))"
  have all: "lane_candidates L st fallback cards = cards"
    using assms(2,5,6) by (auto simp: lane_candidates_def list_ex_iff split: option.splits)
  have marks: "?marks = map (\<lambda>d. (d, card_score B T fallback d)) cards"
    unfolding all by (induction cards) (simp_all add: scored_cards_def map_filter_simps score_for_policy_def assms(1,3))
  have "(c, card_score B T fallback c) \<in> set ?marks" using assms(5) by (auto simp: marks)
  then obtain d t where d: "?pool \<noteq> []" "hd ?pool = d" "(d, t) \<in> set ?marks" "card_score B T fallback c \<le> t"
    by (rule best_mark_first)
  then have "d \<in> set cards" "t = card_score B T fallback d" by (auto simp: marks)
  then have lead: "wc_pinned d" "d \<in> set cards"
    using d(4) pinned_band [of B T fallback] band_bound [of B T fallback d] assms(6)
    by (metis less_eq_prod_def order_antisym order_less_imp_le, blast)
  have "0 < ?cap" using d(1) assms(2,7) lane_width_positive [of L] by (cases ?pool) (auto simp: lane_limit_def)
  then have "choose_cards L B max_nodes T st fallback cards = default_select ?cap ?pool"
    using assms(2,4) by (simp add: choose_cards_def Let_def hook_select_def)
  then show "choose_cards L B max_nodes T st fallback cards \<noteq> []" "wc_pinned (hd (choose_cards L B max_nodes T st fallback cards))"
    "hd (choose_cards L B max_nodes T st fallback cards) \<in> set cards"
    using default_select_leads [OF d(1), of ?cap] lead d(2) by simp_all
qed

text \<open>C23. A pin of the operator is acted on at once: outside the forced prefix, when a ready card is pinned
  and the plan does not refuse it, the first action of the turn claims a pinned card, whatever cadence the
  policy had due. Successive halving keeps its own lane, and hooks of an extension may rank otherwise.\<close>

theorem operator_pin_leads:
  assumes "wf_cards B" "lp_builtin L = Some pol" "\<not> is_asha L" "lp_score_hook L = None" "lp_select_hook L = None"
    and "c \<in> set (eligible_cards B)" "wc_pinned c" "wc_id c \<notin> set refused" "forced_card_actions L B max_nodes = None"
  shows "\<exists>k d. la_card (hd (card_next_actions L B max_nodes T refused)) = Some k \<and>
    dict_get (cb_cards B) k = Some d \<and> wc_pinned d \<and> k \<notin> set refused"
proof -
  let ?st = "effective_policy_state (cb_state B)"
  let ?fallback = "policy_answer L (?st, [])"
  let ?cards = "filter (\<lambda>c. wc_id c \<notin> set refused) (eligible_cards B)"
  let ?chosen = "choose_cards L B max_nodes T ?st ?fallback ?cards"
  have "card_budget_used (cb_state B) < max 0 max_nodes"
    using forced_masked_None(2) assms(9) unfolding forced_card_actions_def by blast
  from pinned_chosen_first [OF assms(2-5) _ assms(7) this, of ?cards T ?st ?fallback] assms(6,8)
  have first: "?chosen \<noteq> []" "wc_pinned (hd ?chosen)" "hd ?chosen \<in> set ?cards" by simp_all
  then obtain d ds where chosen: "?chosen = d # ds" by (cases ?chosen) auto
  have d: "d \<in> set (eligible_cards B)" "wc_id d \<notin> set refused" "wc_pinned d" using first chosen by auto
  obtain a where "card_action d = Some a" using eligible_on_board(3) [OF assms(1) d(1)] by (rule live_has_action)
  then have "la_card (hd (card_next_actions L B max_nodes T refused)) = Some (wc_id d)"
    using assms(9) chosen
    by (simp add: card_next_actions_def elect_def selection_after_gates_def turn_actions_def card_actions_of_def
        map_filter_simps Let_def)
  then show ?thesis using eligible_on_board(1) [OF assms(1) d(1)] d(2,3) by blast
qed

theorem operator_pin_leads_witness:
  "\<exists>k d. la_card (hd (card_next_actions (demo_lane demo_policy) demo_board 5 demo_treatment [])) = Some k \<and>
    dict_get (cb_cards demo_board) k = Some d \<and> wc_pinned d \<and> k \<notin> set []"
proof (rule operator_pin_leads [OF demo_board_wf])
  show "demo_card ''card-2'' ''draft'' [] True \<in> set (eligible_cards demo_board)" by code_simp
  show "forced_card_actions (demo_lane demo_policy) demo_board 5 = None" by code_simp
qed (simp_all add: demo_lane_def demo_policy_def is_asha_def demo_card_def)

section \<open>The order of the board\<close>





end
