(* ===== verification/CardSpeculation.thy ===== *)
theory CardSpeculation
  imports CardLane
begin

text \<open>
  Speculative selection (\<open>search/card_selection.py\<close>): what a producer may elect while evaluations are
  still running, and whether a build made ahead of its turn is still the one the lane would choose.
  Sets of ids are lists without repetitions here.
\<close>

section \<open>Reopening what is owned\<close>

text \<open>Exactly one card put back to the moment before it was claimed, with no other blocker relaxed.\<close>

definition reopened_card :: "work_card \<Rightarrow> work_card" where
  "reopened_card c = c\<lparr>wc_status := ''proposed'', wc_verdict := ''open'', wc_actionable := True, wc_evidence := [],
     wc_best_delta := None, wc_owner_state := OwnerNone, wc_blockers := [], wc_selection_ready := True\<rparr>"

definition owned_by_node :: "run_state \<Rightarrow> string \<Rightarrow> work_card \<Rightarrow> int \<Rightarrow> node \<Rightarrow> bool" where
  "owned_by_node st card_id c k n \<longleftrightarrow> n_status n = Pending \<and> n_attempt n = 0 \<and> \<not> n_tombstoned n \<and>
     n_id n \<notin> set (st_aborted_nodes st) \<and> i_card_id (n_idea n) = Some card_id \<and> wc_evidence c = [k] \<and>
     wc_status c \<in> {''coded'', ''running''}"

definition owned_by_marker :: "run_state \<Rightarrow> string \<Rightarrow> work_card \<Rightarrow> int \<Rightarrow> bool" where
  "owned_by_marker st card_id c k = (case dict_get (st_buildings st) k of
      None \<Rightarrow> False
    | Some marker \<Rightarrow> pget marker ''card_id'' = PStr card_id \<and> wc_evidence c = [] \<and> wc_status c = ''building'')"

definition without_node :: "card_board \<Rightarrow> int \<Rightarrow> card_board" where
  "without_node B k = (let st = cb_state B in B\<lparr>cb_state := st\<lparr>st_nodes := dict_pop k (st_nodes st),
     st_buildings := dict_pop k (st_buildings st),
     st_building := (case st_building st of
         Some b \<Rightarrow> if eq_int (pget b ''node_id'') k then None else Some b | None \<Rightarrow> None)\<rparr>\<rparr>)"

definition reopenable :: "card_board \<Rightarrow> string \<Rightarrow> int \<Rightarrow> work_card \<Rightarrow> bool" where
  "reopenable B card_id k c \<longleftrightarrow>
     wc_owner_state c = OwnerInFlight \<and> set (wc_blockers c) = {WorkInFlight} \<and>
     wc_dropped_reason c = None \<and> wc_merged_into c = None \<and>
     (case dict_get (st_nodes (cb_state B)) k of
        Some n \<Rightarrow> owned_by_node (cb_state B) card_id c k n
      | None \<Rightarrow> owned_by_marker (cb_state B) card_id c k) \<and>
     strictly_selection_ready (reopened_card c)"

definition counterfactual_owned_card_state :: "card_board \<Rightarrow> string \<Rightarrow> int \<Rightarrow> card_board option" where
  "counterfactual_owned_card_state B card_id k =
     (if card_id = [] \<or> k < 0 then None
      else (case dict_get (cb_cards B) card_id of
          None \<Rightarrow> None
        | Some c \<Rightarrow> if reopenable B card_id k c
            then Some ((without_node B k)\<lparr>cb_cards := dict_put card_id (reopened_card c) (cb_cards B)\<rparr>) else None))"

definition merged_alias_ids :: "card_board \<Rightarrow> string list" where
  "merged_alias_ids B = filter (\<lambda>a. a \<noteq> []) (concat (map wc_aliases (dict_values (cb_cards B))))"

definition card_administratively_dead :: "work_card \<Rightarrow> bool" where
  "card_administratively_dead c \<longleftrightarrow> wc_status c = ''dropped'' \<or> wc_merged_into c \<noteq> None"

definition speculative_link :: "run_state \<Rightarrow> int \<Rightarrow> node \<Rightarrow> string option" where
  "speculative_link st k n = (case (i_card_id (n_idea n), n_card_build_generation n, dict_get (st_speculative_nodes st) k) of
      (Some card_id, Some generation, Some (linked, linked_generation)) \<Rightarrow>
        if n_speculative n \<and> n_attempt n = 0 \<and> card_id \<noteq> [] \<and> linked = card_id \<and> linked_generation = generation
        then Some card_id else None
    | _ \<Rightarrow> None)"

text \<open>A sibling whose own turn will end it: stale, and nothing else.\<close>

definition stale_alone :: "work_card \<Rightarrow> int \<Rightarrow> bool" where
  "stale_alone c k \<longleftrightarrow> wc_dropped_reason c = None \<and> wc_merged_into c = None \<and> wc_owner_state c = OwnerInFlight \<and>
     wc_evidence c = [k] \<and> wc_status c \<in> {''coded'', ''running''} \<and> set (wc_blockers c) = {FreshnessStale, WorkInFlight}"

definition sibling_pair :: "card_board \<Rightarrow> int \<Rightarrow> (int \<times> int) list \<Rightarrow> int \<times> node \<Rightarrow> (string \<times> int) option" where
  "sibling_pair B subject consumed row = (case row of (k, n) \<Rightarrow>
     (if k = subject \<or> n_status n \<noteq> Pending \<or> n_tombstoned n \<or> k \<in> set (st_aborted_nodes (cb_state B)) \<or>
         (k, n_attempt n) \<in> set consumed then None
      else (case speculative_link (cb_state B) k n of
          None \<Rightarrow> None
        | Some card_id \<Rightarrow>
           (case dict_get (cb_cards B) card_id of
              Some c \<Rightarrow> if card_administratively_dead c \<or> stale_alone c k then None else Some (card_id, k)
            | None \<Rightarrow> if card_id \<in> set (merged_alias_ids B) then None else Some (card_id, k)))))"

fun reopen_all :: "card_board \<Rightarrow> string list \<Rightarrow> int list \<Rightarrow> (string \<times> int) list \<Rightarrow>
    (card_board \<times> string list \<times> int list) option" where
  "reopen_all B cards nodes [] = Some (B, cards, nodes)"
| "reopen_all B cards nodes ((card_id, k) # pairs) =
     (if card_id \<in> set cards \<or> k \<in> set nodes then None
      else (case counterfactual_owned_card_state B card_id k of
          None \<Rightarrow> None
        | Some B' \<Rightarrow> reopen_all B' (card_id # cards) (k # nodes) pairs))"

definition node_attempt_set :: "(int \<times> int) list \<Rightarrow> (int \<times> int) list" where
  "node_attempt_set vs = filter (\<lambda>(k, a). 0 \<le> k \<and> 0 \<le> a) vs"

definition counterfactual_owned_selection_state :: "card_board \<Rightarrow> string \<Rightarrow> int \<Rightarrow> (int \<times> int) list \<Rightarrow>
    (card_board \<times> string list \<times> int list) option" where
  "counterfactual_owned_selection_state B card_id k consumed =
     (let admitted = node_attempt_set consumed in
      if (case dict_get (st_nodes (cb_state B)) k of Some n \<Rightarrow> (k, n_attempt n) \<in> set admitted | None \<Rightarrow> False) then None
      else reopen_all B [] [] ((card_id, k) #
        List.map_filter (sibling_pair B k admitted) (py_sorted False fst (st_nodes (cb_state B)))))"

section \<open>The masked view\<close>

definition maskable :: "run_state \<Rightarrow> int list \<Rightarrow> int list" where
  "maskable st ignored = filter (\<lambda>k. case dict_get (st_nodes st) k of
     None \<Rightarrow> False | Some n \<Rightarrow> n_status n = Pending \<and> \<not> n_tombstoned n) ignored"

definition speculative_policy_state :: "lane_policy \<Rightarrow> run_state \<Rightarrow> int list \<Rightarrow> policy_view" where
  "speculative_policy_state L st ignored =
     (let effective = effective_policy_state st; hidden = maskable effective ignored
      in if hidden = [] then (effective, [])
         else if is_asha L
         then (effective\<lparr>st_nodes := filter (\<lambda>(k, n). k \<notin> set hidden) (st_nodes effective)\<rparr>, [])
         else (effective, hidden))"

definition asha_mask_is_unsound :: "lane_policy \<Rightarrow> run_state \<Rightarrow> int list \<Rightarrow> int list \<Rightarrow> bool" where
  "asha_mask_is_unsound L st ignored reopened \<longleftrightarrow> is_asha L \<and> reopened = [] \<and>
     list_ex (\<lambda>k. case dict_get (st_nodes st) k of
        None \<Rightarrow> False | Some n \<Rightarrow> n_status n = Pending \<and> n_parent_ids n = []) ignored"

definition masked_promotion_expansions :: "lane_policy \<Rightarrow> run_state \<Rightarrow> int list \<Rightarrow> keyed_action list" where
  "masked_promotion_expansions L st ignored =
     (if \<not> is_asha L then []
      else concat (map (\<lambda>k. case dict_get (st_nodes st) k of
          None \<Rightarrow> [] | Some n \<Rightarrow> map (\<lambda>p. (''improve'', [p])) (n_parent_ids n)) (maskable st ignored)))"

definition masked_asha_reservations :: "lane_policy \<Rightarrow> card_board \<Rightarrow> string list \<Rightarrow> int list \<Rightarrow> keyed_action list" where
  "masked_asha_reservations L B excluded ignored =
     (if \<not> is_asha L then []
      else List.map_filter (\<lambda>card_id. case dict_get (cb_cards B) card_id of None \<Rightarrow> None | Some c \<Rightarrow> card_key c)
            (excluded @ List.map_filter (\<lambda>k. case dict_get (st_nodes (cb_state B)) k of
               None \<Rightarrow> None | Some n \<Rightarrow> i_card_id (n_idea n)) ignored) @
          masked_promotion_expansions L (cb_state B) ignored)"

section \<open>The selection of a session\<close>

record speculative_context =
  sx_scoring :: card_scoring
  sx_excluded :: "string list"
  sx_ignored :: "int list"
  sx_envelope :: "resource_envelope option"
  sx_consumed :: "(int \<times> int) list"
  sx_refused :: "string list"

definition card_id_set :: "string list \<Rightarrow> string list" where
  "card_id_set ids = remdups (filter (\<lambda>k. k \<noteq> []) ids)"

definition node_id_set :: "int list \<Rightarrow> int list" where
  "node_id_set ids = remdups (filter (\<lambda>k. 0 \<le> k) ids)"

text \<open>Requests and builds that have no node yet hold a slot of the budget.\<close>

definition holds_a_slot :: "card_board \<Rightarrow> string \<Rightarrow> bool" where
  "holds_a_slot B card_id = (case dict_get (cb_cards B) card_id of
      Some c \<Rightarrow> \<not> card_administratively_dead c \<and> wc_evidence c = []
    | None \<Rightarrow> card_id \<notin> set (merged_alias_ids B))"

definition reserved_speculative_slots :: "card_board \<Rightarrow> string list \<Rightarrow> int" where
  "reserved_speculative_slots B excluded = int (length (filter (holds_a_slot B) excluded))"

definition admissible_cards :: "card_board \<Rightarrow> string list \<Rightarrow> resource_envelope option \<Rightarrow> work_card list" where
  "admissible_cards B excluded envelope = filter (\<lambda>c. wc_id c \<notin> set excluded \<and>
     card_generation_fences_current (cb_state B) c \<and> card_fits_resource_envelope c envelope None) (eligible_cards B)"

text \<open>The forced lane: receipts the session already owns are left out, and every other one must still be
  admissible; a raw lane is never mixed with receipts.\<close>

definition forced_selection :: "card_board \<Rightarrow> speculative_context \<Rightarrow> string list \<Rightarrow> string list \<Rightarrow> lane_action list \<Rightarrow>
    work_card list \<times> lane_action list" where
  "forced_selection B X excluded not_admissible forced =
     (let ids = List.map_filter la_card forced; open_ids = filter (\<lambda>k. k \<notin> set excluded) ids;
          admissible = admissible_cards B not_admissible (sx_envelope X)
      in if forced = [] \<or> \<not> distinct ids \<or> [] \<in> set ids then ([], [])
         else if list_ex (\<lambda>a. la_card a = None) forced then ([], if ids = [] then forced else [])
         else if open_ids = [] then ([], forced)
         else if list_ex (\<lambda>k. k \<notin> set (map wc_id admissible)) open_ids then ([], [])
         else (List.map_filter (\<lambda>k. find (\<lambda>c. wc_id c = k) (rev admissible)) open_ids, forced))"

definition session_selection :: "lane_policy \<Rightarrow> card_board \<Rightarrow> int \<Rightarrow> speculative_context \<Rightarrow> card_board \<Rightarrow> string list \<Rightarrow>
    int list \<Rightarrow> string list \<Rightarrow> int list \<Rightarrow> work_card list \<times> lane_action list" where
  "session_selection L B max_nodes X selB excluded ignored reopened_cards reopened_nodes =
     (let not_admissible = excluded @ filter (\<lambda>k. k \<notin> set reopened_cards) (card_id_set (sx_refused X));
          effective_limit = max 0 (max 0 max_nodes - reserved_speculative_slots B excluded)
      in case forced_masked L selB effective_limit ignored of
           Some forced \<Rightarrow> forced_selection selB X excluded not_admissible forced
         | None \<Rightarrow>
            if asha_mask_is_unsound L (cb_state selB) ignored reopened_nodes then ([], [])
            else (let reservations = masked_asha_reservations L selB excluded ignored;
                      candidates = filter (\<lambda>c. card_key c \<notin> Some ` set reservations)
                        (admissible_cards selB not_admissible (sx_envelope X))
                  in case selection_after_gates L selB effective_limit (sx_scoring X)
                            (speculative_policy_state L (cb_state selB) ignored) candidates [] of
                       (selected, fallback) \<Rightarrow> (selected, map bare fallback)))"

text \<open>The subject of a freshness query is a card and its node.\<close>

definition speculative_selection :: "lane_policy \<Rightarrow> card_board \<Rightarrow> int \<Rightarrow> speculative_context \<Rightarrow> (string \<times> int) option \<Rightarrow>
    work_card list \<times> lane_action list" where
  "speculative_selection L B max_nodes X subject =
     (let excluded = card_id_set (sx_excluded X); ignored = node_id_set (sx_ignored X)
      in case subject of
           None \<Rightarrow> session_selection L B max_nodes X B excluded ignored [] []
         | Some (card_id, k) \<Rightarrow>
            (case counterfactual_owned_selection_state B card_id k (sx_consumed X) of
               None \<Rightarrow> ([], [])
             | Some (selB, reopened_cards, reopened_nodes) \<Rightarrow>
                 session_selection L B max_nodes X selB (filter (\<lambda>c. c \<notin> set reopened_cards) excluded)
                   (filter (\<lambda>n. n \<notin> set reopened_nodes) ignored) reopened_cards reopened_nodes))"

definition speculative_card_selection_set :: "lane_policy \<Rightarrow> card_board \<Rightarrow> int \<Rightarrow> speculative_context \<Rightarrow>
    (string \<times> int) option \<Rightarrow> string list" where
  "speculative_card_selection_set L B max_nodes X subject = map wc_id (fst (speculative_selection L B max_nodes X subject))"

definition speculative_card_actions :: "lane_policy \<Rightarrow> card_board \<Rightarrow> int \<Rightarrow> speculative_context \<Rightarrow>
    (string \<times> int) option \<Rightarrow> lane_action list" where
  "speculative_card_actions L B max_nodes X subject = (case speculative_selection L B max_nodes X subject of
     (selected, fallback) \<Rightarrow> card_actions_of L (map la_proposal fallback) selected)"

definition raw_create :: "lane_action \<Rightarrow> bool" where
  "raw_create a \<longleftrightarrow> la_card a = None \<and>
     (case act (la_proposal a) of Draft \<Rightarrow> True | Improve p \<Rightarrow> True | Merge p q \<Rightarrow> True | _ \<Rightarrow> False)"

definition is_merge :: "action \<Rightarrow> bool" where
  "is_merge a = (case a of Merge p q \<Rightarrow> True | _ \<Rightarrow> False)"

definition building_merges :: "card_board \<Rightarrow> string list \<Rightarrow> keyed_action list" where
  "building_merges B excluded = List.map_filter (\<lambda>card_id. case dict_get (cb_cards B) card_id of
     None \<Rightarrow> None | Some c \<Rightarrow> if wc_operator c = Some ''merge'' then card_key c else None) excluded"

definition speculative_raw_actions :: "lane_policy \<Rightarrow> card_board \<Rightarrow> int \<Rightarrow> speculative_context \<Rightarrow> lane_action list" where
  "speculative_raw_actions L B max_nodes X =
     (if lp_builtin L = None then []
      else (case speculative_selection L B max_nodes X None of (selected, answer) \<Rightarrow>
        (let excluded = card_id_set (sx_excluded X);
             key = (\<lambda>a. action_key (act (la_proposal a)));
             expanded = masked_promotion_expansions L (cb_state B) (node_id_set (sx_ignored X));
             fallback = filter (\<lambda>a. \<not> (is_merge (act (la_proposal a)) \<and> key a \<in> Some ` set (building_merges B excluded)))
               (filter (\<lambda>a. key a \<notin> Some ` set expanded) answer);
             remaining = max 0 (max 0 max_nodes - card_budget_used (cb_state B) - reserved_speculative_slots B excluded)
         in if selected \<noteq> [] \<or> \<not> list_all raw_create fallback then [] else take (nat remaining) fallback)))"

definition speculative_card_is_fresh :: "lane_policy \<Rightarrow> card_board \<Rightarrow> int \<Rightarrow> speculative_context \<Rightarrow> string \<Rightarrow> int \<Rightarrow> bool" where
  "speculative_card_is_fresh L B max_nodes X card_id k =
     (case (dict_get (st_nodes (cb_state B)) k, dict_get (cb_cards B) card_id) of
        (Some n, Some c) \<Rightarrow>
          n_status n = Pending \<and> n_attempt n = 0 \<and> i_card_id (n_idea n) = Some card_id \<and>
          card_fits_resource_envelope c (sx_envelope X)
            (Some (case dict_get (cb_footprints B) k of Some f \<Rightarrow> f | None \<Rightarrow> PNone)) \<and>
          card_id \<in> set (speculative_card_selection_set L B max_nodes X (Some (card_id, k)))
      | _ \<Rightarrow> False)"

end
