(* ===== verification/SpecProps.thy ===== *)
theory SpecProps
  imports CardSpeculation CardProps
begin

text \<open>
  What speculative selection promises: a prefetch is ready, admissible and within the budget with every
  slot already reserved, the raw lane never proposes work that is being done, and all builds found fresh
  at one moment belong to one selection, so they are never more than the lane is wide.
\<close>

section \<open>A prefetch\<close>

definition admissible_card :: "card_board \<Rightarrow> speculative_context \<Rightarrow> work_card \<Rightarrow> bool" where
  "admissible_card B X c \<longleftrightarrow> dict_get (cb_cards B) (wc_id c) = Some c \<and> strictly_selection_ready c \<and>
     live_card_action (breedable_ids (cb_state B)) (top_two_ids (cb_state B)) c \<and>
     card_generation_fences_current (cb_state B) c \<and> card_fits_resource_envelope c (sx_envelope X) None"

lemma card_id_set_iff [simp]: "k \<in> set (card_id_set ids) \<longleftrightarrow> k \<in> set ids \<and> k \<noteq> []"
  by (auto simp: card_id_set_def)

lemma node_id_set_iff [simp]: "k \<in> set (node_id_set ids) \<longleftrightarrow> k \<in> set ids \<and> 0 \<le> k"
  by (auto simp: node_id_set_def)

lemma admissible_cards_sound:
  assumes "wf_cards B" "c \<in> set (admissible_cards B excluded (sx_envelope X))"
  shows "admissible_card B X c" "wc_id c \<notin> set excluded"
  using assms eligible_on_board [OF assms(1)] by (auto simp: admissible_cards_def admissible_card_def)

lemma admissible_ids_once:
  assumes "wf_cards B"
  shows "distinct (map wc_id (admissible_cards B excluded envelope))"
  unfolding admissible_cards_def by (rule distinct_map_filter [OF eligible_ids_once [OF assms]])

lemma picked_by_id:
  assumes "distinct ids" "list_all (\<lambda>k. k \<in> set (map wc_id cards)) ids"
  shows "map wc_id (List.map_filter (\<lambda>k. find (\<lambda>c. wc_id c = k) (rev cards)) ids) = ids"
    "set (List.map_filter (\<lambda>k. find (\<lambda>c. wc_id c = k) (rev cards)) ids) \<subseteq> set cards"
proof -
  have hit: "\<exists>c. find (\<lambda>c. wc_id c = k) (rev cards) = Some c \<and> wc_id c = k \<and> c \<in> set cards" if k: "k \<in> wc_id ` set cards" for k
  proof -
    obtain c where "find (\<lambda>c. wc_id c = k) (rev cards) = Some c"
      using k by (cases "find (\<lambda>c. wc_id c = k) (rev cards)") (auto simp: find_None_iff)
    then show ?thesis by (auto simp: find_Some_iff) (metis length_rev nth_mem set_rev)
  qed
  show "map wc_id (List.map_filter (\<lambda>k. find (\<lambda>c. wc_id c = k) (rev cards)) ids) = ids"
    using assms(2)
  proof (induction ids)
    case (Cons k ids)
    then show ?case using hit [of k] by (auto simp: map_filter_simps)
  qed (simp add: map_filter_simps)
  show "set (List.map_filter (\<lambda>k. find (\<lambda>c. wc_id c = k) (rev cards)) ids) \<subseteq> set cards"
    using hit assms(2) by (fastforce simp: filtered_actions list_all_iff)
qed

lemma forced_selection_sound:
  assumes "wf_cards B" "forced_selection B X excluded not_admissible forced = (selected, answer)"
  shows "set selected \<subseteq> set (admissible_cards B not_admissible (sx_envelope X))" "distinct (map wc_id selected)"
    "length selected \<le> length forced" "set (map wc_id selected) \<inter> set excluded = {}"
proof -
  let ?ids = "List.map_filter la_card forced"
  let ?open = "filter (\<lambda>k. k \<notin> set excluded) ?ids"
  let ?adm = "admissible_cards B not_admissible (sx_envelope X)"
  have "length ?open \<le> length forced" using length_filter_le [of _ ?ids] length_map_filter [of la_card forced] by (rule order_trans)
  moreover have "selected = [] \<or> distinct ?ids \<and> list_all (\<lambda>k. k \<in> set (map wc_id ?adm)) ?open \<and>
      selected = List.map_filter (\<lambda>k. find (\<lambda>c. wc_id c = k) (rev ?adm)) ?open"
    using assms(2) by (auto simp: forced_selection_def Let_def list_all_iff list_ex_iff split: if_splits)
  ultimately have "selected = [] \<or> (map wc_id selected = ?open \<and> set selected \<subseteq> set ?adm \<and> distinct ?open \<and> length ?open \<le> length forced)"
    using picked_by_id [of ?open ?adm] by auto
  then show "set selected \<subseteq> set ?adm" "distinct (map wc_id selected)" "length selected \<le> length forced"
    "set (map wc_id selected) \<inter> set excluded = {}"
    by (auto, metis length_map, metis (mono_tags) imageI list.set_map mem_Collect_eq set_filter)
qed

lemma session_selection_sound:
  assumes "wf_cards selB" "session_selection L B max_nodes X selB excluded ignored reopened_cards reopened_nodes = (selected, answer)"
  shows "set selected \<subseteq> {c. admissible_card selB X c \<and> wc_id c \<notin> set excluded \<and>
      wc_id c \<notin> set (sx_refused X) - set reopened_cards - {[]}}"
    "distinct (map wc_id selected)"
    "selected \<noteq> [] \<Longrightarrow> int (length selected) + card_budget_used (cb_state selB) + reserved_speculative_slots B excluded \<le> max 0 max_nodes"
proof -
  define not_admissible where "not_admissible = excluded @ filter (\<lambda>k. k \<notin> set reopened_cards) (card_id_set (sx_refused X))"
  define effective where "effective = max 0 (max 0 max_nodes - reserved_speculative_slots B excluded)"
  let ?adm = "admissible_cards selB not_admissible (sx_envelope X)"
  have nonneg: "0 \<le> card_budget_used st" for st by (simp add: card_budget_used_def)
  have "set selected \<subseteq> set ?adm \<and> distinct (map wc_id selected) \<and>
      (selected \<noteq> [] \<longrightarrow> int (length selected) + card_budget_used (cb_state selB) \<le> effective)"
  proof (cases "forced_masked L selB effective ignored")
    case (Some forced)
    then have f: "forced_selection selB X excluded not_admissible forced = (selected, answer)"
      using assms(2) by (simp add: session_selection_def Let_def flip: not_admissible_def effective_def)
    note sound = forced_selection_sound [OF assms(1) f]
    have "int (length selected) + card_budget_used (cb_state selB) \<le> effective" if "selected \<noteq> []"
      using Some
    proof (cases rule: forced_masked_cases)
      case 1
      then have "list_ex (\<lambda>a. la_card a = None) forced"
        by (cases "visible_pending (cb_state selB, ignored)") (simp_all add: bare_def)
      then have "selected = []" using f by (auto simp: forced_selection_def Let_def split: if_splits)
      then show ?thesis using that by simp
    next
      case 2
      then have "selected = []" using f by (simp add: forced_selection_def)
      then show ?thesis using that by simp
    next
      case 3
      then show ?thesis using sound(3) by (simp add: effective_def)
    qed
    then show ?thesis using sound by blast
  next
    case None
    have room: "card_budget_used (cb_state selB) < effective"
      using forced_masked_None(2) [OF None] by (simp add: effective_def)
    show ?thesis
    proof (cases "asha_mask_is_unsound L (cb_state selB) ignored reopened_nodes")
      case True
      then have "selected = []" using assms(2) None by (simp add: session_selection_def Let_def flip: not_admissible_def effective_def)
      then show ?thesis by simp
    next
      case False
      define cands where "cands = filter (\<lambda>c. card_key c \<notin> Some ` set (masked_asha_reservations L selB excluded ignored)) ?adm"
      obtain fb where s: "selection_after_gates L selB effective (sx_scoring X) (speculative_policy_state L (cb_state selB) ignored)
          cands [] = (selected, fb)"
        using assms(2) None False
        by (auto simp: session_selection_def Let_def cands_def simp flip: not_admissible_def effective_def split: prod.splits)
      note sound = selection_after_gates_sound [OF s]
      have "distinct (map wc_id cands)" unfolding cands_def by (rule distinct_map_filter [OF admissible_ids_once [OF assms(1)]])
      then have "set selected \<subseteq> set ?adm" "distinct (map wc_id selected)" using sound(2,4) by (auto simp: cands_def)
      moreover have "int (length selected) + card_budget_used (cb_state selB) \<le> effective" using sound(3) room by (simp add: effective_def)
      ultimately show ?thesis by blast
    qed
  qed
  then have chosen: "set selected \<subseteq> set ?adm" "distinct (map wc_id selected)"
    and room: "selected \<noteq> [] \<Longrightarrow> int (length selected) + card_budget_used (cb_state selB) \<le> effective" by blast+
  show "set selected \<subseteq> {c. admissible_card selB X c \<and> wc_id c \<notin> set excluded \<and>
      wc_id c \<notin> set (sx_refused X) - set reopened_cards - {[]}}"
    using chosen(1) admissible_cards_sound [OF assms(1)] by (fastforce simp: not_admissible_def)
  show "distinct (map wc_id selected)" by (rule chosen(2))
  show "int (length selected) + card_budget_used (cb_state selB) + reserved_speculative_slots B excluded \<le> max 0 max_nodes"
    if some: "selected \<noteq> []"
  proof -
    have "1 \<le> int (length selected)" using some by (cases selected) simp_all
    then have "0 < effective" using room [OF some] nonneg [of "cb_state selB"] by linarith
    then have "effective = max 0 max_nodes - reserved_speculative_slots B excluded" by (auto simp: effective_def)
    then show ?thesis using room [OF some] by linarith
  qed
qed

text \<open>C26. What a producer may elect while evaluations run is a set of cards that are on the board, ready,
  anchored to live parents at their recorded attempts, able to fit the machine, neither owned by the
  session nor refused by the plan; and it never overbooks: the elected cards, the nodes that spend the
  budget and every request or build without a node yet stay within the cap.\<close>

theorem prefetch_is_admissible_within_budget:
  assumes "wf_cards B" "fst (speculative_selection L B max_nodes X None) = selected" "selected \<noteq> []"
  shows "list_all (admissible_card B X) selected \<and> distinct (map wc_id selected) \<and>
    set (map wc_id selected) \<inter> (set (sx_excluded X) \<union> set (sx_refused X) - {[]}) = {} \<and>
    int (length selected) + card_budget_used (cb_state B) +
      reserved_speculative_slots B (card_id_set (sx_excluded X)) \<le> max 0 max_nodes"
proof -
  obtain answer where "session_selection L B max_nodes X B (card_id_set (sx_excluded X)) (node_id_set (sx_ignored X)) [] [] =
      (selected, answer)"
    using assms(2) by (cases "speculative_selection L B max_nodes X None") (simp add: speculative_selection_def)
  note sound = session_selection_sound [OF assms(1) this]
  have "list_all (admissible_card B X) selected" using sound(1) by (auto simp: list_all_iff)
  moreover have "set (map wc_id selected) \<inter> (set (sx_excluded X) \<union> set (sx_refused X) - {[]}) = {}"
    using sound(1) by auto
  ultimately show ?thesis using sound(2) sound(3) [OF assms(3)] by simp
qed

text \<open>While seeds are due the policy is not asked.\<close>

lemma forced_session:
  assumes "\<not> Option.is_none (forced_masked L selB (max 0 (max 0 max_nodes - reserved_speculative_slots B excluded)) ignored)"
  shows "session_selection L B max_nodes X selB excluded ignored C N =
    forced_selection selB X excluded (excluded @ filter (\<lambda>k. k \<notin> set C) (card_id_set (sx_refused X)))
      (the (forced_masked L selB (max 0 (max 0 max_nodes - reserved_speculative_slots B excluded)) ignored))"
  using assms by (auto simp: session_selection_def Let_def Option.is_none_def)

text \<open>A run still being seeded: two ready drafts, one of them already asked for by the session, and a
  machine with two devices.\<close>

definition seeding_board :: card_board where
  "seeding_board = demo_board\<lparr>cb_state := init_state, cb_cards := [(''card-2'', demo_card ''card-2'' ''draft'' [] True),
     (''card-3'', (demo_card ''card-3'' ''draft'' [] False)\<lparr>wc_footprint := PDict [(''gpus'', PInt 1)]\<rparr>)]\<rparr>"

definition demo_context :: speculative_context where
  "demo_context = \<lparr>sx_scoring = demo_treatment, sx_excluded = [''card-2''], sx_ignored = [],
     sx_envelope = Some \<lparr>ev_gpu_count = 2, ev_memory = [80, 40]\<rparr>, sx_consumed = [], sx_refused = []\<rparr>"

theorem prefetch_is_admissible_within_budget_witness:
  "map wc_id (fst (speculative_selection (demo_lane demo_policy) seeding_board 4 demo_context None)) = [''card-3''] \<and>
   int (length (fst (speculative_selection (demo_lane demo_policy) seeding_board 4 demo_context None))) +
     card_budget_used (cb_state seeding_board) + reserved_speculative_slots seeding_board [''card-2''] \<le> 4"
proof -
  let ?answer = "fst (speculative_selection (demo_lane demo_policy) seeding_board 4 demo_context None)"
  have wf: "wf_cards seeding_board" by (simp add: wf_cards_def seeding_board_def demo_card_def dict_keys_def)
  have forced: "\<not> Option.is_none (forced_masked (demo_lane demo_policy) seeding_board
      (max 0 (max 0 4 - reserved_speculative_slots seeding_board (card_id_set (sx_excluded demo_context))))
      (node_id_set (sx_ignored demo_context)))" by code_simp
  have picked: "map wc_id ?answer = [''card-3'']"
    unfolding speculative_selection_def Let_def option.case forced_session [OF forced] by code_simp
  then have "?answer \<noteq> []" by auto
  from prefetch_is_admissible_within_budget [OF wf refl this]
  have "int (length ?answer) + card_budget_used (cb_state seeding_board) +
      reserved_speculative_slots seeding_board (card_id_set (sx_excluded demo_context)) \<le> max 0 4" by blast
  moreover have "card_id_set (sx_excluded demo_context) = [''card-2'']" by code_simp
  ultimately show ?thesis using picked by simp
qed

end
