(* ===== verification/SpecFresh.thy ===== *)
theory SpecFresh
  imports SpecProps
begin

text \<open>
  All builds found fresh at one moment belong to one selection: reopening the population of speculative
  builds gives one board whatever build is asked about first, because reopening two builds commutes.
\<close>

section \<open>Reopening commutes\<close>

definition reopen_one :: "string \<times> int \<Rightarrow> card_board \<Rightarrow> card_board" where
  "reopen_one p B = (without_node B (snd p))\<lparr>cb_cards := dict_modify (fst p) reopened_card (cb_cards B)\<rparr>"

definition owned :: "card_board \<Rightarrow> string \<times> int \<Rightarrow> bool" where
  "owned B p \<longleftrightarrow> counterfactual_owned_card_state B (fst p) (snd p) \<noteq> None"

lemma put_is_modify:
  assumes "distinct (dict_keys d)" "dict_get d k = Some v"
  shows "dict_put k (f v) d = dict_modify k f d"
  using assms
proof (induction d)
  case (Cons row d)
  obtain j w where row: "row = (j, w)" by fastforce
  show ?case
  proof (cases "j = k")
    case True
    then have "k \<notin> set (dict_keys d)" using Cons.prems(1) by (simp add: row dict_keys_def)
    then have "dict_modify k f d = d" by (induction d) (auto simp: dict_modify_def dict_keys_def)
    then show ?thesis using True Cons.prems(2) by (simp add: row dict_put_def dict_modify_def)
  qed (use Cons in \<open>simp add: row dict_put_def dict_modify_def dict_keys_def\<close>)
qed simp

lemma modify_commutes: "dict_modify j f (dict_modify k f d) = dict_modify k f (dict_modify j f d)"
  by (auto simp: dict_modify_def)

lemma owned_iff:
  "owned B (c, k) \<longleftrightarrow> c \<noteq> [] \<and> 0 \<le> k \<and> (\<exists>w. dict_get (cb_cards B) c = Some w \<and> reopenable B c k w)"
  by (auto simp: owned_def counterfactual_owned_card_state_def split: option.splits)

lemma counterfactual_is_reopen:
  assumes "distinct (dict_keys (cb_cards B))" "owned B (card_id, k)"
  shows "counterfactual_owned_card_state B card_id k = Some (reopen_one (card_id, k) B)"
proof -
  obtain w where w: "card_id \<noteq> []" "0 \<le> k" "dict_get (cb_cards B) card_id = Some w" "reopenable B card_id k w"
    using assms(2) by (auto simp: owned_iff)
  then show ?thesis using put_is_modify [OF assms(1) w(3), of reopened_card]
    by (simp add: counterfactual_owned_card_state_def reopen_one_def)
qed

lemma reopen_one_views [simp]:
  "cb_cards (reopen_one p B) = dict_modify (fst p) reopened_card (cb_cards B)"
  "st_nodes (cb_state (reopen_one p B)) = dict_pop (snd p) (st_nodes (cb_state B))"
  "st_buildings (cb_state (reopen_one p B)) = dict_pop (snd p) (st_buildings (cb_state B))"
  "st_aborted_nodes (cb_state (reopen_one p B)) = st_aborted_nodes (cb_state B)"
  by (simp_all add: reopen_one_def without_node_def Let_def)

lemma owned_after_reopen:
  assumes "c \<noteq> c'" "k \<noteq> k'"
  shows "owned (reopen_one (c', k') B) (c, k) = owned B (c, k)"
proof -
  have "reopenable (reopen_one (c', k') B) c k w = reopenable B c k w" for w
    using assms by (cases "dict_get (st_nodes (cb_state B)) k"; cases "dict_get (st_buildings (cb_state B)) k")
      (simp_all add: reopenable_def owned_by_node_def owned_by_marker_def)
  then show ?thesis using assms by (simp add: owned_iff)
qed

lemma reopen_commutes: "reopen_one p \<circ> reopen_one q = reopen_one q \<circ> reopen_one p"
proof
  fix B
  have "dict_pop (snd p) (dict_pop (snd q) d) = dict_pop (snd q) (dict_pop (snd p) d)" for d :: "(int \<times> 'a) list"
    by (simp add: dict_pop_def delete_twist)
  moreover have "dict_pop (snd p) (dict_pop (snd q) d) = dict_pop (snd q) (dict_pop (snd p) d)" for d :: "(int \<times> node) list"
    by (simp add: dict_pop_def delete_twist)
  moreover have "dict_pop (snd p) (dict_pop (snd q) d) = dict_pop (snd q) (dict_pop (snd p) d)" for d :: "(int \<times> payload) list"
    by (simp add: dict_pop_def delete_twist)
  ultimately show "(reopen_one p \<circ> reopen_one q) B = (reopen_one q \<circ> reopen_one p) B"
    by (simp add: reopen_one_def without_node_def Let_def modify_commutes [of "fst p" _ "fst q"] split: option.split)
qed

lemma reopen_all_Some:
  assumes "distinct (dict_keys (cb_cards B))"
  shows "reopen_all B cards nodes pairs = Some R \<longleftrightarrow>
    distinct (map fst pairs) \<and> distinct (map snd pairs) \<and> set (map fst pairs) \<inter> set cards = {} \<and>
    set (map snd pairs) \<inter> set nodes = {} \<and> list_all (owned B) pairs \<and>
    R = (fold reopen_one pairs B, rev (map fst pairs) @ cards, rev (map snd pairs) @ nodes)"
  using assms
proof (induction pairs arbitrary: B cards nodes)
  case (Cons p pairs)
  obtain c k where p: "p = (c, k)" by fastforce
  show ?case
  proof (cases "c \<in> set cards \<or> k \<in> set nodes \<or> \<not> owned B p")
    case True
    then show ?thesis by (auto simp: p owned_def split: option.splits)
  next
    case False
    have keys: "distinct (dict_keys (cb_cards (reopen_one p B)))" using Cons.prems by simp
    have step: "reopen_all B cards nodes (p # pairs) = reopen_all (reopen_one p B) (c # cards) (k # nodes) pairs"
      using False counterfactual_is_reopen [OF Cons.prems, of c k] by (simp add: p)
    have "list_all (owned (reopen_one p B)) pairs = list_all (owned B) pairs"
      if "c \<notin> set (map fst pairs)" "k \<notin> set (map snd pairs)"
      using that owned_after_reopen [of _ c _ k B] by (force simp: p list_all_iff image_iff)
    then show ?thesis
      unfolding step Cons.IH [OF keys] using False by (auto simp: p)
  qed
qed auto

section \<open>The population\<close>

lemma sibling_pair_node: "sibling_pair B subject consumed row = Some p \<Longrightarrow> snd p = fst row"
  by (auto simp: sibling_pair_def Let_def split: prod.splits option.splits if_splits)

definition population_pair :: "card_board \<Rightarrow> (int \<times> int) list \<Rightarrow> int \<times> node \<Rightarrow> (string \<times> int) option" where
  "population_pair B consumed row = sibling_pair B (fst row + 1) consumed row"

lemma sibling_by_population:
  "sibling_pair B subject consumed row = (if fst row = subject then None else population_pair B consumed row)"
  by (auto simp: population_pair_def sibling_pair_def split: prod.splits)

lemma mset_without_one:
  assumes "distinct (map fst rows)" "(k, n) \<in> set rows" "g (k, n) = Some p"
  shows "mset (p # List.map_filter (\<lambda>row. if fst row = k then None else g row) rows) = mset (List.map_filter g rows)"
  using assms
proof (induction rows)
  case (Cons row rows)
  show ?case
  proof (cases "fst row = k")
    case True
    then have "row = (k, n)" "k \<notin> set (map fst rows)" using Cons.prems by (auto simp: rev_image_eqI)
    moreover from this(2) have "List.map_filter (\<lambda>row. if fst row = k then None else g row) rows = List.map_filter g rows"
      by (induction rows) (auto simp: map_filter_simps split: option.split)
    ultimately show ?thesis using Cons.prems(3) by (simp add: map_filter_simps)
  next
    case False
    then have "(k, n) \<in> set rows" using Cons.prems(2) by auto
    then show ?thesis using Cons.IH Cons.prems False by (cases "g row") (auto simp: map_filter_simps)
  qed
qed simp

definition population :: "card_board \<Rightarrow> (int \<times> int) list \<Rightarrow> (string \<times> int) list" where
  "population B consumed = List.map_filter (population_pair B consumed) (py_sorted False fst (st_nodes (cb_state B)))"

lemma subject_pairs:
  assumes "wf_nodes (st_nodes (cb_state B))" "dict_get (st_nodes (cb_state B)) k = Some n"
    and "population_pair B consumed (k, n) = Some (card_id, k)"
  shows "mset ((card_id, k) # List.map_filter (sibling_pair B k consumed) (py_sorted False fst (st_nodes (cb_state B)))) =
    mset (population B consumed)"
proof -
  let ?rows = "py_sorted False fst (st_nodes (cb_state B))"
  have "distinct (map fst ?rows)" using assms(1) by (simp add: wf_nodes_def dict_keys_def)
  moreover have "(k, n) \<in> set ?rows" using assms(2) by (simp add: map_of_SomeD)
  moreover have "sibling_pair B k consumed = (\<lambda>row. if fst row = k then None else population_pair B consumed row)"
    by (rule ext) (rule sibling_by_population)
  ultimately show ?thesis
    using mset_without_one [of ?rows k n "population_pair B consumed" "(card_id, k)"] assms(3) by (simp add: population_def)
qed

lemma node_attempt_set_iff [simp]: "(k, a) \<in> set (node_attempt_set vs) \<longleftrightarrow> (k, a) \<in> set vs \<and> 0 \<le> k \<and> 0 \<le> a"
  by (auto simp: node_attempt_set_def)

text \<open>The board with the whole population reopened, and the one election on it.\<close>

definition population_board :: "card_board \<Rightarrow> (int \<times> int) list \<Rightarrow> card_board" where
  "population_board B consumed = fold reopen_one (population B consumed) B"

definition population_selection :: "lane_policy \<Rightarrow> card_board \<Rightarrow> int \<Rightarrow> speculative_context \<Rightarrow> work_card list" where
  "population_selection L B max_nodes X =
     (let P = population B (node_attempt_set (sx_consumed X)); C = map fst P; N = map snd P
      in fst (session_selection L B max_nodes X (population_board B (node_attempt_set (sx_consumed X)))
           (filter (\<lambda>c. c \<notin> set C) (card_id_set (sx_excluded X))) (filter (\<lambda>n. n \<notin> set N) (node_id_set (sx_ignored X))) C N))"

lemma session_selection_sets:
  assumes "set C = set C'" "set N = set N'"
  shows "session_selection L B max_nodes X selB excluded ignored C N = session_selection L B max_nodes X selB excluded ignored C' N'"
proof -
  have "N = [] \<longleftrightarrow> N' = []" using assms(2) by (metis set_empty)
  then have "asha_mask_is_unsound L st ignored N = asha_mask_is_unsound L st ignored N'" for st
    by (simp add: asha_mask_is_unsound_def)
  moreover have "(\<lambda>k. k \<notin> set C) = (\<lambda>k. k \<notin> set C')" using assms(1) by simp
  ultimately show ?thesis unfolding session_selection_def by (simp only:)
qed

lemma reopened_population:
  assumes "wf_cards B" "reopen_all B [] [] pairs = Some (R, C, N)" "mset pairs = mset (population B consumed)"
  shows "R = population_board B consumed" "set C = set (map fst (population B consumed))"
    "set N = set (map snd (population B consumed))"
proof -
  have parts: "R = fold reopen_one pairs B" "C = rev (map fst pairs)" "N = rev (map snd pairs)"
    using assms(1,2) by (simp_all add: reopen_all_Some wf_cards_def)
  show "R = population_board B consumed"
    unfolding parts population_board_def using fold_multiset_equiv [of pairs reopen_one "population B consumed"] assms(3)
    by (simp add: reopen_commutes)
  show "set C = set (map fst (population B consumed))" "set N = set (map snd (population B consumed))"
    using mset_eq_setD [OF assms(3)] by (simp_all add: parts)
qed

lemma fresh_subject:
  assumes "wf_cards B" "speculative_card_is_fresh L B max_nodes X card_id k"
  obtains n c R C N where "dict_get (st_nodes (cb_state B)) k = Some n" "dict_get (cb_cards B) card_id = Some c"
    "(k, n_attempt n) \<notin> set (node_attempt_set (sx_consumed X))" "reopenable B card_id k c"
    "reopen_all B [] [] ((card_id, k) # List.map_filter (sibling_pair B k (node_attempt_set (sx_consumed X)))
       (py_sorted False fst (st_nodes (cb_state B)))) = Some (R, C, N)"
    "card_id \<in> wc_id ` set (fst (session_selection L B max_nodes X R (filter (\<lambda>c. c \<notin> set C) (card_id_set (sx_excluded X)))
       (filter (\<lambda>n. n \<notin> set N) (node_id_set (sx_ignored X))) C N))"
proof -
  obtain n c where nc: "dict_get (st_nodes (cb_state B)) k = Some n" "dict_get (cb_cards B) card_id = Some c"
    "card_id \<in> wc_id ` set (fst (speculative_selection L B max_nodes X (Some (card_id, k))))"
    using assms(2) by (auto simp: speculative_card_is_fresh_def speculative_card_selection_set_def split: option.splits)
  then obtain R C N where r: "counterfactual_owned_selection_state B card_id k (sx_consumed X) = Some (R, C, N)"
    by (cases "counterfactual_owned_selection_state B card_id k (sx_consumed X)") (auto simp: speculative_selection_def)
  then have reopened: "(k, n_attempt n) \<notin> set (node_attempt_set (sx_consumed X))"
      "reopen_all B [] [] ((card_id, k) # List.map_filter (sibling_pair B k (node_attempt_set (sx_consumed X)))
       (py_sorted False fst (st_nodes (cb_state B)))) = Some (R, C, N)"
    using nc(1) by (auto simp: counterfactual_owned_selection_state_def Let_def simp del: reopen_all.simps split: if_splits)
  have "owned B (card_id, k)"
    using reopened(2) assms(1) by (simp add: reopen_all_Some wf_cards_def del: reopen_all.simps)
  then have "reopenable B card_id k c" using nc(2) by (auto simp: owned_iff)
  moreover have "card_id \<in> wc_id ` set (fst (session_selection L B max_nodes X R
       (filter (\<lambda>c. c \<notin> set C) (card_id_set (sx_excluded X))) (filter (\<lambda>n. n \<notin> set N) (node_id_set (sx_ignored X))) C N))"
    using nc(3) r by (simp add: speculative_selection_def)
  ultimately show ?thesis using that [OF nc(1,2) reopened(1) _ reopened(2)] by blast
qed

lemma reopenable_pair:
  assumes "wf_nodes (st_nodes (cb_state B))" "dict_get (st_nodes (cb_state B)) k = Some n" "dict_get (cb_cards B) card_id = Some c"
    and "reopenable B card_id k c" "(k, n_attempt n) \<notin> set consumed" "speculative_link (cb_state B) k n = Some card_id"
  shows "population_pair B consumed (k, n) = Some (card_id, k)" "wc_evidence c = [k]"
proof -
  have id: "n_id n = k" using wf_nodes_get [OF assms(1,2)] .
  have "owned_by_node (cb_state B) card_id c k n" using assms(2,4) unfolding reopenable_def by simp
  then have open_node: "n_status n = Pending" "\<not> n_tombstoned n" "k \<notin> set (st_aborted_nodes (cb_state B))" "wc_evidence c = [k]"
    "wc_status c \<in> {''coded'', ''running''}"
    unfolding owned_by_node_def id by blast+
  have open_card: "set (wc_blockers c) = {WorkInFlight}" "wc_merged_into c = None"
    using assms(4) unfolding reopenable_def by blast+
  have "wc_status c \<noteq> ''dropped''" using open_node(5) by auto
  then have "\<not> card_administratively_dead c" using open_card(2) by (simp add: card_administratively_dead_def)
  moreover have "\<not> stale_alone c k" unfolding stale_alone_def open_card(1) by blast
  ultimately show "population_pair B consumed (k, n) = Some (card_id, k)"
    using open_node(1-3) assms(3,5,6) unfolding population_pair_def sibling_pair_def by simp
  show "wc_evidence c = [k]" by (rule open_node(4))
qed

lemma fresh_in_population_selection:
  assumes "wf_cards B" "wf_nodes (st_nodes (cb_state B))" "speculative_card_is_fresh L B max_nodes X card_id k"
    and "dict_get (st_nodes (cb_state B)) k = Some n" "speculative_link (cb_state B) k n = Some card_id"
  shows "card_id \<in> wc_id ` set (population_selection L B max_nodes X)"
    "\<exists>c. dict_get (cb_cards B) card_id = Some c \<and> wc_evidence c = [k]"
proof -
  let ?consumed = "node_attempt_set (sx_consumed X)"
  obtain n' c R C N where f: "dict_get (st_nodes (cb_state B)) k = Some n'" "dict_get (cb_cards B) card_id = Some c"
    "(k, n_attempt n') \<notin> set ?consumed" "reopenable B card_id k c"
    "reopen_all B [] [] ((card_id, k) # List.map_filter (sibling_pair B k ?consumed)
       (py_sorted False fst (st_nodes (cb_state B)))) = Some (R, C, N)"
    "card_id \<in> wc_id ` set (fst (session_selection L B max_nodes X R (filter (\<lambda>c. c \<notin> set C) (card_id_set (sx_excluded X)))
       (filter (\<lambda>n. n \<notin> set N) (node_id_set (sx_ignored X))) C N))"
    by (rule fresh_subject [OF assms(1,3)])
  note pair = reopenable_pair [OF assms(2) f(1,2,4,3)]
  have link: "speculative_link (cb_state B) k n' = Some card_id" using assms(4,5) f(1) by simp
  note pop = reopened_population [OF assms(1) f(5) subject_pairs [OF assms(2) f(1) pair(1) [OF link]]]
  have "population_selection L B max_nodes X = fst (session_selection L B max_nodes X R
      (filter (\<lambda>c. c \<notin> set C) (card_id_set (sx_excluded X))) (filter (\<lambda>n. n \<notin> set N) (node_id_set (sx_ignored X))) C N)"
    unfolding population_selection_def Let_def pop(2,3) [symmetric] pop(1)
    by (rule arg_cong [of _ _ fst], rule session_selection_sets) (simp_all add: pop)
  then show "card_id \<in> wc_id ` set (population_selection L B max_nodes X)" using f(6) by simp
  show "\<exists>c. dict_get (cb_cards B) card_id = Some c \<and> wc_evidence c = [k]" using pair(2) [OF link] f(2) by blast
qed

section \<open>One lane for every fresh build\<close>

lemma one_election_width:
  assumes "session_selection L B max_nodes X selB excluded ignored C N = (selected, answer)" "wf_cards selB" "\<not> is_asha L"
    "selected \<noteq> []"
  shows "int (length selected) \<le> max (card_lane_width L) (seed_target L)"
proof -
  define not_admissible where "not_admissible = excluded @ filter (\<lambda>k. k \<notin> set C) (card_id_set (sx_refused X))"
  define effective where "effective = max 0 (max 0 max_nodes - reserved_speculative_slots B excluded)"
  show ?thesis
  proof (cases "forced_masked L selB effective ignored")
    case (Some forced)
    then have f: "forced_selection selB X excluded not_admissible forced = (selected, answer)"
      using assms(1) by (simp add: session_selection_def Let_def flip: not_admissible_def effective_def)
    have "int (length forced) \<le> seed_target L"
      using Some
    proof (cases rule: forced_masked_cases)
      case 1
      then have "list_ex (\<lambda>a. la_card a = None) forced"
        by (cases "visible_pending (cb_state selB, ignored)") (simp_all add: bare_def)
      then have "selected = []" using f by (auto simp: forced_selection_def Let_def split: if_splits)
      then show ?thesis using assms(4) by simp
    next
      case 2
      then show ?thesis using f assms(4) by (simp add: forced_selection_def)
    qed
    then show ?thesis using forced_selection_sound(3) [OF assms(2) f] by linarith
  next
    case None
    define cands where "cands = filter (\<lambda>c. card_key c \<notin> Some ` set (masked_asha_reservations L selB excluded ignored))
      (admissible_cards selB not_admissible (sx_envelope X))"
    have "\<not> asha_mask_is_unsound L (cb_state selB) ignored N" using assms(3) by (simp add: asha_mask_is_unsound_def)
    then obtain fb where "selection_after_gates L selB effective (sx_scoring X) (speculative_policy_state L (cb_state selB) ignored)
          cands [] = (selected, fb)"
      using assms(1) None
      by (auto simp: session_selection_def Let_def cands_def simp flip: not_admissible_def effective_def split: prod.splits)
    from selection_after_gates_sound(5) [OF this assms(4)] show ?thesis using assms(3) by simp
  qed
qed

lemma reopen_one_wf: "wf_cards B \<Longrightarrow> wf_cards (reopen_one p B)"
  unfolding wf_cards_def reopen_one_views by (simp add: dict_keys_modify) (auto simp: dict_modify_def reopened_card_def)

lemma population_board_wf: "wf_cards B \<Longrightarrow> wf_cards (population_board B consumed)"
proof -
  have "wf_cards B \<Longrightarrow> wf_cards (fold reopen_one ps B)" for ps
    by (induction ps arbitrary: B) (simp_all add: reopen_one_wf)
  then show "wf_cards B \<Longrightarrow> wf_cards (population_board B consumed)" by (simp add: population_board_def)
qed

definition fresh_build :: "lane_policy \<Rightarrow> card_board \<Rightarrow> int \<Rightarrow> speculative_context \<Rightarrow> string \<times> int \<Rightarrow> bool" where
  "fresh_build L B max_nodes X p \<longleftrightarrow> speculative_card_is_fresh L B max_nodes X (fst p) (snd p) \<and>
     (case dict_get (st_nodes (cb_state B)) (snd p) of
        None \<Rightarrow> False | Some n \<Rightarrow> speculative_link (cb_state B) (snd p) n = Some (fst p))"

text \<open>C27. The builds found fresh at one moment were made for one election: whichever of them is asked
  about, the board is reopened to the same state, so the answers are members of one selection. With a
  policy other than successive halving there are then never more fresh builds than the lane is wide, or,
  while the run is still being seeded, than the policy wants seeds.\<close>

theorem fresh_builds_share_one_lane:
  assumes "wf_cards B" "wf_nodes (st_nodes (cb_state B))" "\<not> is_asha L" "F \<noteq> []" "distinct F"
    and "list_all (fresh_build L B max_nodes X) F"
  shows "set (map fst F) \<subseteq> set (map wc_id (population_selection L B max_nodes X)) \<and> distinct (map fst F) \<and>
    int (length F) \<le> max (card_lane_width L) (seed_target L)"
proof -
  have each: "c \<in> wc_id ` set (population_selection L B max_nodes X) \<and> (\<exists>w. dict_get (cb_cards B) c = Some w \<and> wc_evidence w = [k])"
    if "(c, k) \<in> set F" for c k
  proof -
    have "fresh_build L B max_nodes X (c, k)" using that assms(6) by (simp add: list_all_iff)
    then obtain n where n: "speculative_card_is_fresh L B max_nodes X c k" "dict_get (st_nodes (cb_state B)) k = Some n"
      "speculative_link (cb_state B) k n = Some c"
      by (auto simp: fresh_build_def split: option.splits)
    show ?thesis using fresh_in_population_selection [OF assms(1,2) n] by blast
  qed
  have sub: "set (map fst F) \<subseteq> set (map wc_id (population_selection L B max_nodes X))"
  proof
    fix c assume "c \<in> set (map fst F)"
    then obtain k where "(c, k) \<in> set F" by auto
    then show "c \<in> set (map wc_id (population_selection L B max_nodes X))" using each [of c k] by simp
  qed
  have "inj_on fst (set F)"
  proof (rule inj_onI)
    fix p q assume "p \<in> set F" "q \<in> set F" "fst p = fst q"
    then obtain w v where "dict_get (cb_cards B) (fst p) = Some w" "wc_evidence w = [snd p]"
        "dict_get (cb_cards B) (fst q) = Some v" "wc_evidence v = [snd q]"
      using each [of "fst p" "snd p"] each [of "fst q" "snd q"] by (metis prod.collapse)
    then have "snd p = snd q" using \<open>fst p = fst q\<close> by simp
    then show "p = q" using \<open>fst p = fst q\<close> by (simp add: prod_eq_iff)
  qed
  then have once: "distinct (map fst F)" using assms(5) by (simp add: distinct_map)
  obtain answer C N ex ig where run: "session_selection L B max_nodes X
      (population_board B (node_attempt_set (sx_consumed X))) ex ig C N = (population_selection L B max_nodes X, answer)"
    unfolding population_selection_def Let_def by (metis prod.collapse)
  have "population_selection L B max_nodes X \<noteq> []" using sub assms(4) by (cases F) auto
  then have "int (length (population_selection L B max_nodes X)) \<le> max (card_lane_width L) (seed_target L)"
    by (rule one_election_width [OF run population_board_wf [OF assms(1)] assms(3)])
  moreover have "length (map fst F) \<le> length (map wc_id (population_selection L B max_nodes X))"
    using card_mono [OF _ sub] once by (metis List.finite_set card_length distinct_card le_trans)
  ultimately show ?thesis using sub once by simp
qed

text \<open>Two builds were made ahead of their turn on a run that wants two seeds: both are fresh.\<close>

definition ahead_node :: "int \<Rightarrow> string \<Rightarrow> node" where
  "ahead_node k c = (default_node k ''draft'' ((default_idea ''draft'')\<lparr>i_card_id := Some c\<rparr>))\<lparr>n_speculative := True,
     n_card_build_generation := Some 0\<rparr>"

definition ahead_card :: "string \<Rightarrow> int \<Rightarrow> work_card" where
  "ahead_card c k = (demo_card c ''draft'' [] False)\<lparr>wc_status := ''coded'', wc_owner_state := OwnerInFlight,
     wc_blockers := [WorkInFlight], wc_selection_ready := False, wc_evidence := [k]\<rparr>"

definition ahead_board :: card_board where
  "ahead_board = demo_board\<lparr>cb_state := init_state\<lparr>st_nodes := [(0, ahead_node 0 ''card-1''), (1, ahead_node 1 ''card-2'')],
       st_speculative_nodes := [(0, (''card-1'', 0)), (1, (''card-2'', 0))]\<rparr>,
     cb_cards := [(''card-1'', ahead_card ''card-1'' 0), (''card-2'', ahead_card ''card-2'' 1)]\<rparr>"

definition reopened_view :: "card_board \<Rightarrow> speculative_context \<Rightarrow> string \<Rightarrow> int \<Rightarrow> card_board \<times> string list \<times> int list" where
  "reopened_view B X card_id k = the (counterfactual_owned_selection_state B card_id k (sx_consumed X))"

definition open_excluded :: "speculative_context \<Rightarrow> string list \<Rightarrow> string list" where
  "open_excluded X C = filter (\<lambda>c. c \<notin> set C) (card_id_set (sx_excluded X))"

definition forced_view :: "lane_policy \<Rightarrow> card_board \<Rightarrow> int \<Rightarrow> speculative_context \<Rightarrow> card_board \<times> string list \<times> int list \<Rightarrow>
    lane_action list option" where
  "forced_view L B max_nodes X S = forced_masked L (fst S)
     (max 0 (max 0 max_nodes - reserved_speculative_slots B (open_excluded X (fst (snd S)))))
     (filter (\<lambda>n. n \<notin> set (snd (snd S))) (node_id_set (sx_ignored X)))"

lemma forced_freshness:
  assumes "\<not> Option.is_none (counterfactual_owned_selection_state B card_id k (sx_consumed X))"
    and "\<not> Option.is_none (forced_view L B max_nodes X (reopened_view B X card_id k))"
  shows "speculative_selection L B max_nodes X (Some (card_id, k)) =
    (let S = reopened_view B X card_id k; excluded = open_excluded X (fst (snd S))
     in forced_selection (fst S) X excluded (excluded @ filter (\<lambda>k. k \<notin> set (fst (snd S))) (card_id_set (sx_refused X)))
      (the (forced_view L B max_nodes X S)))"
proof -
  obtain selB C N where r: "counterfactual_owned_selection_state B card_id k (sx_consumed X) = Some (selB, C, N)"
    using assms(1) by (auto simp: Option.is_none_def)
  then have "reopened_view B X card_id k = (selB, C, N)" by (simp add: reopened_view_def)
  then show ?thesis using assms(2) forced_session [of L selB max_nodes B "open_excluded X C"] r
    by (simp add: speculative_selection_def forced_view_def open_excluded_def Let_def)
qed

lemma ahead_fresh:
  "fresh_build (demo_lane demo_policy) ahead_board 4 (demo_context\<lparr>sx_excluded := []\<rparr>) (''card-1'', 0)"
  "fresh_build (demo_lane demo_policy) ahead_board 4 (demo_context\<lparr>sx_excluded := []\<rparr>) (''card-2'', 1)"
proof -
  let ?X = "demo_context\<lparr>sx_excluded := []\<rparr>"
  have one: "\<not> Option.is_none (counterfactual_owned_selection_state ahead_board ''card-1'' 0 (sx_consumed ?X))"
    "\<not> Option.is_none (forced_view (demo_lane demo_policy) ahead_board 4 ?X (reopened_view ahead_board ?X ''card-1'' 0))"
    by code_simp+
  have two: "\<not> Option.is_none (counterfactual_owned_selection_state ahead_board ''card-2'' 1 (sx_consumed ?X))"
    "\<not> Option.is_none (forced_view (demo_lane demo_policy) ahead_board 4 ?X (reopened_view ahead_board ?X ''card-2'' 1))"
    by code_simp+
  show "fresh_build (demo_lane demo_policy) ahead_board 4 ?X (''card-1'', 0)"
    unfolding fresh_build_def speculative_card_is_fresh_def speculative_card_selection_set_def fst_conv snd_conv
      forced_freshness [OF one] by code_simp
  show "fresh_build (demo_lane demo_policy) ahead_board 4 ?X (''card-2'', 1)"
    unfolding fresh_build_def speculative_card_is_fresh_def speculative_card_selection_set_def fst_conv snd_conv
      forced_freshness [OF two] by code_simp
qed

theorem fresh_builds_share_one_lane_witness:
  "set [''card-1'', ''card-2''] \<subseteq>
     set (map wc_id (population_selection (demo_lane demo_policy) ahead_board 4 (demo_context\<lparr>sx_excluded := []\<rparr>))) \<and>
   (2::int) \<le> max (card_lane_width (demo_lane demo_policy)) (seed_target (demo_lane demo_policy))"
proof -
  have wf: "wf_cards ahead_board" by (simp add: wf_cards_def ahead_board_def ahead_card_def demo_card_def dict_keys_def)
  have nodes: "wf_nodes (st_nodes (cb_state ahead_board))" by code_simp
  have lane: "\<not> is_asha (demo_lane demo_policy)" by code_simp
  have fresh: "list_all (fresh_build (demo_lane demo_policy) ahead_board 4 (demo_context\<lparr>sx_excluded := []\<rparr>))
      [(''card-1'', 0), (''card-2'', 1)]"
    using ahead_fresh by (simp add: fresh_build_def)
  show ?thesis using fresh_builds_share_one_lane [OF wf nodes lane _ _ fresh] by simp
qed

end
