(* ===== verification/RunPlan.thy ===== *)
theory RunPlan
  imports CardLane Requests
begin

text \<open>
  The run's plan (\<open>engine/plan.py\<close>): the cut of the node budget into seeds, search and endgame, the
  re-cuts on a new budget, a hard stall or an operator's batch, the bounded stall episode, and the
  plateau that ends a search. A row is the one these functions write: absent keys are \<open>0\<close>, \<open>[]\<close> or
  \<open>None\<close>, and rows of another shape, which the readers answer with \<open>None\<close>, are left out.
\<close>

section \<open>The row\<close>

datatype plan_reason = Initial | BudgetChanged | Stagnation | Reopened | Injected

datatype reopen_cause = ChampionChanged | EpisodeSpent | StallRetracted

datatype endgame_kind = MergeKind | SweepKind

record plan_row =
  pl_at_node :: int
  pl_reason :: plan_reason
  pl_max_nodes :: int
  pl_frac :: real
  pl_start :: int
  pl_reserve :: int
  pl_seed :: int
  pl_search :: int
  pl_kinds :: "endgame_kind list"
  pl_injected :: int
  pl_end :: "int option"
  pl_champion :: "int option"
  pl_spent :: "int list"
  pl_cause :: "reopen_cause option"

text \<open>What a cut is taken over.\<close>

record plan_cut =
  ct_max_nodes :: int
  ct_n_seeds :: int
  ct_frac :: real
  ct_at_node :: int
  ct_sweep :: bool
  ct_injected :: int

definition endgame_kinds :: "endgame_kind list" where
  "endgame_kinds = [MergeKind, SweepKind]"

definition hard_stall_rungs :: int where
  "hard_stall_rungs = 2"

definition held_nodes :: "plan_cut \<Rightarrow> int" where
  "held_nodes C = max 1 (round_half_even (of_int (max 0 (ct_max_nodes C - max 0 (ct_injected C))) * min (ct_frac C) (9 / 10)))"

text \<open>The start that was asked for, or the one the fraction gives, past the seeds and before the last node.\<close>

definition planned_start :: "plan_cut \<Rightarrow> int option \<Rightarrow> int" where
  "planned_start C wanted = max (min (max 0 (ct_n_seeds C)) (ct_max_nodes C - 1))
     (min (case wanted of Some s \<Rightarrow> s | None \<Rightarrow> ct_max_nodes C - held_nodes C) (ct_max_nodes C - 1))"

definition build_plan :: "plan_cut \<Rightarrow> plan_reason \<Rightarrow> int option \<Rightarrow> plan_row option" where
  "build_plan C reason wanted =
     (let total = ct_max_nodes C; seeds = max 0 (ct_n_seeds C); start = planned_start C wanted
      in if total \<le> 0 \<or> ct_frac C \<le> 0 \<or> start \<le> seeds \<and> total - seeds < 2 then None
         else Some \<lparr>pl_at_node = max 0 (ct_at_node C), pl_reason = reason, pl_max_nodes = total,
             pl_frac = round4 (ct_frac C), pl_start = start, pl_reserve = total - start,
             pl_seed = min seeds start, pl_search = max 0 (start - seeds),
             pl_kinds = (if ct_sweep C then endgame_kinds else [MergeKind]), pl_injected = max 0 (ct_injected C),
             pl_end = None, pl_champion = None, pl_spent = [], pl_cause = None\<rparr>)"

definition operator_injected :: "event list \<Rightarrow> (int \<times> node) list \<Rightarrow> int" where
  "operator_injected es ns = int (length (filter (\<lambda>k. k \<in> set (dict_keys ns)) (remdups (List.map_filter (\<lambda>e.
     if e_type e = ''node_created'' \<and> pget (e_data e) ''source'' = PStr ''manual'' then node_id_of (e_data e) else None) es))))"

section \<open>Inside the reserve\<close>

definition in_endgame :: "plan_row option \<Rightarrow> int \<Rightarrow> bool" where
  "in_endgame plan n = (case plan of
      None \<Rightarrow> False
    | Some P \<Rightarrow> pl_start P \<le> n \<and> (case pl_end P of None \<Rightarrow> True | Some e \<Rightarrow> n < e))"

definition ordinary_start :: "plan_row \<Rightarrow> int option" where
  "ordinary_start P = map_option pl_start (build_plan \<lparr>ct_max_nodes = pl_max_nodes P, ct_n_seeds = pl_seed P,
     ct_frac = pl_frac P, ct_at_node = 0, ct_sweep = True, ct_injected = pl_injected P\<rparr> Initial None)"

definition final_reserve_reached :: "plan_row option \<Rightarrow> int \<Rightarrow> bool option" where
  "final_reserve_reached plan n = (case plan of
      None \<Rightarrow> None
    | Some P \<Rightarrow> if pl_end P = None then Some (in_endgame plan n)
                else map_option (\<lambda>final. in_endgame plan n \<and> final \<le> n) (ordinary_start P))"

section \<open>Re-cutting\<close>

definition stall_champions :: "plan_row \<Rightarrow> int list" where
  "stall_champions P = rev (remdups (rev (pl_spent P)))"

definition with_spent :: "plan_row option \<Rightarrow> int list \<Rightarrow> plan_row option" where
  "with_spent row spent = map_option (\<lambda>P. if spent = [] then P else P\<lparr>pl_spent := spent\<rparr>) row"

text \<open>A row that bounds an episode holds the episode's length in reserve.\<close>

definition episode_row :: "plan_cut \<Rightarrow> int \<Rightarrow> int \<Rightarrow> int option \<Rightarrow> int list \<Rightarrow> plan_reason \<Rightarrow> plan_row option" where
  "episode_row C start end_node champion spent reason = map_option
     (\<lambda>P. P\<lparr>pl_reserve := max 1 (min end_node (pl_max_nodes P) - pl_start P), pl_end := Some end_node,
        pl_champion := champion, pl_spent := spent\<rparr>) (build_plan C reason (Some start))"

definition own_fraction :: "plan_row \<Rightarrow> plan_cut \<Rightarrow> plan_cut" where
  "own_fraction P C = (if 0 < pl_frac P then C\<lparr>ct_frac := pl_frac P\<rparr> else C)"

definition recorded_injected :: "plan_row \<Rightarrow> int" where
  "recorded_injected P = (if 0 < pl_injected P then pl_injected P else 0)"

definition injected_recut :: "plan_row \<Rightarrow> plan_cut \<Rightarrow> int list \<Rightarrow> plan_row option" where
  "injected_recut P C spent =
     (if pl_reason P = Stagnation \<or> ct_injected C = recorded_injected P \<or>
         pl_start P \<le> ct_at_node C - max 0 (ct_injected C - recorded_injected P) then None
      else (case build_plan (own_fraction P C) Injected None of
          None \<Rightarrow> None
        | Some row \<Rightarrow> if pl_start row = pl_start P then None else with_spent (Some row) spent))"

definition reopened :: "plan_row \<Rightarrow> plan_cut \<Rightarrow> int list \<Rightarrow> reopen_cause \<Rightarrow> plan_row option" where
  "reopened P C spent cause =
     with_spent (map_option (\<lambda>row. row\<lparr>pl_cause := Some cause\<rparr>) (build_plan (own_fraction P C) Reopened None)) spent"

definition close_episode :: "plan_row \<Rightarrow> plan_cut \<Rightarrow> int option \<Rightarrow> int \<Rightarrow> plan_row option" where
  "close_episode P C champion end_node =
     (let spent = stall_champions P; batch = ct_injected C - recorded_injected P
      in if champion \<noteq> pl_champion P then reopened P C spent ChampionChanged
         else if 0 < batch \<and> ct_at_node C - batch < end_node
         then episode_row (own_fraction P C) (pl_start P) (end_node + batch) champion spent Injected
         else if end_node \<le> ct_at_node C then reopened P C spent EpisodeSpent
         else if ct_max_nodes C \<noteq> pl_max_nodes P
         then episode_row (own_fraction P C) (pl_start P) end_node champion spent BudgetChanged
         else None)"

text \<open>The permanent endgame of \<open>endgame_stall_nodes\<close> 0.\<close>

definition replan_unbounded :: "plan_row \<Rightarrow> plan_cut \<Rightarrow> int \<Rightarrow> plan_row option" where
  "replan_unbounded P C stall_rung =
     (if ct_max_nodes C \<noteq> pl_max_nodes P then build_plan C BudgetChanged None
      else if hard_stall_rungs \<le> stall_rung \<and> ct_at_node C < pl_start P \<and> ct_n_seeds C < ct_at_node C
      then build_plan C Stagnation (Some (ct_at_node C))
      else injected_recut P C [])"

definition migrate_stall :: "plan_row \<Rightarrow> plan_cut \<Rightarrow> int \<Rightarrow> int \<Rightarrow> int option \<Rightarrow> plan_row option" where
  "migrate_stall P C stall_rung stall_nodes champion =
     (let spent = stall_champions P
      in case champion of
           None \<Rightarrow> reopened P C spent StallRetracted
         | Some c \<Rightarrow>
             if stall_rung < hard_stall_rungs then reopened P C spent StallRetracted
             else if pl_start P \<le> c then reopened P C spent ChampionChanged
             else if c \<in> set spent then reopened P C spent EpisodeSpent
             else (let end_node = pl_start P + stall_nodes
                   in if end_node \<le> ct_at_node C then reopened P C (spent @ [c]) EpisodeSpent
                      else episode_row (own_fraction P C) (pl_start P) end_node champion (spent @ [c]) Stagnation))"

definition replan_bounded :: "plan_row \<Rightarrow> plan_cut \<Rightarrow> int \<Rightarrow> int \<Rightarrow> int option \<Rightarrow> plan_row option" where
  "replan_bounded P C stall_rung stall_nodes champion =
     (let spent = stall_champions P
      in if pl_reason P = Stagnation then migrate_stall P C stall_rung stall_nodes champion
         else if ct_max_nodes C \<noteq> pl_max_nodes P then with_spent (build_plan C BudgetChanged None) spent
         else (case champion of
             Some c \<Rightarrow>
               if hard_stall_rungs \<le> stall_rung \<and> ct_n_seeds C < ct_at_node C \<and> ct_at_node C < pl_start P \<and> c \<notin> set spent
               then episode_row (own_fraction P C) (ct_at_node C) (ct_at_node C + stall_nodes) champion (spent @ [c]) Stagnation
               else injected_recut P C spent
           | None \<Rightarrow> injected_recut P C spent))"

definition replan :: "plan_row option \<Rightarrow> plan_cut \<Rightarrow> int \<Rightarrow> int \<Rightarrow> int option \<Rightarrow> plan_row option" where
  "replan plan C0 stall_rung stall_nodes champion = (case plan of
      None \<Rightarrow> None
    | Some P \<Rightarrow>
       (let C = C0\<lparr>ct_injected := max 0 (ct_injected C0)\<rparr>
        in case pl_end P of
             Some end_node \<Rightarrow> close_episode P C champion end_node
           | None \<Rightarrow> if stall_nodes \<le> 0 then replan_unbounded P C stall_rung
                     else replan_bounded P C stall_rung stall_nodes champion))"

section \<open>The plateau\<close>

definition improves_on :: "run_state \<Rightarrow> node \<Rightarrow> node option \<Rightarrow> bool" where
  "improves_on st n leader = (case (n_metric n, leader) of
      (None, l) \<Rightarrow> False
    | (Some x, None) \<Rightarrow> True
    | (Some x, Some l) \<Rightarrow> (case n_metric l of Some y \<Rightarrow> is_better (st_direction st) x y | None \<Rightarrow> False))"

definition plateau_leader :: "run_state \<Rightarrow> node option" where
  "plateau_leader st = foldl (\<lambda>leader n.
     if counts_toward_best n (st_breed_excluded st) (st_aborted_nodes st) \<and> n_metric n \<noteq> None \<and> improves_on st n leader
     then Some n else leader) None (py_sorted False n_id (evaluated_nodes st))"

record rearm_scan =
  rm_next :: int
  rm_floor :: int
  rm_finished :: bool

definition scan_rearm :: "rearm_scan \<Rightarrow> event \<Rightarrow> rearm_scan" where
  "scan_rearm s e =
     (if e_type e = ''node_created''
      then (case node_id_of (e_data e) of None \<Rightarrow> s | Some k \<Rightarrow> s\<lparr>rm_next := max (rm_next s) (k + 1)\<rparr>)
      else if e_type e = ''run_finished'' then s\<lparr>rm_finished := True\<rparr>
      else if e_type e \<in> {''resume'', ''run_reopened''}
      then s\<lparr>rm_floor := (if rm_finished s then rm_next s else rm_floor s), rm_finished := False\<rparr>
      else if e_type e = ''budget_extend'' \<and> accepted_add_nodes (pget (e_data e) ''add_nodes'') \<noteq> 0
      then s\<lparr>rm_floor := rm_next s\<rparr> else s)"

definition plateau_rearm_floor :: "event list \<Rightarrow> int" where
  "plateau_rearm_floor es = rm_floor (foldl scan_rearm \<lparr>rm_next = 0, rm_floor = 0, rm_finished = False\<rparr> es)"

definition plateau_silent_reasons :: "string set" where
  "plateau_silent_reasons = insert ''engine_error'' benign_terminal_reasons"

definition counts_for_plateau :: "run_state \<Rightarrow> int \<Rightarrow> int option \<Rightarrow> node \<Rightarrow> bool" where
  "counts_for_plateau st low end_node n \<longleftrightarrow> low \<le> n_id n \<and> (case end_node of None \<Rightarrow> True | Some e \<Rightarrow> n_id n < e) \<and>
     n_status n \<noteq> Pending \<and> \<not> n_tombstoned n \<and> n_id n \<notin> set (st_aborted_nodes st) \<and>
     n_error_reason n \<notin> plateau_silent_reasons \<and> n_kind n \<noteq> Some ''artifact''"

definition plateau_nodes :: "plan_row option \<Rightarrow> run_state \<Rightarrow> int \<Rightarrow> int option \<times> int" where
  "plateau_nodes plan st from = (case plan of
      None \<Rightarrow> (None, 0)
    | Some P \<Rightarrow> (case plateau_leader st of
        None \<Rightarrow> (None, 0)
      | Some l \<Rightarrow> (Some (n_id l), int (length (filter
          (counts_for_plateau st (max (max (pl_start P) (n_id l + 1)) from) (pl_end P)) (nodes_of st))))))"

definition plateau_stop_due :: "plan_row option \<Rightarrow> run_state \<Rightarrow> int \<Rightarrow> int \<Rightarrow> bool" where
  "plateau_stop_due plan st stop_nodes from \<longleftrightarrow> 0 < stop_nodes \<and>
     (case plateau_nodes plan st from of (None, k) \<Rightarrow> False | (Some l, k) \<Rightarrow> stop_nodes \<le> k)"

end
