(* ===== verification/Endgame.thy ===== *)
theory Endgame
  imports RunPlan CardSpeculation
begin

text \<open>
  The endgame reserve (\<open>engine/plan.py\<close>): which pair the reserve may merge, its own next action, the one
  predicate that says what it lets through, the cards it refuses and the gate of the dispatcher. An
  action carries, beside its card, whether it is the surrogate's sweep.
\<close>

record swept_action = lane_action +
  la_sweep :: bool

definition swept :: "lane_action \<Rightarrow> bool \<Rightarrow> swept_action" where
  "swept a s = \<lparr>la_proposal = la_proposal a, la_card = la_card a, la_sweep = s\<rparr>"

section \<open>What the reserve reads\<close>

text \<open>The board, the ids of \<open>cards_added\<close> in their order, and the plan's row.\<close>

record endgame_view =
  vw_board :: card_board
  vw_added :: "string list"
  vw_plan :: plan_row

definition vw_state :: "endgame_view \<Rightarrow> run_state" where
  "vw_state V = cb_state (vw_board V)"

definition ranked_breedable :: "endgame_view \<Rightarrow> node list" where
  "ranked_breedable V = rank_by_metric (vw_state V) (breedable_nodes (vw_state V))"

definition reserve_kinds :: "endgame_view \<Rightarrow> endgame_kind list" where
  "reserve_kinds V = (if pl_kinds (vw_plan V) = [] then endgame_kinds else pl_kinds (vw_plan V))"

definition is_merge_node :: "node \<Rightarrow> bool" where
  "is_merge_node n \<longleftrightarrow> n_operator n = ''merge''"

definition pair_has_merge_node :: "endgame_view \<Rightarrow> int \<Rightarrow> int \<Rightarrow> bool" where
  "pair_has_merge_node V a b \<longleftrightarrow> list_ex (\<lambda>n. is_merge_node n \<and> a \<in> set (n_parent_ids n) \<and> b \<in> set (n_parent_ids n))
     (nodes_of (vw_state V))"

definition live_card_statuses :: "string list" where
  "live_card_statuses = [''proposed'', ''building'', ''coded'', ''running'']"

definition card_is_live :: "work_card \<Rightarrow> bool" where
  "card_is_live c \<longleftrightarrow> wc_status c \<in> set live_card_statuses \<and> wc_merged_into c = None \<and> wc_dropped_reason c = None"

definition added_position :: "string list \<Rightarrow> string \<Rightarrow> nat" where
  "added_position added k = (case filter (\<lambda>(i, j). j = k) (enumerate 0 added) of
      [] \<Rightarrow> length (remdups added) | hits \<Rightarrow> fst (last hits))"

definition parent_pair :: "int list \<Rightarrow> (int \<times> int) option" where
  "parent_pair ps = (case ps of [a, b] \<Rightarrow> if a = b then None else Some (a, b) | _ \<Rightarrow> None)"

definition merge_card_of :: "int \<Rightarrow> int \<Rightarrow> work_card \<Rightarrow> bool" where
  "merge_card_of a b c \<longleftrightarrow> wc_operator c = Some ''merge'' \<and> card_is_live c \<and>
     (case parent_pair (wc_parent_ids c) of None \<Rightarrow> False | Some (p, q) \<Rightarrow> {p, q} = {a, b})"

definition merge_owners :: "endgame_view \<Rightarrow> int \<Rightarrow> int \<Rightarrow> string list" where
  "merge_owners V a b = py_sorted False (\<lambda>k. (added_position (vw_added V) k, k))
     (map wc_id (filter (merge_card_of a b) (dict_values (cb_cards (vw_board V)))))"

section \<open>Lineage\<close>

definition parents_at :: "run_state \<Rightarrow> int \<Rightarrow> int list" where
  "parents_at st k = (case dict_get (st_nodes st) k of None \<Rightarrow> [] | Some n \<Rightarrow> n_parent_ids n)"

definition all_parents :: "run_state \<Rightarrow> int list" where
  "all_parents st = concat (map n_parent_ids (nodes_of st))"

lemma parents_at_all: "set (parents_at st k) \<subseteq> set (all_parents st)"
proof (cases "dict_get (st_nodes st) k")
  case (Some n)
  then have "n \<in> set (nodes_of st)" by (auto simp: nodes_of_def dict_values_def dest!: map_of_SomeD intro: rev_image_eqI)
  then show ?thesis using Some by (auto simp: parents_at_def all_parents_def)
qed (simp add: parents_at_def)

text \<open>The walk keeps a stack and the set of ids met; the top of the stack comes first here.\<close>

function climb :: "run_state \<Rightarrow> int list \<Rightarrow> int list \<Rightarrow> int list" where
  "climb st seen [] = seen"
| "climb st seen (x # stack) =
     (let found = remdups (filter (\<lambda>p. p \<notin> set seen) (parents_at st x))
      in climb st (found @ seen) (rev found @ stack))"
  by pat_completeness auto
termination
proof (relation "measures [\<lambda>(st, seen, stack). card (set (all_parents st) - set seen), \<lambda>(st, seen, stack). length stack]")
  fix st seen x stack and found :: "int list"
  assume found: "found = remdups (filter (\<lambda>p. p \<notin> set seen) (parents_at st x))"
  show "((st, found @ seen, rev found @ stack), st, seen, x # stack) \<in>
    measures [\<lambda>(st, seen, stack). card (set (all_parents st) - set seen), \<lambda>(st, seen, stack). length stack]"
  proof (cases "found = []")
    case False
    then obtain p where "p \<in> set found" by (cases found) auto
    then have "p \<in> set (all_parents st)" "p \<notin> set seen" using parents_at_all found by auto
    then have "set (all_parents st) - set (found @ seen) \<subset> set (all_parents st) - set seen" using \<open>p \<in> set found\<close> by auto
    then have "card (set (all_parents st) - set (found @ seen)) < card (set (all_parents st) - set seen)"
      by (intro psubset_card_mono) auto
    then show ?thesis by simp
  qed simp
qed simp

definition ancestors :: "run_state \<Rightarrow> int \<Rightarrow> int list" where
  "ancestors st k = filter (\<lambda>p. p \<noteq> k) (climb st [] [k])"

definition related :: "run_state \<Rightarrow> int \<Rightarrow> int \<Rightarrow> bool" where
  "related st a b \<longleftrightarrow> a \<in> set (ancestors st b) \<or> b \<in> set (ancestors st a)"

section \<open>The reserve's own action\<close>

text \<open>\<open>None\<close> asks for the reserve itself, which any live card of the pair refuses.\<close>

definition merge_admissible :: "endgame_view \<Rightarrow> string option \<Rightarrow> (int \<times> int) option \<Rightarrow> bool" where
  "merge_admissible V asking pair = (case pair of
      None \<Rightarrow> False
    | Some (a, b) \<Rightarrow>
        a \<in> set (breedable_ids (vw_state V)) \<and> b \<in> set (breedable_ids (vw_state V)) \<and>
        \<not> related (vw_state V) a b \<and> \<not> pair_has_merge_node V a b \<and>
        (let owners = merge_owners V a b
         in owners = [] \<or> (case asking of None \<Rightarrow> False | Some k \<Rightarrow> hd owners = k)))"

definition partner_order :: "endgame_view \<Rightarrow> (node \<times> node list) option" where
  "partner_order V =
     (let ranked = ranked_breedable V; front = pareto_front (vw_state V) ranked
      in if length ranked < 2 then None
         else if 2 \<le> length front then Some (hd front, tl front @ filter (\<lambda>n. n \<notin> set front) ranked)
         else Some (hd ranked, tl ranked))"

definition merge_pick :: "endgame_view \<Rightarrow> (int \<times> int) option" where
  "merge_pick V = (case partner_order V of
      None \<Rightarrow> None
    | Some (leader, others) \<Rightarrow> map_option (\<lambda>n. (n_id leader, n_id n))
        (find (\<lambda>n. n_id n \<noteq> n_id leader \<and> merge_admissible V None (parent_pair [n_id leader, n_id n])) others))"

definition merged_in_reserve :: "endgame_view \<Rightarrow> bool" where
  "merged_in_reserve V \<longleftrightarrow> list_ex (\<lambda>n. is_merge_node n \<and> pl_start (vw_plan V) \<le> n_id n) (nodes_of (vw_state V))"

definition reserve_pick :: "endgame_view \<Rightarrow> (int \<times> int) option" where
  "reserve_pick V = (if MergeKind \<in> set (reserve_kinds V) \<and> \<not> merged_in_reserve V then merge_pick V else None)"

definition own_create :: "action \<Rightarrow> int \<Rightarrow> bool \<Rightarrow> swept_action" where
  "own_create a chosen s = \<lparr>la_proposal = (plain a)\<lparr>p_chosen := Some chosen\<rparr>, la_card = None, la_sweep = s\<rparr>"

definition own_action :: "endgame_view \<Rightarrow> bool \<Rightarrow> swept_action option" where
  "own_action V sweep = (case reserve_pick V of
      Some (leader, partner) \<Rightarrow> Some (own_create (Merge leader partner) leader False)
    | None \<Rightarrow> map_option (\<lambda>b. own_create (Improve (n_id b)) (n_id b) (sweep \<and> SweepKind \<in> set (reserve_kinds V)))
        (best (vw_state V)))"

section \<open>What is let through\<close>

definition is_simplify :: "action \<Rightarrow> bool" where
  "is_simplify a = (case a of Simplify p b aid \<Rightarrow> True | _ \<Rightarrow> False)"

definition is_evaluation :: "action \<Rightarrow> bool" where
  "is_evaluation a = (case a of Evaluate k \<Rightarrow> True | _ \<Rightarrow> False)"

definition cut_in_reserve :: "endgame_view \<Rightarrow> bool" where
  "cut_in_reserve V = (case best (vw_state V) of
      None \<Rightarrow> False
    | Some b \<Rightarrow> list_ex (\<lambda>n. pl_start (vw_plan V) \<le> n_id n \<and>
        (case n_simplified n of None \<Rightarrow> False | Some d \<Rightarrow> eq_int (pget d ''parent_id'') (n_id b))) (nodes_of (vw_state V)))"

definition simplify_passes :: "endgame_view \<Rightarrow> bool" where
  "simplify_passes V \<longleftrightarrow> \<not> (case own_action V False of None \<Rightarrow> False | Some own \<Rightarrow> is_merge (act (la_proposal own))) \<and>
     \<not> cut_in_reserve V"

definition card_is_endgame_action :: "endgame_view \<Rightarrow> swept_action \<Rightarrow> bool" where
  "card_is_endgame_action V a = (case act (la_proposal a) of
      Improve p \<Rightarrow> (case best (vw_state V) of None \<Rightarrow> False | Some b \<Rightarrow> p = n_id b)
    | Merge p q \<Rightarrow> merge_admissible V (Some (case la_card a of Some k \<Rightarrow> k | None \<Rightarrow> [])) (parent_pair [p, q])
    | _ \<Rightarrow> False)"

text \<open>What makes two actions the same work for the reserve.\<close>

type_synonym work_identity = "string \<times> int list option \<times> bool"

fun work_of :: "action \<Rightarrow> string \<times> int list option" where
  "work_of (Merge p q) = (''merge'', if p = q then None else Some (sort [p, q]))"
| "work_of (Improve p) = (''improve'', Some [p])"
| "work_of (Ablate p) = (''ablate'', Some [p])"
| "work_of Draft = (''draft'', Some [])"
| "work_of (Simplify p b aid) = (''simplify'', Some [])"
| "work_of (Evaluate k) = (''evaluate'', Some [])"

definition action_identity :: "swept_action \<Rightarrow> work_identity" where
  "action_identity a = (case work_of (act (la_proposal a)) of (kind, ps) \<Rightarrow> (kind, ps, la_sweep a))"

definition admits :: "endgame_view \<Rightarrow> bool \<Rightarrow> swept_action \<Rightarrow> bool" where
  "admits V sweep a =
     (if is_evaluation (act (la_proposal a)) then True
      else if is_simplify (act (la_proposal a)) then simplify_passes V
      else if la_card a \<noteq> None \<and> card_is_endgame_action V a then True
      else (case own_action V sweep of
          None \<Rightarrow> True
        | Some own \<Rightarrow> la_card a = None \<and> action_identity a = action_identity own))"

definition reserve_view :: "card_board \<Rightarrow> string list \<Rightarrow> plan_row option \<Rightarrow> endgame_view option" where
  "reserve_view B added plan = (case plan of
      None \<Rightarrow> None
    | Some P \<Rightarrow> if in_endgame plan (total_nodes (cb_state B))
        then Some \<lparr>vw_board = B, vw_added = added, vw_plan = P\<rparr> else None)"

definition endgame_admits :: "card_board \<Rightarrow> string list \<Rightarrow> plan_row option \<Rightarrow> bool \<Rightarrow> swept_action \<Rightarrow> bool" where
  "endgame_admits B added plan sweep a = (case reserve_view B added plan of None \<Rightarrow> True | Some V \<Rightarrow> admits V sweep a)"

definition endgame_admitted :: "card_board \<Rightarrow> string list \<Rightarrow> plan_row option \<Rightarrow> bool \<Rightarrow> swept_action list \<Rightarrow> swept_action list" where
  "endgame_admitted B added plan sweep actions = (case reserve_view B added plan of
      None \<Rightarrow> actions | Some V \<Rightarrow> filter (admits V sweep) actions)"

definition endgame_own_action :: "card_board \<Rightarrow> string list \<Rightarrow> plan_row option \<Rightarrow> bool \<Rightarrow> swept_action option" where
  "endgame_own_action B added plan sweep = (case reserve_view B added plan of None \<Rightarrow> None | Some V \<Rightarrow> own_action V sweep)"

definition refused_by_reserve :: "endgame_view \<Rightarrow> work_card \<Rightarrow> bool" where
  "refused_by_reserve V c \<longleftrightarrow> card_is_live c \<and>
     (case card_lane_action c of None \<Rightarrow> False | Some a \<Rightarrow> \<not> admits V True (swept a False))"

definition endgame_refused_card_ids :: "card_board \<Rightarrow> string list \<Rightarrow> plan_row option \<Rightarrow> string list" where
  "endgame_refused_card_ids B added plan = (case reserve_view B added plan of
      None \<Rightarrow> []
    | Some V \<Rightarrow> map wc_id (filter (refused_by_reserve V) (dict_values (cb_cards B))))"

section \<open>The gate\<close>

definition gated :: "endgame_view \<Rightarrow> bool \<Rightarrow> swept_action list \<Rightarrow> swept_action list" where
  "gated V sweep actions = (case own_action V sweep of
      None \<Rightarrow> (let kept = filter (\<lambda>a. la_card a \<noteq> None \<and> card_is_endgame_action V a) actions
               in if kept \<noteq> [] then kept else actions)
    | Some own \<Rightarrow> (let kept = filter (\<lambda>a. la_card a \<noteq> None \<and> admits V sweep a) actions
               in if kept \<noteq> [] then kept else [own]))"

definition endgame_actions :: "card_board \<Rightarrow> string list \<Rightarrow> plan_row option \<Rightarrow> bool \<Rightarrow> swept_action list \<Rightarrow> swept_action list" where
  "endgame_actions B added plan sweep actions = (case reserve_view B added plan of
      None \<Rightarrow> actions
    | Some V \<Rightarrow>
        if actions = [] \<or> list_ex (\<lambda>a. is_evaluation (act (la_proposal a))) actions then actions
        else if list_ex (\<lambda>a. is_simplify (act (la_proposal a))) actions
        then (if simplify_passes V then actions
              else gated V sweep (filter (\<lambda>a. \<not> is_simplify (act (la_proposal a))) actions))
        else gated V sweep actions)"

end
