(* ===== verification/PlanProps.thy ===== *)
theory PlanProps
  imports RunPlan
begin

text \<open>
  What the plan promises: every row is a cut of the budget, a champion has one stall episode, a run that
  stands still writes at most two rows, and what is read as final stays final over a reopening.
\<close>

section \<open>Rows\<close>

lemma built_row:
  assumes "build_plan C reason wanted = Some P"
  shows "pl_reason P = reason" "pl_max_nodes P = ct_max_nodes C" "pl_injected P = max 0 (ct_injected C)"
    "pl_end P = None" "pl_champion P = None" "pl_spent P = []" "pl_start P = planned_start C wanted" "0 < pl_max_nodes P"
    "pl_seed P = min (max 0 (ct_n_seeds C)) (pl_start P)" "pl_search P = max 0 (pl_start P - max 0 (ct_n_seeds C))"
    "pl_reserve P = pl_max_nodes P - pl_start P"
proof -
  have "0 < ct_max_nodes C" using assms unfolding build_plan_def Let_def by (rule contrapos_pp) simp
  moreover have "P = \<lparr>pl_at_node = max 0 (ct_at_node C), pl_reason = reason, pl_max_nodes = ct_max_nodes C,
      pl_frac = round4 (ct_frac C), pl_start = planned_start C wanted, pl_reserve = ct_max_nodes C - planned_start C wanted,
      pl_seed = min (max 0 (ct_n_seeds C)) (planned_start C wanted),
      pl_search = max 0 (planned_start C wanted - max 0 (ct_n_seeds C)),
      pl_kinds = (if ct_sweep C then endgame_kinds else [MergeKind]), pl_injected = max 0 (ct_injected C),
      pl_end = None, pl_champion = None, pl_spent = [], pl_cause = None\<rparr>"
    using assms unfolding build_plan_def Let_def by (metis option.distinct(1) option.inject)
  ultimately show "pl_reason P = reason" "pl_max_nodes P = ct_max_nodes C" "pl_injected P = max 0 (ct_injected C)"
    "pl_end P = None" "pl_champion P = None" "pl_spent P = []" "pl_start P = planned_start C wanted" "0 < pl_max_nodes P"
    "pl_seed P = min (max 0 (ct_n_seeds C)) (pl_start P)" "pl_search P = max 0 (pl_start P - max 0 (ct_n_seeds C))"
    "pl_reserve P = pl_max_nodes P - pl_start P" by simp_all
qed

lemma planned_start_bound: "planned_start C wanted < ct_max_nodes C"
  by (simp add: planned_start_def min_less_iff_disj)

lemma planned_start_cong:
  "ct_max_nodes C = ct_max_nodes D \<Longrightarrow> ct_n_seeds C = ct_n_seeds D \<Longrightarrow> ct_frac C = ct_frac D \<Longrightarrow> ct_injected C = ct_injected D \<Longrightarrow>
    planned_start C wanted = planned_start D wanted"
  by (simp only: planned_start_def held_nodes_def)

lemma planned_start_asked: "max 0 (ct_n_seeds C) \<le> s \<Longrightarrow> s < ct_max_nodes C \<Longrightarrow> planned_start C (Some s) = s"
  by (simp add: planned_start_def)

lemma episode_row_Some:
  assumes "episode_row C start e champion spent reason = Some P"
  obtains Q where "build_plan C reason (Some start) = Some Q" "P = Q\<lparr>pl_reserve := max 1 (min e (pl_max_nodes Q) - pl_start Q),
    pl_end := Some e, pl_champion := champion, pl_spent := spent\<rparr>"
  using assms by (auto simp: episode_row_def)

lemma episode_row_fields:
  assumes "episode_row C start e champion spent reason = Some P"
  shows "pl_reason P = reason" "pl_max_nodes P = ct_max_nodes C" "pl_injected P = max 0 (ct_injected C)"
    "pl_end P = Some e" "pl_champion P = champion" "pl_spent P = spent"
  using assms by (auto elim!: episode_row_Some simp: built_row)

lemma own_fraction_same [simp]:
  "ct_max_nodes (own_fraction P C) = ct_max_nodes C" "ct_injected (own_fraction P C) = ct_injected C"
  "ct_n_seeds (own_fraction P C) = ct_n_seeds C" "ct_at_node (own_fraction P C) = ct_at_node C"
  by (simp_all add: own_fraction_def)

lemma with_spent_Some: "with_spent row spent = Some P \<longleftrightarrow>
    (\<exists>Q. row = Some Q \<and> P = (if spent = [] then Q else Q\<lparr>pl_spent := spent\<rparr>))"
  by (auto simp: with_spent_def)

lemma with_spent_fields:
  assumes "with_spent (Some Q) spent = Some P" "pl_spent Q = []"
  shows "pl_reason P = pl_reason Q" "pl_max_nodes P = pl_max_nodes Q" "pl_injected P = pl_injected Q" "pl_end P = pl_end Q"
    "pl_start P = pl_start Q" "pl_champion P = pl_champion Q" "pl_spent P = spent"
proof -
  have "P = (if spent = [] then Q else Q\<lparr>pl_spent := spent\<rparr>)" using assms(1) unfolding with_spent_Some by blast
  then show "pl_reason P = pl_reason Q" "pl_max_nodes P = pl_max_nodes Q" "pl_injected P = pl_injected Q" "pl_end P = pl_end Q"
    "pl_start P = pl_start Q" "pl_champion P = pl_champion Q" "pl_spent P = spent" using assms(2) by simp_all
qed

lemma reopened_fields:
  assumes "reopened P C spent cause = Some R"
  shows "pl_reason R = Reopened" "pl_max_nodes R = ct_max_nodes C" "pl_injected R = max 0 (ct_injected C)" "pl_end R = None"
    "pl_spent R = spent" "pl_start R = planned_start (own_fraction P C) None"
proof -
  obtain Q where Q: "build_plan (own_fraction P C) Reopened None = Some Q"
    using assms by (cases "build_plan (own_fraction P C) Reopened None") (simp_all add: reopened_def with_spent_def)
  then have R: "with_spent (Some (Q\<lparr>pl_cause := Some cause\<rparr>)) spent = Some R" using assms by (simp add: reopened_def)
  show "pl_reason R = Reopened" "pl_max_nodes R = ct_max_nodes C" "pl_injected R = max 0 (ct_injected C)" "pl_end R = None"
    "pl_spent R = spent" "pl_start R = planned_start (own_fraction P C) None"
    using with_spent_fields [OF R] built_row [OF Q] by simp_all
qed

lemma recut_fields:
  assumes "injected_recut P C spent = Some R"
  shows "pl_reason R = Injected" "pl_max_nodes R = ct_max_nodes C" "pl_injected R = max 0 (ct_injected C)" "pl_end R = None"
    "pl_spent R = spent" "pl_reason P \<noteq> Stagnation" "ct_injected C \<noteq> recorded_injected P"
proof -
  obtain Q where Q: "build_plan (own_fraction P C) Injected None = Some Q" "with_spent (Some Q) spent = Some R"
    using assms by (auto simp: injected_recut_def split: if_splits option.splits)
  show "pl_reason R = Injected" "pl_max_nodes R = ct_max_nodes C" "pl_injected R = max 0 (ct_injected C)" "pl_end R = None"
    "pl_spent R = spent" using with_spent_fields [OF Q(2)] built_row [OF Q(1)] by simp_all
  show "pl_reason P \<noteq> Stagnation" "ct_injected C \<noteq> recorded_injected P" using assms by (auto simp: injected_recut_def split: if_splits)
qed

lemma stall_champions_set [simp]: "set (stall_champions P) = set (pl_spent P)"
  by (simp add: stall_champions_def)

section \<open>One episode per champion\<close>


section \<open>What a re-cut writes\<close>

lemma close_episode_cases:
  assumes "close_episode P C champion e = Some R"
  obtains (reopen) cause where "reopened P C (stall_champions P) cause = Some R"
  | (extend) e' reason where "episode_row (own_fraction P C) (pl_start P) e' champion (stall_champions P) reason = Some R"
    "reason \<noteq> Stagnation" "ct_at_node C < e'"
proof (cases "champion = pl_champion P")
  case same: True
  let ?batch = "ct_injected C - recorded_injected P"
  consider "0 < ?batch" "ct_at_node C - ?batch < e" | "\<not> (0 < ?batch \<and> ct_at_node C - ?batch < e)" by blast
  then show ?thesis
  proof cases
    case 1
    then show ?thesis using assms same extend [of "e + ?batch" Injected] by (simp add: close_episode_def Let_def)
  next
    case 2
    show ?thesis
    proof (cases "e \<le> ct_at_node C")
      case True
      then have "reopened P C (stall_champions P) EpisodeSpent = Some R"
        using assms same 2 unfolding close_episode_def Let_def by metis
      then show ?thesis by (rule reopen)
    next
      case False
      then have "episode_row (own_fraction P C) (pl_start P) e champion (stall_champions P) BudgetChanged = Some R"
        using assms same 2 unfolding close_episode_def Let_def by (metis option.distinct(1))
      then show ?thesis using False extend by simp
    qed
  qed
next
  case False
  then show ?thesis using assms reopen by (simp add: close_episode_def Let_def)
qed

lemma migrate_stall_cases:
  assumes "migrate_stall P C rung stall_nodes champion = Some R"
  obtains (reopen) spent cause where "reopened P C spent cause = Some R" "set (pl_spent P) \<subseteq> set spent"
  | (start) c where "champion = Some c" "c \<notin> set (pl_spent P)" "ct_at_node C < pl_start P + stall_nodes"
    "episode_row (own_fraction P C) (pl_start P) (pl_start P + stall_nodes) champion (stall_champions P @ [c]) Stagnation = Some R"
proof (cases champion)
  case None
  then show ?thesis using assms reopen [of "stall_champions P"] by (simp add: migrate_stall_def Let_def)
next
  case (Some c)
  consider "rung < hard_stall_rungs" | "\<not> rung < hard_stall_rungs" "pl_start P \<le> c" | "\<not> rung < hard_stall_rungs" "\<not> pl_start P \<le> c" "c \<in> set (pl_spent P)"
    | "\<not> rung < hard_stall_rungs" "\<not> pl_start P \<le> c" "c \<notin> set (pl_spent P)" "pl_start P + stall_nodes \<le> ct_at_node C"
    | "\<not> rung < hard_stall_rungs" "\<not> pl_start P \<le> c" "c \<notin> set (pl_spent P)" "\<not> pl_start P + stall_nodes \<le> ct_at_node C" by blast
  then show ?thesis
  proof cases
    case 4
    then show ?thesis using assms Some reopen [of "stall_champions P @ [c]"] by (simp add: migrate_stall_def Let_def) blast
  next
    case 5
    then show ?thesis using assms Some start [of c] by (simp add: migrate_stall_def Let_def)
  qed (use assms Some reopen [of "stall_champions P"] in \<open>simp_all add: migrate_stall_def Let_def\<close>)
qed

lemma replan_bounded_cases:
  assumes "replan_bounded P C rung stall_nodes champion = Some R" "pl_reason P \<noteq> Stagnation"
  obtains (budget) Q where "build_plan C BudgetChanged None = Some Q" "with_spent (Some Q) (stall_champions P) = Some R"
    "ct_max_nodes C \<noteq> pl_max_nodes P"
  | (recut) "injected_recut P C (stall_champions P) = Some R" "ct_max_nodes C = pl_max_nodes P"
  | (stall) c where "champion = Some c" "c \<notin> set (pl_spent P)" "episode_row (own_fraction P C) (ct_at_node C)
      (ct_at_node C + stall_nodes) champion (stall_champions P @ [c]) Stagnation = Some R"
proof (cases "ct_max_nodes C = pl_max_nodes P")
  case False
  then have "with_spent (build_plan C BudgetChanged None) (stall_champions P) = Some R"
    using assms by (simp add: replan_bounded_def Let_def)
  then show ?thesis using budget False by (cases "build_plan C BudgetChanged None") (simp_all add: with_spent_def)
next
  case True
  show ?thesis
  proof (cases champion)
    case None
    then show ?thesis using assms True recut by (simp add: replan_bounded_def Let_def)
  next
    case (Some c)
    show ?thesis
    proof (cases "hard_stall_rungs \<le> rung \<and> ct_n_seeds C < ct_at_node C \<and> ct_at_node C < pl_start P \<and> c \<notin> set (pl_spent P)")
      case hard: True
      then show ?thesis using assms True Some stall [of c] by (simp add: replan_bounded_def Let_def)
    next
      case False
      then have "injected_recut P C (stall_champions P) = Some R"
        using assms True Some unfolding replan_bounded_def Let_def stall_champions_set by (auto split: if_splits)
      then show ?thesis using recut True by simp
    qed
  qed
qed

lemma replan_unbounded_cases:
  assumes "replan_unbounded P C rung = Some R"
  obtains (budget) "build_plan C BudgetChanged None = Some R" "ct_max_nodes C \<noteq> pl_max_nodes P"
  | (stall) "build_plan C Stagnation (Some (ct_at_node C)) = Some R" "ct_n_seeds C < ct_at_node C" "ct_at_node C < pl_start P"
      "ct_max_nodes C = pl_max_nodes P"
  | (recut) "injected_recut P C [] = Some R" "ct_max_nodes C = pl_max_nodes P"
  using assms unfolding replan_unbounded_def by (metis (no_types))

definition normal_cut :: "plan_cut \<Rightarrow> plan_cut" where
  "normal_cut C = C\<lparr>ct_injected := max 0 (ct_injected C)\<rparr>"

lemma normal_cut_same [simp]:
  "ct_max_nodes (normal_cut C) = ct_max_nodes C" "ct_injected (normal_cut C) = max 0 (ct_injected C)"
  "ct_n_seeds (normal_cut C) = ct_n_seeds C" "ct_at_node (normal_cut C) = ct_at_node C"
  by (simp_all add: normal_cut_def)

lemma normal_cut_idem [simp]: "normal_cut (normal_cut C) = normal_cut C"
  by (simp add: normal_cut_def)

lemma replan_Some: "replan (Some P) C rung stall_nodes champion = (case pl_end P of
    Some e \<Rightarrow> close_episode P (normal_cut C) champion e
  | None \<Rightarrow> if stall_nodes \<le> 0 then replan_unbounded P (normal_cut C) rung
            else replan_bounded P (normal_cut C) rung stall_nodes champion)"
  unfolding replan_def normal_cut_def Let_def by simp

section \<open>One episode per champion\<close>

text \<open>What a re-cut carries over, while the episodes are bounded.\<close>

definition carries_spent :: "plan_row \<Rightarrow> plan_row \<Rightarrow> bool" where
  "carries_spent P R \<longleftrightarrow> set (pl_spent P) \<subseteq> set (pl_spent R) \<and> (pl_reason R = Stagnation \<longrightarrow>
     (\<exists>c. pl_champion R = Some c \<and> c \<notin> set (pl_spent P) \<and> c \<in> set (pl_spent R)))"

lemma replan_spent:
  assumes "replan (Some P) C rung stall_nodes champion = Some R" "0 < stall_nodes"
  shows "carries_spent P R"
proof (cases "pl_end P")
  case (Some e)
  then have "close_episode P (normal_cut C) champion e = Some R" using assms(1) by (simp add: replan_Some)
  then show ?thesis
  proof (cases rule: close_episode_cases)
    case reopen
    then show ?thesis using reopened_fields [OF reopen] by (simp add: carries_spent_def)
  next
    case extend
    then show ?thesis using episode_row_fields [OF extend(1)] by (simp add: carries_spent_def)
  qed
next
  case None
  then have b: "replan_bounded P (normal_cut C) rung stall_nodes champion = Some R" using assms by (simp add: replan_Some)
  show ?thesis
  proof (cases "pl_reason P = Stagnation")
    case True
    then have "migrate_stall P (normal_cut C) rung stall_nodes champion = Some R" using b by (simp add: replan_bounded_def Let_def)
    then show ?thesis
    proof (cases rule: migrate_stall_cases)
      case reopen
      then show ?thesis using reopened_fields [OF reopen(1)] by (simp add: carries_spent_def)
    next
      case start
      then show ?thesis using episode_row_fields [OF start(4)] by (auto simp: carries_spent_def)
    qed
  next
    case False
    from b False show ?thesis
    proof (cases rule: replan_bounded_cases)
      case budget
      then show ?thesis using with_spent_fields [OF budget(2)] built_row [OF budget(1)] by (simp add: carries_spent_def)
    next
      case recut
      then show ?thesis using recut_fields [OF recut(1)] by (simp add: carries_spent_def)
    next
      case stall
      then show ?thesis using episode_row_fields [OF stall(3)] by (auto simp: carries_spent_def)
    qed
  qed
qed

text \<open>The rows of a run, the newest first.\<close>

inductive plan_history :: "int \<Rightarrow> plan_row list \<Rightarrow> bool" for stall_nodes where
  first_row: "build_plan C Initial None = Some P \<Longrightarrow> plan_history stall_nodes [P]"
| next_row: "plan_history stall_nodes (P # rows) \<Longrightarrow> replan (Some P) C rung stall_nodes champion = Some R \<Longrightarrow>
    plan_history stall_nodes (R # P # rows)"

definition stalled_champion :: "plan_row \<Rightarrow> int option" where
  "stalled_champion P = (if pl_reason P = Stagnation then pl_champion P else None)"

lemma history_spent:
  assumes "plan_history stall_nodes rows" "0 < stall_nodes"
  shows "rows \<noteq> [] \<and> distinct (List.map_filter stalled_champion rows) \<and>
    set (List.map_filter stalled_champion rows) \<subseteq> set (pl_spent (hd rows))"
  using assms
proof induction
  case (first_row C P)
  then show ?case using built_row(1) [OF first_row(1)] by (simp add: map_filter_simps stalled_champion_def)
next
  case (next_row P rows C rung champion R)
  have carry: "set (pl_spent P) \<subseteq> set (pl_spent R)" "pl_reason R = Stagnation \<Longrightarrow> \<exists>c. pl_champion R = Some c \<and> c \<notin> set (pl_spent P) \<and> c \<in> set (pl_spent R)"
    using replan_spent [OF next_row(2,4)] by (simp_all add: carries_spent_def)
  have IH: "distinct (List.map_filter stalled_champion (P # rows))"
    "set (List.map_filter stalled_champion (P # rows)) \<subseteq> set (pl_spent P)" using next_row(3,4) by simp_all
  show ?case
  proof (cases "pl_reason R = Stagnation")
    case True
    then obtain c where c: "pl_champion R = Some c" "c \<notin> set (pl_spent P)" "c \<in> set (pl_spent R)" using carry(2) by blast
    then have "List.map_filter stalled_champion (R # P # rows) = c # List.map_filter stalled_champion (P # rows)"
      using True by (simp add: List.map_filter_def stalled_champion_def)
    then show ?thesis using IH c carry(1) by auto
  next
    case False
    then have "List.map_filter stalled_champion (R # P # rows) = List.map_filter stalled_champion (P # rows)"
      by (simp add: List.map_filter_def stalled_champion_def)
    then show ?thesis using IH carry(1) by auto
  qed
qed

text \<open>C31. With bounded episodes no champion is stalled twice: over the whole history of plan rows of a run,
  through every change of budget, batch of the operator and reopening, the rows that start a stall
  episode name different champions. A search that stands still keeps its budget for breadth.\<close>

theorem one_episode_per_champion:
  assumes "plan_history stall_nodes rows" "0 < stall_nodes"
  shows "distinct (List.map_filter stalled_champion rows)"
  using history_spent [OF assms] by simp

definition stall_cut :: "int \<Rightarrow> int \<Rightarrow> plan_cut" where
  "stall_cut cap n = \<lparr>ct_max_nodes = cap, ct_n_seeds = 2, ct_frac = 1 / 4, ct_at_node = n, ct_sweep = True, ct_injected = 0\<rparr>"

lemma stalled_history:
  assumes "build_plan (stall_cut 20 0) Initial None = Some P" "replan (Some P) (stall_cut 20 6) 2 3 (Some 4) = Some Q"
    and "replan (Some Q) (stall_cut 20 9) 2 3 (Some 4) = Some R"
  shows "plan_history 3 [R, Q, P]"
  using assms by (blast intro: plan_history.intros)

theorem one_episode_per_champion_witness:
  "distinct (List.map_filter stalled_champion
     (let P = the (build_plan (stall_cut 20 0) Initial None); Q = the (replan (Some P) (stall_cut 20 6) 2 3 (Some 4));
          R = the (replan (Some Q) (stall_cut 20 9) 2 3 (Some 4)) in [R, Q, P])) \<and>
   pl_champion (the (replan (build_plan (stall_cut 20 0) Initial None) (stall_cut 20 6) 2 3 (Some 4))) = Some 4"
proof -
  define P where "P = the (build_plan (stall_cut 20 0) Initial None)"
  define Q where "Q = the (replan (Some P) (stall_cut 20 6) 2 3 (Some 4))"
  define R where "R = the (replan (Some Q) (stall_cut 20 9) 2 3 (Some 4))"
  have P: "build_plan (stall_cut 20 0) Initial None = Some P" unfolding P_def by code_simp
  have Q: "replan (Some P) (stall_cut 20 6) 2 3 (Some 4) = Some Q" unfolding Q_def P_def by code_simp
  have R: "replan (Some Q) (stall_cut 20 9) 2 3 (Some 4) = Some R" unfolding R_def Q_def P_def by code_simp
  have "pl_champion Q = Some 4" unfolding Q_def P_def by code_simp
  then show ?thesis using one_episode_per_champion [OF stalled_history [OF P Q R]] P
    unfolding Let_def P_def [symmetric] by (simp flip: Q_def R_def)
qed

section \<open>A run that stands still\<close>

text \<open>What the next question on the same inputs answers.\<close>

lemma episode_settled:
  assumes "episode_row F start e champion spent reason = Some P" "ct_at_node C < e" "ct_max_nodes F = ct_max_nodes C"
    "ct_injected F = max 0 (ct_injected C)"
  shows "replan (Some P) C rung stall_nodes champion = None"
  using episode_row_fields [OF assms(1)] assms(2-4)
  by (simp add: replan_Some close_episode_def Let_def recorded_injected_def)

lemma stall_settled:
  assumes "build_plan C Stagnation (Some (ct_at_node C)) = Some P" "stall_nodes \<le> 0" "0 \<le> ct_at_node C" "ct_n_seeds C < ct_at_node C"
    "ct_at_node C < ct_max_nodes C"
  shows "replan (Some P) C rung stall_nodes champion = None"
proof -
  have "planned_start C (Some (ct_at_node C)) = ct_at_node C" by (rule planned_start_asked) (use assms(3-5) in simp_all)
  then show ?thesis using built_row [OF assms(1)] assms(2)
    by (simp add: replan_Some replan_unbounded_def injected_recut_def)
qed

definition ordinary_row :: "plan_cut \<Rightarrow> plan_row \<Rightarrow> bool" where
  "ordinary_row C P \<longleftrightarrow> pl_end P = None \<and> pl_reason P \<noteq> Stagnation \<and> pl_max_nodes P = ct_max_nodes C \<and>
     pl_injected P = max 0 (ct_injected C) \<and> pl_start P < pl_max_nodes P"

lemma no_recut: "ordinary_row C P \<Longrightarrow> injected_recut P (normal_cut C) spent = None"
  by (simp add: ordinary_row_def injected_recut_def recorded_injected_def)

lemma ordinary_then_settled:
  assumes "ordinary_row C P" "replan (Some P) C rung stall_nodes champion = Some R" "0 \<le> ct_at_node C"
  shows "replan (Some R) C rung stall_nodes champion = None"
proof (cases "stall_nodes \<le> 0")
  case True
  then have "replan_unbounded P (normal_cut C) rung = Some R" using assms(1,2) by (simp add: replan_Some ordinary_row_def)
  then show ?thesis
  proof (cases rule: replan_unbounded_cases)
    case budget
    then show ?thesis using assms(1) by (simp add: ordinary_row_def)
  next
    case stall
    then have "replan (Some R) (normal_cut C) rung stall_nodes champion = None"
      using stall_settled [of "normal_cut C" R stall_nodes] True assms(1,3) by (simp add: ordinary_row_def)
    then show ?thesis by (simp only: replan_Some normal_cut_idem)
  next
    case recut
    then show ?thesis using no_recut [OF assms(1)] by simp
  qed
next
  case False
  then have "replan_bounded P (normal_cut C) rung stall_nodes champion = Some R"
    using assms(1,2) by (simp add: replan_Some ordinary_row_def)
  moreover have "pl_reason P \<noteq> Stagnation" using assms(1) by (simp add: ordinary_row_def)
  ultimately show ?thesis
  proof (cases rule: replan_bounded_cases)
    case budget
    then show ?thesis using assms(1) by (simp add: ordinary_row_def)
  next
    case recut
    then show ?thesis using no_recut [OF assms(1)] by simp
  next
    case stall
    then show ?thesis using False by (intro episode_settled [OF stall(3)]) simp_all
  qed
qed

lemma replan_written:
  assumes "replan (Some P) C rung stall_nodes champion = Some R" "0 \<le> ct_at_node C" "pl_start P < pl_max_nodes P"
  shows "ordinary_row C R \<or> replan (Some R) C rung stall_nodes champion = None"
proof -
  have built: "ordinary_row C Q" if "build_plan D reason wanted = Some Q'" "reason \<noteq> Stagnation" "ct_max_nodes D = ct_max_nodes C"
      "max 0 (ct_injected D) = max 0 (ct_injected C)" "pl_reason Q = pl_reason Q'" "pl_max_nodes Q = pl_max_nodes Q'"
      "pl_injected Q = pl_injected Q'" "pl_end Q = pl_end Q'" "pl_start Q = pl_start Q'" for D reason wanted Q Q'
    using built_row [OF that(1)] that(2-) planned_start_bound [of D wanted] by (simp add: ordinary_row_def)
  have reopen: "ordinary_row C R" if "reopened P (normal_cut C) spent cause = Some R" for spent cause
    using reopened_fields [OF that] planned_start_bound [of "own_fraction P (normal_cut C)" None] by (simp add: ordinary_row_def)
  have recut: "ordinary_row C R" if r: "injected_recut P (normal_cut C) spent = Some R" for spent
  proof -
    obtain Q where "build_plan (own_fraction P (normal_cut C)) Injected None = Some Q" "with_spent (Some Q) spent = Some R"
      using r by (auto simp: injected_recut_def split: if_splits option.splits)
    then show ?thesis using built [of "own_fraction P (normal_cut C)" Injected None Q R] with_spent_fields built_row(6) by simp
  qed
  show ?thesis
  proof (cases "pl_end P")
    case (Some e)
    then have "close_episode P (normal_cut C) champion e = Some R" using assms(1) by (simp add: replan_Some)
    then show ?thesis
    proof (cases rule: close_episode_cases)
      case reopen': reopen
      then show ?thesis using reopen by blast
    next
      case extend
      have "replan (Some R) C rung stall_nodes champion = None"
        by (rule episode_settled [OF extend(1)]) (use extend(3) in simp_all)
      then show ?thesis ..
    qed
  next
    case None
    show ?thesis
    proof (cases "stall_nodes \<le> 0")
      case True
      then have "replan_unbounded P (normal_cut C) rung = Some R" using assms(1) None by (simp add: replan_Some)
      then show ?thesis
      proof (cases rule: replan_unbounded_cases)
        case budget
        then show ?thesis using built [of "normal_cut C" BudgetChanged None R R] by simp
      next
        case stall
        then have "replan (Some R) (normal_cut C) rung stall_nodes champion = None"
          using stall_settled [of "normal_cut C" R stall_nodes] True assms(2,3) by simp
        then have "replan (Some R) C rung stall_nodes champion = None" by (simp only: replan_Some normal_cut_idem)
        then show ?thesis ..
      next
        case recut': recut
        then show ?thesis using recut by blast
      qed
    next
      case False
      then have b: "replan_bounded P (normal_cut C) rung stall_nodes champion = Some R" using assms(1) None by (simp add: replan_Some)
      show ?thesis
      proof (cases "pl_reason P = Stagnation")
        case True
        then have "migrate_stall P (normal_cut C) rung stall_nodes champion = Some R" using b by (simp add: replan_bounded_def Let_def)
        then show ?thesis
        proof (cases rule: migrate_stall_cases)
          case reopen': reopen
          then show ?thesis using reopen by blast
        next
          case start
          have "replan (Some R) C rung stall_nodes champion = None"
            by (rule episode_settled [OF start(4)]) (use start(3) in simp_all)
          then show ?thesis ..
        qed
      next
        case other: False
        from b other show ?thesis
        proof (cases rule: replan_bounded_cases)
          case (budget Q)
          then show ?thesis using built [of "normal_cut C" BudgetChanged None Q R] with_spent_fields [OF budget(2)] built_row(6) [OF budget(1)] by simp
        next
          case recut': recut
          then show ?thesis using recut by blast
        next
          case stall
          have "replan (Some R) C rung stall_nodes champion = None"
            by (rule episode_settled [OF stall(3)]) (use False in simp_all)
          then show ?thesis ..
        qed
      qed
    qed
  qed
qed

text \<open>C32. A run that stands still does not re-plan without end: asked again and again on the same budget,
  node count, stall, batch and champion, a plan is re-cut at most twice, whatever row it started from,
  so a turn writes no more than two plan rows before the plan rests.\<close>

theorem replan_settles:
  assumes "replan (Some P) C rung stall_nodes champion = Some Q" "replan (Some Q) C rung stall_nodes champion = Some R"
    and "0 \<le> ct_at_node C" "pl_start P < pl_max_nodes P"
  shows "replan (Some R) C rung stall_nodes champion = None"
proof -
  have "ordinary_row C Q" using replan_written [OF assms(1,3,4)] assms(2) by auto
  then show ?thesis by (rule ordinary_then_settled [OF _ assms(2,3)])
qed

theorem replan_settles_witness:
  "(let P = the (build_plan (stall_cut 40 0) Initial None); Q = the (replan (Some P) (stall_cut 20 6) 2 3 (Some 4));
        R = the (replan (Some Q) (stall_cut 20 6) 2 3 (Some 4))
    in pl_reason Q = BudgetChanged \<and> pl_reason R = Stagnation \<and> replan (Some R) (stall_cut 20 6) 2 3 (Some 4) = None)"
proof -
  define P where "P = the (build_plan (stall_cut 40 0) Initial None)"
  define Q where "Q = the (replan (Some P) (stall_cut 20 6) 2 3 (Some 4))"
  define R where "R = the (replan (Some Q) (stall_cut 20 6) 2 3 (Some 4))"
  have Q: "replan (Some P) (stall_cut 20 6) 2 3 (Some 4) = Some Q" unfolding Q_def P_def by code_simp
  have R: "replan (Some Q) (stall_cut 20 6) 2 3 (Some 4) = Some R" unfolding R_def Q_def P_def by code_simp
  have "pl_reason Q = BudgetChanged" "pl_reason R = Stagnation" "pl_start P < pl_max_nodes P" "0 \<le> ct_at_node (stall_cut 20 6)"
    unfolding R_def Q_def P_def by code_simp+
  then show ?thesis using replan_settles [OF Q R] unfolding Let_def P_def [symmetric] by (simp flip: Q_def R_def)
qed

section \<open>The cut\<close>

lemma row_partitions_the_budget:
  assumes "build_plan C reason wanted = Some P"
  shows "pl_seed P + pl_search P = pl_start P" "pl_start P + pl_reserve P = pl_max_nodes P" "1 \<le> pl_reserve P" "0 \<le> pl_start P"
proof -
  have "0 \<le> planned_start C wanted" using built_row(2,8) [OF assms] by (simp add: planned_start_def le_max_iff_disj)
  then show "pl_seed P + pl_search P = pl_start P" "pl_start P + pl_reserve P = pl_max_nodes P" "1 \<le> pl_reserve P" "0 \<le> pl_start P"
    using built_row [OF assms] planned_start_bound [of C wanted] by (simp_all add: min_def max_def)
qed

text \<open>What is read as final is inside the reserve of the row that a reopening of the same budget writes.\<close>

lemma final_reserve_stays_final:
  assumes "final_reserve_reached (Some P) n = Some True" "pl_end P \<noteq> None"
    and "reopened P C spent cause = Some R" "ct_max_nodes C = pl_max_nodes P" "ct_n_seeds C = pl_seed P" "ct_injected C = pl_injected P"
  shows "in_endgame (Some R) n"
proof -
  obtain final where final: "ordinary_start P = Some final" "final \<le> n"
    using assms(1,2) by (auto simp: final_reserve_reached_def)
  then obtain Q where Q: "build_plan \<lparr>ct_max_nodes = pl_max_nodes P, ct_n_seeds = pl_seed P, ct_frac = pl_frac P, ct_at_node = 0,
      ct_sweep = True, ct_injected = pl_injected P\<rparr> Initial None = Some Q" "pl_start Q = final"
    by (auto simp: ordinary_start_def)
  have "0 < pl_frac P"
  proof (rule ccontr)
    assume "\<not> 0 < pl_frac P"
    then show False using Q(1) by (simp add: build_plan_def Let_def)
  qed
  then have "ct_frac (own_fraction P C) = pl_frac P" by (simp add: own_fraction_def)
  then have "planned_start (own_fraction P C) None = final"
    using planned_start_cong [of "own_fraction P C" "\<lparr>ct_max_nodes = pl_max_nodes P, ct_n_seeds = pl_seed P, ct_frac = pl_frac P,
      ct_at_node = 0, ct_sweep = True, ct_injected = pl_injected P\<rparr>" None] Q(2) built_row(7) [OF Q(1)] assms(4-6) by simp
  then show ?thesis using reopened_fields(4,6) [OF assms(3)] final(2) by (simp add: in_endgame_def)
qed

section \<open>The plateau\<close>










end
