(* ===== verification/EndgameProps.thy ===== *)
theory EndgameProps
  imports Endgame CardProps PlanProps
begin

text \<open>
  What the reserve promises: its merge is a new pair of unrelated nodes, the gate and the predicate the
  lanes ask agree, and what an election buys is not displaced.
\<close>

section \<open>Lineage\<close>

definition parent_edges :: "run_state \<Rightarrow> (int \<times> int) set" where
  "parent_edges st = {(k, p). p \<in> set (parents_at st k)}"

lemma climb_sound:
  assumes "\<forall>y \<in> set seen. (r, y) \<in> (parent_edges st)\<^sup>+" "\<forall>y \<in> set stack. (r, y) \<in> (parent_edges st)\<^sup>*"
  shows "\<forall>y \<in> set (climb st seen stack). (r, y) \<in> (parent_edges st)\<^sup>+"
  using assms
proof (induction st seen stack rule: climb.induct)
  case (2 st seen x stack)
  have found: "(r, y) \<in> (parent_edges st)\<^sup>+" if "y \<in> set (parents_at st x)" for y
  proof -
    have "(x, y) \<in> parent_edges st" using that by (simp add: parent_edges_def)
    then show ?thesis using 2(3) by (auto intro: rtrancl_into_trancl1)
  qed
  show ?case
    unfolding climb.simps Let_def
    by (rule 2(1) [OF refl]) (use found 2(2,3) in \<open>auto intro: trancl_into_rtrancl\<close>)
qed simp

lemma climb_keeps: "set seen \<subseteq> set (climb st seen stack)"
proof (induction st seen stack rule: climb.induct)
  case (2 st seen x stack)
  then show ?case by (auto simp: Let_def)
qed simp

lemma climb_closed:
  assumes "\<forall>y \<in> insert r (set seen). y \<in> set stack \<or> set (parents_at st y) \<subseteq> set seen"
  shows "\<forall>y \<in> insert r (set (climb st seen stack)). set (parents_at st y) \<subseteq> set (climb st seen stack)"
  using assms
proof (induction st seen stack rule: climb.induct)
  case (2 st seen x stack)
  let ?found = "remdups (filter (\<lambda>p. p \<notin> set seen) (parents_at st x))"
  show ?case
    unfolding climb.simps Let_def
    by (rule 2(1) [OF refl]) (use 2(2) in auto)
qed auto

lemma set_climb: "set (climb st [] [k]) = {p. (k, p) \<in> (parent_edges st)\<^sup>+}"
proof
  show "set (climb st [] [k]) \<subseteq> {p. (k, p) \<in> (parent_edges st)\<^sup>+}"
    using climb_sound [of "[]" k st "[k]"] by auto
  have closed: "\<forall>y \<in> insert k (set (climb st [] [k])). set (parents_at st y) \<subseteq> set (climb st [] [k])"
    by (rule climb_closed) simp
  have "p \<in> set (climb st [] [k])" if "(k, p) \<in> (parent_edges st)\<^sup>+" for p
    using that
  proof (induction rule: trancl_induct)
    case (base y)
    then show ?case using closed by (auto simp: parent_edges_def)
  next
    case (step y z)
    then show ?case using closed by (auto simp: parent_edges_def)
  qed
  then show "{p. (k, p) \<in> (parent_edges st)\<^sup>+} \<subseteq> set (climb st [] [k])" by blast
qed

lemma set_ancestors: "set (ancestors st k) = {p. (k, p) \<in> (parent_edges st)\<^sup>+ \<and> p \<noteq> k}"
  unfolding ancestors_def set_filter set_climb by auto

section \<open>The reserve's merge\<close>

lemma parent_pair_Some: "parent_pair [p, q] = (if p = q then None else Some (p, q))"
  by (simp add: parent_pair_def)

lemma find_holds: "find Q xs = Some x \<Longrightarrow> Q x"
  by (auto simp: find_Some_iff)

lemma reserve_pick_sound:
  assumes "reserve_pick V = Some (a, b)"
  shows "a \<noteq> b" "merge_admissible V None (Some (a, b))" "\<not> merged_in_reserve V"
proof -
  have pick: "merge_pick V = Some (a, b)" "\<not> merged_in_reserve V" using assms by (simp_all add: reserve_pick_def split: if_splits)
  then obtain leader others where order: "partner_order V = Some (leader, others)"
    by (cases "partner_order V") (auto simp: merge_pick_def)
  let ?fits = "\<lambda>n. n_id n \<noteq> n_id leader \<and> merge_admissible V None (parent_pair [n_id leader, n_id n])"
  obtain n where n: "find ?fits others = Some n" "a = n_id leader" "b = n_id n"
    using pick(1) order by (cases "find ?fits others") (auto simp: merge_pick_def)
  from find_holds [OF n(1)] show "a \<noteq> b" "merge_admissible V None (Some (a, b))"
    using n(2,3) by (auto simp: parent_pair_Some)
  show "\<not> merged_in_reserve V" by (rule pick(2))
qed

lemma merge_owner_iff: "k \<in> set (merge_owners V a b) \<longleftrightarrow>
    (\<exists>c \<in> set (dict_values (cb_cards (vw_board V))). merge_card_of a b c \<and> wc_id c = k)"
  by (auto simp: merge_owners_def)

text \<open>C30. The ensemble of the reserve is worth its slot: its parents are two nodes that can be bred from,
  neither descends from the other over any chain of parents, no merge node of the run holds both, no
  live merge card names the pair, and no merge was made inside the reserve before.\<close>

theorem reserve_merges_an_unrelated_new_pair:
  assumes "own_action V sweep = Some own" "act (la_proposal own) = Merge a b"
  shows "a \<noteq> b \<and> fit_parent (vw_state V) a \<and> fit_parent (vw_state V) b \<and>
    (a, b) \<notin> (parent_edges (vw_state V))\<^sup>+ \<and> (b, a) \<notin> (parent_edges (vw_state V))\<^sup>+ \<and>
    \<not> pair_has_merge_node V a b \<and> \<not> merged_in_reserve V \<and>
    list_all (\<lambda>c. \<not> merge_card_of a b c) (dict_values (cb_cards (vw_board V)))"
proof -
  have "reserve_pick V = Some (a, b)"
    using assms by (auto simp: own_action_def own_create_def plain_def split: option.splits)
  note pick = reserve_pick_sound [OF this]
  have unrelated: "\<not> related (vw_state V) a b" and new: "\<not> pair_has_merge_node V a b" and owners: "merge_owners V a b = []"
    and fit: "a \<in> set (breedable_ids (vw_state V))" "b \<in> set (breedable_ids (vw_state V))"
    using pick(2) by (auto simp: merge_admissible_def Let_def)
  have "fit_parent (vw_state V) a" "fit_parent (vw_state V) b" using fit breedable_fit by (auto simp: breedable_ids_def)
  moreover have "(a, b) \<notin> (parent_edges (vw_state V))\<^sup>+ \<and> (b, a) \<notin> (parent_edges (vw_state V))\<^sup>+"
    using unrelated pick(1) by (auto simp: related_def set_ancestors)
  moreover have "\<not> merge_card_of a b c" if "c \<in> set (dict_values (cb_cards (vw_board V)))" for c
    using merge_owner_iff [of "wc_id c" V a b] owners that by auto
  ultimately show ?thesis using pick(1,3) new by (auto simp: list_all_iff)
qed

section \<open>The gate and the lanes\<close>

lemma merge_card_of_sym: "merge_card_of a b = merge_card_of b a"
  by (rule ext) (simp only: merge_card_of_def insert_commute [of a b])

lemma merge_admissible_sym: "merge_admissible V asking (Some (a, b)) = merge_admissible V asking (Some (b, a))"
proof -
  have "merge_owners V a b = merge_owners V b a" by (simp add: merge_owners_def merge_card_of_sym [of a b])
  moreover have "related (vw_state V) a b = related (vw_state V) b a" by (auto simp: related_def)
  moreover have "pair_has_merge_node V a b = pair_has_merge_node V b a" by (auto simp: pair_has_merge_node_def list_ex_iff)
  ultimately show ?thesis by (auto simp: merge_admissible_def)
qed

lemma own_action_none: "own_action V sweep = None \<longleftrightarrow> reserve_pick V = None \<and> best (vw_state V) = None"
  by (auto simp: own_action_def split: option.splits)

lemma own_action_cases:
  assumes "own_action V sweep = Some own"
  obtains (merge) a b where "reserve_pick V = Some (a, b)" "act (la_proposal own) = Merge a b" "la_sweep own = False" "la_card own = None"
  | (improve) n where "best (vw_state V) = Some n" "act (la_proposal own) = Improve (n_id n)" "la_card own = None"
  using assms by (auto simp: own_action_def own_create_def plain_def split: option.splits)

text \<open>A card whose action is the work the reserve is about to do is the reserve's kind of card.\<close>

lemma same_work_is_endgame:
  assumes "own_action V sweep = Some own" "action_identity a = action_identity own"
  shows "card_is_endgame_action V a"
  using assms(1)
proof (cases rule: own_action_cases)
  case (merge p q)
  note pick = reserve_pick_sound [OF merge(1)]
  then obtain r s where rs: "act (la_proposal a) = Merge r s" "r \<noteq> s" "sort [r, s] = sort [p, q]"
    using assms(2) merge(2) by (cases "act (la_proposal a)") (auto simp: action_identity_def split: if_splits)
  then have "mset [r, s] = mset [p, q]" by (metis mset_sort)
  then have "(r, s) = (p, q) \<or> (r, s) = (q, p)" by (auto simp: add_eq_conv_ex)
  then have "merge_admissible V asking (Some (r, s)) = merge_admissible V asking (Some (p, q))" for asking
    using merge_admissible_sym [of V asking p q] by auto
  moreover have "merge_admissible V asking (Some (p, q))" for asking
    using pick(2) by (auto simp: merge_admissible_def Let_def)
  ultimately show ?thesis using rs(1,2) by (simp add: card_is_endgame_action_def parent_pair_Some)
next
  case (improve n)
  then have "act (la_proposal a) = Improve (n_id n)"
    using assms(2) by (cases "act (la_proposal a)") (auto simp: action_identity_def split: if_splits)
  then show ?thesis using improve(1) by (simp add: card_is_endgame_action_def)
qed

lemma own_is_create:
  assumes "own_action V sweep = Some own"
  shows "fst (action_identity own) \<in> {''merge'', ''improve''}"
  using assms by (cases rule: own_action_cases) (auto simp: action_identity_def)

lemma gated_one:
  assumes "\<not> is_evaluation (act (la_proposal a))" "\<not> is_simplify (act (la_proposal a))"
  shows "map action_identity (gated V sweep [a]) = [action_identity a] \<longleftrightarrow> admits V sweep a"
proof (cases "own_action V sweep")
  case None
  then show ?thesis using assms by (simp add: gated_def admits_def Let_def)
next
  case (Some own)
  show ?thesis
  proof (cases "la_card a = None")
    case True
    then show ?thesis using Some assms by (auto simp: gated_def admits_def)
  next
    case False
    then have "admits V sweep a \<longleftrightarrow> card_is_endgame_action V a" using Some assms by (simp add: admits_def)
    then show ?thesis using Some False same_work_is_endgame [OF Some, of a] by (auto simp: gated_def)
  qed
qed

text \<open>C29. The gate of the dispatcher and the question the buying lanes ask are one rule: an action that
  stands alone in a turn comes through the gate as the same work, of the same kind, parents and sweep,
  exactly when the predicate admits it. A raw lane that asks before it pays for a proposal is never
  overruled, and never held back from what would have passed.\<close>

theorem gate_agrees_with_its_predicate:
  "map action_identity (endgame_actions B added plan sweep [a]) = [action_identity a] \<longleftrightarrow> endgame_admits B added plan sweep a"
proof (cases "reserve_view B added plan")
  case None
  then show ?thesis by (simp add: endgame_actions_def endgame_admits_def)
next
  case (Some V)
  consider "is_evaluation (act (la_proposal a))" | "\<not> is_evaluation (act (la_proposal a))" "is_simplify (act (la_proposal a))"
    | "\<not> is_evaluation (act (la_proposal a))" "\<not> is_simplify (act (la_proposal a))" by blast
  then show ?thesis
  proof cases
    case 1
    then show ?thesis using Some by (simp add: endgame_actions_def endgame_admits_def admits_def)
  next
    case 2
    have "fst (action_identity a) = ''simplify''"
      using 2(2) by (cases "act (la_proposal a)") (simp_all add: is_simplify_def action_identity_def)
    then have "map action_identity (gated V sweep []) \<noteq> [action_identity a]"
      using own_is_create [of V sweep] by (cases "own_action V sweep") (auto simp: gated_def)
    then show ?thesis using Some 2 by (simp add: endgame_actions_def endgame_admits_def admits_def)
  next
    case 3
    then show ?thesis using Some gated_one [OF 3] by (simp add: endgame_actions_def endgame_admits_def)
  qed
qed

section \<open>What is bought is kept\<close>

lemma admits_cong:
  assumes "act (la_proposal a) = act (la_proposal b)" "la_card a = la_card b" "la_sweep a = la_sweep b"
  shows "admits V sweep a = admits V sweep b"
  unfolding admits_def card_is_endgame_action_def action_identity_def assms ..

lemma card_action_creates:
  assumes "card_action c = Some a"
  shows "\<not> is_evaluation a" "\<not> is_simplify a"
  using assms by (auto simp: card_action_def is_evaluation_def is_simplify_def split: option.splits if_splits)

lemma admitted_card:
  assumes "card_action c = Some (act (la_proposal a))" "la_card a = Some (wc_id c)" "la_sweep a = False"
    and "card_is_live c" "\<not> refused_by_reserve V c" "own_action V sweep \<noteq> None"
  shows "admits V sweep a"
proof -
  have "admits V True (swept \<lparr>la_proposal = plain (act (la_proposal a)), la_card = Some (wc_id c)\<rparr> False)"
    using assms(1,4,5) by (simp add: refused_by_reserve_def card_lane_action_def)
  then have "admits V True a"
    using admits_cong [of a "swept \<lparr>la_proposal = plain (act (la_proposal a)), la_card = Some (wc_id c)\<rparr> False" V True] assms(2,3)
    by (simp add: swept_def plain_def)
  moreover have "own_action V True \<noteq> None" using assms(6) by (simp add: own_action_none)
  ultimately have "card_is_endgame_action V a"
    using card_action_creates [OF assms(1)] assms(2) by (auto simp: admits_def split: if_splits)
  then show ?thesis using card_action_creates [OF assms(1)] assms(2) by (simp add: admits_def)
qed

lemma gate_keeps_admitted:
  assumes "turn \<noteq> []" "own_action V sweep \<noteq> None"
    "\<And>a. a \<in> set turn \<Longrightarrow> la_card a \<noteq> None \<and> admits V sweep a"
  shows "gated V sweep turn = turn"
proof -
  obtain own where "own_action V sweep = Some own" using assms(2) by blast
  moreover have "filter (\<lambda>a. la_card a \<noteq> None \<and> admits V sweep a) turn = turn" using assms(3) by (simp add: filter_id_conv)
  ultimately show ?thesis using assms(1) by (simp only: gated_def option.case Let_def) simp
qed

text \<open>C28. No build is bought that the gate then displaces: inside the reserve, when the election leaves out
  the cards the plan refuses and claims any card, the gate hands the whole turn back as it is. The
  reserve must have an action of its own, which it has while the run has a champion.\<close>

theorem reserve_keeps_what_is_elected:
  assumes "wf_cards B" "endgame_own_action B added plan sweep = Some own" "forced_card_actions L B max_nodes = None"
    and "turn = map (\<lambda>a. swept a False) (card_next_actions L B max_nodes T (endgame_refused_card_ids B added plan))"
    and "List.map_filter la_card turn \<noteq> []"
  shows "endgame_actions B added plan sweep turn = turn"
proof -
  obtain V where V: "reserve_view B added plan = Some V" "own_action V sweep \<noteq> None"
    using assms(2) by (auto simp: endgame_own_action_def split: option.splits)
  let ?refused = "endgame_refused_card_ids B added plan"
  obtain selected fallback where e: "elect L B max_nodes T ?refused = (selected, fallback)" by fastforce
  have sub: "set selected \<subseteq> {c \<in> set (eligible_cards B). wc_id c \<notin> set ?refused}"
    using selection_after_gates_sound(2) [OF e [unfolded elect_def]] .
  let ?actions = "card_actions_of L fallback selected"
  have "?actions \<noteq> []"
  proof
    assume "?actions = []"
    then have "List.map_filter la_card turn = []"
      using assms(3,4) e by (simp add: card_next_actions_def turn_actions_def Let_def swept_def bare_def List.map_filter_def comp_def)
    then show False using assms(5) by simp
  qed
  then have turn: "turn = map (\<lambda>a. swept a False) ?actions"
    using assms(3,4) e by (simp add: card_next_actions_def turn_actions_def Let_def)
  have each: "la_card a \<noteq> None \<and> admits V sweep a \<and> \<not> is_evaluation (act (la_proposal a)) \<and> \<not> is_simplify (act (la_proposal a))"
    if a: "a \<in> set turn" for a
  proof -
    obtain c where c: "c \<in> set selected" "card_action c = Some (act (la_proposal a))" "la_card a = Some (wc_id c)" "la_sweep a = False"
      using a unfolding turn by (auto simp: card_actions_of_def filtered_actions swept_def)
    have c': "c \<in> set (eligible_cards B)" "wc_id c \<notin> set ?refused" using c(1) sub by auto
    have "card_is_live c"
      using eligible_on_board(2) [OF assms(1) c'(1)] by (simp add: strictly_selection_ready_def card_is_live_def live_card_statuses_def)
    moreover have "c \<in> set (dict_values (cb_cards B))" using c'(1) by (auto simp: eligible_cards_def dict_values_def)
    then have "\<not> refused_by_reserve V c" using c'(2) V(1) by (auto simp: endgame_refused_card_ids_def)
    ultimately have "admits V sweep a" using admitted_card [OF c(2-4)] V(2) by blast
    then show ?thesis using card_action_creates [OF c(2)] c(3) by simp
  qed
  have "turn \<noteq> []" using \<open>?actions \<noteq> []\<close> by (simp add: turn)
  then have "gated V sweep turn = turn" using each V(2) by (intro gate_keeps_admitted) blast+
  moreover have "\<not> list_ex (\<lambda>a. is_evaluation (act (la_proposal a))) turn" "\<not> list_ex (\<lambda>a. is_simplify (act (la_proposal a))) turn"
    using each by (auto simp: list_ex_iff)
  ultimately show ?thesis using V(1) by (simp add: endgame_actions_def)
qed

section \<open>The reserve on a small board\<close>

text \<open>The champion is node 1; the reserve has begun, the draft is refused and the pinned improvement of
  the champion is elected and kept.\<close>

definition reserve_board :: card_board where
  "reserve_board = demo_board\<lparr>cb_state := demo_search\<lparr>st_best_node_id := Some 1\<rparr>, cb_cards := [(''card-2'', demo_card ''card-2'' ''draft'' [] True),
     (''card-1'', demo_card ''card-1'' ''improve'' [1] True)]\<rparr>"

definition reserve_plan :: plan_row where
  "reserve_plan = the (build_plan \<lparr>ct_max_nodes = 5, ct_n_seeds = 1, ct_frac = 3 / 5, ct_at_node = 0, ct_sweep = True, ct_injected = 0\<rparr> Initial None)"

lemma reserve_board_refused: "endgame_refused_card_ids reserve_board [] (Some reserve_plan) = [''card-2'']"
  by code_simp

lemma reserve_turn:
  "List.map_filter la_card (card_next_actions (demo_lane demo_policy) reserve_board 5 demo_treatment [''card-2'']) = [''card-1'']"
proof -
  let ?st = "demo_search\<lparr>st_best_node_id := Some 1\<rparr>"
  have state: "cb_state reserve_board = ?st" by (simp add: reserve_board_def)
  have same: "effective_policy_state ?st = ?st" by code_simp
  have "visible_pending (?st, []) = []" "evolutionary_quiet (new_evolutionary 2 8 2) ?st = [plain (Merge 1 0)]" by code_simp+
  then have answer: "policy_answer (demo_lane demo_policy) (?st, []) = [plain (Merge 1 0)]"
    by (simp add: policy_answer_def demo_lane_def demo_policy_def)
  have "forced_masked (demo_lane demo_policy) reserve_board 5 [] = None" by code_simp
  moreover have "List.map_filter la_card (turn_actions (demo_lane demo_policy) (max 0 (5 - card_budget_used ?st))
      (choose_cards (demo_lane demo_policy) reserve_board 5 demo_treatment ?st [plain (Merge 1 0)]
        (filter (\<lambda>c. wc_id c \<notin> set [''card-2'']) (eligible_cards reserve_board))) [plain (Merge 1 0)]) = [''card-1'']"
    by code_simp
  ultimately show ?thesis
    using answer
    by (simp add: card_next_actions_def forced_card_actions_def elect_def selection_after_gates_def state same Let_def)
qed

lemma swept_claims: "List.map_filter la_card (map (\<lambda>a. swept a s) as) = List.map_filter la_card as"
  by (induction as) (simp_all add: map_filter_simps swept_def split: option.split)

theorem reserve_keeps_what_is_elected_witness:
  "List.map_filter la_card (endgame_actions reserve_board [] (Some reserve_plan) True
     (map (\<lambda>a. swept a False) (card_next_actions (demo_lane demo_policy) reserve_board 5 demo_treatment [''card-2'']))) = [''card-1'']"
proof -
  let ?turn = "map (\<lambda>a. swept a False) (card_next_actions (demo_lane demo_policy) reserve_board 5 demo_treatment [''card-2''])"
  have wf: "wf_cards reserve_board" by (simp add: wf_cards_def reserve_board_def demo_card_def dict_keys_def)
  have own: "endgame_own_action reserve_board [] (Some reserve_plan) True = Some (own_create (Merge 1 0) 1 False)" by code_simp
  have free: "forced_card_actions (demo_lane demo_policy) reserve_board 5 = None" by code_simp
  have claims: "List.map_filter la_card ?turn = [''card-1'']" by (simp only: swept_claims reserve_turn)
  have "endgame_actions reserve_board [] (Some reserve_plan) True ?turn = ?turn"
    by (rule reserve_keeps_what_is_elected [OF wf own free]) (simp_all only: reserve_board_refused claims list.distinct not_False_eq_True)
  then show ?thesis using claims by simp
qed

theorem reserve_merges_an_unrelated_new_pair_witness:
  "fit_parent (cb_state reserve_board) 1 \<and> fit_parent (cb_state reserve_board) 0 \<and>
   (1, 0) \<notin> (parent_edges (cb_state reserve_board))\<^sup>+"
proof -
  let ?V = "\<lparr>vw_board = reserve_board, vw_added = [], vw_plan = reserve_plan\<rparr>"
  have "own_action ?V True = Some (own_create (Merge 1 0) 1 False)" by code_simp
  from reserve_merges_an_unrelated_new_pair [OF this, of 1 0] show ?thesis
    by (simp add: own_create_def plain_def vw_state_def)
qed

end
