(* ===== verification/Spec2Isabelle.thy ===== *)
theory Spec2Isabelle
  imports FoldMore Fences SelectionClaims LlmProps EventRetry PolicyProps GpuProps PatchProps ContextProps ConceptProps CardRank SpecFresh EndgameProps
begin

text \<open>
  LoopLab runs a search for a better program: an engine asks a policy what to do next, builds and
  evaluates nodes of a search tree, and writes what happened as events to a log. The log is the only
  truth: the state every process works on is a left fold over it. This development models that core,
  from the bytes of the log to the action of a turn, and the gates an action passes on its way: the
  admission of model calls, the devices of an evaluation, the edit surface of a patch.

  \<^bold>\<open>How the parts interact.\<close> \<open>events/eventstore.py\<close> appends rows to \<open>events.jsonl\<close> and reads them back;
  \<open>events/replay*.py\<close> folds the rows to a run state; \<open>search/policy.py\<close> proposes actions from that
  state, and \<open>search/card_selection.py\<close> elects the cards of the board that stand for them or runs ahead
  of the turn; \<open>engine/plan.py\<close> keeps the last part of the budget for its own merge and sweeps
  and decides which cards it refuses and what of a turn it lets through; \<open>core/llm_broker.py\<close> and
  \<open>core/llm_budget.py\<close> let the model calls through that carry the actions out,
  \<open>core/context_budget.py\<close> keeps the history of such a call within its size,
  \<open>tools/patch.py\<close> decides what a patch may touch, and \<open>engine/resources.py\<close> gives an evaluation its
  devices. \<open>core/concepts.py\<close> names what a node or a card is about.

  \<^bold>\<open>Theories and sources\<close> (paths under \<open>src/looplab\<close>):
  \<^item> Prelude, PyValue: Python's sorting and extrema, dictionaries as association lists, untyped
    payload values and their coercions.
  \<^item> Metrics, SearchFitness (\<open>core/fitness.py\<close>): usable metrics, one-standard-error rules, the
    rankings and their keys.
  \<^item> Models, NodeFields, CodeBlocks, Backfills (\<open>core/models.py\<close>, \<open>core/code_blocks.py\<close>): events, nodes,
    the run state, normalisers, code blocks and cuts, read-time backfills.
  \<^item> ReplayCtx, Selection, FinalizeScope, Lifecycle, NodeEvents, Measurements, Requests, RunControl,
    Fold (\<open>events/replay*.py\<close>, \<open>events/finalize_scope.py\<close>): one function per event handler, the handler
    tables, the fold, the trust gate and the choice of the champion, the incremental cursor.
  \<^item> JsonLines (\<open>core/jsonlio.py\<close>), EventRows, EventStore (\<open>events/eventstore.py\<close>): lines, row and batch
    envelopes, the incremental read cache, the appends under the lock, healing, repair and retry.
  \<^item> SearchTree, Pareto, Policies (\<open>search/policy.py\<close>): the four policies, simplification, the Pareto
    front, the legal set, the registry.
  \<^item> LlmBudget, LlmBroker (\<open>core/llm_budget.py\<close>, \<open>core/llm_broker.py\<close>): reservations against the run's
    caps, and the admission controller with its lanes as a step relation over threads.
  \<^item> Cards, CardScore, CardLane, CardSpeculation (\<open>search/card_selection.py\<close>, \<open>core/cards.py\<close>,
    \<open>core/models.py\<close>): a card and its action, readiness and fences, the resource envelope, the node
    budget; the scorer; the forced prefix, the election and the turn; prefetch and freshness.
  \<^item> RunPlan, Endgame (\<open>engine/plan.py\<close>): the rows of the plan and their re-cuts, the stall episode, the
    plateau; the reserve's merge and own action, the shared predicate, the refused cards, the gate.
  \<^item> GpuPool, GpuDetect, GpuRun, GpuSystem, EvalClock (\<open>engine/resources.py\<close>,
    \<open>engine/eval_dispatch.py\<close>, \<open>engine/orchestrator.py\<close>): the pool and the host lease in front of it,
    detection of the devices, one dispatch as a step relation, the ledger of evaluation seconds.
  \<^item> PyText, GlobMatch, PatchGate (\<open>tools/patch.py\<close>): the paths of a diff, shell patterns, the edit
    surface, the gate and the writer.
  \<^item> ContextBudget (\<open>core/context_budget.py\<close>): truncation, compaction and the bounded page.
  \<^item> Concepts (\<open>core/concepts.py\<close>): canonical ids, the consolidation map, bounded sets, receipts.

  \<^bold>\<open>What the lemmas show.\<close>
  \<^item> FoldViews, FoldInv, Ledgers, FoldOrder, FoldProps, FoldMore, Fences, SelectionProps,
    SelectionClaims: which part of the state each handler touches; the invariants of every folded log
    (node table, failure counter, build queue, seconds, cursors), proved by the interface \<open>event_fold\<close>
    of Fold interpreted for each; the champion is eligible; lifecycles only move forward; the cursor is
    the fold.
  \<^item> EventLogSpec, EventCache, EventAppend, EventWrites, EventWorld, EventStoreProps, EventRetry: a
    reader's result as a function of the complete lines; the cache refines it; an append extends it by
    its rows or not at all, wherever the write stops; over any interleaving of processes the log stays
    dense and readable and keeps what was acknowledged; the contract of the retry loop, \<open>cas_retry\<close>.
  \<^item> LlmBrokerInv, LlmFair, LlmSafety, LlmReach, LlmExamples, LlmProps: counters and queues agree with
    the threads, no admission over a limit, the head of a ready lane is awake, no deadlock, bounded
    bypass from the interface \<open>round_robin\<close>, reservations are conserved.
  \<^item> PolicyLaws, PolicyProps: the interface \<open>policy_contract\<close> every policy provides; a search ends at
    its cap; parents are fit; the subtree walk is reachability; dominance is a strict order.
  \<^item> CardProps, CardRank: the interface \<open>card_selector\<close> of the three ways a ranked pool is cut; a turn
    stays within the budget and is empty only at its end; what is claimed is ready; a pin leads; the
    answer does not depend on the order of the board; scores share one scale.
  \<^item> SpecProps, SpecFresh: a prefetch is admissible and never overbooks; reopening builds commutes, so
    all builds found fresh at one moment belong to one election.
  \<^item> PlanProps, EndgameProps: one stall episode per champion over any history of re-cuts, at most two
    rows while nothing changes, a plateau that is earned; the reserve's merge is a new pair without a
    common line; gate and predicate agree; what the election buys is not displaced.
  \<^item> GpuProps: over any interleaving of lanes no device is held twice and the lease is held while one is
    out; two launches see different devices; admission overshoots by one evaluation.
  \<^item> PatchProps, ContextProps, ConceptProps: an applied patch touches editable paths only; a compacted
    history keeps replies behind their calls, the task and the last turns; pages followed by their
    receipts give the text; resolved ids are canonical, and a bounded set is a prefix of the sorted one.

  \<^bold>\<open>Reading of the data.\<close> Floats are reals, with the special values apart in payloads; strings and
  bytes are characters below 256. Third-party code is a parameter: the JSON parser and printer with the
  pydantic validation of one envelope (\<open>codec\<close>; what an append relies on is asked of the rows it
  writes), the constructors of pydantic models and digests (\<open>externals\<close>), Python's parser (\<open>py_ast\<close>).
  A critical section under a lock is one step. How a write ends (lands, fails before a byte, fails
  after \<open>n\<close> bytes) and what \<open>stat\<close> says are inputs.

  \<^bold>\<open>Bounds and fuel.\<close> Loops are structural or have a termination proof: the subtree walk by the ids not
  yet seen, the code blocks by the lines left. The retry loop's number of attempts is the code's own
  (64), a parameter here; it is shown to suffice for fewer rivals than attempts, and the caller's
  exhaustion policy is the result otherwise. The walk through the consolidation map takes the code's own
  16 hops, and a bounded page settles in its four rounds; both numbers are in the definitions. The climb to the ancestors ends by the ids not yet met.

  \<^bold>\<open>Not modelled.\<close> Concept tagging of the log, the ledger that derives the cards, journals, comments and
  reports: the fold records them and no modelled decision of the fold reads them, so their event types
  are absent from the handler tables; an election takes the cards, the trusted concept memberships and
  the declared footprints as its input (\<open>card_board\<close>). A retargeted \<open>task_metric\<close> is read as the finite
  number it is meant to be. An extension policy, its scorer and its selector are parameters. The lease
  file, the queue of the host and the gate file answer as inputs of a dispatch, and the read fence and
  the notices of the scheduler are left out; git, the decoding of a C-quoted path, the summarizer and
  the fence of a history are parameters. Read errors of the file system, the lock file itself and the
  sync of the directory entry. The display text of reasons and receipts. The engine's threads and
  subprocesses, the server, the agents and the configuration, which are I/O around this core.
\<close>

end
